(* ===== verification/Prelude.thy ===== *)
theory Prelude
  imports Main "HOL-Library.Word" "HOL-Library.Monad_Syntax"
begin

text \<open>
  Shared ground of the development: names for the machine integers of the C code, the
  errno values it returns, little-endian fields of byte buffers with their get/put laws,
  bits of a byte buffer numbered the way the kernel numbers a little-endian bitmap, and
  the lemma collections the component theories extend.

  A C call that may not come back (a kernel panic, \<open>BUG\<close>, a spinlock its own caller
  holds, an access outside a buffer) is a function into \<open>option\<close>: \<open>None\<close> says that the
  call does not complete, \<open>Some\<close> carries the return value and the new state. Error
  returns of the C code are ordinary values, negative errno numbers as in the source.
\<close>

unbundle bit_operations_syntax

section \<open>Machine integers and errno values\<close>

type_synonym byte = "8 word"
type_synonym u16 = "16 word"
type_synonym u32 = "32 word"
type_synonym s32 = "32 word"
type_synonym u64 = "64 word"

abbreviation (input) EPERM :: int where "EPERM \<equiv> 1"
abbreviation (input) ENOENT :: int where "ENOENT \<equiv> 2"
abbreviation (input) EIO :: int where "EIO \<equiv> 5"
abbreviation (input) EAGAIN :: int where "EAGAIN \<equiv> 11"
abbreviation (input) ENOMEM :: int where "ENOMEM \<equiv> 12"
abbreviation (input) EFAULT :: int where "EFAULT \<equiv> 14"
abbreviation (input) EBUSY :: int where "EBUSY \<equiv> 16"
abbreviation (input) EEXIST :: int where "EEXIST \<equiv> 17"
abbreviation (input) ENODEV :: int where "ENODEV \<equiv> 19"
abbreviation (input) EINVAL :: int where "EINVAL \<equiv> 22"
abbreviation (input) ENOTTY :: int where "ENOTTY \<equiv> 25"
abbreviation (input) ENOSPC :: int where "ENOSPC \<equiv> 28"
abbreviation (input) ENAMETOOLONG :: int where "ENAMETOOLONG \<equiv> 36"
abbreviation (input) ENOTEMPTY :: int where "ENOTEMPTY \<equiv> 39"
abbreviation (input) ESTALE :: int where "ESTALE \<equiv> 116"
abbreviation (input) EUCLEAN :: int where "EUCLEAN \<equiv> 117"
abbreviation (input) ERESTARTSYS :: int where "ERESTARTSYS \<equiv> 512"

named_theorems frame_simps \<open>fields an operation leaves alone\<close>
named_theorems inv_intros \<open>operations that keep an invariant\<close>

section \<open>Words\<close>

lemma unat_less_64: "unat (w :: u64) < 18446744073709551616"
  using unsigned_less [of w, where 'a = nat] by simp

lemma unat_less_32: "unat (w :: u32) < 4294967296"
  using unsigned_less [of w, where 'a = nat] by simp

lemma unat_less_16: "unat (w :: u16) < 65536"
  using unsigned_less [of w, where 'a = nat] by simp

lemma unat_less_8: "unat (w :: byte) < 256"
  using unsigned_less [of w, where 'a = nat] by simp

lemma unat_ucast_32_64 [simp]: "unat (ucast (w :: u32) :: u64) = unat w"
  using unat_less_32 [of w] by (simp add: unsigned_ucast_eq take_bit_nat_eq_self_iff)

lemma unat_ucast_16_64 [simp]: "unat (ucast (w :: u16) :: u64) = unat w"
  using unat_less_16 [of w] by (simp add: unsigned_ucast_eq take_bit_nat_eq_self_iff)

lemma unat_ucast_16_32 [simp]: "unat (ucast (w :: u16) :: u32) = unat w"
  using unat_less_16 [of w] by (simp add: unsigned_ucast_eq take_bit_nat_eq_self_iff)

lemma unat_add_64: "unat a + unat b < 2 ^ 64 \<Longrightarrow> unat (a + b :: u64) = unat a + unat b"
  by (simp add: unat_word_ariths)

lemma unat_sub_64: "unat b \<le> unat a \<Longrightarrow> unat (a - b :: u64) = unat a - unat b"
  by (simp add: unat_sub word_le_nat_alt)

lemma unat_mult_64: "unat a * unat b < 2 ^ 64 \<Longrightarrow> unat (a * b :: u64) = unat a * unat b"
  by (simp add: unat_word_ariths)

lemma unat_of_nat_64: "n < 2 ^ 64 \<Longrightarrow> unat (of_nat n :: u64) = n"
  by (simp add: unat_of_nat)

section \<open>Options\<close>

lemma bind_SomeE:
  assumes "Option.bind m f = Some y"
  obtains x where "m = Some x" "f x = Some y"
  using assms by (cases m) auto

lemma bind_Some_iff: "Option.bind m f = Some y \<longleftrightarrow> (\<exists>x. m = Some x \<and> f x = Some y)"
  by (cases m) auto

section \<open>Little-endian fields of a byte buffer\<close>

definition le16_at :: "byte list \<Rightarrow> nat \<Rightarrow> u16" where
  "le16_at bs k = push_bit 8 (ucast (bs ! (k + 1))) OR ucast (bs ! k)"

definition le32_at :: "byte list \<Rightarrow> nat \<Rightarrow> u32" where
  "le32_at bs k = push_bit 16 (ucast (le16_at bs (k + 2))) OR ucast (le16_at bs k)"

definition put_le16 :: "u16 \<Rightarrow> nat \<Rightarrow> byte list \<Rightarrow> byte list" where
  "put_le16 v k bs = bs[k := ucast v, k + 1 := ucast (drop_bit 8 v)]"

definition put_le32 :: "u32 \<Rightarrow> nat \<Rightarrow> byte list \<Rightarrow> byte list" where
  "put_le32 v k bs = put_le16 (ucast (drop_bit 16 v)) (k + 2) (put_le16 (ucast v) k bs)"

lemma length_put_le16 [simp]: "length (put_le16 v k bs) = length bs"
  by (simp add: put_le16_def)

lemma length_put_le32 [simp]: "length (put_le32 v k bs) = length bs"
  by (simp add: put_le32_def)

lemma nth_put_le16_other:
  "i \<noteq> k \<Longrightarrow> i \<noteq> k + 1 \<Longrightarrow> put_le16 v k bs ! i = bs ! i"
  by (simp add: put_le16_def)

lemma nth_put_le32_other:
  "i < k \<or> k + 4 \<le> i \<Longrightarrow> put_le32 v k bs ! i = bs ! i"
  by (auto simp: put_le32_def nth_put_le16_other)

lemma le16_put_same [simp]:
  "k + 1 < length bs \<Longrightarrow> le16_at (put_le16 v k bs) k = v"
  by (rule bit_word_eqI) (auto simp: le16_at_def put_le16_def bit_simps)

lemma le16_put_other:
  "k + 1 < j \<or> j + 1 < k \<Longrightarrow> le16_at (put_le16 v k bs) j = le16_at bs j"
  by (auto simp: le16_at_def nth_put_le16_other)

lemma le16_split_join:
  "push_bit 16 (ucast (ucast (drop_bit 16 v) :: u16)) OR ucast (ucast v :: u16) = (v :: u32)"
  by (rule bit_word_eqI) (auto simp: bit_simps)

lemma le32_put_same [simp]:
  "k + 3 < length bs \<Longrightarrow> le32_at (put_le32 v k bs) k = v"
  by (simp add: le32_at_def put_le32_def le16_put_other le16_split_join)

lemma le32_put_other:
  "k + 3 < j \<or> j + 3 < k \<Longrightarrow> le32_at (put_le32 v k bs) j = le32_at bs j"
  by (auto simp: le32_at_def put_le32_def le16_put_other)

lemma le16_put_le32_other:
  "k + 3 < j \<or> j + 1 < k \<Longrightarrow> le16_at (put_le32 v k bs) j = le16_at bs j"
  by (auto simp: put_le32_def le16_put_other)

lemma le32_put_le16_other:
  "k + 1 < j \<or> j + 3 < k \<Longrightarrow> le32_at (put_le16 v k bs) j = le32_at bs j"
  by (auto simp: le32_at_def le16_put_other)

section \<open>Bits of a byte buffer\<close>

definition bm_bit :: "byte list \<Rightarrow> nat \<Rightarrow> bool" where
  "bm_bit bs n \<longleftrightarrow> bit (bs ! (n div 8)) (n mod 8)"

definition bm_size :: "byte list \<Rightarrow> nat" where
  "bm_size bs = 8 * length bs"

definition bm_set :: "nat \<Rightarrow> byte list \<Rightarrow> byte list" where
  "bm_set n bs = bs[n div 8 := set_bit (n mod 8) (bs ! (n div 8))]"

definition bm_clear :: "nat \<Rightarrow> byte list \<Rightarrow> byte list" where
  "bm_clear n bs = bs[n div 8 := unset_bit (n mod 8) (bs ! (n div 8))]"

lemma bm_div_less: "n < bm_size bs \<Longrightarrow> n div 8 < length bs"
  by (simp add: bm_size_def) 

lemma bm_size_set [simp]: "bm_size (bm_set n bs) = bm_size bs"
  by (simp add: bm_size_def bm_set_def)

lemma bm_size_clear [simp]: "bm_size (bm_clear n bs) = bm_size bs"
  by (simp add: bm_size_def bm_clear_def)

lemma length_bm_set [simp]: "length (bm_set n bs) = length bs"
  by (simp add: bm_set_def)

lemma length_bm_clear [simp]: "length (bm_clear n bs) = length bs"
  by (simp add: bm_clear_def)

lemma div_mod_8_iff: "(i :: nat) div 8 = n div 8 \<Longrightarrow> i = n \<longleftrightarrow> i mod 8 = n mod 8"
  by (metis div_mult_mod_eq)

lemma bm_bit_set:
  assumes "n < bm_size bs"
  shows "bm_bit (bm_set n bs) i \<longleftrightarrow> i = n \<or> bm_bit bs i"
proof (cases "i div 8 = n div 8")
  case True
  with bm_div_less [OF assms] show ?thesis
    by (auto simp: bm_bit_def bm_set_def bit_set_bit_iff div_mod_8_iff [OF True])
next
  case False
  then show ?thesis by (auto simp: bm_bit_def bm_set_def)
qed

lemma bm_bit_clear:
  assumes "n < bm_size bs"
  shows "bm_bit (bm_clear n bs) i \<longleftrightarrow> i \<noteq> n \<and> bm_bit bs i"
proof (cases "i div 8 = n div 8")
  case True
  with bm_div_less [OF assms] show ?thesis
    by (auto simp: bm_bit_def bm_clear_def bit_unset_bit_iff div_mod_8_iff [OF True])
next
  case False
  then show ?thesis by (auto simp: bm_bit_def bm_clear_def)
qed

lemma bm_eqI:
  assumes "length bs = length cs" and "\<And>i. i < bm_size bs \<Longrightarrow> bm_bit bs i = bm_bit cs i"
  shows "bs = cs"
proof (rule nth_equalityI)
  show "length bs = length cs" by (rule assms(1))
next
  fix k assume k: "k < length bs"
  show "bs ! k = cs ! k"
  proof (rule bit_word_eqI)
    fix m assume "m < LENGTH(8)"
    then show "bit (bs ! k) m = bit (cs ! k) m"
      using assms(2) [of "8 * k + m"] k by (simp add: bm_bit_def bm_size_def)
  qed
qed

lemma bm_set_same: "n < bm_size bs \<Longrightarrow> bm_bit bs n \<Longrightarrow> bm_set n bs = bs"
  by (rule bm_eqI) (auto simp: bm_bit_set)

lemma bm_clear_same: "n < bm_size bs \<Longrightarrow> \<not> bm_bit bs n \<Longrightarrow> bm_clear n bs = bs"
  by (rule bm_eqI) (auto simp: bm_bit_clear)

end
