(* ===== verification/Kern.thy ===== *)
theory Kern
  imports Prelude
begin

text \<open>
  The kernel services the file system calls, whose code is not part of the repository:
  the little-endian bitmap operations, the per-cpu counters and the buffer cache's
  allocation. They are the fields of a record that every operation takes as an argument;
  the laws a theorem relies on are the predicates \<open>bitops_ok\<close> and \<open>percpu_exact\<close>, which
  state the documented behaviour. \<open>kern_ref\<close> is an executable instance for the witnesses.

  A bitmap operation gets the bytes of the buffer it works on; \<open>None\<close> stands for an
  access outside of them.
\<close>

record kern =
  k_getblk :: "u64 \<Rightarrow> bool"
  test_bit_le :: "int \<Rightarrow> byte list \<Rightarrow> bool option"
  find_next_zero_bit_le :: "byte list \<Rightarrow> u64 \<Rightarrow> u64 \<Rightarrow> u64"
  ext2_set_bit_atomic :: "u64 \<Rightarrow> byte list \<Rightarrow> (bool \<times> byte list) option"
  ext2_clear_bit_atomic :: "u64 \<Rightarrow> byte list \<Rightarrow> (bool \<times> byte list) option"
  percpu_counter_read_positive :: "int \<Rightarrow> int"

definition test_bit_ok :: "(int \<Rightarrow> byte list \<Rightarrow> bool option) \<Rightarrow> bool" where
  "test_bit_ok f \<longleftrightarrow> (\<forall>n bs. f n bs =
     (if 0 \<le> n \<and> nat n < bm_size bs then Some (bm_bit bs (nat n)) else None))"

definition find_zero_ok :: "(byte list \<Rightarrow> u64 \<Rightarrow> u64 \<Rightarrow> u64) \<Rightarrow> bool" where
  "find_zero_ok f \<longleftrightarrow> (\<forall>bs sz off. unat sz \<le> bm_size bs \<longrightarrow>
     (let r = unat (f bs sz off) in
        r \<le> unat sz \<and> (r < unat sz \<longrightarrow> unat off \<le> r \<and> \<not> bm_bit bs r) \<and>
        (\<forall>i. unat off \<le> i \<and> i < r \<longrightarrow> bm_bit bs i)))"

definition bit_update_ok ::
  "(u64 \<Rightarrow> byte list \<Rightarrow> (bool \<times> byte list) option) \<Rightarrow> (nat \<Rightarrow> byte list \<Rightarrow> byte list) \<Rightarrow> bool" where
  "bit_update_ok f upd \<longleftrightarrow> (\<forall>n bs. f n bs =
     (if unat n < bm_size bs then Some (bm_bit bs (unat n), upd (unat n) bs) else None))"

definition bitops_ok :: "kern \<Rightarrow> bool" where
  "bitops_ok K \<longleftrightarrow> test_bit_ok (test_bit_le K) \<and> find_zero_ok (find_next_zero_bit_le K) \<and>
     bit_update_ok (ext2_set_bit_atomic K) bm_set \<and>
     bit_update_ok (ext2_clear_bit_atomic K) bm_clear"

definition percpu_exact :: "kern \<Rightarrow> bool" where
  "percpu_exact K \<longleftrightarrow> (\<forall>c. percpu_counter_read_positive K c = max c 0)"

lemma test_bitD:
  "bitops_ok K \<Longrightarrow> 0 \<le> n \<Longrightarrow> nat n < bm_size bs \<Longrightarrow>
     test_bit_le K n bs = Some (bm_bit bs (nat n))"
  by (simp add: bitops_ok_def test_bit_ok_def)

lemma set_bitD:
  "bitops_ok K \<Longrightarrow> unat n < bm_size bs \<Longrightarrow>
     ext2_set_bit_atomic K n bs = Some (bm_bit bs (unat n), bm_set (unat n) bs)"
  by (simp add: bitops_ok_def bit_update_ok_def)

lemma clear_bitD:
  "bitops_ok K \<Longrightarrow> unat n < bm_size bs \<Longrightarrow>
     ext2_clear_bit_atomic K n bs = Some (bm_bit bs (unat n), bm_clear (unat n) bs)"
  by (simp add: bitops_ok_def bit_update_ok_def)

lemma clear_bit_outside:
  "bitops_ok K \<Longrightarrow> bm_size bs \<le> unat n \<Longrightarrow> ext2_clear_bit_atomic K n bs = None"
  by (simp add: bitops_ok_def bit_update_ok_def)

lemma find_zeroD:
  assumes "bitops_ok K" "unat sz \<le> bm_size bs"
  shows "unat (find_next_zero_bit_le K bs sz off) \<le> unat sz"
    and "unat (find_next_zero_bit_le K bs sz off) < unat sz \<Longrightarrow>
           unat off \<le> unat (find_next_zero_bit_le K bs sz off) \<and>
           \<not> bm_bit bs (unat (find_next_zero_bit_le K bs sz off))"
    and "unat off \<le> i \<Longrightarrow> i < unat (find_next_zero_bit_le K bs sz off) \<Longrightarrow> bm_bit bs i"
  using assms by (auto simp: bitops_ok_def find_zero_ok_def Let_def)

lemma find_zero_past_end:
  assumes "bitops_ok K" "unat sz \<le> bm_size bs" "unat sz \<le> unat off"
  shows "unat (find_next_zero_bit_le K bs sz off) = unat sz"
  using find_zeroD(1,2) [OF assms(1,2), of off] assms(3) by linarith

section \<open>An executable instance\<close>

definition ref_find_zero :: "byte list \<Rightarrow> u64 \<Rightarrow> u64 \<Rightarrow> u64" where
  "ref_find_zero bs sz off =
     (case find (\<lambda>i. \<not> bm_bit bs i) [unat off..<unat sz] of
        None \<Rightarrow> sz | Some i \<Rightarrow> of_nat i)"

definition ref_update :: "(nat \<Rightarrow> byte list \<Rightarrow> byte list) \<Rightarrow> u64 \<Rightarrow> byte list \<Rightarrow> (bool \<times> byte list) option" where
  "ref_update upd n bs =
     (if unat n < bm_size bs then Some (bm_bit bs (unat n), upd (unat n) bs) else None)"

definition kern_ref :: kern where
  "kern_ref = \<lparr> k_getblk = (\<lambda>_. True),
     test_bit_le = (\<lambda>n bs. if 0 \<le> n \<and> nat n < bm_size bs then Some (bm_bit bs (nat n)) else None),
     find_next_zero_bit_le = ref_find_zero,
     ext2_set_bit_atomic = ref_update bm_set,
     ext2_clear_bit_atomic = ref_update bm_clear,
     percpu_counter_read_positive = (\<lambda>c. max c 0) \<rparr>"

lemma find_upt_SomeD:
  assumes "find P [a..<b] = Some i"
  shows "a \<le> i \<and> i < b \<and> P i \<and> (\<forall>j. a \<le> j \<and> j < i \<longrightarrow> \<not> P j)"
proof -
  from assms obtain k where k: "k < length [a..<b]" "P ([a..<b] ! k)" "i = [a..<b] ! k"
    "\<forall>j<k. \<not> P ([a..<b] ! j)"
    by (auto simp: find_Some_iff)
  have "\<not> P j" if "a \<le> j" "j < i" for j
    using k that spec [OF k(4), of "j - a"] by simp
  with k show ?thesis by auto
qed

lemma ref_find_zero_ok: "find_zero_ok ref_find_zero"
proof -
  have "let r = unat (ref_find_zero bs sz off) in
        r \<le> unat sz \<and> (r < unat sz \<longrightarrow> unat off \<le> r \<and> \<not> bm_bit bs r) \<and>
        (\<forall>i. unat off \<le> i \<and> i < r \<longrightarrow> bm_bit bs i)" for bs sz off
  proof (cases "find (\<lambda>i. \<not> bm_bit bs i) [unat off..<unat sz]")
    case None
    then have "ref_find_zero bs sz off = sz" by (simp add: ref_find_zero_def)
    with None show ?thesis by (auto simp: find_None_iff)
  next
    case (Some i)
    note i = find_upt_SomeD [OF Some]
    have "i < 2 ^ 64" using i unat_less_64 [of sz] by simp
    then have "unat (of_nat i :: u64) = i" by (simp add: unat_of_nat)
    with Some have "unat (ref_find_zero bs sz off) = i" by (simp add: ref_find_zero_def)
    with i show ?thesis by auto
  qed
  then show ?thesis by (simp add: find_zero_ok_def)
qed

lemma kern_ref_ok [simp]: "bitops_ok kern_ref"
  by (simp add: bitops_ok_def kern_ref_def test_bit_ok_def bit_update_ok_def ref_update_def
      ref_find_zero_ok)

lemma kern_ref_exact [simp]: "percpu_exact kern_ref"
  by (simp add: percpu_exact_def kern_ref_def)

end
