(* ===== verification/Ext2_Types.thy ===== *)
theory Ext2_Types
  imports Kern
begin

text \<open>
  The data of ext2-lite (\<^verbatim>\<open>ext2.h\<close>): the superblock and the group descriptors on disk, the
  in-memory superblock, and the state of one mounted file system. A little-endian field
  of a disk structure is its value at the field's width. Fields of
  \<^verbatim>\<open>struct ext2_super_block\<close> carry the prefix \<open>es\<close>, those of \<^verbatim>\<open>struct ext2_inode\<close> the prefix
  \<open>raw\<close> and those of \<^verbatim>\<open>struct ext2_inode_info\<close> the prefix \<open>ei\<close>, since C lets structs share
  field names.
\<close>

section \<open>Superblock and group descriptors\<close>

record ext2_group_desc =
  bg_block_bitmap :: u32
  bg_inode_bitmap :: u32
  bg_inode_table :: u32
  bg_free_blocks_count :: u16
  bg_free_inodes_count :: u16
  bg_used_dirs_count :: u16
  bg_pad :: u16
  bg_reserved :: "u32 list"

record ext2_super_block =
  es_inodes_count :: u32
  es_blocks_count :: u32
  es_r_blocks_count :: u32
  es_free_blocks_count :: u32
  es_free_inodes_count :: u32
  es_first_data_block :: u32
  es_log_block_size :: u32
  es_blocks_per_group :: u32
  es_inodes_per_group :: u32
  es_mtime :: u32
  es_wtime :: u32
  es_mnt_count :: u16
  es_magic :: u16
  es_state :: u16
  es_errors :: u16
  es_minor_rev_level :: u16
  es_lastcheck :: u32
  es_checkinterval :: u32
  es_creator_os :: u32
  es_rev_level :: u32
  es_def_resuid :: u16
  es_def_resgid :: u16
  es_first_ino :: u32
  es_inode_size :: u16
  es_block_group_nr :: u16
  es_feature_compat :: u32
  es_feature_incompat :: u32
  es_feature_ro_compat :: u32
  es_uuid :: "byte list"
  es_volume_name :: string
  es_last_mounted :: string
  es_default_mount_opts :: u32
  es_first_meta_bg :: u32

text \<open>
  The in-memory superblock. \<open>s_group_desc\<close> is the array of buffers that hold the group
  descriptors: \<open>None\<close> is a null pointer, \<open>Some\<close> the descriptors of one block. \<open>s_lock\<close> is
  the spinlock, true while it is held. A per-cpu counter is its exact value.
\<close>

record ext2_sb_info =
  s_inodes_per_block :: u64
  s_blocks_per_group :: u64
  s_inodes_per_group :: u64
  s_itb_per_group :: u64
  s_gdb_count :: u64
  s_desc_per_block :: u64
  s_groups_count :: u64
  s_overhead_last :: u64
  s_blocks_last :: u64
  s_group_desc :: "ext2_group_desc list option list"
  s_mount_opt :: u64
  s_sb_block :: u64
  s_mount_state :: u16
  s_addr_per_block_bits :: nat
  s_desc_per_block_bits :: nat
  s_inode_size :: s32
  s_first_ino :: s32
  s_freeblocks_counter :: int
  s_freeinodes_counter :: int
  s_dirs_counter :: int
  s_lock :: bool

text \<open>
  One mounted file system: the fields of \<^verbatim>\<open>struct super_block\<close> the code uses, the two
  structures above, and the buffer cache of the block device. \<open>bcache\<close> maps a block number
  to the bytes of its buffer (\<open>None\<close>: the device cannot read it), \<open>bh_uptodate\<close> says that
  the buffer has been read already, and \<open>clock\<close> is what \<^verbatim>\<open>ktime_get_real_seconds()\<close>
  returns. Reference counts of buffers, the dirty flags and the per-group bit locks, which
  no code path nests, have no part in the state.
\<close>

record ext2_fs =
  sb_flags :: u64
  sb_blocksize :: u64
  sb_blocksize_bits :: nat
  sb_es :: ext2_super_block
  sb_info :: ext2_sb_info
  bcache :: "u64 \<Rightarrow> byte list option"
  bh_uptodate :: "u64 \<Rightarrow> bool"
  clock :: u64

section \<open>Inodes, pages and directory entries\<close>

record ext2_inode =
  raw_mode :: u16
  raw_uid :: u16
  raw_size :: u32
  raw_atime :: u32
  raw_ctime :: u32
  raw_mtime :: u32
  raw_dtime :: u32
  raw_gid :: u16
  raw_links_count :: u16
  raw_blocks :: u32
  raw_flags :: u32
  raw_block :: "u32 list"

text \<open>A page of a page cache: its bytes and the two page flags \<^verbatim>\<open>dir.c\<close> uses.\<close>

record page =
  pg_data :: "byte list"
  pg_checked :: bool
  pg_error :: bool

datatype inode_ops = No_inode_ops | Ext2_file_inode_ops | Ext2_dir_inode_ops
  | Ext2_special_inode_ops | Simple_symlink_ops | Page_symlink_ops

datatype file_ops = No_file_ops | Ext2_file_ops | Ext2_dir_ops

datatype aspace_ops = No_aops | Ext2_aops

text \<open>
  The VFS inode together with the ext2 part it is embedded in. \<open>i_pages\<close> is the inode's
  page cache by page number, \<open>None\<close> where reading the page fails, and \<open>i_read_err\<close> the error
  that \<^verbatim>\<open>read_mapping_page\<close> gives for such a page.
\<close>

record inode =
  i_ino :: u64
  i_mode :: u16
  i_uid :: u32
  i_gid :: u32
  i_nlink :: u32
  i_size :: int
  i_blocks :: u64
  i_atime :: int
  i_ctime :: int
  i_mtime :: int
  i_flags :: u32
  i_rdev :: u32
  i_op :: inode_ops
  i_fop :: file_ops
  a_ops :: aspace_ops
  i_pages :: "nat \<Rightarrow> page option"
  i_read_err :: "nat \<Rightarrow> int"
  i_version :: nat
  ei_data :: "u32 list"
  ei_flags :: u32
  ei_state :: u16
  ei_dtime :: u32
  ei_block_group :: u32

text \<open>Constants of \<^verbatim>\<open>ext2.h\<close> and of the VFS flags the code tests.\<close>

abbreviation (input) EXT2_SUPER_MAGIC :: u16 where "EXT2_SUPER_MAGIC \<equiv> 0xEF53"
abbreviation (input) EXT2_LINK_MAX :: u32 where "EXT2_LINK_MAX \<equiv> 32000"
abbreviation (input) EXT2_ROOT_INO :: u64 where "EXT2_ROOT_INO \<equiv> 2"
abbreviation (input) EXT2_GOOD_OLD_FIRST_INO :: s32 where "EXT2_GOOD_OLD_FIRST_INO \<equiv> 11"
abbreviation (input) EXT2_GOOD_OLD_INODE_SIZE :: s32 where "EXT2_GOOD_OLD_INODE_SIZE \<equiv> 128"
abbreviation (input) EXT2_NDIR_BLOCKS :: nat where "EXT2_NDIR_BLOCKS \<equiv> 12"
abbreviation (input) EXT2_N_BLOCKS :: nat where "EXT2_N_BLOCKS \<equiv> 15"
abbreviation (input) EXT2_NAME_LEN :: nat where "EXT2_NAME_LEN \<equiv> 255"
abbreviation (input) EXT2_VALID_FS :: u16 where "EXT2_VALID_FS \<equiv> 1"
abbreviation (input) EXT2_ERROR_FS :: u16 where "EXT2_ERROR_FS \<equiv> 2"
abbreviation (input) EXT2_MOUNT_DEBUG :: u64 where "EXT2_MOUNT_DEBUG \<equiv> 0x08"
abbreviation (input) EXT2_MOUNT_ERRORS_CONT :: u64 where "EXT2_MOUNT_ERRORS_CONT \<equiv> 0x10"
abbreviation (input) EXT2_MOUNT_ERRORS_RO :: u64 where "EXT2_MOUNT_ERRORS_RO \<equiv> 0x20"
abbreviation (input) EXT2_MOUNT_ERRORS_PANIC :: u64 where "EXT2_MOUNT_ERRORS_PANIC \<equiv> 0x40"
abbreviation (input) EXT2_ERRORS_CONTINUE :: u16 where "EXT2_ERRORS_CONTINUE \<equiv> 1"
abbreviation (input) EXT2_ERRORS_RO :: u16 where "EXT2_ERRORS_RO \<equiv> 2"
abbreviation (input) EXT2_ERRORS_PANIC :: u16 where "EXT2_ERRORS_PANIC \<equiv> 3"
abbreviation (input) EXT2_GOOD_OLD_REV :: u32 where "EXT2_GOOD_OLD_REV \<equiv> 0"
abbreviation (input) EXT2_MAX_SUPP_REV :: u32 where "EXT2_MAX_SUPP_REV \<equiv> 1"
abbreviation (input) EXT2_STATE_NEW :: u16 where "EXT2_STATE_NEW \<equiv> 1"
abbreviation (input) SB_RDONLY :: u64 where "SB_RDONLY \<equiv> 1"
abbreviation (input) SB_SYNCHRONOUS :: u64 where "SB_SYNCHRONOUS \<equiv> 16"
abbreviation (input) PAGE_SIZE :: nat where "PAGE_SIZE \<equiv> 4096"

definition sb_rdonly :: "ext2_fs \<Rightarrow> bool" where
  "sb_rdonly s \<longleftrightarrow> sb_flags s AND SB_RDONLY \<noteq> 0"

definition test_opt :: "ext2_fs \<Rightarrow> u64 \<Rightarrow> bool" where
  "test_opt s opt \<longleftrightarrow> s_mount_opt (sb_info s) AND opt \<noteq> 0"

definition clear_opt :: "u64 \<Rightarrow> u64 \<Rightarrow> u64" where
  "clear_opt opts opt = opts AND NOT opt"

definition set_opt :: "u64 \<Rightarrow> u64 \<Rightarrow> u64" where
  "set_opt opts opt = opts OR opt"

definition ext2_group_first_block_no :: "ext2_fs \<Rightarrow> u64 \<Rightarrow> u64" where
  "ext2_group_first_block_no s group_no =
     group_no * s_blocks_per_group (sb_info s) + ucast (es_first_data_block (sb_es s))"

definition ext2_group_last_block_no :: "ext2_fs \<Rightarrow> u64 \<Rightarrow> u64" where
  "ext2_group_last_block_no s group_no =
     (if group_no = s_groups_count (sb_info s) - 1
      then ucast (es_blocks_count (sb_es s) - 1)
      else ext2_group_first_block_no s group_no + s_blocks_per_group (sb_info s) - 1)"

end
