(* ===== verification/Ext2_Error.thy ===== *)
theory Ext2_Error
  imports Ext2_Types
begin

text \<open>
  Group descriptor lookup (\<^verbatim>\<open>balloc.c\<close>), the counting loops over all groups (\<^verbatim>\<open>balloc.c\<close>,
  \<^verbatim>\<open>ialloc.c\<close>), and error reporting with the superblock write it triggers (\<^verbatim>\<open>super.c\<close>).
  In C these call each other: \<^verbatim>\<open>ext2_error\<close> writes the superblock, which counts free blocks
  and inodes with \<^verbatim>\<open>s_lock\<close> held, which looks up descriptors, which reports an error when
  one is missing. The definitions take the error handler as an argument and the knot is
  tied by fuel; two units are enough, since a second \<^verbatim>\<open>ext2_error\<close> on a writable file system
  meets the spinlock its own caller holds and never returns.
\<close>

section \<open>Group descriptors\<close>

type_synonym desc_ptr = "nat \<times> nat"

definition gd_at :: "ext2_fs \<Rightarrow> desc_ptr \<Rightarrow> ext2_group_desc option" where
  "gd_at s p = (case p of (b, k) \<Rightarrow>
     if b < length (s_group_desc (sb_info s))
     then (case s_group_desc (sb_info s) ! b of
             None \<Rightarrow> None
           | Some ds \<Rightarrow> if k < length ds then Some (ds ! k) else None)
     else None)"

definition gd_update ::
  "(ext2_group_desc \<Rightarrow> ext2_group_desc) \<Rightarrow> desc_ptr \<Rightarrow> ext2_fs \<Rightarrow> ext2_fs" where
  "gd_update f p s = (case p of (b, k) \<Rightarrow>
     s\<lparr>sb_info := (sb_info s)\<lparr>s_group_desc :=
        (s_group_desc (sb_info s))[b :=
           map_option (\<lambda>ds. ds[k := f (ds ! k)]) (s_group_desc (sb_info s) ! b)]\<rparr>\<rparr>)"

definition ext2_get_group_desc ::
  "(ext2_fs \<Rightarrow> ext2_fs option) \<Rightarrow> ext2_fs \<Rightarrow> u32 \<Rightarrow> (desc_ptr option \<times> ext2_fs) option" where
  "ext2_get_group_desc err s block_group =
     (let sbi = sb_info s;
          group_desc = unat (drop_bit (s_desc_per_block_bits sbi) block_group);
          offset = unat (ucast block_group AND (s_desc_per_block sbi - 1))
      in if s_groups_count sbi \<le> ucast block_group
         then do { s' \<leftarrow> err s; Some (None, s') }
         else if length (s_group_desc sbi) \<le> group_desc then None
         else (case s_group_desc sbi ! group_desc of
             None \<Rightarrow> do { s' \<leftarrow> err s; Some (None, s') }
           | Some _ \<Rightarrow> Some (Some (group_desc, offset), s)))"

section \<open>Counting over all groups\<close>

fun count_groups ::
  "(ext2_group_desc \<Rightarrow> u16) \<Rightarrow> (ext2_fs \<Rightarrow> ext2_fs option) \<Rightarrow> nat list \<Rightarrow> u64 \<Rightarrow> ext2_fs
     \<Rightarrow> (u64 \<times> ext2_fs) option" where
  "count_groups fld err [] count s = Some (count, s)"
| "count_groups fld err (i # is) count s = do {
     (desc, s) \<leftarrow> ext2_get_group_desc err s (of_nat i);
     (case desc of
        None \<Rightarrow> count_groups fld err is count s
      | Some p \<Rightarrow> do {
          d \<leftarrow> gd_at s p;
          count_groups fld err is (count + ucast (fld d)) s })
   }"

definition ext2_count_free_blocks ::
  "(ext2_fs \<Rightarrow> ext2_fs option) \<Rightarrow> ext2_fs \<Rightarrow> (u64 \<times> ext2_fs) option" where
  "ext2_count_free_blocks err s =
     count_groups bg_free_blocks_count err [0..<unat (s_groups_count (sb_info s))] 0 s"

definition ext2_count_free_inodes ::
  "(ext2_fs \<Rightarrow> ext2_fs option) \<Rightarrow> ext2_fs \<Rightarrow> (u64 \<times> ext2_fs) option" where
  "ext2_count_free_inodes err s =
     count_groups bg_free_inodes_count err [0..<unat (s_groups_count (sb_info s))] 0 s"

definition ext2_count_dirs ::
  "(ext2_fs \<Rightarrow> ext2_fs option) \<Rightarrow> ext2_fs \<Rightarrow> (u64 \<times> ext2_fs) option" where
  "ext2_count_dirs err s =
     count_groups bg_used_dirs_count err [0..<unat (s_groups_count (sb_info s))] 0 s"

definition ext2_bg_has_super :: "nat \<Rightarrow> nat" where
  "ext2_bg_has_super grp = 1"

definition ext2_bg_num_gdb :: "ext2_fs \<Rightarrow> nat \<Rightarrow> u64" where
  "ext2_bg_num_gdb s grp =
     (if ext2_bg_has_super grp \<noteq> 0 then s_gdb_count (sb_info s) else 0)"

section \<open>Writing the superblock and reporting errors\<close>

text \<open>Taking a spinlock that is held spins for ever.\<close>

definition lock_sb :: "ext2_fs \<Rightarrow> ext2_fs option" where
  "lock_sb s = (if s_lock (sb_info s) then None
     else Some (s\<lparr>sb_info := (sb_info s)\<lparr>s_lock := True\<rparr>\<rparr>))"

definition unlock_sb :: "ext2_fs \<Rightarrow> ext2_fs" where
  "unlock_sb s = s\<lparr>sb_info := (sb_info s)\<lparr>s_lock := False\<rparr>\<rparr>"

definition ext2_sync_super :: "(ext2_fs \<Rightarrow> ext2_fs option) \<Rightarrow> ext2_fs \<Rightarrow> ext2_fs option" where
  "ext2_sync_super err s = do {
     s \<leftarrow> lock_sb s;
     (nb, s) \<leftarrow> ext2_count_free_blocks err s;
     let s = s\<lparr>sb_es := (sb_es s)\<lparr>es_free_blocks_count := ucast nb\<rparr>\<rparr>;
     (ni, s) \<leftarrow> ext2_count_free_inodes err s;
     let s = s\<lparr>sb_es := (sb_es s)\<lparr>es_free_inodes_count := ucast ni\<rparr>\<rparr>;
     let s = s\<lparr>sb_es := (sb_es s)\<lparr>es_wtime := ucast (clock s)\<rparr>\<rparr>;
     Some (unlock_sb s)
   }"

definition error_mark :: "ext2_fs \<Rightarrow> ext2_fs" where
  "error_mark s = s\<lparr>
     sb_info := (sb_info s)\<lparr>s_mount_state := s_mount_state (sb_info s) OR EXT2_ERROR_FS\<rparr>,
     sb_es := (sb_es s)\<lparr>es_state := es_state (sb_es s) OR EXT2_ERROR_FS\<rparr>\<rparr>"

fun ext2_error_fuel :: "nat \<Rightarrow> ext2_fs \<Rightarrow> ext2_fs option" where
  "ext2_error_fuel 0 s = None"
| "ext2_error_fuel (Suc n) s = do {
     s \<leftarrow> (if \<not> sb_rdonly s then do {
              s \<leftarrow> lock_sb s;
              ext2_sync_super (ext2_error_fuel n) (unlock_sb (error_mark s)) }
           else Some s);
     if test_opt s EXT2_MOUNT_ERRORS_PANIC then None
     else Some (if \<not> sb_rdonly s \<and> test_opt s EXT2_MOUNT_ERRORS_RO
                then s\<lparr>sb_flags := sb_flags s OR SB_RDONLY\<rparr> else s)
   }"

definition ext2_error :: "ext2_fs \<Rightarrow> ext2_fs option" where
  "ext2_error = ext2_error_fuel 2"

section \<open>Loaded descriptors\<close>

text \<open>
  What mounting establishes (\<^verbatim>\<open>ext2_fill_super\<close>): the number of descriptors per block is a
  power of two with the recorded exponent, every descriptor block is loaded, and the
  blocks hold a descriptor for each group. \<open>desc_of s g\<close> is the descriptor of group \<open>g\<close>.
\<close>

definition desc_ptr_of :: "ext2_fs \<Rightarrow> nat \<Rightarrow> desc_ptr" where
  "desc_ptr_of s g = (g div 2 ^ s_desc_per_block_bits (sb_info s),
                      g mod 2 ^ s_desc_per_block_bits (sb_info s))"

definition desc_of :: "ext2_fs \<Rightarrow> nat \<Rightarrow> ext2_group_desc" where
  "desc_of s g = the (gd_at s (desc_ptr_of s g))"

definition n_groups :: "ext2_fs \<Rightarrow> nat" where
  "n_groups s = unat (s_groups_count (sb_info s))"

definition descs_loaded :: "ext2_fs \<Rightarrow> bool" where
  "descs_loaded s \<longleftrightarrow>
     (let sbi = sb_info s; b = s_desc_per_block_bits sbi in
      b < 32 \<and> unat (s_desc_per_block sbi) = 2 ^ b \<and>
      0 < n_groups s \<and> n_groups s < 2 ^ 31 \<and>
      n_groups s \<le> 2 ^ b * length (s_group_desc sbi) \<and>
      (\<forall>buf \<in> set (s_group_desc sbi). \<exists>ds. buf = Some ds \<and> length ds = 2 ^ b))"

lemma desc_mask:
  assumes "unat d = 2 ^ b" "b < 32"
  shows "unat (ucast (g :: u32) AND (d - 1 :: u64)) = unat g mod 2 ^ b"
proof -
  have "d = of_nat (unat d)" by simp
  then have "d = 2 ^ b" by (simp only: assms(1)) simp
  then have "ucast g AND (d - 1) = take_bit b (ucast g :: u64)"
    by (simp add: take_bit_eq_mask mask_eq_exp_minus_1)
  then have "unat (ucast g AND (d - 1)) = take_bit b (unat g)"
    by (simp add: unsigned_take_bit_eq)
  then show ?thesis by (simp only: take_bit_eq_mod)
qed

lemma descs_loadedD:
  assumes "descs_loaded s"
  shows "s_desc_per_block_bits (sb_info s) < 32"
    and "unat (s_desc_per_block (sb_info s)) = 2 ^ s_desc_per_block_bits (sb_info s)"
    and "0 < n_groups s" and "n_groups s < 2 ^ 31"
    and "n_groups s \<le> 2 ^ s_desc_per_block_bits (sb_info s) * length (s_group_desc (sb_info s))"
    and "buf \<in> set (s_group_desc (sb_info s)) \<Longrightarrow>
           \<exists>ds. buf = Some ds \<and> length ds = 2 ^ s_desc_per_block_bits (sb_info s)"
  using assms by (auto simp: descs_loaded_def Let_def)

lemma desc_block_bound:
  assumes "descs_loaded s" "g < n_groups s"
  shows "g div 2 ^ s_desc_per_block_bits (sb_info s) < length (s_group_desc (sb_info s))"
  using descs_loadedD(5) [OF assms(1)] assms(2)
  by (intro less_mult_imp_div_less) (simp add: mult.commute)

lemma gd_at_loaded:
  assumes "descs_loaded s" "g < n_groups s"
  shows "gd_at s (desc_ptr_of s g) = Some (desc_of s g)"
proof -
  let ?k = "g div 2 ^ s_desc_per_block_bits (sb_info s)"
  note k = desc_block_bound [OF assms]
  obtain ds where "s_group_desc (sb_info s) ! ?k = Some ds"
      "length ds = 2 ^ s_desc_per_block_bits (sb_info s)"
    using descs_loadedD(6) [OF assms(1) nth_mem [OF k]] by blast
  with k show ?thesis by (simp add: desc_of_def gd_at_def desc_ptr_of_def)
qed

text \<open>
  With the descriptors loaded, a lookup returns the descriptor's place, reads nothing
  outside the arrays and leaves the state alone, whatever the error handler does.
\<close>

lemma get_group_desc_loaded:
  assumes "descs_loaded s" "unat g < n_groups s"
  shows "ext2_get_group_desc err s g = Some (Some (desc_ptr_of s (unat g)), s)"
proof -
  let ?b = "s_desc_per_block_bits (sb_info s)"
  note k = desc_block_bound [OF assms]
  obtain ds where ds: "s_group_desc (sb_info s) ! (unat g div 2 ^ ?b) = Some ds"
    using descs_loadedD(6) [OF assms(1) nth_mem [OF k]] by blast
  have "\<not> s_groups_count (sb_info s) \<le> ucast g"
    using assms(2) by (simp add: word_le_nat_alt n_groups_def not_le)
  moreover have "unat (drop_bit ?b g) = unat g div 2 ^ ?b"
    unfolding unat_drop_bit_eq by (rule drop_bit_eq_div)
  moreover have "unat (ucast g AND (s_desc_per_block (sb_info s) - 1)) = unat g mod 2 ^ ?b"
    using desc_mask descs_loadedD(1,2) [OF assms(1)] by blast
  ultimately show ?thesis
    using k ds by (simp add: ext2_get_group_desc_def desc_ptr_of_def Let_def)
qed

lemma get_group_desc_bad:
  assumes "n_groups s \<le> unat g"
  shows "ext2_get_group_desc err s g = map_option (\<lambda>s'. (None, s')) (err s)"
  using assms
  by (cases "err s") (simp_all add: ext2_get_group_desc_def Let_def word_le_nat_alt n_groups_def)

text \<open>The counting loops add up the field over all groups.\<close>

lemma count_groups_loaded:
  assumes "descs_loaded s" "\<forall>i \<in> set is. i < n_groups s"
  shows "count_groups fld err is c s =
     Some (c + (\<Sum>i \<leftarrow> is. ucast (fld (desc_of s i))), s)"
  using assms(2)
proof (induction "is" arbitrary: c)
  case Nil
  then show ?case by simp
next
  case (Cons i "is")
  from Cons.prems have i: "i < n_groups s" by simp
  have "unat (of_nat i :: u32) = i"
    using i descs_loadedD(4) [OF assms(1)] by (simp add: unat_of_nat)
  with i have "ext2_get_group_desc err s (of_nat i) = Some (Some (desc_ptr_of s i), s)"
    using get_group_desc_loaded [OF assms(1), of "of_nat i" err] by simp
  with Cons i show ?case
    by (simp add: gd_at_loaded [OF assms(1)] add.assoc)
qed

definition total_of :: "(ext2_group_desc \<Rightarrow> u16) \<Rightarrow> ext2_fs \<Rightarrow> nat" where
  "total_of fld s = (\<Sum>i < n_groups s. unat (fld (desc_of s i)))"

lemma sum_list_word:
  "(\<Sum>i \<leftarrow> is. ucast (f i :: u16) :: u64) = of_nat (\<Sum>i \<leftarrow> is. unat (f i))"
  by (induction "is") (simp_all add: unsigned_ucast_eq)

lemma count_groups_all:
  assumes "descs_loaded s"
  shows "count_groups fld err [0..<unat (s_groups_count (sb_info s))] 0 s =
     Some (of_nat (total_of fld s), s)"
proof -
  have "(\<Sum>i \<leftarrow> [0..<n_groups s]. unat (fld (desc_of s i))) = total_of fld s"
    by (simp add: total_of_def sum_list_distinct_conv_sum_set atLeast0LessThan)
  then show ?thesis
    using count_groups_loaded [OF assms, of "[0..<n_groups s]" fld err 0]
    by (simp add: n_groups_def sum_list_word)
qed

lemma count_free_blocks_loaded:
  "descs_loaded s \<Longrightarrow>
     ext2_count_free_blocks err s = Some (of_nat (total_of bg_free_blocks_count s), s)"
  by (simp add: ext2_count_free_blocks_def count_groups_all)

lemma count_free_inodes_loaded:
  "descs_loaded s \<Longrightarrow>
     ext2_count_free_inodes err s = Some (of_nat (total_of bg_free_inodes_count s), s)"
  by (simp add: ext2_count_free_inodes_def count_groups_all)

lemma count_dirs_loaded:
  "descs_loaded s \<Longrightarrow>
     ext2_count_dirs err s = Some (of_nat (total_of bg_used_dirs_count s), s)"
  by (simp add: ext2_count_dirs_def count_groups_all)

lemma total_of_bound:
  assumes "descs_loaded s"
  shows "total_of fld s < 2 ^ 47"
proof -
  have "total_of fld s \<le> of_nat (card {..<n_groups s}) * 65535"
    unfolding total_of_def
    by (rule sum_bounded_above) (use unat_less_16 in \<open>simp add: less_Suc_eq_le [symmetric]\<close>)
  also have "... \<le> 2 ^ 31 * 65535"
    using descs_loadedD(4) [OF assms] by simp
  also have "... < 2 ^ 47" by simp
  finally show ?thesis .
qed

section \<open>What reporting an error does\<close>

text \<open>Updates that leave the descriptors in place.\<close>

lemma desc_frame [simp]:
  "gd_at (s\<lparr>sb_es := e\<rparr>) = gd_at s"
  "gd_at (s\<lparr>sb_flags := f\<rparr>) = gd_at s"
  "gd_at (s\<lparr>bcache := c\<rparr>) = gd_at s"
  "gd_at (s\<lparr>bh_uptodate := u\<rparr>) = gd_at s"
  "gd_at (s\<lparr>sb_info := (sb_info s)\<lparr>s_lock := l\<rparr>\<rparr>) = gd_at s"
  "gd_at (s\<lparr>sb_info := (sb_info s)\<lparr>s_mount_state := m\<rparr>\<rparr>) = gd_at s"
  "gd_at (s\<lparr>sb_info := (sb_info s)\<lparr>s_freeblocks_counter := n\<rparr>\<rparr>) = gd_at s"
  "gd_at (s\<lparr>sb_info := (sb_info s)\<lparr>s_freeinodes_counter := n\<rparr>\<rparr>) = gd_at s"
  "gd_at (s\<lparr>sb_info := (sb_info s)\<lparr>s_dirs_counter := n\<rparr>\<rparr>) = gd_at s"
  by (simp_all add: gd_at_def fun_eq_iff)

lemma desc_of_frame [simp]:
  "desc_of (s\<lparr>sb_es := e\<rparr>) = desc_of s"
  "desc_of (s\<lparr>sb_flags := f\<rparr>) = desc_of s"
  "desc_of (s\<lparr>bcache := c\<rparr>) = desc_of s"
  "desc_of (s\<lparr>bh_uptodate := u\<rparr>) = desc_of s"
  "desc_of (s\<lparr>sb_info := (sb_info s)\<lparr>s_lock := l\<rparr>\<rparr>) = desc_of s"
  "desc_of (s\<lparr>sb_info := (sb_info s)\<lparr>s_mount_state := m\<rparr>\<rparr>) = desc_of s"
  "desc_of (s\<lparr>sb_info := (sb_info s)\<lparr>s_freeblocks_counter := n\<rparr>\<rparr>) = desc_of s"
  "desc_of (s\<lparr>sb_info := (sb_info s)\<lparr>s_freeinodes_counter := n\<rparr>\<rparr>) = desc_of s"
  "desc_of (s\<lparr>sb_info := (sb_info s)\<lparr>s_dirs_counter := n\<rparr>\<rparr>) = desc_of s"
  by (simp_all add: desc_of_def desc_ptr_of_def fun_eq_iff)

lemma n_groups_frame [simp]:
  "n_groups (s\<lparr>sb_es := e\<rparr>) = n_groups s"
  "n_groups (s\<lparr>sb_flags := f\<rparr>) = n_groups s"
  "n_groups (s\<lparr>bcache := c\<rparr>) = n_groups s"
  "n_groups (s\<lparr>bh_uptodate := u\<rparr>) = n_groups s"
  "n_groups (s\<lparr>sb_info := (sb_info s)\<lparr>s_lock := l\<rparr>\<rparr>) = n_groups s"
  "n_groups (s\<lparr>sb_info := (sb_info s)\<lparr>s_mount_state := m\<rparr>\<rparr>) = n_groups s"
  "n_groups (s\<lparr>sb_info := (sb_info s)\<lparr>s_freeblocks_counter := n\<rparr>\<rparr>) = n_groups s"
  "n_groups (s\<lparr>sb_info := (sb_info s)\<lparr>s_freeinodes_counter := n\<rparr>\<rparr>) = n_groups s"
  "n_groups (s\<lparr>sb_info := (sb_info s)\<lparr>s_dirs_counter := n\<rparr>\<rparr>) = n_groups s"
  by (simp_all add: n_groups_def)

lemma descs_loaded_frame [simp]:
  "descs_loaded (s\<lparr>sb_es := e\<rparr>) = descs_loaded s"
  "descs_loaded (s\<lparr>sb_flags := f\<rparr>) = descs_loaded s"
  "descs_loaded (s\<lparr>bcache := c\<rparr>) = descs_loaded s"
  "descs_loaded (s\<lparr>bh_uptodate := u\<rparr>) = descs_loaded s"
  "descs_loaded (s\<lparr>sb_info := (sb_info s)\<lparr>s_lock := l\<rparr>\<rparr>) = descs_loaded s"
  "descs_loaded (s\<lparr>sb_info := (sb_info s)\<lparr>s_mount_state := m\<rparr>\<rparr>) = descs_loaded s"
  "descs_loaded (s\<lparr>sb_info := (sb_info s)\<lparr>s_freeblocks_counter := n\<rparr>\<rparr>) = descs_loaded s"
  "descs_loaded (s\<lparr>sb_info := (sb_info s)\<lparr>s_freeinodes_counter := n\<rparr>\<rparr>) = descs_loaded s"
  "descs_loaded (s\<lparr>sb_info := (sb_info s)\<lparr>s_dirs_counter := n\<rparr>\<rparr>) = descs_loaded s"
  by (simp_all add: descs_loaded_def Let_def)

lemma total_of_frame [simp]:
  "total_of fld (s\<lparr>sb_es := e\<rparr>) = total_of fld s"
  "total_of fld (s\<lparr>sb_flags := f\<rparr>) = total_of fld s"
  "total_of fld (s\<lparr>bcache := c\<rparr>) = total_of fld s"
  "total_of fld (s\<lparr>sb_info := (sb_info s)\<lparr>s_lock := l\<rparr>\<rparr>) = total_of fld s"
  "total_of fld (s\<lparr>sb_info := (sb_info s)\<lparr>s_mount_state := m\<rparr>\<rparr>) = total_of fld s"
  by (simp_all add: total_of_def)

definition sync_result :: "ext2_fs \<Rightarrow> ext2_fs" where
  "sync_result s = s\<lparr>sb_es := (sb_es s)\<lparr>
     es_free_blocks_count := of_nat (total_of bg_free_blocks_count s),
     es_free_inodes_count := of_nat (total_of bg_free_inodes_count s),
     es_wtime := ucast (clock s)\<rparr>\<rparr>"

lemma unlock_lock: "\<not> s_lock (sb_info s) \<Longrightarrow> s\<lparr>sb_info := (sb_info s)\<lparr>s_lock := False\<rparr>\<rparr> = s"
  by (cases s; cases "sb_info s") simp

lemma ucast_of_nat_32: "ucast (of_nat n :: u64) = (of_nat n :: u32)"
  by (rule bit_word_eqI) (auto simp: bit_simps)

lemma sync_super_loaded:
  assumes "descs_loaded s" "\<not> s_lock (sb_info s)"
  shows "ext2_sync_super err s = Some (sync_result s)"
  using assms
  by (simp add: ext2_sync_super_def lock_sb_def unlock_sb_def count_free_blocks_loaded
      count_free_inodes_loaded sync_result_def ucast_of_nat_32 unlock_lock)

definition error_result :: "ext2_fs \<Rightarrow> ext2_fs" where
  "error_result s =
     (let s1 = (if sb_rdonly s then s else sync_result (error_mark s))
      in if \<not> sb_rdonly s \<and> test_opt s EXT2_MOUNT_ERRORS_RO
         then s1\<lparr>sb_flags := sb_flags s1 OR SB_RDONLY\<rparr> else s1)"

lemma error_mark_frame [simp]:
  "sb_flags (error_mark s) = sb_flags s"
  "s_mount_opt (sb_info (error_mark s)) = s_mount_opt (sb_info s)"
  "s_lock (sb_info (error_mark s)) = s_lock (sb_info s)"
  "descs_loaded (error_mark s) = descs_loaded s"
  by (simp_all add: error_mark_def descs_loaded_def n_groups_def Let_def)

lemma sync_result_frame [simp]:
  "sb_flags (sync_result s) = sb_flags s"
  "sb_info (sync_result s) = sb_info s"
  by (simp_all add: sync_result_def)

lemma unlock_error_mark:
  "\<not> s_lock (sb_info s) \<Longrightarrow>
     unlock_sb (error_mark (s\<lparr>sb_info := (sb_info s)\<lparr>s_lock := True\<rparr>\<rparr>)) = error_mark s"
  by (cases s; cases "sb_info s") (simp add: unlock_sb_def error_mark_def)

lemma error_fuel_loaded:
  assumes "descs_loaded s" "\<not> s_lock (sb_info s)"
  shows "ext2_error_fuel (Suc n) s =
     (if test_opt s EXT2_MOUNT_ERRORS_PANIC then None else Some (error_result s))"
proof (cases "sb_rdonly s")
  case True
  then show ?thesis by (simp add: error_result_def)
next
  case False
  have "ext2_sync_super err (error_mark s) = Some (sync_result (error_mark s))" for err
    using assms by (intro sync_super_loaded) simp_all
  with assms(2) False show ?thesis
    by (simp add: error_result_def lock_sb_def unlock_error_mark sb_rdonly_def test_opt_def
        Let_def)
qed

text \<open>
  With the descriptors loaded and the superblock lock free, reporting an error comes back
  unless the mount options ask for a panic.
\<close>

lemma ext2_error_loaded:
  assumes "descs_loaded s" "\<not> s_lock (sb_info s)"
  shows "ext2_error s =
     (if test_opt s EXT2_MOUNT_ERRORS_PANIC then None else Some (error_result s))"
  using error_fuel_loaded [OF assms, of 1] by (simp add: ext2_error_def numeral_2_eq_2)

lemma count_groups_err_cong:
  assumes "e1 s = None" "e2 s = None"
  shows "count_groups fld e1 is c s = count_groups fld e2 is c s \<and>
         (\<forall>c' s'. count_groups fld e1 is c s = Some (c', s') \<longrightarrow> s' = s)"
proof (induction "is" arbitrary: c)
  case Nil
  then show ?case by simp
next
  case (Cons i "is")
  have "ext2_get_group_desc e1 s (of_nat i) = ext2_get_group_desc e2 s (of_nat i)"
    "ext2_get_group_desc e1 s (of_nat i) = None \<or>
     (\<exists>p. ext2_get_group_desc e1 s (of_nat i) = Some (Some p, s))"
    using assms by (auto simp: ext2_get_group_desc_def Let_def split: option.splits)
  with Cons.IH show ?case by (auto split: option.splits simp: bind_Some_iff)
qed

text \<open>
  A file system that is writable and whose superblock lock is held cannot report an
  error, at any fuel: the report would take the lock again.
\<close>

lemma error_fuel_locked:
  "s_lock (sb_info s) \<Longrightarrow> \<not> sb_rdonly s \<Longrightarrow> ext2_error_fuel n s = None"
  by (cases n) (simp_all add: lock_sb_def)

lemma sync_super_fuel:
  assumes "\<not> sb_rdonly s"
  shows "ext2_sync_super (ext2_error_fuel n) s = ext2_sync_super (ext2_error_fuel m) s"
proof (cases "s_lock (sb_info s)")
  case True
  then show ?thesis by (simp add: ext2_sync_super_def lock_sb_def)
next
  case False
  let ?E = "ext2_error_fuel"
  let ?s1 = "s\<lparr>sb_info := (sb_info s)\<lparr>s_lock := True\<rparr>\<rparr>"
  let ?s2 = "\<lambda>nb. ?s1\<lparr>sb_es := (sb_es ?s1)\<lparr>es_free_blocks_count := ucast (nb :: u64)\<rparr>\<rparr>"
  have dead: "?E k ?s1 = None" "?E k (?s2 nb) = None" for k nb
    using assms by (intro error_fuel_locked; simp add: sb_rdonly_def)+
  have one: "ext2_count_free_blocks (?E n) ?s1 = ext2_count_free_blocks (?E m) ?s1"
    "ext2_count_free_blocks (?E n) ?s1 = Some (nb, s') \<Longrightarrow> s' = ?s1" for nb s'
    unfolding ext2_count_free_blocks_def
    using count_groups_err_cong [of "?E n" ?s1 "?E m"] dead(1) by blast+
  have two: "ext2_count_free_inodes (?E n) (?s2 nb) = ext2_count_free_inodes (?E m) (?s2 nb)" for nb
    unfolding ext2_count_free_inodes_def
    using count_groups_err_cong [of "?E n" "?s2 nb" "?E m"] dead(2) by blast
  show ?thesis
  proof (cases "ext2_count_free_blocks (?E n) ?s1")
    case None
    with one(1) False show ?thesis by (simp add: ext2_sync_super_def lock_sb_def)
  next
    case (Some r)
    obtain nb s' where r: "r = (nb, s')" by (cases r)
    with Some one(2) have "s' = ?s1" by simp
    with Some r one(1) two [of nb] False show ?thesis
      by (simp add: ext2_sync_super_def lock_sb_def)
  qed
qed

text \<open>Two units of fuel are enough: more never changes the outcome.\<close>

lemma ext2_error_enough_fuel: "ext2_error_fuel (Suc (Suc n)) s = ext2_error s"
proof (cases "sb_rdonly s")
  case True
  then show ?thesis by (simp add: ext2_error_def numeral_2_eq_2)
next
  case False
  have "ext2_sync_super (ext2_error_fuel (Suc n)) (unlock_sb (error_mark s')) =
      ext2_sync_super (ext2_error_fuel (Suc 0)) (unlock_sb (error_mark s'))"
    if "\<not> sb_rdonly s'" for s'
    using that by (intro sync_super_fuel) (simp add: sb_rdonly_def unlock_sb_def error_mark_def)
  from this [of "s\<lparr>sb_info := (sb_info s)\<lparr>s_lock := True\<rparr>\<rparr>"] False show ?thesis
    by (simp add: ext2_error_def numeral_2_eq_2 lock_sb_def sb_rdonly_def)
qed

lemma gd_at_cong:
  "s_group_desc (sb_info s) = s_group_desc (sb_info t) \<Longrightarrow> gd_at s = gd_at t"
  by (simp add: gd_at_def fun_eq_iff)

lemma error_result_info:
  "sb_info (error_result s) = (sb_info s)\<lparr>s_mount_state := s_mount_state (sb_info (error_result s))\<rparr>"
  by (simp add: error_result_def error_mark_def Let_def)

lemma error_result_info_frame [simp]:
  "s_group_desc (sb_info (error_result s)) = s_group_desc (sb_info s)"
  "s_lock (sb_info (error_result s)) = s_lock (sb_info s)"
  "s_mount_opt (sb_info (error_result s)) = s_mount_opt (sb_info s)"
  "s_freeblocks_counter (sb_info (error_result s)) = s_freeblocks_counter (sb_info s)"
  "s_freeinodes_counter (sb_info (error_result s)) = s_freeinodes_counter (sb_info s)"
  "s_dirs_counter (sb_info (error_result s)) = s_dirs_counter (sb_info s)"
  "s_blocks_per_group (sb_info (error_result s)) = s_blocks_per_group (sb_info s)"
  "s_inodes_per_group (sb_info (error_result s)) = s_inodes_per_group (sb_info s)"
  "s_itb_per_group (sb_info (error_result s)) = s_itb_per_group (sb_info s)"
  "s_sb_block (sb_info (error_result s)) = s_sb_block (sb_info s)"
  "s_groups_count (sb_info (error_result s)) = s_groups_count (sb_info s)"
  "s_desc_per_block (sb_info (error_result s)) = s_desc_per_block (sb_info s)"
  "s_desc_per_block_bits (sb_info (error_result s)) = s_desc_per_block_bits (sb_info s)"
  "s_first_ino (sb_info (error_result s)) = s_first_ino (sb_info s)"
  "s_inode_size (sb_info (error_result s)) = s_inode_size (sb_info s)"
  by (subst error_result_info, simp)+

lemma error_result_frame [simp]:
  "bcache (error_result s) = bcache s"
  "bh_uptodate (error_result s) = bh_uptodate s"
  "sb_blocksize (error_result s) = sb_blocksize s"
  "sb_blocksize_bits (error_result s) = sb_blocksize_bits s"
  "clock (error_result s) = clock s"
  "es_first_data_block (sb_es (error_result s)) = es_first_data_block (sb_es s)"
  "es_blocks_count (sb_es (error_result s)) = es_blocks_count (sb_es s)"
  "es_inodes_count (sb_es (error_result s)) = es_inodes_count (sb_es s)"
  by (simp_all add: error_result_def error_mark_def sync_result_def Let_def)

lemma error_result_descs [simp]:
  "gd_at (error_result s) = gd_at s"
  "desc_of (error_result s) = desc_of s"
  "n_groups (error_result s) = n_groups s"
  "descs_loaded (error_result s) = descs_loaded s"
  by (simp_all add: gd_at_def desc_of_def desc_ptr_of_def n_groups_def descs_loaded_def
      Let_def fun_eq_iff)

lemma test_opt_error_result [simp]: "test_opt (error_result s) = test_opt s"
  by (simp add: test_opt_def fun_eq_iff)

end
