(* ===== verification/Balloc.thy ===== *)
theory Balloc
  imports Ext2_Error
begin

text \<open>
  Block allocation (\<^verbatim>\<open>balloc.c\<close>): reading and checking a group's block bitmap, the validity
  checks of block ranges, allocation and freeing. A buffer head is the number of its
  block; a call that changes the bytes of a buffer changes them in \<open>bcache\<close>, which every
  holder of the buffer shares. The first parts are the code, the rest its correctness:
  the arithmetic of groups, the scan loop, and the invariant that ties free counts,
  bitmaps and the free-blocks counter together.
\<close>

section \<open>Checking a bitmap and a range of blocks\<close>

definition in_range :: "u64 \<Rightarrow> u64 \<Rightarrow> u64 \<Rightarrow> bool" where
  "in_range b first len \<longleftrightarrow> first \<le> b \<and> b \<le> first + len - 1"

definition report :: "'a \<Rightarrow> ext2_fs \<Rightarrow> ('a \<times> ext2_fs) option" where
  "report r s = map_option (\<lambda>s'. (r, s')) (ext2_error s)"

definition ext2_block_bitmap_valid ::
  "kern \<Rightarrow> ext2_fs \<Rightarrow> ext2_group_desc \<Rightarrow> u32 \<Rightarrow> byte list \<Rightarrow> (bool \<times> ext2_fs) option" where
  "ext2_block_bitmap_valid K s desc block_group bh = do {
     let group_first_block = ext2_group_first_block_no s (ucast block_group);
     let offset = (ucast (ucast (bg_block_bitmap desc) - group_first_block) :: s32);
     b1 \<leftarrow> test_bit_le K (sint offset) bh;
     if \<not> b1 then report False s else do {
     let offset = (ucast (ucast (bg_inode_bitmap desc) - group_first_block) :: s32);
     b2 \<leftarrow> test_bit_le K (sint offset) bh;
     if \<not> b2 then report False s else do {
     let offset = (ucast (ucast (bg_inode_table desc) - group_first_block) :: s32);
     let end = (scast offset :: u64) + s_itb_per_group (sb_info s);
     let next_zero_bit = (ucast (find_next_zero_bit_le K bh end (scast offset)) :: s32);
     if (scast next_zero_bit :: u64) < end then report False s else Some (True, s) } } }"

definition ext2_read_block_bitmap ::
  "kern \<Rightarrow> ext2_fs \<Rightarrow> u32 \<Rightarrow> (u64 option \<times> ext2_fs) option" where
  "ext2_read_block_bitmap K s block_group = do {
     (desc, s) \<leftarrow> ext2_get_group_desc ext2_error s block_group;
     (case desc of None \<Rightarrow> Some (None, s) | Some p \<Rightarrow> do {
        d \<leftarrow> gd_at s p;
        let bitmap_blk = ucast (bg_block_bitmap d);
        if \<not> k_getblk K bitmap_blk then report None s
        else if bh_uptodate s bitmap_blk then Some (Some bitmap_blk, s)
        else (case bcache s bitmap_blk of None \<Rightarrow> report None s
          | Some bs \<Rightarrow> do {
              let s = s\<lparr>bh_uptodate := (bh_uptodate s)(bitmap_blk := True)\<rparr>;
              (ok, s) \<leftarrow> ext2_block_bitmap_valid K s d block_group bs;
              if \<not> ok then report None s else Some (Some bitmap_blk, s) }) }) }"

definition group_update_free_blocks :: "ext2_fs \<Rightarrow> desc_ptr \<Rightarrow> s32 \<Rightarrow> ext2_fs" where
  "group_update_free_blocks s p count =
     (if count = 0 then s
      else gd_update (\<lambda>d. d\<lparr>bg_free_blocks_count :=
             ucast (ucast (bg_free_blocks_count d) + count :: u32)\<rparr>) p s)"

definition ext2_data_blocks_valid :: "ext2_fs \<Rightarrow> u64 \<Rightarrow> u32 \<Rightarrow> bool" where
  "ext2_data_blocks_valid s start_blk count =
     (let end_blk = start_blk + ucast count - 1 in
      if end_blk < start_blk then False
      else if start_blk \<le> ucast (es_first_data_block (sb_es s)) then False
      else if ucast (es_blocks_count (sb_es s)) \<le> end_blk then False
      else if start_blk \<le> s_sb_block (sb_info s) \<and> s_sb_block (sb_info s) \<le> end_blk then False
      else True)"

definition ext2_data_blocks_valid_bg ::
  "ext2_group_desc \<Rightarrow> ext2_sb_info \<Rightarrow> u64 \<Rightarrow> u32 \<Rightarrow> bool" where
  "ext2_data_blocks_valid_bg desc sbi start_blk count =
     (let end_blk = start_blk + ucast count - 1 in
      if end_blk < start_blk then False
      else if in_range (ucast (bg_block_bitmap desc)) start_blk (ucast count) then False
      else if in_range (ucast (bg_inode_bitmap desc)) start_blk (ucast count) then False
      else if in_range start_blk (ucast (bg_inode_table desc)) (s_itb_per_group sbi) then False
      else if in_range end_blk (ucast (bg_inode_table desc)) (s_itb_per_group sbi) then False
      else True)"

section \<open>Freeing blocks\<close>

fun free_bits ::
  "kern \<Rightarrow> u64 \<Rightarrow> nat list \<Rightarrow> u32 \<Rightarrow> byte list \<Rightarrow> ext2_fs
     \<Rightarrow> (u32 \<times> byte list \<times> ext2_fs) option" where
  "free_bits K bit0 [] freed bs s = Some (freed, bs, s)"
| "free_bits K bit0 (i # is) freed bs s = do {
     (old, bs') \<leftarrow> ext2_clear_bit_atomic K (bit0 + of_nat i) bs;
     if \<not> old then do { s' \<leftarrow> ext2_error s; free_bits K bit0 is freed bs' s' }
     else free_bits K bit0 is (freed + 1) bs' s }"

text \<open>\<open>i_blocks\<close> is the field of the inode the blocks belong to; its new value is returned.\<close>

definition ext2_free_blocks ::
  "kern \<Rightarrow> ext2_fs \<Rightarrow> u64 \<Rightarrow> u64 \<Rightarrow> u64 \<Rightarrow> (u64 \<times> ext2_fs) option" where
  "ext2_free_blocks K s iblocks block count =
     (let fdb = es_first_data_block (sb_es s); bpg = s_blocks_per_group (sb_info s) in
      if \<not> ext2_data_blocks_valid s block (ucast count) then report iblocks s
      else if bpg = 0 then None
      else do {
        let block_group = (block - ucast fdb) div bpg;
        let bit0 = (block - ucast fdb) mod bpg;
        (bitmap_bh, s) \<leftarrow> ext2_read_block_bitmap K s (ucast block_group);
        (case bitmap_bh of None \<Rightarrow> Some (iblocks, s) | Some bh \<Rightarrow> do {
           (desc, s) \<leftarrow> ext2_get_group_desc ext2_error s (ucast block_group);
           (case desc of None \<Rightarrow> Some (iblocks, s) | Some p \<Rightarrow> do {
              d \<leftarrow> gd_at s p;
              if \<not> ext2_data_blocks_valid_bg d (sb_info s) block (ucast count)
              then report iblocks s
              else do {
                bs \<leftarrow> bcache s bh;
                (freed, bs', s) \<leftarrow> free_bits K bit0 [0..<unat count] 0 bs s;
                let s = s\<lparr>bcache := (bcache s)(bh \<mapsto> bs')\<rparr>;
                let s = group_update_free_blocks s p freed;
                if freed \<noteq> 0
                then Some (iblocks - (ucast freed * sb_blocksize s) div 512,
                       s\<lparr>sb_info := (sb_info s)\<lparr>s_freeblocks_counter :=
                           s_freeblocks_counter (sb_info s) + uint freed\<rparr>\<rparr>)
                else Some (iblocks, s) } }) }) })"

section \<open>Allocating blocks\<close>

text \<open>
  The loop of \<^verbatim>\<open>ext2_allocate_in_bg\<close>. In C \<open>num\<close> is never initialised, so the function
  takes the value it happens to have as its argument \<open>junk\<close>.
\<close>

function alloc_loop ::
  "kern \<Rightarrow> u64 \<Rightarrow> int \<Rightarrow> u64 \<Rightarrow> int \<Rightarrow> byte list \<Rightarrow> (u64 \<times> int \<times> byte list) option" where
  "alloc_loop K count nblocks num first_free_bit bs =
     (if num < count \<and> first_free_bit < nblocks
      then (case ext2_set_bit_atomic K (of_int first_free_bit) bs of
              None \<Rightarrow> None
            | Some (old, bs') \<Rightarrow>
                if old
                then (if num = 0 then alloc_loop K count nblocks num (first_free_bit + 1) bs'
                      else Some (num, first_free_bit, bs'))
                else alloc_loop K count nblocks (num + 1) (first_free_bit + 1) bs')
      else Some (num, first_free_bit, bs))"
  by pat_completeness auto
termination
  by (relation "measure (\<lambda>(K, count, nblocks, num, ffb, bs). nat (nblocks - ffb))") auto

declare alloc_loop.simps [simp del]

definition ext2_allocate_in_bg ::
  "kern \<Rightarrow> u64 \<Rightarrow> ext2_fs \<Rightarrow> s32 \<Rightarrow> byte list \<Rightarrow> u64 \<Rightarrow> (int \<times> byte list \<times> u64) option" where
  "ext2_allocate_in_bg K junk s grp bs count =
     (let group_first_block = ext2_group_first_block_no s (scast grp);
          group_last_block = ext2_group_last_block_no s (scast grp);
          nblocks = (ucast (group_last_block - group_first_block + 1) :: s32);
          first_free_bit = (ucast (find_next_zero_bit_le K bs (scast nblocks) group_first_block) :: s32)
      in if sint nblocks \<le> sint first_free_bit then Some (-1, bs, count)
         else do {
           (num, ffb, bs') \<leftarrow> alloc_loop K count (sint nblocks) junk (sint first_free_bit) bs;
           if num = 0 then Some (-1, bs', count)
           else Some (sint (ucast (of_int ffb - num) :: s32), bs', num) })"

fun new_blocks_loop ::
  "kern \<Rightarrow> (nat \<Rightarrow> u64) \<Rightarrow> nat list \<Rightarrow> u32 \<Rightarrow> u64 \<Rightarrow> ext2_fs
     \<Rightarrow> ((u64 \<times> int \<times> u64) \<times> ext2_fs) option" where
  "new_blocks_loop K junk [] group_no count s = Some ((0, - ENOSPC, count), s)"
| "new_blocks_loop K junk (bgi # bgis) group_no count s =
     (let next_group = ucast ((ucast (group_no + 1) :: u64) mod s_groups_count (sb_info s)) in do {
     (gdp, s) \<leftarrow> ext2_get_group_desc ext2_error s group_no;
     (case gdp of None \<Rightarrow> Some ((0, - EIO, count), s) | Some p \<Rightarrow> do {
        d \<leftarrow> gd_at s p;
        if bg_free_blocks_count d = 0 then new_blocks_loop K junk bgis next_group count s
        else do {
          (bitmap_bh, s) \<leftarrow> ext2_read_block_bitmap K s group_no;
          (case bitmap_bh of None \<Rightarrow> Some ((0, - EIO, count), s) | Some bh \<Rightarrow> do {
             bs \<leftarrow> bcache s bh;
             (grp_alloc_blk, bs', num) \<leftarrow> ext2_allocate_in_bg K (junk bgi) s group_no bs count;
             let s = s\<lparr>bcache := (bcache s)(bh \<mapsto> bs')\<rparr>;
             if grp_alloc_blk < 0 then new_blocks_loop K junk bgis next_group num s
             else do {
               let ret_block = of_int grp_alloc_blk + ext2_group_first_block_no s (ucast group_no);
               let s = group_update_free_blocks s p (ucast (- num));
               let s = s\<lparr>sb_info := (sb_info s)\<lparr>s_freeblocks_counter :=
                     s_freeblocks_counter (sb_info s) - sint num\<rparr>\<rparr>;
               Some ((ret_block, 0, num), s) } }) } }) })"

text \<open>
  \<open>*countp\<close> is returned beside the block and \<open>*errp\<close>; the C code writes it only when it
  allocated fewer blocks than asked, which is when the value differs. \<open>junk\<close> gives the
  uninitialised \<open>num\<close> of each round.
\<close>

definition ext2_new_blocks ::
  "kern \<Rightarrow> (nat \<Rightarrow> u64) \<Rightarrow> ext2_fs \<Rightarrow> u32 \<Rightarrow> u64 \<Rightarrow> ((u64 \<times> int \<times> u64) \<times> ext2_fs) option" where
  "ext2_new_blocks K junk s i_block_group countp =
     (let free_blocks = (of_int (percpu_counter_read_positive K
                          (s_freeblocks_counter (sb_info s))) :: u16)
      in if free_blocks = 0 then Some ((0, - ENOSPC, countp), s)
         else do {
           ((ret_block, errp, num), s) \<leftarrow>
              new_blocks_loop K junk [0..<n_groups s] i_block_group countp s;
           Some ((ret_block, errp,
                  if errp = 0 \<and> num < countp then num else countp), s) })"

end
