(* ===== verification/Ext2_Geometry.thy ===== *)
theory Ext2_Geometry
  imports Balloc
begin

text \<open>
  The layout of the block groups in plain arithmetic. \<open>geom_ok\<close> collects what
  \<^verbatim>\<open>ext2_fill_super\<close> establishes before a file system is used: a positive number of blocks
  per group that fits one bitmap block, the group count computed from the block count,
  and loaded descriptors. Under it the 64-bit computations of the code do not wrap.
\<close>

definition bpg :: "ext2_fs \<Rightarrow> nat" where
  "bpg s = unat (s_blocks_per_group (sb_info s))"

definition fdb :: "ext2_fs \<Rightarrow> nat" where
  "fdb s = unat (es_first_data_block (sb_es s))"

definition total_blocks :: "ext2_fs \<Rightarrow> nat" where
  "total_blocks s = unat (es_blocks_count (sb_es s))"

definition group_first :: "ext2_fs \<Rightarrow> nat \<Rightarrow> nat" where
  "group_first s g = g * bpg s + fdb s"

definition group_blocks :: "ext2_fs \<Rightarrow> nat \<Rightarrow> nat" where
  "group_blocks s g =
     (if g = n_groups s - 1 then total_blocks s - group_first s g else bpg s)"

definition geom_ok :: "ext2_fs \<Rightarrow> bool" where
  "geom_ok s \<longleftrightarrow> descs_loaded s \<and> \<not> s_lock (sb_info s) \<and>
     0 < bpg s \<and> bpg s \<le> 8 * unat (sb_blocksize s) \<and> unat (sb_blocksize s) \<le> 4096 \<and>
     fdb s < total_blocks s \<and> n_groups s = (total_blocks s - fdb s - 1) div bpg s + 1"

lemma geom_okD:
  assumes "geom_ok s"
  shows "descs_loaded s" and "\<not> s_lock (sb_info s)" and "0 < bpg s" and "bpg s \<le> 32768"
    and "bpg s \<le> 8 * unat (sb_blocksize s)" and "unat (sb_blocksize s) \<le> 4096"
    and "fdb s < total_blocks s" and "n_groups s = (total_blocks s - fdb s - 1) div bpg s + 1"
  using assms by (auto simp: geom_ok_def)

lemma total_blocks_less: "total_blocks s < 2 ^ 32"
  by (simp add: total_blocks_def unat_less_32)

lemma fdb_less: "fdb s < 2 ^ 32"
  by (simp add: fdb_def unat_less_32)

lemma group_first_less_total:
  assumes "geom_ok s" "g < n_groups s"
  shows "group_first s g < total_blocks s"
proof -
  have "g \<le> (total_blocks s - fdb s - 1) div bpg s"
    using assms geom_okD(8) by fastforce
  then have "g * bpg s \<le> total_blocks s - fdb s - 1"
    using geom_okD(3) [OF assms(1)] by (simp add: less_eq_div_iff_mult_less_eq)
  then show ?thesis
    using geom_okD(7) [OF assms(1)] by (simp add: group_first_def)
qed

lemma group_first_Suc_le:
  assumes "geom_ok s" "g < n_groups s" "g \<noteq> n_groups s - 1"
  shows "group_first s g + bpg s < total_blocks s"
proof -
  have "Suc g < n_groups s" using assms(2,3) by linarith
  from group_first_less_total [OF assms(1) this] show ?thesis
    by (simp add: group_first_def algebra_simps)
qed

lemma group_blocks_pos:
  assumes "geom_ok s" "g < n_groups s"
  shows "0 < group_blocks s g"
  using group_first_less_total [OF assms] geom_okD(3) [OF assms(1)] by (auto simp: group_blocks_def)

lemma group_blocks_le_bpg:
  assumes "geom_ok s" "g < n_groups s"
  shows "group_blocks s g \<le> bpg s"
proof (cases "g = n_groups s - 1")
  case True
  let ?x = "total_blocks s - fdb s - 1"
  have g: "g = ?x div bpg s" using True geom_okD(8) [OF assms(1)] by simp
  have "?x < Suc (?x div bpg s) * bpg s"
    using geom_okD(3) [OF assms(1)] by (simp add: dividend_less_div_times)
  then have "total_blocks s \<le> group_first s g + bpg s"
    using geom_okD(7) [OF assms(1)] by (simp add: group_first_def g)
  then show ?thesis using True by (simp add: group_blocks_def)
qed (simp add: group_blocks_def)

lemma group_end_le_total:
  assumes "geom_ok s" "g < n_groups s"
  shows "group_first s g + group_blocks s g \<le> total_blocks s"
  using group_first_less_total [OF assms] group_first_Suc_le [OF assms]
  by (auto simp: group_blocks_def)

lemma unat_first_block_no:
  assumes "geom_ok s" "unat g < n_groups s"
  shows "unat (ext2_group_first_block_no s g) = group_first s (unat g)"
proof -
  have "group_first s (unat g) < 2 ^ 32"
    using group_first_less_total [OF assms] total_blocks_less by (rule order.strict_trans)
  then have small: "unat g * bpg s + fdb s < 2 ^ 64" by (simp add: group_first_def)
  have "unat (g * s_blocks_per_group (sb_info s)) = unat g * bpg s"
    using small by (subst unat_mult_64) (simp_all add: bpg_def)
  then show ?thesis
    using small
    by (simp add: ext2_group_first_block_no_def unat_add_64 group_first_def fdb_def)
qed

lemma unat_last_block_no:
  assumes "geom_ok s" "unat g < n_groups s"
  shows "unat (ext2_group_last_block_no s g) = group_first s (unat g) + group_blocks s (unat g) - 1"
proof (cases "unat g = n_groups s - 1")
  case True
  then have "g = s_groups_count (sb_info s) - 1"
    using descs_loadedD(3) [OF geom_okD(1) [OF assms(1)]]
    by (intro word_unat_eq_iff [THEN iffD2]) (simp add: unat_sub_64 n_groups_def)
  moreover have "unat (es_blocks_count (sb_es s) - 1) = total_blocks s - 1"
    using geom_okD(7) [OF assms(1)] by (subst unat_sub) (simp_all add: total_blocks_def word_le_nat_alt)
  ultimately show ?thesis
    using True group_first_less_total [OF assms]
    by (simp add: ext2_group_last_block_no_def group_blocks_def)
next
  case False
  then have "g \<noteq> s_groups_count (sb_info s) - 1"
    using descs_loadedD(3) [OF geom_okD(1) [OF assms(1)]]
    by (auto simp: unat_sub_64 n_groups_def)
  moreover have b: "group_first s (unat g) + bpg s < 2 ^ 32"
    using group_first_Suc_le [OF assms False] total_blocks_less by (rule order.strict_trans)
  moreover have "unat (ext2_group_first_block_no s g + s_blocks_per_group (sb_info s)) =
      group_first s (unat g) + bpg s"
    using b unat_first_block_no [OF assms] by (subst unat_add_64) (simp_all add: bpg_def)
  ultimately show ?thesis
    using False geom_okD(3) [OF assms(1)]
    by (simp add: ext2_group_last_block_no_def group_blocks_def unat_sub_64)
qed

text \<open>The number of blocks of a group, as \<^verbatim>\<open>ext2_allocate_in_bg\<close> computes it in an \<^verbatim>\<open>int\<close>.\<close>

lemma sint_nblocks:
  assumes "geom_ok s" "unat g < n_groups s"
  shows "sint (ucast (ext2_group_last_block_no s g - ext2_group_first_block_no s g + 1) :: s32) =
     int (group_blocks s (unat g))"
    and "unat (scast (ucast (ext2_group_last_block_no s g - ext2_group_first_block_no s g + 1) :: s32) :: u64) =
     group_blocks s (unat g)"
proof -
  let ?w = "ext2_group_last_block_no s g - ext2_group_first_block_no s g + 1"
  have n: "0 < group_blocks s (unat g)" "group_blocks s (unat g) \<le> 32768"
    using group_blocks_pos [OF assms] group_blocks_le_bpg [OF assms] geom_okD(4) [OF assms(1)]
    by simp_all
  have "unat (ext2_group_last_block_no s g - ext2_group_first_block_no s g) =
      group_blocks s (unat g) - 1"
    using n by (simp add: unat_sub_64 unat_last_block_no [OF assms] unat_first_block_no [OF assms])
  then have w: "unat ?w = group_blocks s (unat g)"
    using n by (simp add: unat_add_64)
  have "?w = of_nat (unat ?w)" by simp
  then have "?w = of_nat (group_blocks s (unat g))" by (simp only: w)
  then have e: "(ucast ?w :: s32) = of_nat (group_blocks s (unat g))"
    by (simp only: ucast_of_nat_32)
  show s: "sint (ucast ?w :: s32) = int (group_blocks s (unat g))"
    unfolding e using n by (simp add: signed_of_nat signed_take_bit_int_eq_self)
  show "unat (scast (ucast ?w :: s32) :: u64) = group_blocks s (unat g)"
    unfolding e using n by (simp add: signed_of_nat signed_take_bit_int_eq_self unsigned_of_nat take_bit_nat_eq_self)
qed

end
