(* ===== verification/Balloc_Alloc.thy ===== *)
theory Balloc_Alloc
  imports Ext2_Geometry
begin

text \<open>
  What \<^verbatim>\<open>ext2_allocate_in_bg\<close> does with a bitmap. The code computes bits in \<^verbatim>\<open>int\<close> and
  \<^verbatim>\<open>unsigned long\<close>; the lemmas speak about runs of bits in plain numbers.
\<close>

text \<open>\<open>run_set bs a k cs\<close>: the \<open>k\<close> bits from \<open>a\<close> on were clear in \<open>bs\<close>, and \<open>cs\<close> is \<open>bs\<close> with them set.\<close>

definition run_set :: "byte list \<Rightarrow> nat \<Rightarrow> nat \<Rightarrow> byte list \<Rightarrow> bool" where
  "run_set bs a k cs \<longleftrightarrow> length cs = length bs \<and>
     (\<forall>i. a \<le> i \<and> i < a + k \<longrightarrow> \<not> bm_bit bs i) \<and>
     (\<forall>i. bm_bit cs i \<longleftrightarrow> bm_bit bs i \<or> (a \<le> i \<and> i < a + k))"

lemma run_set_0: "run_set bs a 0 bs"
  by (auto simp: run_set_def)

lemma run_set_Suc:
  assumes "\<not> bm_bit bs a" "a < bm_size bs" "run_set (bm_set a bs) (Suc a) k cs"
  shows "run_set bs a (Suc k) cs"
proof -
  have set: "bm_bit (bm_set a bs) i \<longleftrightarrow> i = a \<or> bm_bit bs i" for i
    by (rule bm_bit_set [OF assms(2)])
  show ?thesis
    using assms(1,3) unfolding run_set_def set length_bm_set
    by (metis (no_types, lifting) add_Suc_right add_Suc Suc_leI Suc_le_lessD le_eq_less_or_eq
        less_add_Suc1)
qed

lemma alloc_loop_run:
  assumes "bitops_ok K" "0 \<le> ffb" "nb \<le> int (bm_size bs)" "nb < 2 ^ 31"
    and "0 < unat num \<or> nb \<le> ffb \<or> \<not> bm_bit bs (nat ffb)"
  shows "\<exists>k cs. alloc_loop K count nb num ffb bs = Some (num + of_nat k, ffb + int k, cs) \<and>
           run_set bs (nat ffb) k cs \<and>
           (k = 0 \<or> unat num + k \<le> unat count \<and> ffb + int k \<le> nb) \<and>
           (unat count \<le> unat num + k \<or> nb \<le> ffb + int k \<or> bm_bit bs (nat ffb + k))"
  using assms
proof (induction K count nb num ffb bs rule: alloc_loop.induct)
  case (1 K count nb num ffb bs)
  show ?case
  proof (cases "num < count \<and> ffb < nb")
    case False
    then have "alloc_loop K count nb num ffb bs = Some (num, ffb, bs)"
      by (subst alloc_loop.simps) auto
    with False show ?thesis
      by (intro exI [of _ 0] exI [of _ bs]) (auto simp: run_set_0 word_less_nat_alt)
  next
    case True
    have ffb: "unat (of_int ffb :: u64) = nat ffb" "nat ffb < bm_size bs"
      using True "1.prems" by (simp_all add: unsigned_of_int take_bit_int_eq_self nat_less_iff)
    have step: "ext2_set_bit_atomic K (of_int ffb) bs =
        Some (bm_bit bs (nat ffb), bm_set (nat ffb) bs)"
      using set_bitD [OF "1.prems"(1), of "of_int ffb" bs] ffb by simp
    show ?thesis
    proof (cases "bm_bit bs (nat ffb)")
      case old: True
      then have num: "num \<noteq> 0" using "1.prems"(5) True by auto
      have id: "bm_set (nat ffb) bs = bs"
        by (rule bm_set_same [OF ffb(2) old])
      have "alloc_loop K count nb num ffb bs = Some (num, ffb, bs)"
        using True old num id step by (subst alloc_loop.simps) simp
      with old show ?thesis
        by (intro exI [of _ 0] exI [of _ bs]) (auto simp: run_set_0)
    next
      case new: False
      let ?bs = "bm_set (nat ffb) bs"
      have num1: "unat (num + 1) = unat num + 1"
        using True unat_less_64 [of count]
        by (subst unat_add_64) (auto simp: word_less_nat_alt)
      obtain k cs where IH: "alloc_loop K count nb (num + 1) (ffb + 1) ?bs =
            Some (num + 1 + of_nat k, ffb + 1 + int k, cs)"
          "run_set ?bs (nat (ffb + 1)) k cs"
          "k = 0 \<or> unat (num + 1) + k \<le> unat count \<and> ffb + 1 + int k \<le> nb"
          "unat count \<le> unat (num + 1) + k \<or> nb \<le> ffb + 1 + int k \<or> bm_bit ?bs (nat (ffb + 1) + k)"
        using "1.IH"(2) [OF True step refl new] "1.prems" num1 by auto
      have s: "nat (ffb + 1) = Suc (nat ffb)" using "1.prems"(2) by simp
      have "alloc_loop K count nb num ffb bs = Some (num + of_nat (Suc k), ffb + int (Suc k), cs)"
        using True new step IH(1) by (subst alloc_loop.simps) (simp add: algebra_simps)
      moreover have "run_set bs (nat ffb) (Suc k) cs"
        using run_set_Suc [OF new ffb(2)] IH(2) s by simp
      moreover have "unat num + Suc k \<le> unat count \<and> ffb + int (Suc k) \<le> nb"
        using IH(3) num1 True by (auto simp: word_less_nat_alt)
      moreover have "unat count \<le> unat num + Suc k \<or> nb \<le> ffb + int (Suc k) \<or>
          bm_bit bs (nat ffb + Suc k)"
        using IH(4) num1 s ffb(2) by (auto simp: bm_bit_set)
      ultimately show ?thesis by blast
    qed
  qed
qed

section \<open>Allocation in one group\<close>

text \<open>The first clear bit the scan finds: it starts at \<open>group_first s g\<close>, as the code does.\<close>

definition scan_hit :: "ext2_fs \<Rightarrow> nat \<Rightarrow> byte list \<Rightarrow> nat \<Rightarrow> bool" where
  "scan_hit s g bs r \<longleftrightarrow> group_first s g \<le> r \<and> r < group_blocks s g \<and> \<not> bm_bit bs r \<and>
     (\<forall>i. group_first s g \<le> i \<and> i < r \<longrightarrow> bm_bit bs i)"

definition scan_full :: "ext2_fs \<Rightarrow> nat \<Rightarrow> byte list \<Rightarrow> bool" where
  "scan_full s g bs \<longleftrightarrow> (\<forall>i. group_first s g \<le> i \<and> i < group_blocks s g \<longrightarrow> bm_bit bs i)"

lemma scan_cases:
  obtains (full) "scan_full s g bs" | (hit) r where "scan_hit s g bs r"
proof (cases "scan_full s g bs")
  case False
  then have "\<exists>i. group_first s g \<le> i \<and> i < group_blocks s g \<and> \<not> bm_bit bs i"
    by (auto simp: scan_full_def)
  then obtain r where "group_first s g \<le> r \<and> r < group_blocks s g \<and> \<not> bm_bit bs r"
      "\<forall>j < r. \<not> (group_first s g \<le> j \<and> j < group_blocks s g \<and> \<not> bm_bit bs j)"
    unfolding exists_least_iff [of "\<lambda>i. group_first s g \<le> i \<and> i < group_blocks s g \<and> \<not> bm_bit bs i"]
    by blast
  then have "scan_hit s g bs r" by (auto simp: scan_hit_def)
  then show ?thesis by (rule hit)
qed (rule full)

lemma unat_scast_small:
  assumes "unat (w :: s32) < 2 ^ 31"
  shows "unat (scast w :: u64) = unat w" and "sint w = int (unat w)"
proof -
  have "sint (of_nat (unat w) :: s32) = int (unat w)"
    "unat (scast (of_nat (unat w) :: s32) :: u64) = unat w"
    using assms by (simp_all add: signed_of_nat signed_take_bit_int_eq_self unsigned_of_nat
        take_bit_nat_eq_self del: of_nat_unat)
  then show "unat (scast w :: u64) = unat w" "sint w = int (unat w)" by simp_all
qed

lemma unat_scast_group:
  assumes "geom_ok s" "unat grp < n_groups s"
  shows "unat (scast (grp :: s32) :: u64) = unat grp"
  using assms descs_loadedD(4) [OF geom_okD(1) [OF assms(1)]] by (intro unat_scast_small) simp

text \<open>The scan's result as the code holds it, an \<^verbatim>\<open>int\<close>.\<close>

lemma scan_result:
  fixes grp :: s32
  assumes "geom_ok s" "unat grp < n_groups s" "bitops_ok K" "length bs = unat (sb_blocksize s)"
  defines "fz \<equiv> find_next_zero_bit_le K bs
      (scast (ucast (ext2_group_last_block_no s (scast grp) -
               ext2_group_first_block_no s (scast grp) + 1) :: s32))
      (ext2_group_first_block_no s (scast grp))"
  shows "scan_full s (unat grp) bs \<Longrightarrow> sint (ucast fz :: s32) = int (group_blocks s (unat grp))"
    and "scan_hit s (unat grp) bs r \<Longrightarrow> sint (ucast fz :: s32) = int r"
proof -
  let ?g = "unat grp"
  have g: "unat (scast grp :: u64) = ?g" by (rule unat_scast_group [OF assms(1,2)])
  note grp = assms(1) assms(2) [folded g]
  have size: "unat (scast (ucast (ext2_group_last_block_no s (scast grp) -
               ext2_group_first_block_no s (scast grp) + 1) :: s32) :: u64) = group_blocks s ?g"
    using sint_nblocks(2) [OF grp] g by simp
  have off: "unat (ext2_group_first_block_no s (scast grp)) = group_first s ?g"
    using unat_first_block_no [OF grp] g by simp
  have le: "group_blocks s ?g \<le> bm_size bs" "group_blocks s ?g \<le> 32768"
    using group_blocks_le_bpg [OF assms(1,2)] geom_okD(4,5) [OF assms(1)] assms(4)
    by (simp_all add: bm_size_def)
  note fz = find_zeroD [OF assms(3), where bs = bs and sz = "scast (ucast (ext2_group_last_block_no s (scast grp) -
               ext2_group_first_block_no s (scast grp) + 1) :: s32)"
      and off = "ext2_group_first_block_no s (scast grp)", unfolded size off, folded fz_def, OF le(1)]
  have small: "sint (ucast fz :: s32) = int (unat fz)"
  proof -
    have "fz = of_nat (unat fz)" by simp
    then have "(ucast fz :: s32) = of_nat (unat fz)" by (metis ucast_of_nat_32)
    then show ?thesis
      using fz(1) le(2) by (simp add: signed_of_nat signed_take_bit_int_eq_self del: of_nat_unat)
  qed
  show "sint (ucast fz :: s32) = int (group_blocks s ?g)" if "scan_full s ?g bs"
  proof -
    have "\<not> unat fz < group_blocks s ?g" using fz(2) that by (auto simp: scan_full_def)
    with fz(1) small show ?thesis by simp
  qed
  assume hit: "scan_hit s ?g bs r"
  have "\<not> unat fz < r" using hit fz(2) by (fastforce simp: scan_hit_def)
  moreover have "\<not> r < unat fz" using hit fz(3) [of r] by (auto simp: scan_hit_def)
  ultimately show "sint (ucast fz :: s32) = int r" unfolding small by simp
qed

text \<open>
  A group with no clear bit from its first block number on gets nothing, whatever \<open>num\<close>
  holds.
\<close>

lemma allocate_in_bg_full:
  assumes "geom_ok s" "unat grp < n_groups s" "bitops_ok K" "length bs = unat (sb_blocksize s)"
    and "scan_full s (unat grp) bs"
  shows "ext2_allocate_in_bg K junk s grp bs count = Some (-1, bs, count)"
proof -
  have g: "unat (scast grp :: u64) = unat grp" by (rule unat_scast_group [OF assms(1,2)])
  show ?thesis
    using scan_result(1) [OF assms(1-4) assms(5)]
      sint_nblocks(1) [OF assms(1), of "scast grp"] assms(2)
    by (simp add: ext2_allocate_in_bg_def Let_def g)
qed

text \<open>
  When \<open>num\<close> happens to start at 0, a group with a clear bit in reach hands out a run of
  at least one and at most \<^verbatim>\<open>*count\<close> blocks that starts at the first such bit, inside the
  group, and ends where it must.
\<close>

lemma allocate_in_bg_hit:
  assumes "geom_ok s" "unat grp < n_groups s" "bitops_ok K" "length bs = unat (sb_blocksize s)"
    and "scan_hit s (unat grp) bs r" "0 < unat count"
  shows "\<exists>k cs. ext2_allocate_in_bg K 0 s grp bs count = Some (int r, cs, of_nat k) \<and>
     run_set bs r k cs \<and> 0 < k \<and> k \<le> unat count \<and> r + k \<le> group_blocks s (unat grp) \<and>
     (k = unat count \<or> r + k = group_blocks s (unat grp) \<or> bm_bit bs (r + k))"
proof -
  let ?n = "group_blocks s (unat grp)"
  have g: "unat (scast grp :: u64) = unat grp" by (rule unat_scast_group [OF assms(1,2)])
  have r: "group_first s (unat grp) \<le> r" "r < ?n" "\<not> bm_bit bs r"
    using assms(5) by (auto simp: scan_hit_def)
  have le: "?n \<le> bm_size bs" "?n \<le> 32768"
    using group_blocks_le_bpg [OF assms(1,2)] geom_okD(4,5) [OF assms(1)] assms(4)
    by (simp_all add: bm_size_def)
  obtain k cs where loop: "alloc_loop K count (int ?n) 0 (int r) bs = Some (of_nat k, int r + int k, cs)"
      "run_set bs r k cs" "k = 0 \<or> k \<le> unat count \<and> r + k \<le> ?n"
      "unat count \<le> k \<or> ?n \<le> r + k \<or> bm_bit bs (r + k)"
    using alloc_loop_run [OF assms(3), of "int r" "int ?n" bs 0 count] r(3) le
    by (auto simp flip: of_nat_add)
  have k: "0 < k" "k \<le> unat count" "r + k \<le> ?n"
    using loop(3,4) r assms(6) by (cases k; auto)+
  then have "k < 2 ^ 64" using le(2) by simp
  then have "(of_nat k :: u64) \<noteq> 0"
    using k(1) by (metis unat_of_nat_64 unat_0 less_numeral_extra(3))
  moreover have "sint (ucast (of_int (int r + int k) - of_nat k :: u64) :: s32) = int r"
    using r(2) le(2) by (simp add: ucast_of_nat_32 signed_of_nat signed_take_bit_int_eq_self)
  ultimately have "ext2_allocate_in_bg K 0 s grp bs count = Some (int r, cs, of_nat k)"
    using scan_result(2) [OF assms(1-5)] sint_nblocks(1) [OF assms(1), of "scast grp"] assms(2)
      r(2) loop(1)
    by (simp add: ext2_allocate_in_bg_def Let_def g)
  with loop k show ?thesis by (metis le_antisym)
qed

end
