(* ===== verification/Balloc_Inv.thy ===== *)
theory Balloc_Inv
  imports Balloc_Alloc
begin

text \<open>
  The accounting invariant of block allocation and the abstract view of the allocator as
  a set of used blocks. \<open>balloc_inv\<close> says that each group's free count is the number of
  clear bits of its bitmap, that the groups' bitmaps are different buffers of the right
  length, and that the file system's free-blocks counter is the sum of the counts.
  \<open>put_bitmap\<close> is the update both allocation and freeing end with; one lemma shows that it
  keeps the invariant.
\<close>

section \<open>Updating a descriptor\<close>

lemma gd_update_frame [simp]:
  "sb_flags (gd_update f p s) = sb_flags s"
  "sb_blocksize (gd_update f p s) = sb_blocksize s"
  "sb_blocksize_bits (gd_update f p s) = sb_blocksize_bits s"
  "sb_es (gd_update f p s) = sb_es s"
  "bcache (gd_update f p s) = bcache s"
  "bh_uptodate (gd_update f p s) = bh_uptodate s"
  "clock (gd_update f p s) = clock s"
  "n_groups (gd_update f p s) = n_groups s"
  "s_lock (sb_info (gd_update f p s)) = s_lock (sb_info s)"
  "s_mount_opt (sb_info (gd_update f p s)) = s_mount_opt (sb_info s)"
  "s_groups_count (sb_info (gd_update f p s)) = s_groups_count (sb_info s)"
  "s_blocks_per_group (sb_info (gd_update f p s)) = s_blocks_per_group (sb_info s)"
  "s_inodes_per_group (sb_info (gd_update f p s)) = s_inodes_per_group (sb_info s)"
  "s_desc_per_block (sb_info (gd_update f p s)) = s_desc_per_block (sb_info s)"
  "s_desc_per_block_bits (sb_info (gd_update f p s)) = s_desc_per_block_bits (sb_info s)"
  "s_itb_per_group (sb_info (gd_update f p s)) = s_itb_per_group (sb_info s)"
  "s_sb_block (sb_info (gd_update f p s)) = s_sb_block (sb_info s)"
  "s_first_ino (sb_info (gd_update f p s)) = s_first_ino (sb_info s)"
  "s_freeblocks_counter (sb_info (gd_update f p s)) = s_freeblocks_counter (sb_info s)"
  "s_freeinodes_counter (sb_info (gd_update f p s)) = s_freeinodes_counter (sb_info s)"
  "s_dirs_counter (sb_info (gd_update f p s)) = s_dirs_counter (sb_info s)"
  by (simp_all add: gd_update_def n_groups_def split: prod.splits)

lemma desc_ptr_of_frame [simp]: "desc_ptr_of (gd_update f p s) = desc_ptr_of s"
  by (simp add: desc_ptr_of_def fun_eq_iff)

lemma div_mod_eqI: "(g :: nat) div m = h div m \<Longrightarrow> g mod m = h mod m \<Longrightarrow> g = h"
  by (metis div_mult_mod_eq)

lemma desc_ptr_inj:
  "desc_ptr_of s g = desc_ptr_of s h \<longleftrightarrow> g = h"
  by (auto simp: desc_ptr_of_def intro: div_mod_eqI)

lemma gd_update_loaded:
  assumes "descs_loaded s" "g < n_groups s"
  shows "descs_loaded (gd_update f (desc_ptr_of s g) s)"
proof -
  let ?b = "s_desc_per_block_bits (sb_info s)"
  let ?k = "g div 2 ^ ?b"
  note k = desc_block_bound [OF assms]
  obtain ds where ds: "s_group_desc (sb_info s) ! ?k = Some ds" "length ds = 2 ^ ?b"
    using descs_loadedD(6) [OF assms(1) nth_mem [OF k]] by blast
  let ?ds' = "ds[g mod 2 ^ ?b := f (ds ! (g mod 2 ^ ?b))]"
  have upd: "s_group_desc (sb_info (gd_update f (desc_ptr_of s g) s)) =
      (s_group_desc (sb_info s))[?k := Some ?ds']"
    using ds by (simp add: gd_update_def desc_ptr_of_def)
  have "\<exists>ds. buf = Some ds \<and> length ds = 2 ^ ?b"
    if "buf \<in> set ((s_group_desc (sb_info s))[?k := Some ?ds'])" for buf
  proof (cases "buf = Some ?ds'")
    case False
    with that have "buf \<in> set (s_group_desc (sb_info s))"
      using set_update_subset_insert by fastforce
    then show ?thesis by (rule descs_loadedD(6) [OF assms(1)])
  qed (simp add: ds(2))
  then show ?thesis
    using descs_loadedD(1-5) [OF assms(1)] by (simp add: descs_loaded_def Let_def upd)
qed

lemma gd_at_update:
  assumes "descs_loaded s" "g < n_groups s" "h < n_groups s"
  shows "gd_at (gd_update f (desc_ptr_of s g) s) (desc_ptr_of s h) =
     Some (if h = g then f (desc_of s g) else desc_of s h)"
proof -
  let ?b = "s_desc_per_block_bits (sb_info s)"
  note k = desc_block_bound [OF assms(1,2)] desc_block_bound [OF assms(1,3)]
  obtain ds where ds: "s_group_desc (sb_info s) ! (g div 2 ^ ?b) = Some ds" "length ds = 2 ^ ?b"
    using descs_loadedD(6) [OF assms(1) nth_mem [OF k(1)]] by blast
  have "h mod 2 ^ ?b = g mod 2 ^ ?b \<longleftrightarrow> h = g" if "h div 2 ^ ?b = g div 2 ^ ?b"
    using that by (metis div_mult_mod_eq)
  with ds k gd_at_loaded [OF assms(1,3)] show ?thesis
    by (cases "h div 2 ^ ?b = g div 2 ^ ?b")
      (auto simp: gd_at_def gd_update_def desc_ptr_of_def desc_of_def nth_list_update)
qed

lemma desc_of_update:
  assumes "descs_loaded s" "g < n_groups s" "h < n_groups s"
  shows "desc_of (gd_update f (desc_ptr_of s g) s) h =
     (if h = g then f (desc_of s g) else desc_of s h)"
  using gd_at_update [OF assms, of f] by (simp add: desc_of_def [of "gd_update _ _ _"])

section \<open>The invariant\<close>

definition bitmap_blk :: "ext2_fs \<Rightarrow> nat \<Rightarrow> u64" where
  "bitmap_blk s g = ucast (bg_block_bitmap (desc_of s g))"

definition bitmap_of :: "ext2_fs \<Rightarrow> nat \<Rightarrow> byte list" where
  "bitmap_of s g = the (bcache s (bitmap_blk s g))"

definition n_free :: "byte list \<Rightarrow> nat \<Rightarrow> nat" where
  "n_free bs n = card {i. i < n \<and> \<not> bm_bit bs i}"

definition group_acct :: "ext2_fs \<Rightarrow> nat \<Rightarrow> bool" where
  "group_acct s g \<longleftrightarrow> bcache s (bitmap_blk s g) = Some (bitmap_of s g) \<and>
     length (bitmap_of s g) = unat (sb_blocksize s) \<and>
     unat (bg_free_blocks_count (desc_of s g)) = n_free (bitmap_of s g) (group_blocks s g)"

definition balloc_inv :: "ext2_fs \<Rightarrow> bool" where
  "balloc_inv s \<longleftrightarrow> geom_ok s \<and> (\<forall>g < n_groups s. group_acct s g) \<and>
     inj_on (bitmap_blk s) {..<n_groups s} \<and>
     s_freeblocks_counter (sb_info s) = int (total_of bg_free_blocks_count s)"

lemma balloc_invD:
  assumes "balloc_inv s"
  shows "geom_ok s" and "descs_loaded s" and "g < n_groups s \<Longrightarrow> group_acct s g"
    and "g < n_groups s \<Longrightarrow> bcache s (bitmap_blk s g) = Some (bitmap_of s g)"
    and "g < n_groups s \<Longrightarrow> length (bitmap_of s g) = unat (sb_blocksize s)"
    and "g < n_groups s \<Longrightarrow>
           unat (bg_free_blocks_count (desc_of s g)) = n_free (bitmap_of s g) (group_blocks s g)"
    and "g < n_groups s \<Longrightarrow> h < n_groups s \<Longrightarrow> bitmap_blk s g = bitmap_blk s h \<longleftrightarrow> g = h"
    and "s_freeblocks_counter (sb_info s) = int (total_of bg_free_blocks_count s)"
  using assms by (auto simp: balloc_inv_def group_acct_def geom_ok_def inj_on_def)

lemma group_blocks_le_size:
  assumes "balloc_inv s" "g < n_groups s"
  shows "group_blocks s g \<le> bm_size (bitmap_of s g)" and "group_blocks s g \<le> 32768"
  using group_blocks_le_bpg [OF balloc_invD(1) [OF assms(1)] assms(2)]
    geom_okD(4,5) [OF balloc_invD(1) [OF assms(1)]] balloc_invD(5) [OF assms]
  by (simp_all add: bm_size_def)

lemma n_free_le: "n_free bs n \<le> n"
proof -
  have "card {i. i < n \<and> \<not> bm_bit bs i} \<le> card {..<n}"
    by (rule card_mono) auto
  then show ?thesis by (simp add: n_free_def)
qed

lemma n_free_run_set:
  assumes "run_set bs r k cs" "r + k \<le> n"
  shows "n_free cs n + k = n_free bs n"
proof -
  have "{i. i < n \<and> \<not> bm_bit bs i} = {i. i < n \<and> \<not> bm_bit cs i} \<union> {r..<r + k}"
    "{i. i < n \<and> \<not> bm_bit cs i} \<inter> {r..<r + k} = {}"
    using assms by (auto simp: run_set_def)
  then show ?thesis by (simp add: n_free_def card_Un_disjoint)
qed

section \<open>States that differ in the error record only\<close>

definition alloc_frame :: "ext2_fs \<Rightarrow> ext2_fs \<Rightarrow> bool" where
  "alloc_frame s t \<longleftrightarrow> bcache t = bcache s \<and> (\<forall>b. bh_uptodate s b \<longrightarrow> bh_uptodate t b) \<and>
     sb_blocksize t = sb_blocksize s \<and>
     sb_blocksize_bits t = sb_blocksize_bits s \<and>
     sb_info t = (sb_info s)\<lparr>s_mount_state := s_mount_state (sb_info t)\<rparr> \<and>
     es_first_data_block (sb_es t) = es_first_data_block (sb_es s) \<and>
     es_blocks_count (sb_es t) = es_blocks_count (sb_es s) \<and>
     es_inodes_count (sb_es t) = es_inodes_count (sb_es s)"

lemma alloc_frame_refl [simp]: "alloc_frame s s"
  by (simp add: alloc_frame_def)

lemma alloc_frame_trans [trans]: "alloc_frame s t \<Longrightarrow> alloc_frame t u \<Longrightarrow> alloc_frame s u"
  by (cases "sb_info s"; cases "sb_info t"; cases "sb_info u") (auto simp: alloc_frame_def)

lemma alloc_frame_error: "alloc_frame s (error_result s)"
  using error_result_info [of s] by (simp add: alloc_frame_def)

lemma alloc_frame_uptodate:
  "alloc_frame s (s\<lparr>bh_uptodate := (bh_uptodate s)(b := True)\<rparr>)"
  by (simp add: alloc_frame_def)

lemma alloc_frame_bh: "alloc_frame s t \<Longrightarrow> bh_uptodate s b \<Longrightarrow> bh_uptodate t b"
  by (simp add: alloc_frame_def)

lemma alloc_frame_info:
  assumes "alloc_frame s t"
  shows "s_group_desc (sb_info t) = s_group_desc (sb_info s)"
    and "s_groups_count (sb_info t) = s_groups_count (sb_info s)"
    and "s_desc_per_block (sb_info t) = s_desc_per_block (sb_info s)"
    and "s_desc_per_block_bits (sb_info t) = s_desc_per_block_bits (sb_info s)"
    and "s_blocks_per_group (sb_info t) = s_blocks_per_group (sb_info s)"
    and "s_inodes_per_group (sb_info t) = s_inodes_per_group (sb_info s)"
    and "s_itb_per_group (sb_info t) = s_itb_per_group (sb_info s)"
    and "s_lock (sb_info t) = s_lock (sb_info s)"
    and "s_mount_opt (sb_info t) = s_mount_opt (sb_info s)"
    and "s_first_ino (sb_info t) = s_first_ino (sb_info s)"
    and "s_sb_block (sb_info t) = s_sb_block (sb_info s)"
    and "s_freeblocks_counter (sb_info t) = s_freeblocks_counter (sb_info s)"
    and "s_freeinodes_counter (sb_info t) = s_freeinodes_counter (sb_info s)"
    and "s_dirs_counter (sb_info t) = s_dirs_counter (sb_info s)"
    and "bcache t = bcache s" and "sb_blocksize t = sb_blocksize s"
    and "sb_blocksize_bits t = sb_blocksize_bits s"
    and "es_first_data_block (sb_es t) = es_first_data_block (sb_es s)"
    and "es_blocks_count (sb_es t) = es_blocks_count (sb_es s)"
    and "es_inodes_count (sb_es t) = es_inodes_count (sb_es s)"
  using assms by (cases "sb_info s"; cases "sb_info t"; simp add: alloc_frame_def)+

lemma alloc_frame_views:
  assumes "alloc_frame s t"
  shows "gd_at t = gd_at s" "desc_of t = desc_of s" "n_groups t = n_groups s"
    "descs_loaded t = descs_loaded s" "bpg t = bpg s" "fdb t = fdb s"
    "total_blocks t = total_blocks s" "group_first t = group_first s"
    "group_blocks t = group_blocks s" "geom_ok t = geom_ok s" "bitmap_blk t = bitmap_blk s"
    "bitmap_of t = bitmap_of s" "total_of fld t = total_of fld s" "group_acct t = group_acct s"
    "balloc_inv t = balloc_inv s" "desc_ptr_of t = desc_ptr_of s"
proof -
  note i = alloc_frame_info [OF assms]
  show gd: "gd_at t = gd_at s" by (rule gd_at_cong) (simp add: i)
  show p: "desc_ptr_of t = desc_ptr_of s" by (simp add: desc_ptr_of_def i fun_eq_iff)
  show d: "desc_of t = desc_of s" by (simp add: desc_of_def gd p fun_eq_iff)
  show n: "n_groups t = n_groups s" by (simp add: n_groups_def i)
  show l: "descs_loaded t = descs_loaded s" by (simp add: descs_loaded_def Let_def n i)
  show b: "bpg t = bpg s" and f: "fdb t = fdb s" and tb: "total_blocks t = total_blocks s"
    by (simp_all add: bpg_def fdb_def total_blocks_def i)
  show gf: "group_first t = group_first s" by (simp add: group_first_def b f fun_eq_iff)
  show gb: "group_blocks t = group_blocks s"
    by (simp add: group_blocks_def n gf tb b fun_eq_iff)
  show g: "geom_ok t = geom_ok s" by (simp add: geom_ok_def l b f tb n i)
  show bb: "bitmap_blk t = bitmap_blk s" by (simp add: bitmap_blk_def d fun_eq_iff)
  show bo: "bitmap_of t = bitmap_of s" by (simp add: bitmap_of_def bb i fun_eq_iff)
  show tot: "total_of fld t = total_of fld s" for fld by (simp add: total_of_def d n)
  show ga: "group_acct t = group_acct s"
    by (simp add: group_acct_def bb bo d gb i fun_eq_iff)
  show "balloc_inv t = balloc_inv s" by (simp add: balloc_inv_def g ga n bb tot i)
qed

text \<open>An error that is reported and comes back.\<close>

lemma report_frame:
  assumes "descs_loaded s" "\<not> s_lock (sb_info s)" "report r s = Some (r', t)"
  shows "r' = r \<and> alloc_frame s t"
  using assms alloc_frame_error [of s]
  by (auto simp: report_def ext2_error_loaded split: if_splits)

lemma ext2_error_frame:
  assumes "descs_loaded s" "\<not> s_lock (sb_info s)" "ext2_error s = Some t"
  shows "alloc_frame s t"
  using assms alloc_frame_error [of s] by (auto simp: ext2_error_loaded split: if_splits)

end
