(* ===== verification/Balloc_Correct.thy ===== *)
theory Balloc_Correct
  imports Balloc_Inv
begin

text \<open>
  Correctness of block allocation: the update that ends allocation and freeing keeps the
  invariant, and on the abstract side, the set of used block numbers, an allocation adds a
  run of blocks that were free and freeing removes the blocks it is given.
\<close>

section \<open>Replacing a bitmap and adjusting the counts\<close>

definition put_bitmap :: "ext2_fs \<Rightarrow> nat \<Rightarrow> byte list \<Rightarrow> s32 \<Rightarrow> ext2_fs" where
  "put_bitmap s g bs \<delta> =
     (let s = s\<lparr>bcache := (bcache s)(bitmap_blk s g \<mapsto> bs)\<rparr>;
          s = group_update_free_blocks s (desc_ptr_of s g) \<delta>
      in s\<lparr>sb_info := (sb_info s)\<lparr>s_freeblocks_counter :=
             s_freeblocks_counter (sb_info s) + sint \<delta>\<rparr>\<rparr>)"

lemma desc_ptr_of_bcache [simp]: "desc_ptr_of (s\<lparr>bcache := c\<rparr>) = desc_ptr_of s"
  by (simp add: desc_ptr_of_def fun_eq_iff)

lemma group_update_frame [simp]:
  "bcache (group_update_free_blocks s p \<delta>) = bcache s"
  "sb_es (group_update_free_blocks s p \<delta>) = sb_es s"
  "sb_blocksize (group_update_free_blocks s p \<delta>) = sb_blocksize s"
  "n_groups (group_update_free_blocks s p \<delta>) = n_groups s"
  "s_lock (sb_info (group_update_free_blocks s p \<delta>)) = s_lock (sb_info s)"
  "s_blocks_per_group (sb_info (group_update_free_blocks s p \<delta>)) = s_blocks_per_group (sb_info s)"
  "s_freeblocks_counter (sb_info (group_update_free_blocks s p \<delta>)) = s_freeblocks_counter (sb_info s)"
  by (simp_all add: group_update_free_blocks_def)

lemma put_bitmap_frame [simp]:
  "bcache (put_bitmap s g bs \<delta>) = (bcache s)(bitmap_blk s g \<mapsto> bs)"
  "sb_es (put_bitmap s g bs \<delta>) = sb_es s"
  "sb_blocksize (put_bitmap s g bs \<delta>) = sb_blocksize s"
  "n_groups (put_bitmap s g bs \<delta>) = n_groups s"
  "s_lock (sb_info (put_bitmap s g bs \<delta>)) = s_lock (sb_info s)"
  "s_blocks_per_group (sb_info (put_bitmap s g bs \<delta>)) = s_blocks_per_group (sb_info s)"
  "s_freeblocks_counter (sb_info (put_bitmap s g bs \<delta>)) =
     s_freeblocks_counter (sb_info s) + sint \<delta>"
  by (simp_all add: put_bitmap_def Let_def)

lemma put_bitmap_views [simp]:
  "bpg (put_bitmap s g bs \<delta>) = bpg s"
  "fdb (put_bitmap s g bs \<delta>) = fdb s"
  "total_blocks (put_bitmap s g bs \<delta>) = total_blocks s"
  "group_first (put_bitmap s g bs \<delta>) = group_first s"
  "group_blocks (put_bitmap s g bs \<delta>) = group_blocks s"
  by (simp_all add: bpg_def fdb_def total_blocks_def group_first_def group_blocks_def fun_eq_iff)

lemma ucast_16_32_16 [simp]: "ucast (ucast (w :: u16) :: u32) = w"
  by (rule bit_word_eqI) (auto simp: bit_simps)

lemma gd_self_update [simp]: "d\<lparr>bg_free_blocks_count := bg_free_blocks_count d\<rparr> = d"
  by (cases d) simp

lemma desc_of_put_bitmap:
  assumes "descs_loaded s" "g < n_groups s" "h < n_groups s"
  shows "desc_of (put_bitmap s g bs \<delta>) h =
     (if h = g then (desc_of s g)\<lparr>bg_free_blocks_count :=
          ucast (ucast (bg_free_blocks_count (desc_of s g)) + \<delta> :: u32)\<rparr>
      else desc_of s h)"
proof (cases "\<delta> = 0")
  case True
  then show ?thesis by (simp add: put_bitmap_def group_update_free_blocks_def Let_def)
next
  case False
  let ?s = "s\<lparr>bcache := (bcache s)(bitmap_blk s g \<mapsto> bs)\<rparr>"
  have "desc_of (gd_update f (desc_ptr_of ?s g) ?s) h =
      (if h = g then f (desc_of ?s g) else desc_of ?s h)" for f
    using assms by (intro desc_of_update) simp_all
  with False show ?thesis
    by (simp add: put_bitmap_def group_update_free_blocks_def Let_def)
qed

lemma put_bitmap_loaded:
  assumes "descs_loaded s" "g < n_groups s"
  shows "descs_loaded (put_bitmap s g bs \<delta>)"
proof -
  let ?s = "s\<lparr>bcache := (bcache s)(bitmap_blk s g \<mapsto> bs)\<rparr>"
  have "descs_loaded (gd_update f (desc_ptr_of ?s g) ?s)" for f
    using assms by (intro gd_update_loaded) simp_all
  with assms show ?thesis
    by (simp add: put_bitmap_def group_update_free_blocks_def Let_def)
qed

lemma put_bitmap_geom:
  assumes "geom_ok s" "g < n_groups s"
  shows "geom_ok (put_bitmap s g bs \<delta>)"
  using assms put_bitmap_loaded by (simp add: geom_ok_def)

lemma put_bitmap_blk:
  assumes "descs_loaded s" "g < n_groups s" "h < n_groups s"
  shows "bitmap_blk (put_bitmap s g bs \<delta>) h = bitmap_blk s h"
  by (simp add: bitmap_blk_def desc_of_put_bitmap [OF assms])

lemma put_bitmap_bitmap:
  assumes "balloc_inv s" "g < n_groups s" "h < n_groups s"
  shows "bitmap_of (put_bitmap s g bs \<delta>) h = (if h = g then bs else bitmap_of s h)"
  using assms
  by (simp add: bitmap_of_def put_bitmap_blk balloc_invD(2) balloc_invD(7))

lemma count_update:
  assumes "int n' = int (unat (fc :: u16)) + sint (\<delta> :: s32)" "n' \<le> 32768"
  shows "unat (ucast (ucast fc + \<delta> :: u32) :: u16) = n'"
proof -
  have "(ucast fc :: u32) + \<delta> = of_int (int (unat fc)) + of_int (sint \<delta>)" by simp
  also have "... = of_nat n'" using assms(1) by (metis of_int_add of_int_of_nat_eq)
  finally have "(ucast (ucast fc + \<delta> :: u32) :: u16) = of_nat n'"
    by (simp only:) (rule bit_word_eqI, auto simp: bit_simps)
  then show ?thesis using assms(2) by (simp add: unsigned_of_nat take_bit_nat_eq_self)
qed

text \<open>
  The shared last step of allocation and freeing keeps the invariant when the change of
  the count is the change in the number of clear bits.
\<close>

lemma put_bitmap_inv:
  assumes inv: "balloc_inv s" and g: "g < n_groups s"
    and len: "length bs = unat (sb_blocksize s)"
    and \<delta>: "int (n_free bs (group_blocks s g)) =
           int (n_free (bitmap_of s g) (group_blocks s g)) + sint \<delta>"
  shows "balloc_inv (put_bitmap s g bs \<delta>)"
proof -
  let ?t = "put_bitmap s g bs \<delta>"
  note l = balloc_invD(2) [OF inv]
  have "n_free bs (group_blocks s g) \<le> 32768"
    using n_free_le group_blocks_le_size(2) [OF inv g] by (rule order.trans)
  then have fc: "unat (bg_free_blocks_count (desc_of ?t g)) = n_free bs (group_blocks s g)"
    using \<delta> balloc_invD(6) [OF inv g] by (simp add: desc_of_put_bitmap [OF l g g] count_update)
  have acct: "group_acct ?t h" if h: "h < n_groups s" for h
  proof (cases "h = g")
    case True
    then show ?thesis
      using fc len g by (simp add: group_acct_def put_bitmap_blk [OF l g]
          put_bitmap_bitmap [OF inv g])
  next
    case False
    have "bitmap_blk s h \<noteq> bitmap_blk s g" using False balloc_invD(7) [OF inv h g] by simp
    with False show ?thesis
      using balloc_invD(4-6) [OF inv h] h g
      by (simp add: group_acct_def put_bitmap_blk [OF l g] put_bitmap_bitmap [OF inv g]
          desc_of_put_bitmap [OF l g])
  qed
  have "int (total_of bg_free_blocks_count ?t) = int (total_of bg_free_blocks_count s) + sint \<delta>"
  proof -
    let ?F = "\<lambda>u i. int (unat (bg_free_blocks_count (desc_of u i)))"
    have split: "(\<Sum>i < n_groups s. ?F u i) = ?F u g + (\<Sum>i \<in> {..<n_groups s} - {g}. ?F u i)" for u
      using g by (intro sum.remove) simp_all
    have "(\<Sum>i \<in> {..<n_groups s} - {g}. ?F ?t i) = (\<Sum>i \<in> {..<n_groups s} - {g}. ?F s i)"
      by (rule sum.cong) (simp_all add: desc_of_put_bitmap [OF l g])
    then show ?thesis
      using split [of ?t] split [of s] fc \<delta> balloc_invD(6) [OF inv g]
      by (simp add: total_of_def)
  qed
  moreover have "inj_on (bitmap_blk ?t) {..<n_groups s}"
    using inv by (simp add: balloc_inv_def inj_on_def put_bitmap_blk [OF l g])
  ultimately show ?thesis
    using put_bitmap_geom [OF balloc_invD(1) [OF inv] g] acct balloc_invD(8) [OF inv]
    by (simp add: balloc_inv_def)
qed

section \<open>The abstract allocator: a set of used blocks\<close>

definition used_blocks :: "ext2_fs \<Rightarrow> nat set" where
  "used_blocks s = {b. \<exists>g i. g < n_groups s \<and> i < group_blocks s g \<and>
     bm_bit (bitmap_of s g) i \<and> b = group_first s g + i}"

lemma group_of_block:
  assumes "geom_ok s" "g < n_groups s" "i < group_blocks s g" "h < n_groups s" "j < group_blocks s h"
    "group_first s g + i = group_first s h + j"
  shows "g = h \<and> i = j"
proof -
  have "i < bpg s" "j < bpg s"
    using assms group_blocks_le_bpg [OF assms(1)] by fastforce+
  moreover have "g * bpg s + i = h * bpg s + j" using assms(6) by (simp add: group_first_def)
  moreover have "(g * bpg s + i) div bpg s = g" "(h * bpg s + j) div bpg s = h"
    using \<open>i < bpg s\<close> \<open>j < bpg s\<close> by simp_all
  ultimately have "g = h" by metis
  then show ?thesis using assms(6) by simp
qed

lemma used_block_iff:
  assumes "geom_ok s" "g < n_groups s" "i < group_blocks s g"
  shows "group_first s g + i \<in> used_blocks s \<longleftrightarrow> bm_bit (bitmap_of s g) i"
  using assms group_of_block [OF assms] by (auto simp: used_blocks_def)

lemma used_blocks_frame: "alloc_frame s t \<Longrightarrow> used_blocks t = used_blocks s"
  by (simp add: used_blocks_def alloc_frame_views)

lemma used_blocks_range:
  assumes "geom_ok s"
  shows "used_blocks s \<subseteq> {fdb s..<total_blocks s}"
proof
  fix b assume "b \<in> used_blocks s"
  then obtain g i where "g < n_groups s" "i < group_blocks s g" "b = group_first s g + i"
    by (auto simp: used_blocks_def)
  with group_end_le_total [OF assms, of g] show "b \<in> {fdb s..<total_blocks s}"
    by (simp add: group_first_def)
qed

lemma used_blocks_disjoint:
  assumes "balloc_inv s" "g < n_groups s" "run_set (bitmap_of s g) r k cs" "r + k \<le> group_blocks s g"
  shows "used_blocks s \<inter> {group_first s g + r..<group_first s g + r + k} = {}"
proof (rule ccontr)
  assume "used_blocks s \<inter> {group_first s g + r..<group_first s g + r + k} \<noteq> {}"
  then obtain b where b: "b \<in> used_blocks s" "group_first s g + r \<le> b" "b < group_first s g + r + k"
    by auto
  define i where "i = b - group_first s g"
  have i: "r \<le> i" "i < r + k" "group_first s g + i \<in> used_blocks s" using b by (auto simp: i_def)
  then have "bm_bit (bitmap_of s g) i"
    using used_block_iff [OF balloc_invD(1) [OF assms(1)] assms(2), of i] assms(4) by simp
  with i assms(3) show False by (simp add: run_set_def)
qed

lemma used_put_set:
  assumes "balloc_inv s" "g < n_groups s" "run_set (bitmap_of s g) r k cs" "r + k \<le> group_blocks s g"
  shows "used_blocks (put_bitmap s g cs \<delta>) =
           used_blocks s \<union> {group_first s g + r..<group_first s g + r + k}"
    and "used_blocks s \<inter> {group_first s g + r..<group_first s g + r + k} = {}"
proof -
  let ?run = "{group_first s g + r..<group_first s g + r + k}"
  have run: "b \<in> ?run \<longleftrightarrow> (\<exists>i. r \<le> i \<and> i < r + k \<and> b = group_first s g + i)" for b
    by (auto intro: exI [of _ "b - group_first s g"])
  have bm: "bitmap_of (put_bitmap s g cs \<delta>) h = (if h = g then cs else bitmap_of s h)"
    if "h < n_groups s" for h
    using put_bitmap_bitmap [OF assms(1,2) that] .
  have cs: "bm_bit cs i \<longleftrightarrow> bm_bit (bitmap_of s g) i \<or> (r \<le> i \<and> i < r + k)" for i
    using assms(3) by (simp add: run_set_def)
  show "used_blocks (put_bitmap s g cs \<delta>) = used_blocks s \<union> ?run"
  proof (rule set_eqI, rule iffI)
    fix b assume "b \<in> used_blocks (put_bitmap s g cs \<delta>)"
    then obtain h i where h: "h < n_groups s" "i < group_blocks s h" "b = group_first s h + i"
        "bm_bit (if h = g then cs else bitmap_of s h) i"
      by (auto simp: used_blocks_def bm)
    show "b \<in> used_blocks s \<union> ?run"
    proof (cases "h = g \<and> r \<le> i \<and> i < r + k")
      case True
      with h show ?thesis using run by blast
    next
      case False
      then have "bm_bit (bitmap_of s h) i" using h(4) cs by (auto split: if_splits)
      with h show ?thesis by (auto simp: used_blocks_def)
    qed
  next
    fix b assume b: "b \<in> used_blocks s \<union> ?run"
    have "\<exists>h i. h < n_groups s \<and> i < group_blocks s h \<and> b = group_first s h + i \<and>
        bm_bit (if h = g then cs else bitmap_of s h) i"
    proof (cases "b \<in> used_blocks s")
      case True
      then obtain h i where h: "h < n_groups s" "i < group_blocks s h" "b = group_first s h + i"
          "bm_bit (bitmap_of s h) i"
        by (auto simp: used_blocks_def)
      then have "bm_bit (if h = g then cs else bitmap_of s h) i" by (auto simp: cs)
      with h show ?thesis by blast
    next
      case False
      with b obtain i where i: "r \<le> i" "i < r + k" "b = group_first s g + i" using run by blast
      then have "i < group_blocks s g" "bm_bit (if g = g then cs else bitmap_of s g) i"
        using assms(4) by (simp_all add: cs)
      with i assms(2) show ?thesis by blast
    qed
    then show "b \<in> used_blocks (put_bitmap s g cs \<delta>)" by (auto simp: used_blocks_def bm)
  qed
  show "used_blocks s \<inter> ?run = {}" by (rule used_blocks_disjoint [OF assms])
qed

end
