(* ===== verification/Balloc_New.thy ===== *)
theory Balloc_New
  imports Balloc_Correct
begin

text \<open>
  \<^verbatim>\<open>ext2_new_blocks\<close>: reading a bitmap changes nothing but the error record, and the search
  over the groups either fails with the file system's bitmaps untouched or hands out a
  run of blocks that were free.
\<close>

lemma bitmap_valid_frame:
  assumes "descs_loaded s" "\<not> s_lock (sb_info s)"
    and "ext2_block_bitmap_valid K s d g bs = Some (ok, t)"
  shows "alloc_frame s t"
  using assms(3)
  by (auto simp: ext2_block_bitmap_valid_def Let_def bind_Some_iff
      dest!: report_frame [OF assms(1,2)] split: if_splits)

lemma read_block_bitmap_eq:
  assumes "descs_loaded s" "unat g < n_groups s"
  shows "ext2_read_block_bitmap K s g =
     (let blk = bitmap_blk s (unat g); d = desc_of s (unat g);
          u = s\<lparr>bh_uptodate := (bh_uptodate s)(blk := True)\<rparr>
      in if \<not> k_getblk K blk then report None s
         else if bh_uptodate s blk then Some (Some blk, s)
         else (case bcache s blk of None \<Rightarrow> report None s
           | Some bs \<Rightarrow> (case ext2_block_bitmap_valid K u d g bs of None \<Rightarrow> None
               | Some (ok, v) \<Rightarrow> if \<not> ok then report None v else Some (Some blk, v))))"
  by (simp add: ext2_read_block_bitmap_def get_group_desc_loaded [OF assms] gd_at_loaded [OF assms]
      bitmap_blk_def Let_def split: option.splits)

lemma read_block_bitmap_frame:
  assumes inv: "balloc_inv s" and g: "unat g < n_groups s"
    and run: "ext2_read_block_bitmap K s g = Some (r, t)"
  shows "alloc_frame s t \<and> (r = None \<or> r = Some (bitmap_blk s (unat g)))"
proof -
  note l = balloc_invD(2) [OF inv] and nl = geom_okD(2) [OF balloc_invD(1) [OF inv]]
  let ?blk = "bitmap_blk s (unat g)"
  let ?u = "s\<lparr>bh_uptodate := (bh_uptodate s)(?blk := True)\<rparr>"
  have u: "alloc_frame s ?u" by (rule alloc_frame_uptodate)
  have rep: "r'' = r' \<and> alloc_frame s t'"
    if "report r' v = Some (r'', t')" "alloc_frame s v" for r' :: "u64 option" and v r'' t'
    using report_frame [of v r' r'' t'] that l nl alloc_frame_trans [of s v t']
    by (simp add: alloc_frame_views alloc_frame_info)
  have valid: "alloc_frame s t'"
    if "ext2_block_bitmap_valid K ?u (desc_of s (unat g)) g bs = Some (ok, t')" for bs ok t'
    using bitmap_valid_frame [OF _ _ that] l nl alloc_frame_trans [OF u] by simp
  show ?thesis
    using run u
    by (auto simp: read_block_bitmap_eq [OF l g] Let_def dest: rep valid
        split: if_splits option.splits prod.splits)
qed

section \<open>One group\<close>

lemma next_group_less:
  assumes "descs_loaded s" "unat (g :: u32) < n_groups s"
  shows "unat (ucast ((ucast (g + 1) :: u64) mod s_groups_count (sb_info s)) :: u32) =
     (unat g + 1) mod n_groups s"
    and "unat (ucast ((ucast (g + 1) :: u64) mod s_groups_count (sb_info s)) :: u32) < n_groups s"
proof -
  have n: "0 < n_groups s" "n_groups s < 2 ^ 31" using descs_loadedD(3,4) [OF assms(1)] by auto
  have "unat (g + 1) = unat g + 1"
    using assms(2) n by (simp add: unat_word_ariths)
  then have "unat ((ucast (g + 1) :: u64) mod s_groups_count (sb_info s)) =
      (unat g + 1) mod n_groups s"
    by (simp add: unat_mod_distrib n_groups_def)
  moreover have "(unat g + 1) mod n_groups s < 2 ^ 31"
    using n(1) by (intro order.strict_trans [OF _ n(2)]) simp
  ultimately show *: "unat (ucast ((ucast (g + 1) :: u64) mod s_groups_count (sb_info s)) :: u32) =
     (unat g + 1) mod n_groups s"
    by (simp add: unsigned_ucast_eq take_bit_nat_eq_self)
  show "unat (ucast ((ucast (g + 1) :: u64) mod s_groups_count (sb_info s)) :: u32) < n_groups s"
    unfolding * using n by simp
qed

text \<open>
  What an allocation hands out: \<open>k\<close> blocks from \<open>b\<close> on, free before and used afterwards.
\<close>

definition granted :: "ext2_fs \<Rightarrow> nat \<Rightarrow> nat \<Rightarrow> ext2_fs \<Rightarrow> bool" where
  "granted s b k s' \<longleftrightarrow> balloc_inv s' \<and> used_blocks s' = used_blocks s \<union> {b..<b + k} \<and>
     used_blocks s \<inter> {b..<b + k} = {} \<and> fdb s \<le> b \<and> b + k \<le> total_blocks s \<and>
     s_freeblocks_counter (sb_info s') = s_freeblocks_counter (sb_info s) - int k"

lemma sint_neg_count:
  assumes "k \<le> 32768"
  shows "sint (ucast (- (of_nat k :: u64)) :: s32) = - int k" and "sint (of_nat k :: u64) = int k"
proof -
  have "(ucast (word_of_int i :: u64) :: s32) = word_of_int i" for i
    by (rule bit_word_eqI) (simp add: bit_simps)
  from this [of "- int k"] have "(ucast (- (of_nat k :: u64)) :: s32) = of_int (- int k)"
    by simp
  then show "sint (ucast (- (of_nat k :: u64)) :: s32) = - int k"
    using assms by (simp only:) (simp add: signed_of_int signed_take_bit_int_eq_self del: of_int_minus)
  show "sint (of_nat k :: u64) = int k"
    using assms by (simp add: signed_of_nat signed_take_bit_int_eq_self)
qed

lemma group_first_frame: "alloc_frame s t \<Longrightarrow> used_blocks t = used_blocks s \<and> fdb t = fdb s
    \<and> total_blocks t = total_blocks s \<and> group_first t = group_first s"
  by (simp add: used_blocks_frame alloc_frame_views)

text \<open>The last part of a successful round, from the state the bitmap was read in.\<close>

lemma grant_run:
  assumes inv: "balloc_inv s" and g: "g < n_groups s"
    and run: "run_set (bitmap_of s g) r k cs" and le: "r + k \<le> group_blocks s g"
  shows "granted s (group_first s g + r) k (put_bitmap s g cs (ucast (- (of_nat k :: u64))))"
proof -
  have k: "k \<le> 32768" using le group_blocks_le_size(2) [OF inv g] by simp
  have "int (n_free cs (group_blocks s g)) =
      int (n_free (bitmap_of s g) (group_blocks s g)) + sint (ucast (- (of_nat k :: u64)) :: s32)"
    using n_free_run_set [OF run le] by (simp add: sint_neg_count [OF k])
  moreover have "length cs = unat (sb_blocksize s)"
    using run balloc_invD(5) [OF inv g] by (simp add: run_set_def)
  ultimately have "balloc_inv (put_bitmap s g cs (ucast (- (of_nat k :: u64))))"
    by (intro put_bitmap_inv [OF inv g])
  then show ?thesis
    using used_put_set [OF inv g run le] group_end_le_total [OF balloc_invD(1) [OF inv] g] le
    by (simp add: granted_def sint_neg_count [OF k] group_first_def)
qed

lemma granted_frame:
  assumes "alloc_frame s t" "granted t b k u"
  shows "granted s b k u"
  using assms by (simp add: granted_def group_first_frame alloc_frame_info alloc_frame_views)

section \<open>The search over the groups\<close>

lemma first_block_bcache [simp]:
  "ext2_group_first_block_no (s\<lparr>bcache := c\<rparr>) = ext2_group_first_block_no s"
  by (simp add: ext2_group_first_block_no_def fun_eq_iff)

lemma put_bitmap_eq:
  "group_update_free_blocks (s\<lparr>bcache := (bcache s)(bitmap_blk s g \<mapsto> cs)\<rparr>) (desc_ptr_of s g) \<delta> = u \<Longrightarrow>
     u\<lparr>sb_info := (sb_info u)\<lparr>s_freeblocks_counter := s_freeblocks_counter (sb_info s) + sint \<delta>\<rparr>\<rparr>
     = put_bitmap s g cs \<delta>"
  by (auto simp: put_bitmap_def Let_def)

text \<open>The block number of a run that the scan of a group reports.\<close>

lemma reported_block:
  fixes g :: u32
  assumes "balloc_inv t" "unat g < n_groups t" "r + k \<le> group_blocks t (unat g)"
  shows "unat (of_nat r + ext2_group_first_block_no t (ucast g)) = group_first t (unat g) + r"
    "unat (of_nat k :: u64) = k" "k \<le> 32768"
proof -
  note geom = balloc_invD(1) [OF assms(1)]
  have "group_first t (unat g) + r < 2 ^ 64"
    using group_end_le_total [OF geom assms(2)] assms(3) total_blocks_less [of t] by simp
  then show "unat (of_nat r + ext2_group_first_block_no t (ucast g)) = group_first t (unat g) + r"
    using unat_first_block_no [OF geom, of "ucast g"] assms(2) by (simp add: unat_add_64 unat_of_nat_64)
  show k: "k \<le> 32768" using assms(3) group_blocks_le_size(2) [OF assms(1,2)] by simp
  then show "unat (of_nat k :: u64) = k" by (simp add: unat_of_nat_64)
qed

text \<open>One round of the loop over the groups: the group has no free block, its bitmap cannot be read,
  it has no room behind the goal, or a run of its blocks is granted.\<close>

lemma new_blocks_loop_round:
  assumes inv: "balloc_inv s" and K: "bitops_ok K" and c: "0 < unat count" and g: "unat g < n_groups s"
    and r: "new_blocks_loop K (\<lambda>_. 0) (bgi # bgis) g count s = Some ((b, errp, num), s')"
  defines "ng \<equiv> ucast ((ucast (g + 1) :: u64) mod s_groups_count (sb_info s)) :: u32"
  obtains t where "alloc_frame s t" "new_blocks_loop K (\<lambda>_. 0) bgis ng count t = Some ((b, errp, num), s')"
  | "errp = - EIO" "num = count" "b = 0" "alloc_frame s s'"
  | "errp = 0" "0 < unat num" "unat num \<le> unat count" "granted s (unat b) (unat num) s'"
proof -
  note l = balloc_invD(2) [OF inv]
  note run = r [simplified new_blocks_loop.simps Let_def
      get_group_desc_loaded [OF l g] bind.bind_lunit prod.case option.case gd_at_loaded [OF l g]]
  show thesis
  proof (cases "bg_free_blocks_count (desc_of s (unat g)) = 0")
    case True
    with run show thesis by (intro that(1) [OF alloc_frame_refl]) (simp add: ng_def)
  next
    case False
    then obtain bo t where t: "ext2_read_block_bitmap K s g = Some (bo, t)"
      using run by (auto simp: bind_Some_iff)
    note f = read_block_bitmap_frame [OF inv g t]
    show thesis
    proof (cases bo)
      case None
      with run False t f show thesis by (intro that(2)) auto
    next
      case (Some bh)
      with f have fr: "alloc_frame s t" and bh: "bh = bitmap_blk s (unat g)" by auto
      have tinv: "balloc_inv t" and gt: "unat g < n_groups t" and bh': "bh = bitmap_blk t (unat g)"
        and p: "desc_ptr_of s = desc_ptr_of t"
        using inv g bh by (simp_all add: alloc_frame_views [OF fr])
      note geom = balloc_invD(1) [OF tinv] and bm = balloc_invD(4,5) [OF tinv gt]
      note run' = run [simplified False t Some bh' bm(1) if_False bind.bind_lunit prod.case
          option.case]
      show thesis
      proof (cases rule: scan_cases [of t "unat g" "bitmap_of t (unat g)"])
        case full
        have same: "t\<lparr>bcache := (bcache t)(bitmap_blk t (unat g) \<mapsto> bitmap_of t (unat g))\<rparr> = t"
          using bm(1) by (simp add: fun_upd_idem)
        show thesis
          using run' by (intro that(1) [OF fr])
            (simp add: ng_def allocate_in_bg_full [OF geom gt K bm(2) full] same)
      next
        case (hit r)
        obtain k cs where al: "ext2_allocate_in_bg K 0 t g (bitmap_of t (unat g)) count =
              Some (int r, cs, of_nat k)"
          and k: "run_set (bitmap_of t (unat g)) r k cs" "0 < k" "k \<le> unat count"
            "r + k \<le> group_blocks t (unat g)"
          using allocate_in_bg_hit [OF geom gt K bm(2) hit c] by blast
        note rb = reported_block [OF tinv gt k(4)]
        have "b = of_int (int r) + ext2_group_first_block_no t (ucast g) \<and> errp = 0 \<and>
            num = of_nat k \<and>
            s' = put_bitmap t (unat g) cs (ucast (- (of_nat k :: u64)))"
          using run' by (auto simp: al put_bitmap_def Let_def p sint_neg_count [OF rb(3)])
        then show thesis
          using granted_frame [OF fr grant_run [OF tinv gt k(1,4)]] k rb(1,2) by (intro that(3)) simp_all
      qed
    qed
  qed
qed

lemma new_blocks_loop_result:
  assumes "balloc_inv s" "bitops_ok K" "0 < unat count" "unat g < n_groups s"
    and "new_blocks_loop K (\<lambda>_. 0) bgis g count s = Some ((b, errp, num), s')"
  shows "errp = 0 \<and> 0 < unat num \<and> unat num \<le> unat count \<and> granted s (unat b) (unat num) s' \<or>
     errp \<in> {- ENOSPC, - EIO} \<and> num = count \<and> b = 0 \<and> alloc_frame s s'"
  using assms
proof (induction bgis arbitrary: g s)
  case Nil
  then show ?case by simp
next
  case (Cons bgi bgis)
  note inv = Cons.prems(1) and g = Cons.prems(4)
  note ng = next_group_less(2) [OF balloc_invD(2) [OF inv] g]
  from Cons.prems show ?case
  proof (cases rule: new_blocks_loop_round)
    case (1 t)
    note v = alloc_frame_views [OF 1(1)]
    have "balloc_inv t" using inv by (simp add: v)
    from Cons.IH [OF this Cons.prems(2,3) _ 1(2)] ng show ?thesis
      using granted_frame [OF 1(1)] alloc_frame_trans [OF 1(1)] by (auto simp: v)
  qed auto
qed

section \<open>When the search succeeds\<close>

text \<open>Every bitmap buffer can be had and has been read before.\<close>

definition bitmaps_cached :: "kern \<Rightarrow> ext2_fs \<Rightarrow> bool" where
  "bitmaps_cached K s \<longleftrightarrow> (\<forall>g < n_groups s.
     k_getblk K (bitmap_blk s g) \<and> bh_uptodate s (bitmap_blk s g))"

lemma read_block_bitmap_cached:
  assumes "balloc_inv s" "bitmaps_cached K s" "unat g < n_groups s"
  shows "ext2_read_block_bitmap K s g = Some (Some (bitmap_blk s (unat g)), s)"
  using assms by (simp add: read_block_bitmap_eq [OF balloc_invD(2)] bitmaps_cached_def Let_def)

text \<open>The scan starts at the number of the group's first block, which only group 0 reaches.\<close>

lemma scan_full_beyond:
  assumes "geom_ok s" "0 < g" "g < n_groups s"
  shows "scan_full s g bs"
proof -
  have "bpg s \<le> g * bpg s" using assms(2) by (cases g) simp_all
  then have "group_blocks s g \<le> group_first s g"
    using group_blocks_le_bpg [OF assms(1,3)] unfolding group_first_def by linarith
  then show ?thesis by (auto simp: scan_full_def)
qed

lemma no_free_scan_full:
  assumes inv: "balloc_inv s" and g: "g < n_groups s"
    and z: "bg_free_blocks_count (desc_of s g) = 0"
  shows "scan_full s g (bitmap_of s g)"
proof -
  have "n_free (bitmap_of s g) (group_blocks s g) = 0"
    using balloc_invD(6) [OF inv g] z by simp
  then have "{i. i < group_blocks s g \<and> \<not> bm_bit (bitmap_of s g) i} = {}"
    by (simp add: n_free_def)
  then show ?thesis by (auto simp: scan_full_def)
qed

text \<open>
  With cached bitmaps a round over a group without a reachable clear bit moves on with the
  state as it is, and one over a group with such a bit ends the search.
\<close>

lemma new_blocks_round:
  assumes inv: "balloc_inv s" and c: "bitmaps_cached K s" and K: "bitops_ok K"
    and g: "unat g < n_groups s" and pos: "0 < unat count"
  shows "scan_full s (unat g) (bitmap_of s (unat g)) \<Longrightarrow>
      new_blocks_loop K (\<lambda>_. 0) (bgi # bgis) g count s =
      new_blocks_loop K (\<lambda>_. 0) bgis
        (ucast ((ucast (g + 1) :: u64) mod s_groups_count (sb_info s))) count s"
    and "scan_hit s (unat g) (bitmap_of s (unat g)) r \<Longrightarrow>
      \<exists>k cs. new_blocks_loop K (\<lambda>_. 0) (bgi # bgis) g count s =
          Some ((of_nat r + ext2_group_first_block_no s (ucast g), 0, of_nat k),
                put_bitmap s (unat g) cs (ucast (- (of_nat k :: u64)))) \<and>
        run_set (bitmap_of s (unat g)) r k cs \<and> 0 < k \<and> k \<le> unat count \<and>
        r + k \<le> group_blocks s (unat g)"
proof -
  note l = balloc_invD(2) [OF inv] and geom = balloc_invD(1) [OF inv]
    and bm = balloc_invD(4,5) [OF inv g]
  note simps = get_group_desc_loaded [OF l g] gd_at_loaded [OF l g]
    read_block_bitmap_cached [OF inv c g] bm(1)
  have same: "s\<lparr>bcache := (bcache s)(bitmap_blk s (unat g) \<mapsto> bitmap_of s (unat g))\<rparr> = s"
    using bm(1) by (simp add: fun_upd_idem)
  show "new_blocks_loop K (\<lambda>_. 0) (bgi # bgis) g count s =
      new_blocks_loop K (\<lambda>_. 0) bgis
        (ucast ((ucast (g + 1) :: u64) mod s_groups_count (sb_info s))) count s"
    if "scan_full s (unat g) (bitmap_of s (unat g))"
    by (simp add: simps allocate_in_bg_full [OF geom g K bm(2) that] same Let_def)
  assume hit: "scan_hit s (unat g) (bitmap_of s (unat g)) r"
  have nz: "bg_free_blocks_count (desc_of s (unat g)) \<noteq> 0"
    using no_free_scan_full [OF inv g] hit by (auto simp: scan_full_def scan_hit_def)
  obtain k cs where al: "ext2_allocate_in_bg K 0 s g (bitmap_of s (unat g)) count =
        Some (int r, cs, of_nat k)"
    and k: "run_set (bitmap_of s (unat g)) r k cs" "0 < k" "k \<le> unat count"
      "r + k \<le> group_blocks s (unat g)"
    using allocate_in_bg_hit [OF geom g K bm(2) hit pos] by blast
  have k': "k \<le> 32768" using k(4) group_blocks_le_size(2) [OF inv g] by simp
  have "new_blocks_loop K (\<lambda>_. 0) (bgi # bgis) g count s =
          Some ((of_nat r + ext2_group_first_block_no s (ucast g), 0, of_nat k),
                put_bitmap s (unat g) cs (ucast (- (of_nat k :: u64))))"
    using nz by (simp add: simps al Let_def put_bitmap_def sint_neg_count [OF k'])
  with k show "\<exists>k cs. new_blocks_loop K (\<lambda>_. 0) (bgi # bgis) g count s =
          Some ((of_nat r + ext2_group_first_block_no s (ucast g), 0, of_nat k),
                put_bitmap s (unat g) cs (ucast (- (of_nat k :: u64)))) \<and>
        run_set (bitmap_of s (unat g)) r k cs \<and> 0 < k \<and> k \<le> unat count \<and>
        r + k \<le> group_blocks s (unat g)" by blast
qed

lemma new_blocks_loop_full:
  assumes "balloc_inv s" "bitmaps_cached K s" "bitops_ok K" "0 < unat count"
    and "scan_full s 0 (bitmap_of s 0)" "unat g < n_groups s"
  shows "new_blocks_loop K (\<lambda>_. 0) bgis g count s = Some ((0, - ENOSPC, count), s)"
  using assms(6)
proof (induction bgis arbitrary: g)
  case (Cons bgi bgis)
  have "scan_full s (unat g) (bitmap_of s (unat g))"
    using assms(5) scan_full_beyond [OF balloc_invD(1) [OF assms(1)] _ Cons.prems]
    by (cases "unat g = 0") auto
  then show ?case
    using Cons.IH [OF next_group_less(2) [OF balloc_invD(2) [OF assms(1)] Cons.prems]]
    by (simp only: new_blocks_round(1) [OF assms(1-3) Cons.prems assms(4)])
qed simp

lemma new_blocks_loop_hit:
  assumes inv: "balloc_inv s" and "bitmaps_cached K s" "bitops_ok K" "0 < unat count"
    and hit: "scan_hit s 0 (bitmap_of s 0) r" and "unat g < n_groups s"
    and "(unat g + j) mod n_groups s = 0" "j < length bgis"
  shows "\<exists>k cs. new_blocks_loop K (\<lambda>_. 0) bgis g count s =
      Some ((of_nat r + ext2_group_first_block_no s 0, 0, of_nat k),
            put_bitmap s 0 cs (ucast (- (of_nat k :: u64)))) \<and>
    run_set (bitmap_of s 0) r k cs \<and> 0 < k \<and> k \<le> unat count \<and> r + k \<le> group_blocks s 0"
  using assms(6-8)
proof (induction bgis arbitrary: g j)
  case (Cons bgi bgis)
  note l = balloc_invD(2) [OF inv]
  note round = new_blocks_round [OF assms(1-3) Cons.prems(1) assms(4)]
  show ?case
  proof (cases "unat g = 0")
    case True
    then have "g = 0" by (simp add: unat_eq_zero)
    with hit round(2) [of r bgi bgis] show ?thesis by simp
  next
    case False
    have "j \<noteq> 0" using False Cons.prems(1,2) by (intro notI) simp
    then obtain j' where j: "j = Suc j'" by (cases j) auto
    note ng = next_group_less [OF l Cons.prems(1)]
    have "((unat g + 1) mod n_groups s + j') mod n_groups s = 0"
      using Cons.prems(2) by (simp add: j mod_add_left_eq)
    then have "\<exists>k cs. new_blocks_loop K (\<lambda>_. 0) bgis
        (ucast ((ucast (g + 1) :: u64) mod s_groups_count (sb_info s))) count s =
          Some ((of_nat r + ext2_group_first_block_no s 0, 0, of_nat k),
                put_bitmap s 0 cs (ucast (- (of_nat k :: u64)))) \<and>
        run_set (bitmap_of s 0) r k cs \<and> 0 < k \<and> k \<le> unat count \<and> r + k \<le> group_blocks s 0"
      using Cons.prems(3) j by (intro Cons.IH [OF ng(2), of j']) (simp_all only: ng(1), simp)
    then show ?thesis
      using scan_full_beyond [OF balloc_invD(1) [OF inv] _ Cons.prems(1)] False
      by (simp only: round(1))
  qed
qed simp

section \<open>The call with cached bitmaps\<close>

lemma cached_frame: "alloc_frame s t \<Longrightarrow> bitmaps_cached K s \<Longrightarrow> bitmaps_cached K t"
  by (simp add: bitmaps_cached_def alloc_frame_views alloc_frame_bh)

lemma put_bitmap_cached:
  assumes "balloc_inv s" "g < n_groups s" "bitmaps_cached K s"
  shows "bitmaps_cached K (put_bitmap s g cs \<delta>)"
proof -
  have "bh_uptodate (put_bitmap s g cs \<delta>) = bh_uptodate s"
    by (simp add: put_bitmap_def group_update_free_blocks_def Let_def)
  then show ?thesis
    using assms by (simp add: bitmaps_cached_def put_bitmap_blk balloc_invD(2))
qed

lemma put_bitmap_opt [simp]: "test_opt (put_bitmap s g cs \<delta>) = test_opt s"
  by (simp add: test_opt_def put_bitmap_def group_update_free_blocks_def Let_def fun_eq_iff)

definition counter_seen :: "kern \<Rightarrow> ext2_fs \<Rightarrow> u16" where
  "counter_seen K s = of_int (percpu_counter_read_positive K (s_freeblocks_counter (sb_info s)))"

lemma new_blocks_cached:
  assumes inv: "balloc_inv s" and c: "bitmaps_cached K s" and K: "bitops_ok K"
    and pos: "0 < unat count" and g: "unat g < n_groups s"
  shows "counter_seen K s \<noteq> 0 \<Longrightarrow> scan_hit s 0 (bitmap_of s 0) r \<Longrightarrow>
      \<exists>k cs. ext2_new_blocks K (\<lambda>_. 0) s g count =
        Some ((of_nat (group_first s 0 + r), 0, of_nat k),
              put_bitmap s 0 cs (ucast (- (of_nat k :: u64)))) \<and>
      run_set (bitmap_of s 0) r k cs \<and> 0 < k \<and> k \<le> unat count \<and> r + k \<le> group_blocks s 0"
    and "counter_seen K s = 0 \<or> scan_full s 0 (bitmap_of s 0) \<Longrightarrow>
      ext2_new_blocks K (\<lambda>_. 0) s g count = Some ((0, - ENOSPC, count), s)"
proof -
  note l = balloc_invD(2) [OF inv] and geom = balloc_invD(1) [OF inv]
  have n: "0 < n_groups s" using descs_loadedD(3) [OF l] .
  show "ext2_new_blocks K (\<lambda>_. 0) s g count = Some ((0, - ENOSPC, count), s)"
    if "counter_seen K s = 0 \<or> scan_full s 0 (bitmap_of s 0)"
    using that new_blocks_loop_full [OF inv c K pos _ g]
    by (auto simp: ext2_new_blocks_def counter_seen_def Let_def)
  assume nz: "counter_seen K s \<noteq> 0" and hit: "scan_hit s 0 (bitmap_of s 0) r"
  have j: "(unat g + (n_groups s - unat g) mod n_groups s) mod n_groups s = 0"
    using g by (simp add: mod_add_right_eq)
  then obtain k cs where
    run: "new_blocks_loop K (\<lambda>_. 0) [0..<n_groups s] g count s =
      Some ((of_nat r + ext2_group_first_block_no s 0, 0, of_nat k),
            put_bitmap s 0 cs (ucast (- (of_nat k :: u64))))"
    and k: "run_set (bitmap_of s 0) r k cs" "0 < k" "k \<le> unat count" "r + k \<le> group_blocks s 0"
    using new_blocks_loop_hit [OF inv c K pos hit g j, of "[0..<n_groups s]"] n by auto
  have "ext2_group_first_block_no s 0 = of_nat (group_first s 0)"
    by (simp add: ext2_group_first_block_no_def group_first_def fdb_def)
  moreover have "unat (of_nat k :: u64) = k"
    using k(3) unat_less_64 [of count] by (intro unat_of_nat_64) simp
  then have "(if (of_nat k :: u64) < count then of_nat k else count) = of_nat k"
    using k(3) by (simp add: word_less_nat_alt word_unat_eq_iff)
  ultimately show "\<exists>k cs. ext2_new_blocks K (\<lambda>_. 0) s g count =
        Some ((of_nat (group_first s 0 + r), 0, of_nat k),
              put_bitmap s 0 cs (ucast (- (of_nat k :: u64)))) \<and>
      run_set (bitmap_of s 0) r k cs \<and> 0 < k \<and> k \<le> unat count \<and> r + k \<le> group_blocks s 0"
    using nz run k
    by (intro exI [of _ k] exI [of _ cs])
      (simp add: ext2_new_blocks_def counter_seen_def Let_def add.commute)
qed

end
