(* ===== verification/Ext2_Example.thy ===== *)
theory Ext2_Example
  imports Balloc_New
begin

text \<open>
  A small file system for the witnesses: 64 blocks of 128 bytes from block 1 on, in two
  groups of 32 with eight inodes each. Each group starts with a copy of the superblock and
  of the descriptors, the block bitmap, the inode bitmap and eight blocks of inodes. Group 0
  also holds the first block of the root directory.
\<close>

definition ex_desc :: "nat \<Rightarrow> ext2_group_desc" where
  "ex_desc g = \<lparr> bg_block_bitmap = of_nat (32 * g + 3), bg_inode_bitmap = of_nat (32 * g + 4),
     bg_inode_table = of_nat (32 * g + 5),
     bg_free_blocks_count = (if g = 0 then 19 else 20),
     bg_free_inodes_count = (if g = 0 then 6 else 8),
     bg_used_dirs_count = (if g = 0 then 1 else 0), bg_pad = 0, bg_reserved = [0, 0, 0] \<rparr>"

definition ex_super :: ext2_super_block where
  "ex_super = \<lparr> es_inodes_count = 16, es_blocks_count = 65, es_r_blocks_count = 0,
     es_free_blocks_count = 39, es_free_inodes_count = 14, es_first_data_block = 1,
     es_log_block_size = 0, es_blocks_per_group = 32, es_inodes_per_group = 8, es_mtime = 0,
     es_wtime = 0, es_mnt_count = 1, es_magic = 0xEF53, es_state = 1, es_errors = 1,
     es_minor_rev_level = 0, es_lastcheck = 0, es_checkinterval = 0, es_creator_os = 0,
     es_rev_level = 1, es_def_resuid = 0, es_def_resgid = 0, es_first_ino = 3,
     es_inode_size = 128, es_block_group_nr = 0, es_feature_compat = 0,
     es_feature_incompat = 2, es_feature_ro_compat = 0, es_uuid = replicate 16 0,
     es_volume_name = '''', es_last_mounted = '''', es_default_mount_opts = 0,
     es_first_meta_bg = 0 \<rparr>"

definition ex_info :: ext2_sb_info where
  "ex_info = \<lparr> s_inodes_per_block = 1, s_blocks_per_group = 32, s_inodes_per_group = 8,
     s_itb_per_group = 8, s_gdb_count = 1, s_desc_per_block = 4, s_groups_count = 2,
     s_overhead_last = 0, s_blocks_last = 0,
     s_group_desc = [Some [ex_desc 0, ex_desc 1, ex_desc 2, ex_desc 3]],
     s_mount_opt = 0x10, s_sb_block = 1, s_mount_state = 1, s_addr_per_block_bits = 5,
     s_desc_per_block_bits = 2, s_inode_size = 128, s_first_ino = 3,
     s_freeblocks_counter = 39, s_freeinodes_counter = 14, s_dirs_counter = 1,
     s_lock = False \<rparr>"

definition ex_block :: "u64 \<Rightarrow> byte list option" where
  "ex_block b = Some (
     if b = 3 then [0xFF, 0x1F] @ replicate 126 0
     else if b = 4 then [0x03] @ replicate 127 0
     else if b = 35 then [0xFF, 0x0F] @ replicate 126 0
     else replicate 128 0)"

definition ex_fs :: ext2_fs where
  "ex_fs = \<lparr> sb_flags = 0, sb_blocksize = 128, sb_blocksize_bits = 7, sb_es = ex_super,
     sb_info = ex_info, bcache = ex_block, bh_uptodate = (\<lambda>_. True), clock = 0 \<rparr>"

lemma ex_fs_simps [simp]:
  "sb_flags ex_fs = 0" "sb_blocksize ex_fs = 128" "sb_blocksize_bits ex_fs = 7"
  "sb_es ex_fs = ex_super" "sb_info ex_fs = ex_info" "bcache ex_fs = ex_block"
  "bh_uptodate ex_fs = (\<lambda>_. True)"
  by (simp_all add: ex_fs_def)

lemma ex_info_simps [simp]:
  "s_inodes_per_block ex_info = 1" "s_blocks_per_group ex_info = 32"
  "s_inodes_per_group ex_info = 8" "s_itb_per_group ex_info = 8"
  "s_desc_per_block ex_info = 4" "s_groups_count ex_info = 2"
  "s_group_desc ex_info = [Some [ex_desc 0, ex_desc 1, ex_desc 2, ex_desc 3]]"
  "s_mount_opt ex_info = 0x10" "s_sb_block ex_info = 1" "s_desc_per_block_bits ex_info = 2"
  "s_first_ino ex_info = 3" "s_freeblocks_counter ex_info = 39"
  "s_freeinodes_counter ex_info = 14" "s_dirs_counter ex_info = 1" "s_lock ex_info = False"
  by (simp_all add: ex_info_def)

lemma ex_super_simps [simp]:
  "es_blocks_count ex_super = 65" "es_first_data_block ex_super = 1"
  "es_inodes_count ex_super = 16"
  by (simp_all add: ex_super_def)

lemma all_less_2: "(\<forall>g < (2 :: nat). P g) \<longleftrightarrow> P 0 \<and> P 1"
  by (auto simp: less_2_cases_iff)

lemma lessThan_2: "{..<2 :: nat} = {0, 1}"
  by auto

lemma ex_loaded [simp]: "descs_loaded ex_fs"
  by (simp add: descs_loaded_def n_groups_def)

lemma ex_views [simp]:
  "n_groups ex_fs = 2" "bpg ex_fs = 32" "fdb ex_fs = 1" "total_blocks ex_fs = 65"
  by (simp_all add: n_groups_def bpg_def fdb_def total_blocks_def)

lemma ex_geom [simp]: "geom_ok ex_fs"
  by (simp add: geom_ok_def)

lemma ex_desc_of [simp]: "desc_of ex_fs 0 = ex_desc 0" "desc_of ex_fs (Suc 0) = ex_desc 1"
  by (simp_all add: desc_of_def gd_at_def desc_ptr_of_def)

lemma ex_bitmap [simp]:
  "bitmap_blk ex_fs 0 = 3" "bitmap_blk ex_fs (Suc 0) = 35"
  "bitmap_of ex_fs 0 = [0xFF, 0x1F] @ replicate 126 0"
  "bitmap_of ex_fs (Suc 0) = [0xFF, 0x0F] @ replicate 126 0"
  by (simp_all add: bitmap_blk_def bitmap_of_def ex_desc_def ex_block_def)

lemma n_free_code: "n_free bs n = length (filter (\<lambda>i. \<not> bm_bit bs i) [0..<n])"
  by (simp add: n_free_def length_filter_conv_card cong: conj_cong)

lemma ex_n_free:
  "n_free ([0xFF, 0x1F] @ replicate 126 0) 32 = 19"
  "n_free ([0xFF, 0x0F] @ replicate 126 0) 32 = 20"
  by (simp_all add: n_free_code upt_rec bm_bit_def nth_append)

lemma ex_group_blocks [simp]: "group_blocks ex_fs 0 = 32" "group_blocks ex_fs (Suc 0) = 32"
  "group_first ex_fs 0 = 1" "group_first ex_fs (Suc 0) = 33"
  by (simp_all add: group_blocks_def group_first_def)

lemma ex_balloc_inv [simp]: "balloc_inv ex_fs"
proof -
  have "group_acct ex_fs 0" "group_acct ex_fs 1"
    by (simp_all add: group_acct_def ex_n_free [simplified] ex_block_def ex_desc_def)
  moreover have "inj_on (bitmap_blk ex_fs) {..<2}"
    by (auto simp: inj_on_def less_2_cases_iff)
  moreover have "total_of bg_free_blocks_count ex_fs = 39"
    by (simp add: total_of_def lessThan_2 ex_desc_def)
  ultimately show ?thesis
    by (simp add: balloc_inv_def all_less_2)
qed

end
