(* ===== verification/Balloc_Free.thy ===== *)
theory Balloc_Free
  imports Ext2_Example
begin

text \<open>
  \<^verbatim>\<open>ext2_free_blocks\<close>: the loop clears the bits of the run and counts those that were set,
  and the call as a whole takes a run inside one group out of the used blocks.
\<close>

section \<open>The loop over the bits\<close>

definition run_clear :: "byte list \<Rightarrow> nat set \<Rightarrow> byte list \<Rightarrow> bool" where
  "run_clear bs A cs \<longleftrightarrow> length cs = length bs \<and>
     (\<forall>i. bm_bit cs i \<longleftrightarrow> bm_bit bs i \<and> i \<notin> A)"

lemma run_clear_step:
  assumes "a < bm_size bs" "run_clear (bm_clear a bs) A cs"
  shows "run_clear bs (insert a A) cs"
  using assms by (auto simp: run_clear_def bm_bit_clear)

lemma empty_run [simp]: "{i. (x :: nat) \<le> i \<and> i < x \<and> P i} = {}"
  by auto

text \<open>Where the error handler does not panic, the loop ends whatever the bits are.\<close>

lemma free_bits_result:
  assumes "bitops_ok K" "descs_loaded s" "\<not> s_lock (sb_info s)"
    and "\<not> test_opt s EXT2_MOUNT_ERRORS_PANIC"
    and "unat bit0 + b \<le> bm_size bs" "bm_size bs < 2 ^ 32" "a \<le> b" "unat freed \<le> a"
  shows "\<exists>cs s'. free_bits K bit0 [a..<b] freed bs s =
       Some (freed + of_nat (card {i. unat bit0 + a \<le> i \<and> i < unat bit0 + b \<and> bm_bit bs i}), cs, s') \<and>
     run_clear bs {unat bit0 + a..<unat bit0 + b} cs \<and> alloc_frame s s'"
  using assms(2-)
proof (induction "b - a" arbitrary: a freed bs s)
  case 0
  then show ?case by (auto simp: run_clear_def)
next
  case (Suc n)
  note pre = Suc.prems and ab = \<open>Suc n = b - a\<close>
  let ?n = "unat bit0 + a"
  have upt: "[a..<b] = a # [Suc a..<b]" using ab by (simp add: upt_rec)
  have w: "unat (bit0 + of_nat a) = ?n"
    using pre(4,5) ab by (simp add: unat_add_64 unat_of_nat_64)
  have n: "?n < bm_size bs" using pre(4) ab by simp
  have ins: "{?n..<unat bit0 + b} = insert ?n {unat bit0 + Suc a..<unat bit0 + b}"
    using ab by auto
  let ?rest = "\<lambda>bs. {i. unat bit0 + Suc a \<le> i \<and> i < unat bit0 + b \<and> bm_bit bs i}"
  have fin: "finite (?rest bs)" for bs by simp
  have cl: "?rest (bm_clear ?n bs) = ?rest bs" using n by (auto simp: bm_bit_clear)
  have card: "card {i. ?n \<le> i \<and> i < unat bit0 + b \<and> bm_bit bs i} =
      (if bm_bit bs ?n then 1 else 0) + card (?rest bs)"
  proof -
    have "{i. ?n \<le> i \<and> i < unat bit0 + b \<and> bm_bit bs i} =
        (if bm_bit bs ?n then insert ?n (?rest bs) else ?rest bs)"
      using ab by (auto simp: le_less Suc_le_eq)
    then show ?thesis by simp
  qed
  define s1 where "s1 = (if bm_bit bs ?n then s else error_result s)"
  define f1 where "f1 = (if bm_bit bs ?n then freed + 1 else freed)"
  have fr: "alloc_frame s s1" using alloc_frame_error by (simp add: s1_def)
  have step: "free_bits K bit0 [a..<b] freed bs s =
      free_bits K bit0 [Suc a..<b] f1 (bm_clear ?n bs) s1"
    using clear_bitD [OF assms(1), of "bit0 + of_nat a" bs] n w pre(1-3)
    by (simp add: upt ext2_error_loaded s1_def f1_def)
  have "unat f1 \<le> Suc a"
    using pre(7) unat_plus_simple [of freed 1] by (auto simp: f1_def unat_word_ariths)
  then have "\<exists>cs s'. free_bits K bit0 [Suc a..<b] f1 (bm_clear ?n bs) s1 =
       Some (f1 + of_nat (card (?rest (bm_clear ?n bs))), cs, s') \<and>
     run_clear (bm_clear ?n bs) {unat bit0 + Suc a..<unat bit0 + b} cs \<and> alloc_frame s1 s'"
    using pre ab alloc_frame_views(4) [OF fr] alloc_frame_info(8,9) [OF fr]
    by (intro Suc.hyps(1)) (simp_all add: bm_size_def test_opt_def)
  then obtain cs s' where r: "free_bits K bit0 [Suc a..<b] f1 (bm_clear ?n bs) s1 =
       Some (f1 + of_nat (card (?rest bs)), cs, s')"
     "run_clear (bm_clear ?n bs) {unat bit0 + Suc a..<unat bit0 + b} cs" "alloc_frame s1 s'"
    unfolding cl by blast
  have "f1 + of_nat (card (?rest bs)) =
      freed + of_nat (card {i. ?n \<le> i \<and> i < unat bit0 + b \<and> bm_bit bs i})"
    by (simp add: card f1_def)
  then show ?case
    using r run_clear_step [OF n r(2)] alloc_frame_trans [OF fr r(3)] by (auto simp: step ins)
qed

lemma free_bits_append:
  "free_bits K bit0 (xs @ ys) f bs s = (do {
      (f, bs, s) \<leftarrow> free_bits K bit0 xs f bs s; free_bits K bit0 ys f bs s })"
proof (induction xs arbitrary: f bs s)
  case (Cons x xs)
  show ?case
    by (cases "ext2_clear_bit_atomic K (bit0 + of_nat x) bs"; cases "ext2_error s")
      (auto simp: Cons.IH)
qed simp

section \<open>Counts and used blocks\<close>

lemma n_free_run_clear:
  assumes "run_clear bs {a..<b} cs" "b \<le> n"
  shows "n_free cs n = n_free bs n + card {i. a \<le> i \<and> i < b \<and> bm_bit bs i}"
proof -
  have cs: "bm_bit cs i = (bm_bit bs i \<and> i \<notin> {a..<b})" for i
    using assms(1) by (simp add: run_clear_def)
  have "{i. i < n \<and> \<not> bm_bit cs i} =
      {i. i < n \<and> \<not> bm_bit bs i} \<union> {i. a \<le> i \<and> i < b \<and> bm_bit bs i}"
    unfolding cs using assms(2) by auto
  moreover have "{i. i < n \<and> \<not> bm_bit bs i} \<inter> {i. a \<le> i \<and> i < b \<and> bm_bit bs i} = {}"
    by auto
  ultimately show ?thesis by (simp add: n_free_def card_Un_disjoint)
qed

lemma used_put_iff:
  assumes "balloc_inv s" "g < n_groups s" "h < n_groups s" "i < group_blocks s h"
  shows "group_first s h + i \<in> used_blocks (put_bitmap s g cs \<delta>) \<longleftrightarrow>
     (if h = g then bm_bit cs i else group_first s h + i \<in> used_blocks s)"
  using used_block_iff [where s = "put_bitmap s g cs \<delta>" and g = h and i = i,
      OF put_bitmap_geom [OF balloc_invD(1) [OF assms(1)] assms(2)]]
    used_block_iff [OF balloc_invD(1) [OF assms(1)] assms(3,4)] assms(3,4)
  by (simp add: put_bitmap_bitmap [OF assms(1-3)])

lemma used_blocksE:
  assumes "b \<in> used_blocks s"
  obtains h i where "h < n_groups s" "i < group_blocks s h" "b = group_first s h + i"
  using assms by (auto simp: used_blocks_def)

lemma run_in_group:
  assumes "geom_ok s" "g < n_groups s" "b \<le> group_blocks s g"
    and "h < n_groups s" "i < group_blocks s h"
  shows "group_first s h + i \<in> {group_first s g + a..<group_first s g + b} \<longleftrightarrow> h = g \<and> a \<le> i \<and> i < b"
proof
  assume r: "group_first s h + i \<in> {group_first s g + a..<group_first s g + b}"
  define j where "j = group_first s h + i - group_first s g"
  with r have j: "a \<le> j" "j < b" "group_first s h + i = group_first s g + j"
    by (simp_all, linarith+)
  show "h = g \<and> a \<le> i \<and> i < b"
    using j group_of_block [OF assms(1,4,5,2), of j] assms(3) by simp
qed auto

lemma used_put_clear:
  assumes inv: "balloc_inv s" and g: "g < n_groups s"
    and cl: "run_clear (bitmap_of s g) {a..<b} cs" and b: "b \<le> group_blocks s g"
  shows "used_blocks (put_bitmap s g cs \<delta>) =
           used_blocks s - {group_first s g + a..<group_first s g + b}"
proof (rule set_eqI)
  fix x
  note geom = balloc_invD(1) [OF inv]
  have in_group: "x \<in> used_blocks (put_bitmap s g cs \<delta>) \<longleftrightarrow>
      x \<in> used_blocks s - {group_first s g + a..<group_first s g + b}"
    if "h < n_groups s" "i < group_blocks s h" "x = group_first s h + i" for h i
    using used_put_iff [OF inv g that(1,2)] run_in_group [OF geom g b that(1,2)] cl
      used_block_iff [OF geom that(1,2)] by (auto simp: that(3) run_clear_def)
  have "\<exists>h i. h < n_groups s \<and> i < group_blocks s h \<and> x = group_first s h + i"
    if "x \<in> used_blocks (put_bitmap s g cs \<delta>) \<or> x \<in> used_blocks s"
    using that by (auto elim!: used_blocksE)
  with in_group show "x \<in> used_blocks (put_bitmap s g cs \<delta>) \<longleftrightarrow>
      x \<in> used_blocks s - {group_first s g + a..<group_first s g + b}" by blast
qed

lemma card_used_run:
  assumes inv: "balloc_inv s" and g: "g < n_groups s" and b: "b \<le> group_blocks s g"
  shows "card (used_blocks s \<inter> {group_first s g + a..<group_first s g + b}) =
     card {i. a \<le> i \<and> i < b \<and> bm_bit (bitmap_of s g) i}"
proof -
  have "used_blocks s \<inter> {group_first s g + a..<group_first s g + b} =
      (\<lambda>i. group_first s g + i) ` {i. a \<le> i \<and> i < b \<and> bm_bit (bitmap_of s g) i}"
  proof (rule set_eqI)
    fix x
    show "x \<in> used_blocks s \<inter> {group_first s g + a..<group_first s g + b} \<longleftrightarrow>
        x \<in> (\<lambda>i. group_first s g + i) ` {i. a \<le> i \<and> i < b \<and> bm_bit (bitmap_of s g) i}"
    proof (cases "x \<in> {group_first s g + a..<group_first s g + b}")
      case True
      define i where "i = x - group_first s g"
      with True have i: "x = group_first s g + i" "a \<le> i" "i < b"
        by (simp_all, linarith+)
      with b used_block_iff [OF balloc_invD(1) [OF inv] g, of i] True show ?thesis by auto
    qed auto
  qed
  then show ?thesis by (simp add: card_image inj_on_def)
qed

section \<open>The whole call\<close>

lemma block_position:
  assumes geom: "geom_ok s" and g: "g < n_groups s" and r: "r < group_blocks s g"
    and block: "unat block = group_first s g + r"
  shows "(ucast ((block - ucast (es_first_data_block (sb_es s))) div s_blocks_per_group (sb_info s)) :: u32)
      = of_nat g"
    and "unat ((block - ucast (es_first_data_block (sb_es s))) mod s_blocks_per_group (sb_info s)) = r"
    and "unat (of_nat g :: u32) = g" and "s_blocks_per_group (sb_info s) \<noteq> 0"
proof -
  have rb: "r < bpg s" using r group_blocks_le_bpg [OF geom g] by simp
  have rel: "unat (block - ucast (es_first_data_block (sb_es s))) = g * bpg s + r"
    using block by (simp add: unat_sub_64 group_first_def fdb_def)
  have "unat ((block - ucast (es_first_data_block (sb_es s))) div s_blocks_per_group (sb_info s)) = g"
    using rb by (simp only: unat_div_distrib rel bpg_def [symmetric]) simp
  then have "(block - ucast (es_first_data_block (sb_es s))) div s_blocks_per_group (sb_info s) = of_nat g"
    by (metis of_nat_unat ucast_id)
  then show "(ucast ((block - ucast (es_first_data_block (sb_es s))) div s_blocks_per_group (sb_info s)) :: u32)
      = of_nat g" by (simp only: ucast_of_nat_32)
  show "unat ((block - ucast (es_first_data_block (sb_es s))) mod s_blocks_per_group (sb_info s)) = r"
    using rb by (simp only: unat_mod_distrib rel bpg_def [symmetric]) simp
  show "unat (of_nat g :: u32) = g"
    using g descs_loadedD(4) [OF geom_okD(1) [OF geom]] by (simp add: unat_of_nat)
  show "s_blocks_per_group (sb_info s) \<noteq> 0"
    using geom_okD(3) [OF geom] by (auto simp: bpg_def)
qed

lemma sint_small_32:
  assumes "k \<le> 32768"
  shows "sint (of_nat k :: s32) = int k" "uint (of_nat k :: s32) = int k"
  using assms by (simp_all add: signed_of_nat signed_take_bit_int_eq_self unsigned_of_nat
      take_bit_nat_eq_self uint_nat)

text \<open>
  What freeing does to the file system: the run leaves the used blocks, and the counter
  grows by the number of blocks of the run that were in use.
\<close>

definition released :: "ext2_fs \<Rightarrow> nat \<Rightarrow> nat \<Rightarrow> ext2_fs \<Rightarrow> bool" where
  "released s b k s' \<longleftrightarrow> balloc_inv s' \<and> used_blocks s' = used_blocks s - {b..<b + k} \<and>
     s_freeblocks_counter (sb_info s') =
       s_freeblocks_counter (sb_info s) + int (card (used_blocks s \<inter> {b..<b + k}))"

lemma release_run:
  assumes inv: "balloc_inv s" and g: "g < n_groups s" and le: "r + k \<le> group_blocks s g"
    and cl: "run_clear (bitmap_of s g) {r..<r + k} cs"
  defines "f \<equiv> card {i. r \<le> i \<and> i < r + k \<and> bm_bit (bitmap_of s g) i}"
  shows "released s (group_first s g + r) k (put_bitmap s g cs (of_nat f))"
proof -
  have "f \<le> card {r..<r + k}" unfolding f_def by (rule card_mono) auto
  then have f: "f \<le> 32768" using le group_blocks_le_size(2) [OF inv g] by simp
  have "int (n_free cs (group_blocks s g)) =
      int (n_free (bitmap_of s g) (group_blocks s g)) + sint (of_nat f :: s32)"
    using n_free_run_clear [OF cl le] unfolding sint_small_32(1) [OF f] unfolding f_def by simp
  moreover have "length cs = unat (sb_blocksize s)"
    using cl balloc_invD(5) [OF inv g] by (simp add: run_clear_def)
  ultimately have "balloc_inv (put_bitmap s g cs (of_nat f))"
    by (intro put_bitmap_inv [OF inv g])
  moreover have "int (card (used_blocks s \<inter> {group_first s g + r..<group_first s g + r + k})) =
      sint (of_nat f :: s32)"
    using card_used_run [OF inv g le, of r] unfolding sint_small_32(1) [OF f] unfolding f_def
    by (simp add: add.assoc)
  ultimately show ?thesis
    using used_put_clear [OF inv g cl le] by (simp add: released_def add.assoc)
qed

lemma put_bitmap_0: "put_bitmap s g cs 0 = s\<lparr>bcache := (bcache s)(bitmap_blk s g \<mapsto> cs)\<rparr>"
  by (simp add: put_bitmap_def group_update_free_blocks_def)

lemma released_frame:
  assumes "alloc_frame s t" "released t b k u"
  shows "released s b k u"
  using assms by (simp add: released_def group_first_frame alloc_frame_info)

lemma blocks_valid_pos:
  assumes "ext2_data_blocks_valid s b c"
  shows "c \<noteq> 0"
proof
  assume "c = 0"
  with assms have "b \<le> b - 1" "\<not> b \<le> ucast (es_first_data_block (sb_es s))"
    by (simp_all add: ext2_data_blocks_valid_def Let_def not_less split: if_splits)
  then have "unat b \<le> unat (b - 1)" "0 < unat b" by (simp_all add: word_le_nat_alt)
  moreover have "unat (b - 1) = unat b - 1" using \<open>0 < unat b\<close> by (simp add: unat_sub_64)
  ultimately show False by simp
qed

lemma free_blocks_step:
  assumes inv: "balloc_inv s" and c: "bitmaps_cached K s" and g: "g < n_groups s"
    and r: "r < group_blocks s g" and block: "unat block = group_first s g + r"
    and v: "ext2_data_blocks_valid s block (ucast count)"
    and vbg: "ext2_data_blocks_valid_bg (desc_of s g) (sb_info s) block (ucast count)"
    and fb: "free_bits K ((block - ucast (es_first_data_block (sb_es s))) mod s_blocks_per_group (sb_info s))
        [0..<unat count] 0 (bitmap_of s g) s = Some (of_nat f, cs, t)" "alloc_frame s t" "f \<le> 32768"
  shows "ext2_free_blocks K s ib block count =
    Some (ib - (of_nat f * sb_blocksize s) div 512, put_bitmap t g cs (of_nat f))"
proof -
  note l = balloc_invD(2) [OF inv] and geom = balloc_invD(1) [OF inv]
  note pos = block_position [OF geom g r block]
  have g': "unat (of_nat g :: u32) < n_groups s" using g pos(3) by simp
  have fr: "bitmap_blk t = bitmap_blk s" "desc_ptr_of t = desc_ptr_of s" "sb_blocksize t = sb_blocksize s"
    using alloc_frame_views [OF fb(2)] alloc_frame_info [OF fb(2)] by simp_all
  have p: "ext2_get_group_desc ext2_error s (of_nat g) = Some (Some (desc_ptr_of s g), s)"
    using get_group_desc_loaded [OF l g'] unfolding pos(3) .
  have rd: "ext2_read_block_bitmap K s (of_nat g) = Some (Some (bitmap_blk s g), s)"
    using read_block_bitmap_cached [OF inv c g'] unfolding pos(3) .
  define u where "u = group_update_free_blocks (t\<lparr>bcache := (bcache t)(bitmap_blk t g \<mapsto> cs)\<rparr>)
                (desc_ptr_of t g) (of_nat f)"
  have step: "ext2_free_blocks K s ib block count =
     (if (of_nat f :: u32) \<noteq> 0
      then Some (ib - (ucast (of_nat f :: u32) * sb_blocksize u) div 512,
                u\<lparr>sb_info := (sb_info u)\<lparr>s_freeblocks_counter :=
                    s_freeblocks_counter (sb_info u) + uint (of_nat f :: u32)\<rparr>\<rparr>)
      else Some (ib, u))"
    unfolding ext2_free_blocks_def Let_def pos(1) rd p u_def
    using v vbg pos(4) by (simp add: rd p gd_at_loaded [OF l g] balloc_invD(4) [OF inv g] fb(1) fr)
  have f0: "(of_nat f :: u32) = 0 \<longleftrightarrow> f = 0"
    using sint_small_32(1) [OF fb(3)] by auto
  have uc: "(ucast (of_nat f :: u32) :: u64) = of_nat f"
    using fb(3) by (simp add: unsigned_of_nat take_bit_nat_eq_self)
  show ?thesis
  proof (cases "f = 0")
    case True
    then show ?thesis unfolding step u_def by (simp add: put_bitmap_0 group_update_free_blocks_def)
  next
    case False
    then show ?thesis unfolding step f0 uc u_def sint_small_32(2) [OF fb(3)] put_bitmap_def Let_def
        sint_small_32(1) [OF fb(3)]
      by (simp add: fr)
  qed
qed

lemma free_blocks_result:
  assumes inv: "balloc_inv s" and K: "bitops_ok K" and c: "bitmaps_cached K s"
    and np: "\<not> test_opt s EXT2_MOUNT_ERRORS_PANIC"
    and g: "g < n_groups s" and le: "r + unat count \<le> group_blocks s g"
    and block: "unat block = group_first s g + r"
    and v: "ext2_data_blocks_valid s block (ucast count)"
    and vbg: "ext2_data_blocks_valid_bg (desc_of s g) (sb_info s) block (ucast count)"
  shows "\<exists>s' t cs \<delta>. ext2_free_blocks K s ib block count =
       Some (ib - (of_nat (card (used_blocks s \<inter> {unat block..<unat block + unat count})) *
                   sb_blocksize s) div 512, s') \<and>
     released s (unat block) (unat count) s' \<and> alloc_frame s t \<and> s' = put_bitmap t g cs \<delta>"
proof -
  note l = balloc_invD(2) [OF inv] and geom = balloc_invD(1) [OF inv]
  let ?bm = "bitmap_of s g"
  let ?bit0 = "(block - ucast (es_first_data_block (sb_es s))) mod s_blocks_per_group (sb_info s)"
  have k: "unat count \<le> 32768" using le group_blocks_le_size(2) [OF inv g] by simp
  have "(ucast count :: u32) \<noteq> 0" by (rule blocks_valid_pos [OF v])
  then have cnt: "0 < unat count" by (auto simp: unat_gt_0)
  then have r: "r < group_blocks s g" using le by simp
  note pos = block_position [OF geom g r block]
  have size: "bm_size ?bm < 2 ^ 32" "unat ?bit0 + unat count \<le> bm_size ?bm"
    using balloc_invD(5) [OF inv g] geom_okD(6) [OF geom] le group_blocks_le_size(1) [OF inv g]
    by (simp_all add: bm_size_def pos(2))
  obtain f cs t where fd: "f = card {i. r \<le> i \<and> i < r + unat count \<and> bm_bit ?bm i}"
    and fb: "free_bits K ?bit0 [0..<unat count] 0 ?bm s = Some (of_nat f, cs, t)"
      "run_clear ?bm {r..<r + unat count} cs" "alloc_frame s t"
    using free_bits_result [OF K l geom_okD(2) [OF geom] np size(2,1), of 0 0]
    by (auto simp: pos(2))
  have fr: "bitmap_blk t = bitmap_blk s" "desc_ptr_of t = desc_ptr_of s"
    "balloc_inv t" "bitmap_of t = bitmap_of s" "group_blocks t = group_blocks s"
    "n_groups t = n_groups s" "group_first t = group_first s" "sb_blocksize t = sb_blocksize s"
    using alloc_frame_views [OF fb(3)] alloc_frame_info [OF fb(3)] inv by simp_all
  have "f \<le> card {r..<r + unat count}" unfolding fd by (rule card_mono) auto
  then have f: "f \<le> 32768" using k by simp
  let ?s' = "put_bitmap t g cs (of_nat f)"
  have rel: "released s (unat block) (unat count) ?s'"
    using released_frame [OF fb(3) release_run [of t g r "unat count" cs]] fb(2) g le fd
    by (simp add: fr block)
  have card: "card (used_blocks s \<inter> {unat block..<unat block + unat count}) = f"
    using card_used_run [OF inv g le, of r] by (simp add: block fd add.assoc)
  note free_blocks_step [OF inv c g r block v vbg fb(1,3) f, of ib]
  with rel card fb(3) show ?thesis by auto
qed

end
