(* ===== verification/Allocator.thy ===== *)
theory Allocator
  imports Prelude
begin

text \<open>
  The contract between block allocation and its clients. A client sees a set of used block
  numbers, a call that hands out a run of blocks, a call that takes one back and the runs
  that may be given back; the
  lemmas of the locale are what a client may conclude from the laws alone.
\<close>

definition run_of :: "nat \<times> nat \<Rightarrow> nat set" where
  "run_of r = {fst r..<fst r + snd r}"

fun allocs :: "('s \<Rightarrow> nat \<Rightarrow> (nat \<times> nat \<times> 's) option) \<Rightarrow> 's \<Rightarrow> nat list
    \<Rightarrow> ((nat \<times> nat) list \<times> 's) option" where
  "allocs alloc s [] = Some ([], s)"
| "allocs alloc s (n # ns) = do {
     (b, k, s) \<leftarrow> alloc s n;
     (rs, s) \<leftarrow> allocs alloc s ns;
     Some ((b, k) # rs, s) }"

fun releases :: "('s \<Rightarrow> nat \<Rightarrow> nat \<Rightarrow> 's option) \<Rightarrow> 's \<Rightarrow> (nat \<times> nat) list \<Rightarrow> 's option" where
  "releases release s [] = Some s"
| "releases release s ((b, k) # rs) = do { s \<leftarrow> release s b k; releases release s rs }"

fun runs_disjoint :: "(nat \<times> nat) list \<Rightarrow> bool" where
  "runs_disjoint [] = True"
| "runs_disjoint (r # rs) \<longleftrightarrow> run_of r \<inter> \<Union> (run_of ` set rs) = {} \<and> runs_disjoint rs"

locale block_allocator =
  fixes inv :: "'s \<Rightarrow> bool"
    and used :: "'s \<Rightarrow> nat set"
    and returnable :: "'s \<Rightarrow> nat \<Rightarrow> nat \<Rightarrow> bool"
    and alloc :: "'s \<Rightarrow> nat \<Rightarrow> (nat \<times> nat \<times> 's) option"
    and release :: "'s \<Rightarrow> nat \<Rightarrow> nat \<Rightarrow> 's option"
  assumes alloc_law: "inv s \<Longrightarrow> alloc s n = Some (b, k, s') \<Longrightarrow>
      inv s' \<and> 0 < k \<and> k \<le> n \<and> used s' = used s \<union> run_of (b, k) \<and> used s \<inter> run_of (b, k) = {} \<and>
      returnable s b k \<and> returnable s' = returnable s"
    and release_law: "inv s \<Longrightarrow> returnable s b k \<Longrightarrow>
      \<exists>s'. release s b k = Some s' \<and> inv s' \<and> used s' = used s - run_of (b, k) \<and>
        returnable s' = returnable s"
begin

abbreviation all_returnable :: "'s \<Rightarrow> (nat \<times> nat) list \<Rightarrow> bool" where
  "all_returnable s rs \<equiv> (\<forall>r \<in> set rs. returnable s (fst r) (snd r))"

lemma allocs_fresh:
  "inv s \<Longrightarrow> allocs alloc s ns = Some (rs, s') \<Longrightarrow>
     inv s' \<and> used s' = used s \<union> \<Union> (run_of ` set rs) \<and>
     used s \<inter> \<Union> (run_of ` set rs) = {} \<and> runs_disjoint rs \<and>
     all_returnable s rs \<and> returnable s' = returnable s"
proof (induction ns arbitrary: s rs)
  case (Cons n ns)
  from Cons.prems(2) obtain b k t qs where t: "alloc s n = Some (b, k, t)"
      "allocs alloc t ns = Some (qs, s')" "rs = (b, k) # qs"
    by (auto simp: bind_Some_iff)
  note a = alloc_law [OF Cons.prems(1) t(1)]
  then have "inv s' \<and> used s' = used t \<union> \<Union> (run_of ` set qs) \<and>
     used t \<inter> \<Union> (run_of ` set qs) = {} \<and> runs_disjoint qs \<and>
     all_returnable t qs \<and> returnable s' = returnable t"
    using Cons.IH [OF _ t(2)] by simp
  with a t(3) show ?case by (simp add: Un_assoc Int_Un_distrib Int_Un_distrib2)
qed simp

lemma allocs_length: "allocs alloc s ns = Some (rs, s') \<Longrightarrow> length rs = length ns"
  by (induction ns arbitrary: s rs) (auto simp: bind_Some_iff)

lemma releases_used:
  "inv s \<Longrightarrow> all_returnable s rs \<Longrightarrow> \<exists>s'. releases release s rs = Some s' \<and>
     inv s' \<and> used s' = used s - \<Union> (run_of ` set rs)"
proof (induction rs arbitrary: s)
  case (Cons r rs)
  obtain b k where r: "r = (b, k)" by (cases r)
  with release_law [OF Cons.prems(1), of b k] Cons.prems(2)
  obtain t where t: "release s b k = Some t" "inv t" "used t = used s - run_of (b, k)"
      "returnable t = returnable s"
    by auto
  with Cons.IH [of t] Cons.prems(2) r show ?case by (simp add: Diff_eq Int_assoc)
qed simp

text \<open>What was handed out can be taken back in any order, which restores the used blocks.\<close>

lemma allocs_releases:
  assumes "inv s" "allocs alloc s ns = Some (rs, t)" "set qs = set rs"
  shows "\<exists>u. releases release t qs = Some u \<and> inv u \<and> used u = used s"
proof -
  note a = allocs_fresh [OF assms(1,2)]
  then obtain u where "releases release t qs = Some u" "inv u" "used u = used t - \<Union> (run_of ` set qs)"
    using releases_used [of t qs] assms(3) by auto
  moreover from this a assms(3) have "used u = (used s \<union> \<Union> (run_of ` set rs)) - \<Union> (run_of ` set rs)"
    "used s \<inter> \<Union> (run_of ` set rs) = {}"
    by simp_all
  ultimately show ?thesis by (simp add: Un_Diff Diff_triv)
qed

end

end
