(* ===== verification/Balloc_Thms.thy ===== *)
theory Balloc_Thms
  imports Balloc_Free Allocator
begin

text \<open>
  The properties of block allocation. The uninitialised variable \<^verbatim>\<open>num\<close> of
  \<^verbatim>\<open>ext2_allocate_in_bg\<close> is the argument \<open>junk\<close>, its value at each visit of a group. The
  code works only when it happens to be 0 each time, which the properties state as the
  hypothesis \<open>num_zero junk\<close>; \<open>ext2_allocate_in_bg_junk\<close> shows what another value does.
\<close>

definition num_zero :: "(nat \<Rightarrow> u64) \<Rightarrow> bool" where
  "num_zero junk \<longleftrightarrow> (\<forall>i. junk i = 0)"

lemma num_zero_eq: "num_zero junk \<longleftrightarrow> junk = (\<lambda>_. 0)"
  by (auto simp: num_zero_def)

lemma num_zero_ref [simp]: "num_zero (\<lambda>_. 0)"
  by (simp add: num_zero_def)

lemma ext2_new_blocks_result:
  assumes "balloc_inv s" "bitops_ok K" "0 < unat count" "unat goal < n_groups s"
    and "ext2_new_blocks K (\<lambda>_. 0) s goal count = Some ((b, errp, num), s')"
  shows "errp = 0 \<and> 0 < unat num \<and> unat num \<le> unat count \<and> granted s (unat b) (unat num) s' \<or>
     errp \<in> {- ENOSPC, - EIO} \<and> num = count \<and> b = 0 \<and> alloc_frame s s'"
proof (cases "(of_int (percpu_counter_read_positive K (s_freeblocks_counter (sb_info s))) :: u16) = 0")
  case True
  with assms(5) show ?thesis by (auto simp: ext2_new_blocks_def)
next
  case False
  with assms(5) obtain num' where
    "new_blocks_loop K (\<lambda>_. 0) [0..<n_groups s] goal count s = Some ((b, errp, num'), s')"
    "num = (if errp = 0 \<and> num' < count then num' else count)"
    by (auto simp: ext2_new_blocks_def Let_def bind_Some_iff)
  with new_blocks_loop_result [OF assms(1-4) this(1)] show ?thesis
    by (auto simp: word_less_nat_alt)
qed

text \<open>
  C1: let the uninitialised \<^verbatim>\<open>num\<close> of \<^verbatim>\<open>ext2_allocate_in_bg\<close> start at 0. An allocation that
  succeeds hands out between one and \<^verbatim>\<open>*count\<close> blocks of the file system that were free,
  marks exactly these as used, takes their number off the free-blocks counter and keeps the
  counts of the groups in step with the bitmaps. One that fails reports \<^verbatim>\<open>-ENOSPC\<close> or
  \<^verbatim>\<open>-EIO\<close> and leaves the bytes of every buffer, the bitmaps, the group descriptors and the
  counters as they were; it may have marked buffers as read, and the report of a bad bitmap
  may have changed the mount flags and state and other fields of the superblock.
\<close>

theorem ext2_new_blocks_grants:
  assumes "num_zero junk" "balloc_inv s" "bitops_ok K" "0 < unat count" "unat goal < n_groups s"
    and "ext2_new_blocks K junk s goal count = Some ((b, errp, num), s')"
  shows "errp = 0 \<and> 0 < unat num \<and> unat num \<le> unat count \<and> granted s (unat b) (unat num) s' \<or>
     errp \<in> {- ENOSPC, - EIO} \<and> num = count \<and> b = 0 \<and> alloc_frame s s'"
  by (rule ext2_new_blocks_result [OF assms(2-5)]) (use assms(1,6) in \<open>simp add: num_zero_eq\<close>)

lemma bounded_all_code:
  "(\<forall>i. (a :: nat) \<le> i \<and> i < b \<longrightarrow> P i) \<longleftrightarrow> list_all P [a..<b]"
  by (auto simp: list_all_iff)

lemma ex_cached [simp]: "bitmaps_cached kern_ref ex_fs"
  by (simp add: bitmaps_cached_def kern_ref_def)

lemma ex_counter [simp]: "counter_seen kern_ref ex_fs = 39"
  by (simp add: counter_seen_def kern_ref_def)

lemma ex_hit: "scan_hit ex_fs 0 (bitmap_of ex_fs 0) 13"
  by (simp add: scan_hit_def bounded_all_code upt_rec bm_bit_def)

theorem ext2_new_blocks_grants_witness:
  "\<exists>b num s'. ext2_new_blocks kern_ref (\<lambda>_. 0) ex_fs 0 3 = Some ((b, 0, num), s') \<and>
     0 < unat num \<and> unat num \<le> 3 \<and> granted ex_fs (unat b) (unat num) s'"
proof -
  obtain b num s' where r: "ext2_new_blocks kern_ref (\<lambda>_. 0) ex_fs 0 3 = Some ((b, 0, num), s')"
    using new_blocks_cached(1) [OF ex_balloc_inv ex_cached kern_ref_ok _ _ _ ex_hit, of 3 0] by auto
  with ext2_new_blocks_grants [OF num_zero_ref ex_balloc_inv kern_ref_ok _ _ r] show ?thesis by auto
qed

text \<open>
  C2: when every group's bitmap has been read and the uninitialised \<^verbatim>\<open>num\<close> of
  \<^verbatim>\<open>ext2_allocate_in_bg\<close> starts at 0, an allocation always comes back, and it
  succeeds exactly when the low 16 bits of the free-blocks counter are not all zero and
  group 0 has a free block from its bit number \<^verbatim>\<open>s_first_data_block\<close> on. Free blocks of the
  other groups are never handed out, since their scan starts at the number of their first
  block, past the end of the group.
\<close>

theorem ext2_new_blocks_reach:
  assumes "num_zero junk" "balloc_inv s" "bitmaps_cached K s" "bitops_ok K" "0 < unat count"
    and "unat goal < n_groups s"
  shows "\<exists>b errp num s'. ext2_new_blocks K junk s goal count = Some ((b, errp, num), s') \<and>
     (errp = 0 \<longleftrightarrow> counter_seen K s \<noteq> 0 \<and>
        (\<exists>i. fdb s \<le> i \<and> i < group_blocks s 0 \<and> fdb s + i \<notin> used_blocks s))"
proof -
  have junk: "junk = (\<lambda>_. 0)" using assms(1) by (simp add: num_zero_eq)
  note r = new_blocks_cached [OF assms(2-6)]
  have n: "0 < n_groups s" using assms(6) by simp
  have free: "fdb s + i \<notin> used_blocks s \<longleftrightarrow> \<not> bm_bit (bitmap_of s 0) i"
    if "i < group_blocks s 0" for i
    using used_block_iff [OF balloc_invD(1) [OF assms(2)] n that] by (simp add: group_first_def)
  show ?thesis
  proof (cases rule: scan_cases [of s 0 "bitmap_of s 0"])
    case full
    then have "\<not> (\<exists>i. fdb s \<le> i \<and> i < group_blocks s 0 \<and> fdb s + i \<notin> used_blocks s)"
      using free by (auto simp: scan_full_def group_first_def)
    with r(2) full show ?thesis by (simp add: junk)
  next
    case (hit i)
    then have i: "\<exists>i. fdb s \<le> i \<and> i < group_blocks s 0 \<and> fdb s + i \<notin> used_blocks s"
      using free by (intro exI [of _ i]) (simp add: scan_hit_def group_first_def)
    show ?thesis
    proof (cases "counter_seen K s = 0")
      case True
      with r(2) show ?thesis by (simp add: junk)
    next
      case False
      obtain k cs where "ext2_new_blocks K (\<lambda>_. 0) s goal count =
        Some ((of_nat (group_first s 0 + i), 0, of_nat k),
              put_bitmap s 0 cs (ucast (- (of_nat k :: u64))))"
        using r(1) [OF False hit] by blast
      with False i show ?thesis by (simp add: junk)
    qed
  qed
qed

theorem ext2_new_blocks_reach_witness:
  "\<exists>b num s'. ext2_new_blocks kern_ref (\<lambda>_. 0) ex_fs 1 2 = Some ((b, 0, num), s')"
proof -
  have "fdb ex_fs + 13 \<notin> used_blocks ex_fs"
    using used_block_iff [OF ex_geom, of 0 13] by (simp add: bm_bit_def)
  then have "\<exists>i. fdb ex_fs \<le> i \<and> i < group_blocks ex_fs 0 \<and> fdb ex_fs + i \<notin> used_blocks ex_fs"
    by (intro exI [of _ 13]) simp
  then show ?thesis
    using ext2_new_blocks_reach [OF num_zero_ref ex_balloc_inv ex_cached kern_ref_ok, of 2 1] by auto
qed

text \<open>
  The 16-bit variable the free-blocks counter is read into makes a file system whose
  number of free blocks is a multiple of 65536 look full.
\<close>

theorem ext2_new_blocks_counter_wraps:
  assumes "percpu_exact K" "s_freeblocks_counter (sb_info s) = 65536 * m" "0 \<le> m"
  shows "ext2_new_blocks K junk s goal count = Some ((0, - ENOSPC, count), s)"
proof -
  have "percpu_counter_read_positive K (s_freeblocks_counter (sb_info s)) = 65536 * m"
    using assms by (simp add: percpu_exact_def)
  moreover have "(of_int (65536 * m) :: u16) = 0"
  proof -
    have "(65536 :: u16) = 0" by simp
    then show ?thesis by (simp only: of_int_mult of_int_numeral mult_zero_left)
  qed
  ultimately show ?thesis by (simp only: ext2_new_blocks_def Let_def) simp
qed

theorem ext2_new_blocks_counter_wraps_witness:
  "ext2_new_blocks kern_ref (\<lambda>_. 0)
     (ex_fs\<lparr>sb_info := ex_info\<lparr>s_freeblocks_counter := 65536\<rparr>\<rparr>) 0 1 =
   Some ((0, - ENOSPC, 1), ex_fs\<lparr>sb_info := ex_info\<lparr>s_freeblocks_counter := 65536\<rparr>\<rparr>)"
  by (rule ext2_new_blocks_counter_wraps [of _ _ 1]) simp_all

text \<open>
  C3: freeing a run of blocks that lies in one group and touches none of the group's
  metadata clears exactly these blocks, adds the number of them that were in use to the
  free-blocks counter (a block that was free already is reported and not counted), takes
  their size off the inode's block count and keeps the counts in step with the bitmaps.
\<close>

theorem ext2_free_blocks_releases:
  assumes "balloc_inv s" "bitops_ok K" "bitmaps_cached K s"
    and "\<not> test_opt s EXT2_MOUNT_ERRORS_PANIC"
    and "g < n_groups s" "r + unat count \<le> group_blocks s g" "unat block = group_first s g + r"
    and "ext2_data_blocks_valid s block (ucast count)"
    and "ext2_data_blocks_valid_bg (desc_of s g) (sb_info s) block (ucast count)"
  shows "\<exists>s'. ext2_free_blocks K s ib block count =
       Some (ib - (of_nat (card (used_blocks s \<inter> {unat block..<unat block + unat count})) *
                   sb_blocksize s) div 512, s') \<and>
     released s (unat block) (unat count) s'"
  using free_blocks_result [OF assms, of ib] by blast

lemma ex_free_valid:
  "ext2_data_blocks_valid ex_fs 13 2"
  "ext2_data_blocks_valid_bg (desc_of ex_fs 0) (sb_info ex_fs) 13 2"
  by (simp_all add: ext2_data_blocks_valid_def ext2_data_blocks_valid_bg_def in_range_def
      Let_def ex_desc_def word_le_nat_alt word_less_nat_alt)

text \<open>Block 13 is in use and block 14 is free: one block is released, one reported.\<close>

theorem ext2_free_blocks_releases_witness:
  "\<exists>s'. ext2_free_blocks kern_ref ex_fs 4 13 2 = Some (4, s') \<and> released ex_fs 13 2 s'"
proof -
  have run: "{13..<15 :: nat} = {13, 14}" by auto
  have "used_blocks ex_fs \<inter> {13..<15} = {13}"
    using used_block_iff [OF ex_geom, of 0 12] used_block_iff [OF ex_geom, of 0 13]
    by (simp add: bm_bit_def run)
  then show ?thesis
    using ext2_free_blocks_releases [OF ex_balloc_inv kern_ref_ok ex_cached, of 0 12 2 13 4]
      ex_free_valid by (simp add: test_opt_def)
qed

section \<open>The allocator as its clients see it\<close>

text \<open>
  A client's state: the kernel services, the values \<^verbatim>\<open>num\<close> starts with, the group the search
  starts in and the file system. \<open>alloc_of\<close> and \<open>release_of\<close> are the calls with the outcome
  a client can see.

  \<open>system_blocks\<close> are the blocks of the file system's own data: the first data block, the
  superblock and, for each group, the two bitmaps and the inode table. They must be in use
  for an allocation to stay clear of them. A run is \<open>returnable\<close> when it is not empty, lies
  in one group and holds none of them.
\<close>

type_synonym alloc_state = "kern \<times> (nat \<Rightarrow> u64) \<times> u32 \<times> ext2_fs"

definition group_system_blocks :: "ext2_fs \<Rightarrow> nat \<Rightarrow> nat set" where
  "group_system_blocks s g = (let d = desc_of s g; table = unat (bg_inode_table d) in
     {unat (bg_block_bitmap d), unat (bg_inode_bitmap d)} \<union>
     {table..<table + unat (s_itb_per_group (sb_info s))})"

definition system_blocks :: "ext2_fs \<Rightarrow> nat set" where
  "system_blocks s = {fdb s, unat (s_sb_block (sb_info s))} \<union>
     (\<Union>g < n_groups s. group_system_blocks s g)"

definition freeable :: "ext2_fs \<Rightarrow> nat \<Rightarrow> nat \<Rightarrow> bool" where
  "freeable s b k \<longleftrightarrow> 0 < k \<and> {b..<b + k} \<inter> system_blocks s = {} \<and>
     (\<exists>g < n_groups s. group_first s g \<le> b \<and> b + k \<le> group_first s g + group_blocks s g)"

definition alloc_ok :: "alloc_state \<Rightarrow> bool" where
  "alloc_ok st = (case st of (K, junk, g, s) \<Rightarrow> balloc_inv s \<and> bitops_ok K \<and> bitmaps_cached K s \<and>
     \<not> test_opt s EXT2_MOUNT_ERRORS_PANIC \<and> num_zero junk \<and> unat g < n_groups s \<and>
     s_itb_per_group (sb_info s) \<noteq> 0 \<and> system_blocks s \<subseteq> used_blocks s)"

definition used_of :: "alloc_state \<Rightarrow> nat set" where
  "used_of st = (case st of (K, junk, g, s) \<Rightarrow> used_blocks s)"

definition returnable_of :: "alloc_state \<Rightarrow> nat \<Rightarrow> nat \<Rightarrow> bool" where
  "returnable_of st = (case st of (K, junk, g, s) \<Rightarrow> freeable s)"

definition alloc_of :: "alloc_state \<Rightarrow> nat \<Rightarrow> (nat \<times> nat \<times> alloc_state) option" where
  "alloc_of st n = (case st of (K, junk, g, s) \<Rightarrow>
     if n = 0 \<or> 2 ^ 64 \<le> n then None
     else do {
       ((b, errp, num), s') \<leftarrow> ext2_new_blocks K junk s g (of_nat n);
       if errp = 0 then Some (unat b, unat num, (K, junk, g, s')) else None })"

definition release_of :: "alloc_state \<Rightarrow> nat \<Rightarrow> nat \<Rightarrow> alloc_state option" where
  "release_of st b k = (case st of (K, junk, g, s) \<Rightarrow>
     map_option (\<lambda>(_, s'). (K, junk, g, s')) (ext2_free_blocks K s 0 (of_nat b) (of_nat k)))"

text \<open>Where the file system's own data lies is fixed by fields that neither call writes.\<close>

lemma system_blocks_cong:
  assumes "sb_info t = (sb_info s)\<lparr>s_group_desc := d, s_freeblocks_counter := c\<rparr>"
    and "fdb t = fdb s"
    and "\<And>g. g < n_groups s \<Longrightarrow> bg_block_bitmap (desc_of t g) = bg_block_bitmap (desc_of s g) \<and>
      bg_inode_bitmap (desc_of t g) = bg_inode_bitmap (desc_of s g) \<and>
      bg_inode_table (desc_of t g) = bg_inode_table (desc_of s g)"
  shows "system_blocks t = system_blocks s"
proof -
  have "n_groups t = n_groups s" by (simp add: n_groups_def assms(1))
  moreover have "group_system_blocks t g = group_system_blocks s g" if "g < n_groups s" for g
    using assms(3) [OF that] by (simp add: group_system_blocks_def assms(1) Let_def)
  ultimately show ?thesis using assms(2) by (simp add: system_blocks_def assms(1))
qed

lemma system_blocks_frame: "alloc_frame s t \<Longrightarrow> system_blocks t = system_blocks s"
  by (simp add: system_blocks_def group_system_blocks_def alloc_frame_views alloc_frame_info Let_def)

lemma put_bitmap_sb_info:
  "\<exists>d c. sb_info (put_bitmap s g cs \<delta>) = (sb_info s)\<lparr>s_group_desc := d, s_freeblocks_counter := c\<rparr>"
  by (cases "sb_info s")
    (auto simp: put_bitmap_def group_update_free_blocks_def gd_update_def Let_def
      split: prod.splits option.splits)

lemma system_blocks_put_bitmap:
  assumes "descs_loaded s" "g < n_groups s"
  shows "system_blocks (put_bitmap s g cs \<delta>) = system_blocks s"
    and "s_itb_per_group (sb_info (put_bitmap s g cs \<delta>)) = s_itb_per_group (sb_info s)"
proof -
  obtain d c where u: "sb_info (put_bitmap s g cs \<delta>) =
      (sb_info s)\<lparr>s_group_desc := d, s_freeblocks_counter := c\<rparr>"
    using put_bitmap_sb_info by blast
  then show "s_itb_per_group (sb_info (put_bitmap s g cs \<delta>)) = s_itb_per_group (sb_info s)" by simp
  show "system_blocks (put_bitmap s g cs \<delta>) = system_blocks s"
    using u desc_of_put_bitmap [OF assms]
    by (intro system_blocks_cong [OF u]) simp_all
qed

lemma freeable_cong:
  assumes "system_blocks t = system_blocks s" "n_groups t = n_groups s"
    "group_first t = group_first s" "group_blocks t = group_blocks s"
  shows "freeable t = freeable s"
  by (simp add: freeable_def assms fun_eq_iff)

text \<open>A run that is returnable passes the checks of \<^verbatim>\<open>ext2_free_blocks\<close>.\<close>

lemma freeable_range:
  assumes "geom_ok s" "freeable s b k"
  obtains g r where "g < n_groups s" "b = group_first s g + r" "r + k \<le> group_blocks s g"
    "b + k \<le> total_blocks s" "fdb s \<le> b"
proof -
  obtain g where g: "g < n_groups s" "group_first s g \<le> b" "b + k \<le> group_first s g + group_blocks s g"
    using assms(2) by (auto simp: freeable_def)
  then show thesis
    using group_end_le_total [OF assms(1) g(1)]
    by (intro that [of g "b - group_first s g"]) (auto simp: group_first_def)
qed

lemma unat_run_end:
  assumes "0 < k" "b + k < 2 ^ 32"
  shows "unat ((of_nat b :: u64) + ucast (of_nat k :: u32) - 1) = b + k - 1"
    and "unat (ucast (of_nat k :: u32) :: u64) = k" and "unat (of_nat b :: u64) = b"
proof -
  show k: "unat (ucast (of_nat k :: u32) :: u64) = k"
    using assms(2) by (simp add: unat_of_nat take_bit_nat_eq_self)
  show b: "unat (of_nat b :: u64) = b" using assms(2) by (simp add: unat_of_nat_64)
  have bk: "unat ((of_nat b :: u64) + ucast (of_nat k :: u32)) = b + k"
    using assms(2) b k by (subst unat_add_64) simp_all
  then have "(1 :: u64) \<le> of_nat b + ucast (of_nat k :: u32)"
    using assms(1) by (simp add: word_le_nat_alt)
  then show "unat ((of_nat b :: u64) + ucast (of_nat k :: u32) - 1) = b + k - 1"
    using bk by (simp add: unat_sub)
qed

lemma system_blocks_members:
  "fdb s \<in> system_blocks s" "unat (s_sb_block (sb_info s)) \<in> system_blocks s"
  "g < n_groups s \<Longrightarrow> unat (bg_block_bitmap (desc_of s g)) \<in> system_blocks s"
  "g < n_groups s \<Longrightarrow> unat (bg_inode_bitmap (desc_of s g)) \<in> system_blocks s"
  "g < n_groups s \<Longrightarrow> unat (bg_inode_table (desc_of s g)) \<le> i \<Longrightarrow>
     i < unat (bg_inode_table (desc_of s g)) + unat (s_itb_per_group (sb_info s)) \<Longrightarrow>
     i \<in> system_blocks s"
  by (auto simp: system_blocks_def group_system_blocks_def Let_def)

text \<open>An inode table that is in use ends below 2^32, so its 64-bit bounds do not wrap.\<close>

lemma table_in_range:
  assumes "geom_ok s" "system_blocks s \<subseteq> used_blocks s" "s_itb_per_group (sb_info s) \<noteq> 0"
    and g: "g < n_groups s" and "i \<notin> system_blocks s" "unat x = i"
  shows "\<not> in_range x (ucast (bg_inode_table (desc_of s g))) (s_itb_per_group (sb_info s))"
proof -
  let ?table = "bg_inode_table (desc_of s g)" and ?len = "s_itb_per_group (sb_info s)"
  have len: "0 < unat ?len" using assms(3) by (simp add: unat_gt_0)
  then have "unat ?table + unat ?len - 1 \<in> system_blocks s"
    by (intro system_blocks_members(5) [OF g]) auto
  then have "unat ?table + unat ?len - 1 < 2 ^ 32"
    using assms(2) used_blocks_range [OF assms(1)] total_blocks_less [of s]
    by (meson atLeastLessThan_iff order.strict_trans subsetD)
  then have e: "unat ((ucast ?table :: u64) + ?len - 1) = unat ?table + unat ?len - 1"
    using len by (subst unat_sub) (simp_all add: unat_add_64 word_le_nat_alt)
  have "\<not> (unat ?table \<le> i \<and> i < unat ?table + unat ?len)"
    using system_blocks_members(5) [OF g] assms(5) by blast
  then show ?thesis
    using e len assms(6) by (simp add: in_range_def word_le_nat_alt) linarith
qed

lemma freeable_valid:
  assumes geom: "geom_ok s" and sys: "system_blocks s \<subseteq> used_blocks s"
    and itb: "s_itb_per_group (sb_info s) \<noteq> 0" and f: "freeable s b k" and g: "g < n_groups s"
  shows "ext2_data_blocks_valid s (of_nat b) (of_nat k)"
    and "ext2_data_blocks_valid_bg (desc_of s g) (sb_info s) (of_nat b) (of_nat k)"
proof -
  have k: "0 < k" and out: "\<And>i. b \<le> i \<Longrightarrow> i < b + k \<Longrightarrow> i \<notin> system_blocks s"
    using f by (auto simp: freeable_def)
  obtain r where range: "b + k \<le> total_blocks s" "fdb s \<le> b"
    using freeable_range [OF geom f] by metis
  then have bk: "b + k < 2 ^ 32" using total_blocks_less [of s] by simp
  note e = unat_run_end [OF k bk]
  have "fdb s \<noteq> b" using out [of b] k system_blocks_members(1) [of s] by auto
  then have low: "fdb s < b" using range(2) by simp
  have no: "\<not> (b \<le> i \<and> i \<le> b + k - 1)" if "i \<in> system_blocks s" for i
    using out [of i] k that by linarith
  show "ext2_data_blocks_valid s (of_nat b) (of_nat k)"
    using no [OF system_blocks_members(2)] low range(1) k
    by (auto simp: ext2_data_blocks_valid_def Let_def word_le_nat_alt word_less_nat_alt e
        fdb_def total_blocks_def)
  have "\<not> in_range x (ucast (bg_inode_table (desc_of s g))) (s_itb_per_group (sb_info s))"
    if "b \<le> unat x" "unat x \<le> b + k - 1" for x
    using that k by (intro table_in_range [OF geom sys itb g _ refl] out) simp_all
  then have "\<not> in_range (of_nat b) (ucast (bg_inode_table (desc_of s g))) (s_itb_per_group (sb_info s))"
    "\<not> in_range (of_nat b + ucast (of_nat k :: u32) - 1)
       (ucast (bg_inode_table (desc_of s g))) (s_itb_per_group (sb_info s))"
    using k by (simp_all add: e)
  then show "ext2_data_blocks_valid_bg (desc_of s g) (sb_info s) (of_nat b) (of_nat k)"
    using no [OF system_blocks_members(3) [OF g]] no [OF system_blocks_members(4) [OF g]] k
    by (simp add: ext2_data_blocks_valid_bg_def Let_def) (simp add: in_range_def word_le_nat_alt
        word_less_nat_alt e)
qed

lemma alloc_of_law:
  assumes ok: "alloc_ok st" and run: "alloc_of st n = Some (b, k, st')"
  shows "alloc_ok st' \<and> 0 < k \<and> k \<le> n \<and> used_of st' = used_of st \<union> run_of (b, k) \<and>
     used_of st \<inter> run_of (b, k) = {} \<and> returnable_of st b k \<and> returnable_of st' = returnable_of st"
proof -
  obtain K junk g s where st: "st = (K, junk, g, s)" by (cases st)
  from ok st have inv: "balloc_inv s" and K: "bitops_ok K" and c: "bitmaps_cached K s"
    and np: "\<not> test_opt s EXT2_MOUNT_ERRORS_PANIC" and g: "unat g < n_groups s"
    and junk: "junk = (\<lambda>_. 0)" and sys: "system_blocks s \<subseteq> used_blocks s"
    and itb: "s_itb_per_group (sb_info s) \<noteq> 0"
    by (simp_all add: alloc_ok_def num_zero_eq)
  note geom = balloc_invD(1) [OF inv] and l = balloc_invD(2) [OF inv]
  have n0: "0 < n_groups s" using g by simp
  from run st obtain rb num s' where n: "0 < n" "n < 2 ^ 64"
    and r: "ext2_new_blocks K (\<lambda>_. 0) s g (of_nat n) = Some ((rb, 0, num), s')"
      "b = unat rb" "k = unat num" "st' = (K, junk, g, s')"
    by (auto simp: alloc_of_def bind_Some_iff junk split: if_splits)
  have n': "unat (of_nat n :: u64) = n" using n by (simp add: unat_of_nat_64)
  with n have pos: "0 < unat (of_nat n :: u64)" by simp
  note new = new_blocks_cached [OF inv c K pos g]
  have hit: "counter_seen K s \<noteq> 0" "\<not> scan_full s 0 (bitmap_of s 0)"
    using new(2) r(1) by auto
  then obtain i where "scan_hit s 0 (bitmap_of s 0) i"
    by (cases rule: scan_cases [of s 0 "bitmap_of s 0"]) auto
  from new(1) [OF hit(1) this] r(1) obtain k' cs \<delta> where
    k': "rb = of_nat (group_first s 0 + i)" "num = of_nat k'" "k' \<le> n" "i + k' \<le> group_blocks s 0"
      "s' = put_bitmap s 0 cs \<delta>"
    by (auto simp: n')
  have gr: "granted s b k s'" "0 < k" "k \<le> n"
    using ext2_new_blocks_result [OF inv K pos g r(1)] n' r(2,3) by auto
  have "k = k'" using k'(2,3) n(2) by (simp add: r(3) unat_of_nat_64)
  moreover have "b = group_first s 0 + i"
    using k'(1,4) group_end_le_total [OF geom n0] total_blocks_less [of s] gr(2) \<open>k = k'\<close>
    by (simp only: r(2)) (intro unat_of_nat_64, simp add: group_first_def)
  moreover have "{b..<b + k} \<inter> system_blocks s = {}" using gr(1) sys by (auto simp: granted_def)
  ultimately have fr: "freeable s b k"
    using k'(4) n0 gr(2) by (auto simp: freeable_def intro!: exI [of _ 0])
  have "bitmaps_cached K s'" unfolding k'(5) by (rule put_bitmap_cached [OF inv n0 c])
  moreover note sys' = system_blocks_put_bitmap [OF l n0, of cs \<delta>]
  moreover have "freeable s' = freeable s"
    unfolding k'(5) by (rule freeable_cong) (simp_all add: sys')
  moreover have "system_blocks s' \<subseteq> used_blocks s'"
    using gr(1) sys sys'(1) by (auto simp: granted_def k'(5))
  ultimately show ?thesis
    using np g K gr fr itb
    by (simp add: st r(4) alloc_ok_def used_of_def returnable_of_def run_of_def granted_def junk k'(5))
qed

lemma release_of_law:
  assumes ok: "alloc_ok st" and ret: "returnable_of st b k"
  shows "\<exists>st'. release_of st b k = Some st' \<and> alloc_ok st' \<and>
     used_of st' = used_of st - run_of (b, k) \<and> returnable_of st' = returnable_of st"
proof -
  obtain K junk i s where st: "st = (K, junk, i, s)" by (cases st)
  from ok st have inv: "balloc_inv s" and K: "bitops_ok K" and c: "bitmaps_cached K s"
    and np: "\<not> test_opt s EXT2_MOUNT_ERRORS_PANIC" and i: "unat i < n_groups s"
    and junk: "num_zero junk" and sys: "system_blocks s \<subseteq> used_blocks s"
    and itb: "s_itb_per_group (sb_info s) \<noteq> 0"
    by (simp_all add: alloc_ok_def)
  note geom = balloc_invD(1) [OF inv]
  have f: "freeable s b k" using ret by (simp add: returnable_of_def st)
  obtain g r where g: "g < n_groups s" "b = group_first s g + r" "r + k \<le> group_blocks s g"
      "b + k \<le> total_blocks s" "fdb s \<le> b"
    by (rule freeable_range [OF geom f])
  have small: "b + k < 2 ^ 32" using g(4) total_blocks_less [of s] by simp
  then have b: "unat (of_nat b :: u64) = b" and k: "unat (of_nat k :: u64) = k"
    by (simp_all add: unat_of_nat_64)
  have uc: "(ucast (of_nat k :: u64) :: u32) = of_nat k" by (simp add: ucast_of_nat_32)
  note v = freeable_valid [OF geom sys itb f g(1)]
  obtain ib s' t cs \<delta> where r: "ext2_free_blocks K s 0 (of_nat b) (of_nat k) = Some (ib, s')"
      "released s b k s'" "alloc_frame s t" "s' = put_bitmap t g cs \<delta>"
    using free_blocks_result [OF inv K c np g(1), of r "of_nat k" "of_nat b" 0, unfolded b k uc,
        OF g(3,2) v] by blast
  have t: "balloc_inv t" "n_groups t = n_groups s" "test_opt t = test_opt s"
    using inv alloc_frame_views [OF r(3)] alloc_frame_info [OF r(3)]
    by (simp_all add: test_opt_def fun_eq_iff)
  note sys' = system_blocks_put_bitmap [OF balloc_invD(2) [OF t(1)], of g cs \<delta>]
    system_blocks_frame [OF r(3)]
  have "bitmaps_cached K s'"
    unfolding r(4) using g(1) t by (intro put_bitmap_cached cached_frame [OF r(3) c]) simp_all
  moreover have same: "system_blocks s' = system_blocks s"
    using sys' g(1) t(2) by (simp add: r(4))
  moreover have "freeable s' = freeable s"
    using same alloc_frame_views [OF r(3)] by (intro freeable_cong) (simp_all add: r(4))
  moreover have "system_blocks s' \<subseteq> used_blocks s'"
    using r(2) sys same f by (auto simp: released_def freeable_def)
  moreover have "s_itb_per_group (sb_info s') \<noteq> 0"
    using sys'(2) g(1) t(2) itb alloc_frame_info [OF r(3)] by (simp add: r(4))
  ultimately show ?thesis
    using r(1,2) np i K t junk
    by (simp add: st release_of_def alloc_ok_def used_of_def returnable_of_def run_of_def
        released_def r(4))
qed

interpretation ext2_alloc: block_allocator alloc_ok used_of returnable_of alloc_of release_of
  by unfold_locales (rule alloc_of_law, assumption+, rule release_of_law)

text \<open>
  C4: let \<^verbatim>\<open>num\<close> start at 0, the group's bitmaps be read, the mount not panic on errors and
  the system's own blocks be in use (all of \<open>alloc_ok\<close>). A sequence of allocations that all
  succeed hands out runs that are disjoint from each other and from the blocks in use
  before; each of them may be given back, in any order, every call of \<^verbatim>\<open>ext2_free_blocks\<close>
  completes, and the set of used blocks is then the one before the allocations, with the
  invariant of the allocator kept.
\<close>

theorem ext2_alloc_free_sequences:
  assumes "alloc_ok st" "allocs alloc_of st ns = Some (rs, st')"
  shows "runs_disjoint rs \<and> used_of st \<inter> \<Union> (run_of ` set rs) = {} \<and>
     used_of st' = used_of st \<union> \<Union> (run_of ` set rs) \<and>
     (\<forall>qs. set qs = set rs \<longrightarrow> (\<exists>st''. releases release_of st' qs = Some st'' \<and>
        alloc_ok st'' \<and> used_of st'' = used_of st))"
  using ext2_alloc.allocs_fresh [OF assms] ext2_alloc.allocs_releases [OF assms] by blast

lemma ex_used: "i < 32 \<Longrightarrow> Suc i \<in> used_blocks ex_fs \<longleftrightarrow> i < 13"
  and ex_used_1: "i < 32 \<Longrightarrow> 33 + i \<in> used_blocks ex_fs \<longleftrightarrow> i < 12"
proof -
  have 0: "list_all (\<lambda>i. bm_bit ([0xFF, 0x1F] @ replicate 126 0) i \<longleftrightarrow> i < 13) [0..<32]"
    and 1: "list_all (\<lambda>i. bm_bit ([0xFF, 0x0F] @ replicate 126 0) i \<longleftrightarrow> i < 12) [0..<32]"
    by (simp_all add: upt_rec bm_bit_def nth_append)
  show "Suc i \<in> used_blocks ex_fs \<longleftrightarrow> i < 13" if "i < 32"
    using used_block_iff [OF ex_geom, of 0 i] that 0 by (simp add: list_all_iff)
  show "33 + i \<in> used_blocks ex_fs \<longleftrightarrow> i < 12" if "i < 32"
    using used_block_iff [OF ex_geom, of 1 i] that 1 by (simp add: list_all_iff)
qed

lemma ex_system_used: "system_blocks ex_fs \<subseteq> used_blocks ex_fs"
proof
  fix b assume "b \<in> system_blocks ex_fs"
  then have "1 \<le> b \<and> b < 14 \<or> 33 \<le> b \<and> b < 45"
    by (auto simp: system_blocks_def group_system_blocks_def lessThan_2 ex_desc_def)
  then show "b \<in> used_blocks ex_fs"
  proof
    assume "1 \<le> b \<and> b < 14"
    with ex_used [of "b - 1"] show ?thesis by (simp add: less_diff_conv2)
  next
    assume "33 \<le> b \<and> b < 45"
    with ex_used_1 [of "b - 33"] show ?thesis by (simp add: less_diff_conv2)
  qed
qed

abbreviation ex_client :: alloc_state where
  "ex_client \<equiv> (kern_ref, \<lambda>_. 0, 0, ex_fs)"

lemma ex_alloc_ok: "alloc_ok ex_client"
  using ex_system_used by (simp add: alloc_ok_def test_opt_def)

lemma ex_alloc_one:
  "\<exists>cs. alloc_of ex_client 1 = Some (14, 1, (kern_ref, \<lambda>_. 0, 0, put_bitmap ex_fs 0 cs (- 1))) \<and>
     run_set (bitmap_of ex_fs 0) 13 1 cs"
proof -
  obtain k cs where "ext2_new_blocks kern_ref (\<lambda>_. 0) ex_fs 0 1 = Some ((of_nat (1 + 13), 0, of_nat k),
        put_bitmap ex_fs 0 cs (ucast (- (of_nat k :: u64))))"
      "run_set (bitmap_of ex_fs 0) 13 k cs" "0 < k" "k \<le> 1"
    using new_blocks_cached(1) [OF ex_balloc_inv ex_cached kern_ref_ok _ _ _ ex_hit, of 1 0] by auto
  moreover from this have "k = 1" by simp
  moreover have "(ucast (- 1 :: u64) :: s32) = - 1" by (rule bit_word_eqI) (simp add: bit_simps)
  ultimately show ?thesis by (auto simp: alloc_of_def intro!: exI [of _ cs])
qed

text \<open>Blocks 14 and 15 are handed out one after the other and given back in the other order.\<close>

theorem ext2_alloc_free_sequences_witness:
  "\<exists>k st' st''. allocs alloc_of ex_client [1, 2] = Some ([(14, 1), (15, k)], st') \<and>
     releases release_of st' [(15, k), (14, 1)] = Some st'' \<and>
     14 \<notin> used_of ex_client \<and> 14 \<in> used_of st' \<and> used_of st'' = used_of ex_client"
proof -
  obtain cs where one: "alloc_of ex_client 1 =
      Some (14, 1, (kern_ref, \<lambda>_. 0, 0, put_bitmap ex_fs 0 cs (- 1)))"
    and cs: "run_set (bitmap_of ex_fs 0) 13 1 cs"
    using ex_alloc_one by blast
  let ?s = "put_bitmap ex_fs 0 cs (- 1)"
  have "alloc_ok (kern_ref, \<lambda>_. 0, 0, ?s)" using alloc_of_law [OF ex_alloc_ok one] by simp
  then have inv: "balloc_inv ?s" and c: "bitmaps_cached kern_ref ?s"
    by (simp_all add: alloc_ok_def)
  have bs: "bitmap_of ?s 0 = cs"
    using put_bitmap_bitmap [OF ex_balloc_inv, of 0 0 cs] by simp
  have "bm_bit cs i \<longleftrightarrow> bm_bit (bitmap_of ex_fs 0) i \<or> i = 13" for i
    using cs by (auto simp: run_set_def less_Suc_eq_le)
  then have "scan_hit ?s 0 cs 14"
    by (simp add: scan_hit_def bounded_all_code upt_rec) (simp add: bm_bit_def)
  moreover have "counter_seen kern_ref ?s = 38"
    by (simp add: counter_seen_def kern_ref_def put_bitmap_def Let_def)
  ultimately obtain k s' where
    "ext2_new_blocks kern_ref (\<lambda>_. 0) ?s 0 2 = Some ((15, 0, of_nat k), s')" "0 < k" "k \<le> 2"
    using new_blocks_cached(1) [OF inv c kern_ref_ok, of 2 0 14] by (auto simp: bs)
  then have "alloc_of (kern_ref, \<lambda>_. 0, 0, ?s) 2 = Some (15, k, (kern_ref, \<lambda>_. 0, 0, s'))"
    by (simp add: alloc_of_def unat_of_nat_64)
  with one have all: "allocs alloc_of ex_client [1, 2] =
      Some ([(14, 1), (15, k)], (kern_ref, \<lambda>_. 0, 0, s'))"
    by simp
  let ?rs = "[(14, 1), (15, k)]"
  have eq: "set [(15, k), (14, 1)] = set ?rs" by (simp add: insert_commute)
  note r = ext2_alloc_free_sequences [OF ex_alloc_ok all]
  note given = r [THEN conjunct2, THEN conjunct2, THEN conjunct2, rule_format, OF eq]
  have b: "14 \<in> \<Union> (run_of ` set ?rs)" by (simp add: run_of_def)
  have "14 \<notin> used_of ex_client"
    using r [THEN conjunct2, THEN conjunct1] b by (metis IntI empty_iff)
  moreover have "14 \<in> used_of (kern_ref, \<lambda>_. 0, 0, s')"
    unfolding r [THEN conjunct2, THEN conjunct2, THEN conjunct1] using b by (rule UnI2)
  ultimately show ?thesis using all given by blast
qed

section \<open>Two departures from the intended behaviour\<close>

text \<open>
  When the variable \<^verbatim>\<open>num\<close>, which the code never sets, happens to hold a value of at
  least \<^verbatim>\<open>*count\<close>, a search that finds a clear bit marks nothing, leaves the bitmap as it is
  and still reports success, with a position that is off by that value.
\<close>

theorem ext2_allocate_in_bg_junk:
  assumes "geom_ok s" "unat grp < n_groups s" "bitops_ok K" "length bs = unat (sb_blocksize s)"
    and "scan_hit s (unat grp) bs r" "junk \<noteq> 0" "count \<le> junk"
  shows "ext2_allocate_in_bg K junk s grp bs count =
     Some (sint (ucast (of_int (int r) - junk) :: s32), bs, junk)"
proof -
  have g: "unat (scast grp :: u64) = unat grp" by (rule unat_scast_group [OF assms(1,2)])
  have "r < group_blocks s (unat grp)" using assms(5) by (simp add: scan_hit_def)
  moreover have "alloc_loop K count n junk i bs = Some (junk, i, bs)" for n i
    using assms(7) by (subst alloc_loop.simps) (auto dest: leD)
  ultimately show ?thesis
    using scan_result(2) [OF assms(1-5)] sint_nblocks(1) [OF assms(1), of "scast grp"] assms(2,6)
    by (simp add: ext2_allocate_in_bg_def Let_def g)
qed

theorem ext2_allocate_in_bg_junk_witness:
  "ext2_allocate_in_bg kern_ref 5 ex_fs 0 (bitmap_of ex_fs 0) 1 = Some (8, bitmap_of ex_fs 0, 5)"
  using ext2_allocate_in_bg_junk [of ex_fs 0 kern_ref "bitmap_of ex_fs 0" 13 5 1] ex_hit by simp

text \<open>
  \<^verbatim>\<open>ext2_free_blocks\<close> does not stop at the end of the group. A run that passes the
  checks but reaches past the last bit of the group's bitmap block clears bits outside of
  the buffer, here an access without a result.
\<close>

theorem ext2_free_blocks_past_bitmap:
  assumes inv: "balloc_inv s" and K: "bitops_ok K" and c: "bitmaps_cached K s"
    and np: "\<not> test_opt s EXT2_MOUNT_ERRORS_PANIC"
    and g: "g < n_groups s" and r: "r < group_blocks s g"
    and block: "unat block = group_first s g + r"
    and past: "8 * unat (sb_blocksize s) < r + unat count"
    and v: "ext2_data_blocks_valid s block (ucast count)"
    and vbg: "ext2_data_blocks_valid_bg (desc_of s g) (sb_info s) block (ucast count)"
  shows "ext2_free_blocks K s ib block count = None"
proof -
  note l = balloc_invD(2) [OF inv] and geom = balloc_invD(1) [OF inv]
  let ?bit0 = "(block - ucast (es_first_data_block (sb_es s))) mod s_blocks_per_group (sb_info s)"
  let ?bm = "bitmap_of s g"
  let ?n = "8 * unat (sb_blocksize s) - r"
  note pos = block_position [OF geom g r block]
  have g': "unat (of_nat g :: u32) < n_groups s" using g pos(3) by simp
  have size: "bm_size ?bm = 8 * unat (sb_blocksize s)"
    using balloc_invD(5) [OF inv g] by (simp add: bm_size_def)
  have rn: "r < bm_size ?bm" using r group_blocks_le_size(1) [OF inv g] by simp
  have small: "bm_size ?bm < 2 ^ 32" using geom_okD(6) [OF geom] by (simp add: size)
  obtain f cs t where fb: "free_bits K ?bit0 [0..<?n] 0 ?bm s = Some (f, cs, t)" "length cs = length ?bm"
    using free_bits_result [OF K l geom_okD(2) [OF geom] np, of ?bit0 ?n ?bm 0 0] rn small
    by (auto simp: pos(2) size run_clear_def)
  have upt: "[0..<unat count] = [0..<?n] @ ?n # [Suc ?n..<unat count]"
  proof -
    have "?n < unat count" using past rn size by linarith
    then show ?thesis using upt_add_eq_append [of 0 ?n "unat count - ?n"]
      by (simp add: upt_conv_Cons)
  qed
  have n: "unat (of_nat ?n :: u64) = ?n"
    using small unfolding size by (intro unat_of_nat_64) simp
  have "unat (?bit0 + of_nat ?n) = 8 * unat (sb_blocksize s)"
    using rn small unfolding size by (subst unat_add_64) (simp_all only: n pos(2), simp_all)
  then have "ext2_clear_bit_atomic K (?bit0 + of_nat ?n) cs = None"
    using fb(2) size by (intro clear_bit_outside [OF K]) (simp add: bm_size_def)
  then have "free_bits K ?bit0 [0..<unat count] 0 ?bm s = None"
    unfolding upt by (simp add: free_bits_append fb(1))
  moreover have "ext2_get_group_desc ext2_error s (of_nat g) = Some (Some (desc_ptr_of s g), s)"
    using get_group_desc_loaded [OF l g'] unfolding pos(3) .
  moreover have "ext2_read_block_bitmap K s (of_nat g) = Some (Some (bitmap_blk s g), s)"
    using read_block_bitmap_cached [OF inv c g'] unfolding pos(3) .
  ultimately show ?thesis
    unfolding ext2_free_blocks_def Let_def pos(1)
    using v vbg pos(4) by (simp add: gd_at_loaded [OF l g] balloc_invD(4) [OF inv g])
qed

text \<open>The small file system with blocks of four bytes, whose bitmaps have no bits to spare.\<close>

definition ex_tight :: ext2_fs where
  "ex_tight = ex_fs\<lparr>sb_blocksize := 4, bcache := (\<lambda>b. Some (
     if b = 3 then [0xFF, 0x1F, 0, 0] else if b = 35 then [0xFF, 0x0F, 0, 0]
     else [0, 0, 0, 0]))\<rparr>"

lemma ex_tight_views [simp]:
  "n_groups ex_tight = 2" "bpg ex_tight = 32" "fdb ex_tight = 1" "total_blocks ex_tight = 65"
  "descs_loaded ex_tight" "desc_of ex_tight = desc_of ex_fs" "bitmap_blk ex_tight = bitmap_blk ex_fs"
  "group_blocks ex_tight = group_blocks ex_fs" "group_first ex_tight = group_first ex_fs"
  "total_of fld ex_tight = total_of fld ex_fs" "sb_info ex_tight = ex_info"
  "sb_es ex_tight = ex_super" "sb_blocksize ex_tight = 4"
  "bitmap_of ex_tight 0 = [0xFF, 0x1F, 0, 0]" "bitmap_of ex_tight (Suc 0) = [0xFF, 0x0F, 0, 0]"
  by (simp_all add: ex_tight_def n_groups_def bpg_def fdb_def total_blocks_def descs_loaded_def
      desc_of_def gd_at_def desc_ptr_of_def bitmap_blk_def bitmap_of_def group_blocks_def
      group_first_def total_of_def ex_desc_def fun_eq_iff)

lemma ex_tight_inv: "balloc_inv ex_tight"
proof -
  have "group_acct ex_tight 0" "group_acct ex_tight 1"
    by (simp_all add: group_acct_def n_free_code upt_rec bm_bit_def ex_desc_def)
      (simp_all add: ex_tight_def)
  moreover have "geom_ok ex_tight" by (simp add: geom_ok_def)
  moreover have "inj_on (bitmap_blk ex_fs) {..<2}" "total_of bg_free_blocks_count ex_fs = 39"
    using balloc_invD(7,8) [OF ex_balloc_inv] by (simp_all add: inj_on_def)
  ultimately show ?thesis by (simp add: balloc_inv_def all_less_2)
qed

theorem ext2_free_blocks_past_bitmap_witness:
  "ext2_free_blocks kern_ref ex_tight 0 31 4 = None"
proof -
  have "bitmaps_cached kern_ref ex_tight"
    by (simp add: bitmaps_cached_def kern_ref_def ex_tight_def)
  then show ?thesis
    by (rule ext2_free_blocks_past_bitmap [OF ex_tight_inv kern_ref_ok, of 0 30])
      (simp_all add: test_opt_def ext2_data_blocks_valid_def ext2_data_blocks_valid_bg_def
        in_range_def Let_def ex_desc_def word_le_nat_alt word_less_nat_alt)
qed

end
