(* ===== verification/Ialloc.thy ===== *)
theory Ialloc
  imports Balloc "HOL-Library.Signed_Division"
begin

text \<open>
  Inode allocation (\<^verbatim>\<open>ialloc.c\<close>): reading a group's inode bitmap, choosing a group for a
  new inode, claiming an inode and giving one back. \<open>vfs\<close> collects the services of the VFS
  the code calls: a fresh in-memory inode (\<open>None\<close> when memory is short), the owner and mode a
  new inode starts with, and the insertion in the inode hash, which fails for a number in use.
\<close>

section \<open>Modes\<close>

abbreviation (input) S_IFMT :: u16 where "S_IFMT \<equiv> 0xF000"
abbreviation (input) S_IFDIR :: u16 where "S_IFDIR \<equiv> 0x4000"
abbreviation (input) S_IFCHR :: u16 where "S_IFCHR \<equiv> 0x2000"
abbreviation (input) S_IFBLK :: u16 where "S_IFBLK \<equiv> 0x6000"
abbreviation (input) S_IFREG :: u16 where "S_IFREG \<equiv> 0x8000"
abbreviation (input) S_IFLNK :: u16 where "S_IFLNK \<equiv> 0xA000"

definition S_ISDIR :: "u16 \<Rightarrow> bool" where "S_ISDIR m \<longleftrightarrow> m AND S_IFMT = S_IFDIR"
definition S_ISREG :: "u16 \<Rightarrow> bool" where "S_ISREG m \<longleftrightarrow> m AND S_IFMT = S_IFREG"
definition S_ISLNK :: "u16 \<Rightarrow> bool" where "S_ISLNK m \<longleftrightarrow> m AND S_IFMT = S_IFLNK"
definition S_ISCHR :: "u16 \<Rightarrow> bool" where "S_ISCHR m \<longleftrightarrow> m AND S_IFMT = S_IFCHR"
definition S_ISBLK :: "u16 \<Rightarrow> bool" where "S_ISBLK m \<longleftrightarrow> m AND S_IFMT = S_IFBLK"

record vfs =
  new_inode :: "inode option"
  inode_init_owner :: "inode \<Rightarrow> inode \<Rightarrow> u16 \<Rightarrow> inode"
  insert_inode_locked :: "u64 \<Rightarrow> bool"

section \<open>Reading blocks and bitmaps\<close>

definition sb_bread :: "kern \<Rightarrow> ext2_fs \<Rightarrow> u64 \<Rightarrow> u64 option \<times> ext2_fs" where
  "sb_bread K s blk =
     (if k_getblk K blk \<and> bcache s blk \<noteq> None
      then (Some blk, s\<lparr>bh_uptodate := (bh_uptodate s)(blk := True)\<rparr>)
      else (None, s))"

definition read_inode_bitmap :: "kern \<Rightarrow> ext2_fs \<Rightarrow> u64 \<Rightarrow> (u64 option \<times> ext2_fs) option" where
  "read_inode_bitmap K s block_group = do {
     (desc, s) \<leftarrow> ext2_get_group_desc ext2_error s (ucast block_group);
     (case desc of None \<Rightarrow> Some (None, s) | Some p \<Rightarrow> do {
        d \<leftarrow> gd_at s p;
        (case sb_bread K s (ucast (bg_inode_bitmap d)) of
           (None, s) \<Rightarrow> report None s
         | (Some bh, s) \<Rightarrow> Some (Some bh, s)) }) }"

section \<open>Giving an inode back\<close>

definition release_desc :: "bool \<Rightarrow> ext2_group_desc \<Rightarrow> ext2_group_desc" where
  "release_desc dir d =
     (let d = d\<lparr>bg_free_inodes_count := bg_free_inodes_count d + 1\<rparr>
      in if dir then d\<lparr>bg_used_dirs_count := bg_used_dirs_count d - 1\<rparr> else d)"

definition ext2_release_inode :: "ext2_fs \<Rightarrow> u32 \<Rightarrow> bool \<Rightarrow> ext2_fs option" where
  "ext2_release_inode s grp dir = do {
     (desc, s) \<leftarrow> ext2_get_group_desc ext2_error s grp;
     (case desc of None \<Rightarrow> ext2_error s | Some p \<Rightarrow>
        let s = gd_update (release_desc dir) p s;
            s = s\<lparr>sb_info := (sb_info s)\<lparr>s_freeinodes_counter :=
                    s_freeinodes_counter (sb_info s) + 1\<rparr>\<rparr>
        in Some (if dir then s\<lparr>sb_info := (sb_info s)\<lparr>s_dirs_counter :=
                    s_dirs_counter (sb_info s) - 1\<rparr>\<rparr> else s)) }"

definition ext2_free_inode :: "kern \<Rightarrow> ext2_fs \<Rightarrow> inode \<Rightarrow> ext2_fs option" where
  "ext2_free_inode K s ip =
     (let ino = i_ino ip; ipg = s_inodes_per_group (sb_info s) in
      if ino < scast (s_first_ino (sb_info s)) \<or> ucast (es_inodes_count (sb_es s)) < ino
      then ext2_error s
      else if ipg = 0 then None
      else do {
        let block_group = (ino - 1) div ipg;
        let b = (ino - 1) mod ipg;
        (bitmap_bh, s) \<leftarrow> read_inode_bitmap K s block_group;
        (case bitmap_bh of None \<Rightarrow> Some s | Some bh \<Rightarrow> do {
           bs \<leftarrow> bcache s bh;
           (old, bs') \<leftarrow> ext2_clear_bit_atomic K b bs;
           let s = s\<lparr>bcache := (bcache s)(bh \<mapsto> bs')\<rparr>;
           if \<not> old then ext2_error s
           else ext2_release_inode s (ucast block_group) (S_ISDIR (i_mode ip)) }) })"

section \<open>Choosing a group\<close>

text \<open>\<^verbatim>\<open>int\<close> variables are 32-bit words; comparisons of them read the words as signed.\<close>

definition group_fits :: "(ext2_group_desc \<Rightarrow> bool) \<Rightarrow> ext2_fs \<Rightarrow> s32 \<Rightarrow> (bool \<times> ext2_fs) option" where
  "group_fits P s grp = do {
     (desc, s) \<leftarrow> ext2_get_group_desc ext2_error s grp;
     (case desc of None \<Rightarrow> Some (False, s)
        | Some p \<Rightarrow> do { d \<leftarrow> gd_at s p; Some (P d, s) }) }"

definition has_room :: "ext2_group_desc \<Rightarrow> bool" where
  "has_room d \<longleftrightarrow> bg_free_inodes_count d \<noteq> 0 \<and> bg_free_blocks_count d \<noteq> 0"

definition has_inode :: "ext2_group_desc \<Rightarrow> bool" where
  "has_inode d \<longleftrightarrow> bg_free_inodes_count d \<noteq> 0"

text \<open>
  The quadratic search doubles \<open>i\<close>. After 32 doublings \<open>i\<close> is 0 and the search would try one
  group for ever, so a search that uses up 34 rounds does not end.
\<close>

fun hash_search ::
  "nat \<Rightarrow> ext2_fs \<Rightarrow> s32 \<Rightarrow> s32 \<Rightarrow> s32 \<Rightarrow> (s32 option \<times> ext2_fs) option" where
  "hash_search 0 s ngroups i grp = None"
| "hash_search (Suc n) s ngroups i grp =
     (if sint i < sint ngroups then do {
        let grp = grp + i;
        let grp = (if sint ngroups \<le> sint grp then grp - ngroups else grp);
        (ok, s) \<leftarrow> group_fits has_room s grp;
        if ok then Some (Some grp, s) else hash_search n s ngroups (push_bit 1 i) grp }
      else Some (None, s))"

fun linear_search ::
  "nat list \<Rightarrow> ext2_fs \<Rightarrow> s32 \<Rightarrow> s32 \<Rightarrow> (s32 option \<times> ext2_fs) option" where
  "linear_search [] s ngroups grp = Some (None, s)"
| "linear_search (i # is) s ngroups grp = do {
     let grp = of_int (sint (grp + 1) smod sint ngroups);
     (ok, s) \<leftarrow> group_fits has_inode s grp;
     if ok then Some (Some grp, s) else linear_search is s ngroups grp }"

definition find_group :: "ext2_fs \<Rightarrow> inode \<Rightarrow> (s32 \<times> ext2_fs) option" where
  "find_group s parent =
     (let parent_group = ei_block_group parent;
          ngroups = (ucast (s_groups_count (sb_info s)) :: s32) in do {
      (ok, s) \<leftarrow> group_fits has_room s parent_group;
      if ok then Some (parent_group, s)
      else if ngroups = 0 then None
      else do {
        let grp = ucast ((scast parent_group + i_ino parent) mod scast ngroups :: u64);
        (r, s) \<leftarrow> hash_search 34 s ngroups 1 grp;
        (case r of Some grp \<Rightarrow> Some (grp, s) | None \<Rightarrow> do {
           (r, s) \<leftarrow> linear_search [0..<nat (sint ngroups)] s ngroups parent_group;
           (case r of Some grp \<Rightarrow> Some (grp, s) | None \<Rightarrow> Some (-1, s)) }) } })"

section \<open>Claiming an inode\<close>

text \<open>
  One pass over a group's bitmap, from \<^verbatim>\<open>repeat_in_this_group\<close> on: \<open>Some ino\<close> for a bit that
  was clear and is now set, \<open>None\<close> when the group has none. Each round starts at a higher bit,
  so \<^verbatim>\<open>inodes_pg + 1\<close> rounds are enough for a search that moves on.
\<close>

fun claim_in_group ::
  "nat \<Rightarrow> kern \<Rightarrow> u64 \<Rightarrow> u64 \<Rightarrow> byte list \<Rightarrow> (u64 option \<times> byte list) option" where
  "claim_in_group 0 K inodes_pg ino bs = None"
| "claim_in_group (Suc n) K inodes_pg ino bs =
     (let ino = find_next_zero_bit_le K bs inodes_pg ino in
      if inodes_pg \<le> ino then Some (None, bs)
      else do {
        (old, bs) \<leftarrow> ext2_set_bit_atomic K ino bs;
        if old then (if inodes_pg \<le> ino + 1 then Some (None, bs)
                     else claim_in_group n K inodes_pg (ino + 1) bs)
        else Some (Some ino, bs) })"

definition next_inode_group :: "ext2_fs \<Rightarrow> s32 \<Rightarrow> s32" where
  "next_inode_group s grp = ucast ((scast (grp + 1) :: u64) mod s_groups_count (sb_info s))"

datatype claim = Claim_err int | Claimed s32 desc_ptr u64

fun claim_inode :: "kern \<Rightarrow> nat list \<Rightarrow> ext2_fs \<Rightarrow> s32 \<Rightarrow> (claim \<times> ext2_fs) option" where
  "claim_inode K [] s grp = Some (Claim_err (- ENOSPC), s)"
| "claim_inode K (i # is) s grp = do {
     (gdp, s) \<leftarrow> ext2_get_group_desc ext2_error s grp;
     (case gdp of None \<Rightarrow> claim_inode K is s (next_inode_group s grp) | Some p \<Rightarrow> do {
        (bitmap_bh, s) \<leftarrow> read_inode_bitmap K s (scast grp);
        (case bitmap_bh of None \<Rightarrow> Some (Claim_err (- EIO), s) | Some bh \<Rightarrow> do {
           bs \<leftarrow> bcache s bh;
           let inodes_pg = s_inodes_per_group (sb_info s);
           (r, bs') \<leftarrow> claim_in_group (Suc (unat inodes_pg)) K inodes_pg 0 bs;
           let s = s\<lparr>bcache := (bcache s)(bh \<mapsto> bs')\<rparr>;
           (case r of None \<Rightarrow> claim_inode K is s (next_inode_group s grp)
             | Some ino \<Rightarrow> Some (Claimed grp p ino, s)) }) }) }"

definition claim_desc :: "bool \<Rightarrow> ext2_group_desc \<Rightarrow> ext2_group_desc" where
  "claim_desc dir d =
     (let d = d\<lparr>bg_free_inodes_count := bg_free_inodes_count d - 1\<rparr>
      in if dir then d\<lparr>bg_used_dirs_count := bg_used_dirs_count d + 1\<rparr> else d)"

definition count_claim :: "bool \<Rightarrow> desc_ptr \<Rightarrow> ext2_fs \<Rightarrow> ext2_fs" where
  "count_claim dir p s =
     (let s = s\<lparr>sb_info := (sb_info s)\<lparr>s_freeinodes_counter :=
                s_freeinodes_counter (sb_info s) - 1\<rparr>\<rparr>;
          s = (if dir then s\<lparr>sb_info := (sb_info s)\<lparr>s_dirs_counter :=
                s_dirs_counter (sb_info s) + 1\<rparr>\<rparr> else s)
      in gd_update (claim_desc dir) p s)"

abbreviation (input) S_SYNC :: u32 where "S_SYNC \<equiv> 1"
abbreviation (input) S_NOATIME :: u32 where "S_NOATIME \<equiv> 2"
abbreviation (input) S_APPEND :: u32 where "S_APPEND \<equiv> 4"
abbreviation (input) S_IMMUTABLE :: u32 where "S_IMMUTABLE \<equiv> 8"
abbreviation (input) S_DIRSYNC :: u32 where "S_DIRSYNC \<equiv> 64"

definition ext2_set_inode_flags :: "inode \<Rightarrow> inode" where
  "ext2_set_inode_flags ip =
     ip\<lparr>i_flags := i_flags ip AND
          NOT (S_SYNC OR S_APPEND OR S_IMMUTABLE OR S_NOATIME OR S_DIRSYNC)\<rparr>"

definition fill_new_inode :: "vfs \<Rightarrow> int \<Rightarrow> inode \<Rightarrow> inode \<Rightarrow> u16 \<Rightarrow> u64 \<Rightarrow> s32 \<Rightarrow> inode" where
  "fill_new_inode V now ip dir mode ino grp =
     ext2_set_inode_flags ((inode_init_owner V ip dir mode)\<lparr>
       i_ino := ino, i_blocks := 0, i_mtime := now, i_atime := now, i_ctime := now,
       ei_data := replicate EXT2_N_BLOCKS 0, ei_flags := ei_flags dir, ei_dtime := 0,
       ei_block_group := grp, ei_state := EXT2_STATE_NEW\<rparr>)"

definition ext2_new_inode ::
  "kern \<Rightarrow> vfs \<Rightarrow> ext2_fs \<Rightarrow> inode \<Rightarrow> u16 \<Rightarrow> ((int + inode) \<times> ext2_fs) option" where
  "ext2_new_inode K V s dir mode =
     (case new_inode V of None \<Rightarrow> Some (Inl (- ENOMEM), s) | Some ip \<Rightarrow> do {
        (grp, s) \<leftarrow> find_group s dir;
        if grp = -1 then Some (Inl (- ENOSPC), s)
        else do {
          (r, s) \<leftarrow> claim_inode K [0..<n_groups s] s grp;
          (case r of Claim_err e \<Rightarrow> Some (Inl e, s) | Claimed grp p b \<Rightarrow> do {
             let ino = b + scast grp * s_inodes_per_group (sb_info s) + 1;
             if ino < scast (s_first_ino (sb_info s)) \<or> ucast (es_inodes_count (sb_es s)) < ino
             then report (Inl (- EIO)) s
             else do {
               let s = count_claim (S_ISDIR mode) p s;
               if \<not> insert_inode_locked V ino then report (Inl (- EIO)) s
               else Some (Inr (fill_new_inode V (uint (clock s)) ip dir mode ino grp), s) } }) } })"

end
