(* ===== verification/Ialloc_Inv.thy ===== *)
theory Ialloc_Inv
  imports Ialloc Balloc_Free
begin

text \<open>
  The accounting of inodes. \<open>ialloc_inv\<close> ties each group's free-inodes count to its inode
  bitmap and the file system's counter to the sum of the counts; \<open>used_inodes\<close> is the set of
  inode numbers whose bit is set. \<open>inode_upd\<close> relates two states that differ by one new
  inode bitmap, one new descriptor and the counters, which is the change both
  \<^verbatim>\<open>ext2_new_inode\<close> and \<^verbatim>\<open>ext2_free_inode\<close> make.
\<close>

definition ipg :: "ext2_fs \<Rightarrow> nat" where
  "ipg s = unat (s_inodes_per_group (sb_info s))"

definition ibitmap_blk :: "ext2_fs \<Rightarrow> nat \<Rightarrow> u64" where
  "ibitmap_blk s g = ucast (bg_inode_bitmap (desc_of s g))"

definition ibitmap_of :: "ext2_fs \<Rightarrow> nat \<Rightarrow> byte list" where
  "ibitmap_of s g = the (bcache s (ibitmap_blk s g))"

definition total_inodes :: "ext2_fs \<Rightarrow> nat" where
  "total_inodes s = unat (es_inodes_count (sb_es s))"

definition first_ino :: "ext2_fs \<Rightarrow> nat" where
  "first_ino s = unat (s_first_ino (sb_info s))"

definition inode_acct :: "ext2_fs \<Rightarrow> nat \<Rightarrow> bool" where
  "inode_acct s g \<longleftrightarrow> bcache s (ibitmap_blk s g) = Some (ibitmap_of s g) \<and>
     length (ibitmap_of s g) = unat (sb_blocksize s) \<and>
     unat (bg_free_inodes_count (desc_of s g)) = n_free (ibitmap_of s g) (ipg s)"

definition ialloc_inv :: "ext2_fs \<Rightarrow> bool" where
  "ialloc_inv s \<longleftrightarrow> geom_ok s \<and> 0 < ipg s \<and> ipg s \<le> 8 * unat (sb_blocksize s) \<and>
     total_inodes s = n_groups s * ipg s \<and> 1 \<le> first_ino s \<and> first_ino s < 2 ^ 31 \<and>
     n_groups s < 2 ^ 30 \<and> (\<forall>g < n_groups s. inode_acct s g) \<and>
     inj_on (ibitmap_blk s) {..<n_groups s} \<and>
     ibitmap_blk s ` {..<n_groups s} \<inter> bitmap_blk s ` {..<n_groups s} = {} \<and>
     s_freeinodes_counter (sb_info s) = int (total_of bg_free_inodes_count s)"

lemma ialloc_invD:
  assumes "ialloc_inv s"
  shows "geom_ok s" "descs_loaded s" "0 < ipg s" "ipg s \<le> 32768" "ipg s \<le> 8 * unat (sb_blocksize s)"
    and "total_inodes s = n_groups s * ipg s" "1 \<le> first_ino s" "first_ino s < 2 ^ 31"
    and "g < n_groups s \<Longrightarrow> bcache s (ibitmap_blk s g) = Some (ibitmap_of s g)"
    and "g < n_groups s \<Longrightarrow> length (ibitmap_of s g) = unat (sb_blocksize s)"
    and "g < n_groups s \<Longrightarrow>
           unat (bg_free_inodes_count (desc_of s g)) = n_free (ibitmap_of s g) (ipg s)"
    and "g < n_groups s \<Longrightarrow> h < n_groups s \<Longrightarrow> ibitmap_blk s g = ibitmap_blk s h \<longleftrightarrow> g = h"
    and "g < n_groups s \<Longrightarrow> h < n_groups s \<Longrightarrow> ibitmap_blk s g \<noteq> bitmap_blk s h"
    and "s_freeinodes_counter (sb_info s) = int (total_of bg_free_inodes_count s)"
    and "g < n_groups s \<Longrightarrow> ipg s \<le> bm_size (ibitmap_of s g)" and "n_groups s < 2 ^ 30"
proof -
  show "geom_ok s" "descs_loaded s" "0 < ipg s" "ipg s \<le> 8 * unat (sb_blocksize s)"
    "total_inodes s = n_groups s * ipg s" "1 \<le> first_ino s" "first_ino s < 2 ^ 31"
    "n_groups s < 2 ^ 30" "s_freeinodes_counter (sb_info s) = int (total_of bg_free_inodes_count s)"
    using assms by (simp_all add: ialloc_inv_def geom_ok_def)
  then show "ipg s \<le> 32768" using geom_okD(6) [of s] by simp
  show "bcache s (ibitmap_blk s g) = Some (ibitmap_of s g)"
    and len: "length (ibitmap_of s g) = unat (sb_blocksize s)"
    and "unat (bg_free_inodes_count (desc_of s g)) = n_free (ibitmap_of s g) (ipg s)"
    if "g < n_groups s" for g
    using assms that by (simp_all add: ialloc_inv_def inode_acct_def)
  show "ibitmap_blk s g = ibitmap_blk s h \<longleftrightarrow> g = h" if "g < n_groups s" "h < n_groups s" for g h
    using assms that by (auto simp: ialloc_inv_def inj_on_def)
  show "ibitmap_blk s g \<noteq> bitmap_blk s h" if "g < n_groups s" "h < n_groups s" for g h
  proof
    assume "ibitmap_blk s g = bitmap_blk s h"
    moreover have "ibitmap_blk s g \<in> ibitmap_blk s ` {..<n_groups s}"
      "bitmap_blk s h \<in> bitmap_blk s ` {..<n_groups s}"
      using that by (simp_all add: imageI)
    ultimately have "ibitmap_blk s g \<in> ibitmap_blk s ` {..<n_groups s} \<inter> bitmap_blk s ` {..<n_groups s}"
      by simp
    with assms show False by (simp add: ialloc_inv_def)
  qed
  show "ipg s \<le> bm_size (ibitmap_of s g)" if "g < n_groups s"
    using len [OF that] \<open>ipg s \<le> 8 * unat (sb_blocksize s)\<close> by (simp add: bm_size_def)
qed

definition used_inodes :: "ext2_fs \<Rightarrow> nat set" where
  "used_inodes s = {n. \<exists>g i. g < n_groups s \<and> i < ipg s \<and> bm_bit (ibitmap_of s g) i \<and>
     n = g * ipg s + i + 1}"

lemma ino_position:
  assumes "(g :: nat) * m + i + 1 = h * m + j + 1" "i < m" "j < m"
  shows "g = h \<and> i = j"
proof -
  have "(g * m + i) div m = g" "(h * m + j) div m = h" using assms(2,3) by simp_all
  then have "g = h" using assms(1) by simp
  with assms(1) show ?thesis by simp
qed

lemma used_inode_iff:
  assumes "g < n_groups s" "i < ipg s"
  shows "g * ipg s + i + 1 \<in> used_inodes s \<longleftrightarrow> bm_bit (ibitmap_of s g) i"
  using assms ino_position [of g "ipg s" i] by (fastforce simp: used_inodes_def)

section \<open>The shared update\<close>

definition static_eq :: "ext2_fs \<Rightarrow> ext2_fs \<Rightarrow> bool" where
  "static_eq s u \<longleftrightarrow> n_groups u = n_groups s \<and> bpg u = bpg s \<and> fdb u = fdb s \<and>
     total_blocks u = total_blocks s \<and> ipg u = ipg s \<and> total_inodes u = total_inodes s \<and>
     first_ino u = first_ino s \<and> sb_blocksize u = sb_blocksize s \<and>
     s_lock (sb_info u) = s_lock (sb_info s) \<and> test_opt u = test_opt s"

lemma static_eq_refl [simp]: "static_eq s s"
  by (simp add: static_eq_def)

lemma static_eq_trans: "static_eq s t \<Longrightarrow> static_eq t u \<Longrightarrow> static_eq s u"
  by (simp add: static_eq_def)

lemma static_eq_views:
  assumes "static_eq s u"
  shows "n_groups u = n_groups s" "bpg u = bpg s" "fdb u = fdb s" "total_blocks u = total_blocks s"
    "ipg u = ipg s" "total_inodes u = total_inodes s" "first_ino u = first_ino s"
    "sb_blocksize u = sb_blocksize s" "s_lock (sb_info u) = s_lock (sb_info s)"
    "test_opt u = test_opt s" "group_first u = group_first s" "group_blocks u = group_blocks s"
  using assms by (simp_all add: static_eq_def group_first_def group_blocks_def fun_eq_iff)

definition inode_upd ::
  "ext2_fs \<Rightarrow> nat \<Rightarrow> byte list \<Rightarrow> (ext2_group_desc \<Rightarrow> ext2_group_desc) \<Rightarrow> int \<Rightarrow> int \<Rightarrow> ext2_fs \<Rightarrow> bool"
  where
  "inode_upd s g bs f di dd u \<longleftrightarrow> static_eq s u \<and> descs_loaded u \<and>
     bcache u = (bcache s)(ibitmap_blk s g \<mapsto> bs) \<and>
     (\<forall>h < n_groups s. desc_of u h = (if h = g then f (desc_of s h) else desc_of s h)) \<and>
     s_freeinodes_counter (sb_info u) = s_freeinodes_counter (sb_info s) + di \<and>
     s_dirs_counter (sb_info u) = s_dirs_counter (sb_info s) + dd \<and>
     s_freeblocks_counter (sb_info u) = s_freeblocks_counter (sb_info s)"

definition keeps_layout :: "(ext2_group_desc \<Rightarrow> ext2_group_desc) \<Rightarrow> bool" where
  "keeps_layout f \<longleftrightarrow> (\<forall>d. bg_block_bitmap (f d) = bg_block_bitmap d \<and>
     bg_inode_bitmap (f d) = bg_inode_bitmap d \<and> bg_inode_table (f d) = bg_inode_table d \<and>
     bg_free_blocks_count (f d) = bg_free_blocks_count d)"

lemma keeps_layout_desc [simp]: "keeps_layout (claim_desc dir)" "keeps_layout (release_desc dir)"
  by (simp_all add: keeps_layout_def claim_desc_def release_desc_def Let_def)

lemma inode_upd_views:
  assumes upd: "inode_upd s g bs f di dd u" and f: "keeps_layout f" and g: "g < n_groups s"
    and inv: "ialloc_inv s" and h: "h < n_groups s"
  shows "bitmap_blk u h = bitmap_blk s h" "ibitmap_blk u h = ibitmap_blk s h"
    "ibitmap_of u h = (if h = g then bs else ibitmap_of s h)"
    "bitmap_of u h = bitmap_of s h" "bcache u (bitmap_blk s h) = bcache s (bitmap_blk s h)"
    "bg_free_blocks_count (desc_of u h) = bg_free_blocks_count (desc_of s h)"
proof -
  have d: "desc_of u h = (if h = g then f (desc_of s h) else desc_of s h)"
    and c: "bcache u = (bcache s)(ibitmap_blk s g \<mapsto> bs)"
    using upd h by (simp_all add: inode_upd_def)
  show b: "bitmap_blk u h = bitmap_blk s h" and i: "ibitmap_blk u h = ibitmap_blk s h"
    and "bg_free_blocks_count (desc_of u h) = bg_free_blocks_count (desc_of s h)"
    using f by (simp_all add: bitmap_blk_def ibitmap_blk_def d keeps_layout_def)
  show "ibitmap_of u h = (if h = g then bs else ibitmap_of s h)"
    using ialloc_invD(12) [OF inv h g] by (simp add: ibitmap_of_def i c)
  show bc: "bcache u (bitmap_blk s h) = bcache s (bitmap_blk s h)"
    using ialloc_invD(13) [OF inv g h] by (simp add: c)
  show "bitmap_of u h = bitmap_of s h" by (simp add: bitmap_of_def b bc)
qed

lemma geom_ok_static:
  assumes "static_eq s u" "descs_loaded u" "geom_ok s"
  shows "geom_ok u"
  using assms(2,3) static_eq_views [OF assms(1)] by (simp add: geom_ok_def)

lemma total_of_cong:
  assumes "n_groups u = n_groups s" "\<And>h. h < n_groups s \<Longrightarrow> fld (desc_of u h) = fld (desc_of s h)"
  shows "total_of fld u = total_of fld s"
  using assms by (simp add: total_of_def)

lemma total_of_step:
  assumes n: "n_groups u = n_groups s" and g: "g < n_groups s"
    and same: "\<And>h. h < n_groups s \<Longrightarrow> h \<noteq> g \<Longrightarrow> desc_of u h = desc_of s h"
    and d: "int (unat (fld (desc_of u g))) = int (unat (fld (desc_of s g))) + \<delta>"
  shows "int (total_of fld u) = int (total_of fld s) + \<delta>"
proof -
  let ?F = "\<lambda>v i. int (unat (fld (desc_of v i)))"
  have split: "(\<Sum>i < n_groups s. ?F v i) = ?F v g + (\<Sum>i \<in> {..<n_groups s} - {g}. ?F v i)" for v
    using g by (intro sum.remove) simp_all
  have "(\<Sum>i \<in> {..<n_groups s} - {g}. ?F u i) = (\<Sum>i \<in> {..<n_groups s} - {g}. ?F s i)"
    by (rule sum.cong) (simp_all add: same)
  then show ?thesis using split [of u] split [of s] d by (simp add: total_of_def n)
qed

lemma inode_upd_balloc:
  assumes upd: "inode_upd s g bs f di dd u" and f: "keeps_layout f" and g: "g < n_groups s"
    and inv: "ialloc_inv s" and b: "balloc_inv s"
  shows "balloc_inv u"
proof -
  have st: "static_eq s u" and l: "descs_loaded u"
    and cnt: "s_freeblocks_counter (sb_info u) = s_freeblocks_counter (sb_info s)"
    using upd by (simp_all add: inode_upd_def)
  note v = static_eq_views [OF st] and w = inode_upd_views [OF upd f g inv]
  have "group_acct u h" if h: "h < n_groups s" for h
    using balloc_invD(4-6) [OF b h] by (simp add: group_acct_def w [OF h] v)
  moreover have "inj_on (bitmap_blk u) {..<n_groups s}"
    using b w(1) by (simp add: balloc_inv_def inj_on_def)
  moreover have "total_of bg_free_blocks_count u = total_of bg_free_blocks_count s"
    by (rule total_of_cong) (simp_all add: v w)
  ultimately show ?thesis
    using geom_ok_static [OF st l balloc_invD(1) [OF b]] balloc_invD(8) [OF b]
    by (simp add: balloc_inv_def v cnt)
qed

lemma inode_upd_inv:
  assumes upd: "inode_upd s g bs f di dd u" and f: "keeps_layout f" and g: "g < n_groups s"
    and inv: "ialloc_inv s" and len: "length bs = unat (sb_blocksize s)"
    and cnt: "unat (bg_free_inodes_count (f (desc_of s g))) = n_free bs (ipg s)"
    and di: "int (n_free bs (ipg s)) = int (n_free (ibitmap_of s g) (ipg s)) + di"
  shows "ialloc_inv u"
proof -
  have st: "static_eq s u" and l: "descs_loaded u"
    and c: "s_freeinodes_counter (sb_info u) = s_freeinodes_counter (sb_info s) + di"
    and bc: "bcache u = (bcache s)(ibitmap_blk s g \<mapsto> bs)"
    and d: "\<And>h. h < n_groups s \<Longrightarrow> desc_of u h = (if h = g then f (desc_of s h) else desc_of s h)"
    using upd by (simp_all add: inode_upd_def)
  note v = static_eq_views [OF st] and w = inode_upd_views [OF upd f g inv]
  have acct: "inode_acct u h" if h: "h < n_groups s" for h
  proof (cases "h = g")
    case True
    then show ?thesis using len cnt g by (simp add: inode_acct_def w [OF g] bc d v)
  next
    case False
    then show ?thesis
      using ialloc_invD(9-11) [OF inv h] ialloc_invD(12) [OF inv h g]
      by (simp add: inode_acct_def w(2,3) [OF h] bc d [OF h] v)
  qed
  have im: "ibitmap_blk u ` {..<n_groups s} = ibitmap_blk s ` {..<n_groups s}"
    "bitmap_blk u ` {..<n_groups s} = bitmap_blk s ` {..<n_groups s}"
    "inj_on (ibitmap_blk u) {..<n_groups s} = inj_on (ibitmap_blk s) {..<n_groups s}"
    using w(1,2) by (simp_all add: image_def inj_on_def)
  have "int (total_of bg_free_inodes_count u) = int (total_of bg_free_inodes_count s) + di"
    using total_of_step [OF v(1) g, of bg_free_inodes_count di] d [OF g] d cnt di
      ialloc_invD(11) [OF inv g] by simp
  then show ?thesis
    using inv geom_ok_static [OF st l ialloc_invD(1) [OF inv]] acct im
    by (simp add: ialloc_inv_def v c)
qed

lemma inode_upd_used:
  assumes upd: "inode_upd s g bs f di dd u" and f: "keeps_layout f" and g: "g < n_groups s"
    and inv: "ialloc_inv s" and h: "h < n_groups s" and i: "i < ipg s"
  shows "h * ipg s + i + 1 \<in> used_inodes u \<longleftrightarrow>
     (if h = g then bm_bit bs i else h * ipg s + i + 1 \<in> used_inodes s)"
proof -
  have st: "static_eq s u" using upd by (simp add: inode_upd_def)
  note v = static_eq_views [OF st]
  show ?thesis
    using used_inode_iff [of h u i] used_inode_iff [OF h i] h i
    by (simp add: v inode_upd_views(3) [OF upd f g inv h])
qed

lemma used_inodes_eqI:
  assumes "n_groups t = n_groups s" "ipg t = ipg s"
    and "\<And>h i. h < n_groups s \<Longrightarrow> i < ipg s \<Longrightarrow>
      h * ipg s + i + 1 \<in> used_inodes t \<longleftrightarrow> h * ipg s + i + 1 \<in> A"
    and "\<And>n. n \<in> A \<Longrightarrow> \<exists>h i. h < n_groups s \<and> i < ipg s \<and> n = h * ipg s + i + 1"
  shows "used_inodes t = A"
proof (rule set_eqI)
  fix n
  have "\<exists>h i. h < n_groups s \<and> i < ipg s \<and> n = h * ipg s + i + 1" if "n \<in> used_inodes t"
    using that assms(1,2) by (auto simp: used_inodes_def)
  with assms(3,4) show "n \<in> used_inodes t \<longleftrightarrow> n \<in> A" by metis
qed

end
