(* ===== verification/Ialloc_Correct.thy ===== *)
theory Ialloc_Correct
  imports Ialloc_Inv
begin

text \<open>
  Choosing a group and claiming an inode: the searches look at every group they should, and
  a claim takes the first clear bit of the group's bitmap.
\<close>

section \<open>The group searches\<close>

lemma group_fits_loaded:
  assumes "descs_loaded s" "unat g < n_groups s"
  shows "group_fits P s g = Some (P (desc_of s (unat g)), s)"
  by (simp add: group_fits_def get_group_desc_loaded [OF assms] gd_at_loaded [OF assms])

lemma group_fits_state:
  assumes "descs_loaded s" "\<not> s_lock (sb_info s)" "group_fits P s g = Some (b, t)"
  shows "alloc_frame s t"
proof (cases "unat g < n_groups s")
  case True
  with assms(1,3) show ?thesis by (simp add: group_fits_loaded)
next
  case False
  then show ?thesis
    using assms alloc_frame_error [of s]
    by (auto simp: group_fits_def get_group_desc_bad ext2_error_loaded split: if_splits)
qed

lemma sint_small:
  assumes "unat (w :: s32) < 2 ^ 31"
  shows "sint w = int (unat w)"
  using assms by (rule unat_scast_small(2))

lemma push_bit_pow: "push_bit 1 (2 ^ k :: s32) = 2 ^ Suc k"
  by (simp add: push_bit_eq_mult)

lemma unat_pow_32:
  assumes "k < 32"
  shows "unat (2 ^ k :: s32) = 2 ^ k"
proof -
  have "(2 :: nat) ^ k < 2 ^ 32" using assms by (intro power_strict_increasing) simp_all
  then have "unat (of_nat (2 ^ k) :: s32) = 2 ^ k"
    by (simp only: unsigned_of_nat) (simp add: take_bit_nat_eq_self assms)
  then show ?thesis by simp
qed

lemma hash_search_result:
  assumes l: "descs_loaded s" and n: "unat ng = n_groups s" "n_groups s < 2 ^ 30"
    and k: "k \<le> 30" "32 \<le> fuel + k" and g: "unat grp < n_groups s"
  shows "\<exists>r. hash_search fuel s ng (2 ^ k) grp = Some (r, s) \<and>
     (case r of None \<Rightarrow> True | Some h \<Rightarrow> unat h < n_groups s \<and> has_room (desc_of s (unat h)))"
  using k g
proof (induction fuel arbitrary: k grp)
  case 0
  then show ?case by simp
next
  case (Suc fuel)
  have i: "unat (2 ^ k :: s32) = 2 ^ k" using Suc.prems(1) by (intro unat_pow_32) simp
  have "(2 :: nat) ^ k \<le> 2 ^ 30" using Suc.prems(1) by (intro power_increasing) simp_all
  then have si: "sint (2 ^ k :: s32) = int (2 ^ k)" using sint_small [of "2 ^ k"] i by simp
  have sn: "sint ng = int (n_groups s)" using n by (simp add: sint_small)
  show ?case
  proof (cases "2 ^ k < n_groups s")
    case False
    then have "\<not> sint (2 ^ k :: s32) < sint ng" unfolding si sn of_nat_less_iff .
    then show ?thesis by simp
  next
    case True
    then have lt: "sint (2 ^ k :: s32) < sint ng" unfolding si sn of_nat_less_iff .
    have "k < 30"
    proof (rule ccontr)
      assume "\<not> k < 30"
      with Suc.prems(1) have "k = 30" by simp
      with True n(2) show False by simp
    qed
    define h where "h = (if sint ng \<le> sint (grp + 2 ^ k) then grp + 2 ^ k - ng else grp + 2 ^ k)"
    have ug: "unat (grp + 2 ^ k) = unat grp + 2 ^ k"
      using True Suc.prems(3) n(2) i by (simp add: unat_word_ariths)
    then have sg: "sint (grp + 2 ^ k) = int (unat grp + 2 ^ k)"
      using True Suc.prems(3) n(2) by (simp add: sint_small)
    have h: "unat h < n_groups s"
      using True Suc.prems(3) ug n unfolding h_def sg sn of_nat_le_iff
      by (auto simp: unat_sub_if')
    have step: "hash_search (Suc fuel) s ng (2 ^ k) grp =
        (if has_room (desc_of s (unat h)) then Some (Some h, s)
         else hash_search fuel s ng (2 ^ Suc k) h)"
      using lt by (simp only: hash_search.simps Let_def h_def [symmetric] if_True
          group_fits_loaded [OF l h] push_bit_pow bind.bind_lunit prod.case)
    show ?thesis
    proof (cases "has_room (desc_of s (unat h))")
      case True
      then show ?thesis unfolding step using h by simp
    next
      case False
      then show ?thesis unfolding step
        using Suc.IH [of "Suc k" h] Suc.prems(2) \<open>k < 30\<close> h by simp
    qed
  qed
qed

lemma smod_nat: "int a smod int b = int (a mod b)"
  by (cases "a = 0") (simp_all add: signed_modulo_int_def zmod_int sgn_if)

lemma next_linear:
  fixes ng grp :: s32
  assumes "unat ng = n_groups s" "n_groups s < 2 ^ 30" "unat grp < n_groups s"
  shows "unat (of_int (sint (grp + 1) smod sint ng) :: s32) = (unat grp + 1) mod n_groups s"
proof -
  have "unat (grp + 1) = unat grp + 1" using assms by (simp add: unat_word_ariths)
  then have "sint (grp + 1) = int (unat grp + 1)" "sint ng = int (n_groups s)"
    using assms by (simp_all add: sint_small)
  then have "sint (grp + 1) smod sint ng = int ((unat grp + 1) mod n_groups s)"
    by (simp only: smod_nat)
  then have "(of_int (sint (grp + 1) smod sint ng) :: s32) = of_nat ((unat grp + 1) mod n_groups s)"
    by simp
  moreover have "(unat grp + 1) mod n_groups s < 2 ^ 32"
    using assms by (intro order.strict_trans [OF mod_less_divisor]) simp_all
  ultimately show ?thesis by (simp add: unsigned_of_nat take_bit_nat_eq_self)
qed

lemma linear_search_result:
  assumes l: "descs_loaded s" and n: "unat ng = n_groups s" "n_groups s < 2 ^ 30"
    and g: "unat grp < n_groups s"
  shows "\<exists>r. linear_search xs s ng grp = Some (r, s) \<and>
     (case r of None \<Rightarrow> \<forall>j. 1 \<le> j \<and> j \<le> length xs \<longrightarrow>
          \<not> has_inode (desc_of s ((unat grp + j) mod n_groups s))
        | Some h \<Rightarrow> unat h < n_groups s \<and> has_inode (desc_of s (unat h)))"
  using g
proof (induction xs arbitrary: grp)
  case Nil
  then show ?case by simp
next
  case (Cons x xs)
  define h where "h = (of_int (sint (grp + 1) smod sint ng) :: s32)"
  have uh: "unat h = (unat grp + 1) mod n_groups s"
    unfolding h_def by (rule next_linear [OF n Cons.prems])
  then have h: "unat h < n_groups s" using Cons.prems by simp
  have step: "linear_search (x # xs) s ng grp =
      (if has_inode (desc_of s (unat h)) then Some (Some h, s) else linear_search xs s ng h)"
    by (simp only: linear_search.simps Let_def h_def [symmetric] group_fits_loaded [OF l h]
        bind.bind_lunit prod.case)
  show ?case
  proof (cases "has_inode (desc_of s (unat h))")
    case True
    then show ?thesis unfolding step using h by simp
  next
    case False
    obtain r where r: "linear_search xs s ng h = Some (r, s)"
      "case r of None \<Rightarrow> \<forall>j. 1 \<le> j \<and> j \<le> length xs \<longrightarrow>
          \<not> has_inode (desc_of s ((unat h + j) mod n_groups s))
        | Some h \<Rightarrow> unat h < n_groups s \<and> has_inode (desc_of s (unat h))"
      using Cons.IH [OF h] by blast
    have "\<not> has_inode (desc_of s ((unat grp + j) mod n_groups s))"
      if none: "r = None" and j: "1 \<le> j" "j \<le> length (x # xs)" for j
    proof (cases "j = 1")
      case True
      with False uh show ?thesis by simp
    next
      case False
      then obtain i where i: "j = Suc i" "1 \<le> i" "i \<le> length xs" using j by (cases j) auto
      have "(unat h + i) mod n_groups s = (unat grp + j) mod n_groups s"
        unfolding uh i(1) by (simp add: mod_add_left_eq)
      moreover have "\<not> has_inode (desc_of s ((unat h + i) mod n_groups s))"
        using r(2) none i by simp
      ultimately show ?thesis by simp
    qed
    with r False show ?thesis unfolding step by (cases r) auto
  qed
qed

text \<open>
  The choice of a group ends, changes nothing, and gives up only when no group has a free
  inode.
\<close>

lemma group_no_not_m1:
  fixes h :: s32
  assumes "unat h < n" "n < 2 ^ 30"
  shows "h \<noteq> -1"
proof
  assume "h = -1"
  then have "h = 4294967295" by simp
  then have "unat h = 4294967295" by simp
  with assms show False by simp
qed

text \<open>The linear search visits every group: the steps 1 to n from any group reach all of them.\<close>

lemma all_groups_reached:
  assumes all: "\<forall>j. 1 \<le> j \<and> j \<le> n \<longrightarrow> P ((k + j) mod n)" and k: "k < (n::nat)" and x: "x < n"
  shows "P x"
proof -
  define j where "j = (if k < x then x - k else n + x - k)"
  have "1 \<le> j \<and> j \<le> n" "(k + j) mod n = x" using x k by (auto simp: j_def)
  with all show ?thesis by metis
qed

lemma find_group_result:
  assumes l: "descs_loaded s" and n: "n_groups s < 2 ^ 30"
    and g: "unat (ei_block_group dir) < n_groups s"
  shows "\<exists>g. find_group s dir = Some (g, s) \<and>
     (if g = -1 then \<forall>h < n_groups s. bg_free_inodes_count (desc_of s h) = 0
      else unat g < n_groups s \<and> bg_free_inodes_count (desc_of s (unat g)) \<noteq> 0)"
proof -
  let ?ng = "ucast (s_groups_count (sb_info s)) :: s32"
  let ?pg = "ei_block_group dir"
  have ng: "unat ?ng = n_groups s"
    using n by (simp add: unsigned_ucast_eq take_bit_nat_eq_self n_groups_def)
  have sn: "sint ?ng = int (n_groups s)" using n ng by (simp add: sint_small)
  note not_m1 = group_no_not_m1 [OF _ n]
  show ?thesis
  proof (cases "has_room (desc_of s (unat ?pg))")
    case True
    then show ?thesis using not_m1 [OF g] g
      by (simp add: find_group_def Let_def group_fits_loaded [OF l g] has_room_def)
  next
    case False
    have ng0: "?ng \<noteq> 0" using ng g by (metis unat_0 not_less_zero)
    define h where "h = (ucast ((scast ?pg + i_ino dir) mod scast ?ng :: u64) :: s32)"
    have "unat (scast ?ng :: u64) = n_groups s" using n ng by (simp add: unat_scast_small)
    then have "unat ((scast ?pg + i_ino dir) mod scast ?ng :: u64) < n_groups s"
      using g by (simp only: unat_mod_distrib) simp
    then have h: "unat h < n_groups s"
      using n unfolding h_def by (simp add: unsigned_ucast_eq take_bit_nat_eq_self)
    obtain r where r: "hash_search 34 s ?ng 1 h = Some (r, s)"
      "case r of None \<Rightarrow> True | Some h \<Rightarrow> unat h < n_groups s \<and> has_room (desc_of s (unat h))"
      using hash_search_result [OF l ng n _ _ h, of 0 34] by auto
    obtain q where q: "linear_search [0..<nat (sint ?ng)] s ?ng ?pg = Some (q, s)"
      "case q of None \<Rightarrow> \<forall>j. 1 \<le> j \<and> j \<le> n_groups s \<longrightarrow>
          \<not> has_inode (desc_of s ((unat ?pg + j) mod n_groups s))
        | Some h \<Rightarrow> unat h < n_groups s \<and> has_inode (desc_of s (unat h))"
      using linear_search_result [OF l ng n g, of "[0..<nat (sint ?ng)]"]
      by (auto simp: sn cong: option.case_cong)
    have fg: "find_group s dir = (case r of Some grp \<Rightarrow> Some (grp, s)
        | None \<Rightarrow> (case q of Some grp \<Rightarrow> Some (grp, s) | None \<Rightarrow> Some (-1, s)))"
      unfolding find_group_def Let_def group_fits_loaded [OF l g] h_def [symmetric] q(1)
      using False ng0 r(1) q(1) by (cases r; cases q) simp_all
    show ?thesis
    proof (cases r)
      case (Some x)
      then show ?thesis using r(2) not_m1 by (simp add: fg has_room_def)
    next
      case r0: None
      show ?thesis
      proof (cases q)
        case (Some x)
        then show ?thesis using q(2) not_m1 r0 by (simp add: fg has_inode_def)
      next
        case None
        have "\<not> has_inode (desc_of s x)" if "x < n_groups s" for x
          using all_groups_reached [of _ "\<lambda>x. \<not> has_inode (desc_of s x)", OF _ g that] q(2) None by simp
        then show ?thesis using r0 None by (simp add: fg has_inode_def)
      qed
    qed
  qed
qed


section \<open>Claiming\<close>

lemma claim_in_group_result:
  assumes K: "bitops_ok K" and le: "unat m \<le> bm_size bs"
  shows "(\<exists>i. i < unat m \<and> \<not> bm_bit bs i \<and> (\<forall>j < i. bm_bit bs j) \<and>
      claim_in_group (Suc n) K m 0 bs = Some (Some (of_nat i), bm_set i bs)) \<or>
    (\<forall>i < unat m. bm_bit bs i) \<and> claim_in_group (Suc n) K m 0 bs = Some (None, bs)"
proof -
  let ?r = "find_next_zero_bit_le K bs m 0"
  note z = find_zeroD [OF K le, of 0]
  show ?thesis
  proof (cases "unat ?r < unat m")
    case True
    have ok: "unat ?r < bm_size bs" using True le by simp
    have "claim_in_group (Suc n) K m 0 bs = Some (Some ?r, bm_set (unat ?r) bs)"
      using True z(2) by (simp add: set_bitD [OF K ok] Let_def word_le_nat_alt)
    moreover have "?r = of_nat (unat ?r)" by simp
    ultimately show ?thesis using True z(2) z(3) by (intro disjI1 exI [of _ "unat ?r"]) auto
  next
    case False
    with z(1) have "unat ?r = unat m" by simp
    with z(3) False show ?thesis by (auto simp: word_le_nat_alt Let_def)
  qed
qed

lemma run_set_1:
  assumes "\<not> bm_bit bs i" "i < bm_size bs"
  shows "run_set bs i 1 (bm_set i bs)"
  using run_set_Suc [OF assms run_set_0] by simp

lemma n_free_set:
  assumes "\<not> bm_bit bs i" "i < bm_size bs" "i < n"
  shows "n_free (bm_set i bs) n + 1 = n_free bs n"
  using n_free_run_set [OF run_set_1 [OF assms(1,2)]] assms(3) by simp

lemma n_free_clear:
  assumes "bm_bit bs i" "i < bm_size bs" "i < n"
  shows "n_free (bm_clear i bs) n = n_free bs n + 1"
proof -
  have "run_clear bs {i..<Suc i} (bm_clear i bs)"
    using assms(2) by (auto simp: run_clear_def bm_bit_clear)
  from n_free_run_clear [OF this, of n] assms(1,3) show ?thesis
    by (simp add: le_less_Suc_eq conj_commute cong: conj_cong)
qed

text \<open>Reading an inode bitmap with loaded descriptors.\<close>

lemma read_inode_bitmap_result:
  assumes l: "descs_loaded s" "\<not> s_lock (sb_info s)" and g: "unat (ucast bg :: u32) < n_groups s"
    and run: "read_inode_bitmap K s bg = Some (r, t)"
  shows "alloc_frame s t \<and> (r = None \<or> r = Some (ibitmap_blk s (unat (ucast bg :: u32))))"
proof -
  let ?blk = "ucast (bg_inode_bitmap (desc_of s (unat (ucast bg :: u32)))) :: u64"
  have "read_inode_bitmap K s bg =
      (case sb_bread K s ?blk of (None, s) \<Rightarrow> report None s | (Some bh, s) \<Rightarrow> Some (Some bh, s))"
    by (simp add: read_inode_bitmap_def get_group_desc_loaded [OF l(1) g] gd_at_loaded [OF l(1) g])
  with run report_frame [OF l, of None r t] show ?thesis
    by (auto simp: sb_bread_def ibitmap_blk_def alloc_frame_uptodate split: if_splits)
qed

lemma read_inode_bitmap_ok:
  assumes l: "descs_loaded s" and g: "unat (ucast bg :: u32) < n_groups s"
    and "k_getblk K (ibitmap_blk s (unat (ucast bg :: u32)))"
    and "bcache s (ibitmap_blk s (unat (ucast bg :: u32))) \<noteq> None"
  shows "\<exists>t. read_inode_bitmap K s bg = Some (Some (ibitmap_blk s (unat (ucast bg :: u32))), t) \<and>
     alloc_frame s t"
  using assms(3,4) by (simp add: read_inode_bitmap_def get_group_desc_loaded [OF l g]
      gd_at_loaded [OF l g] sb_bread_def ibitmap_blk_def alloc_frame_uptodate)

lemma ialloc_frame:
  assumes "alloc_frame s t"
  shows "ipg t = ipg s" "ibitmap_blk t = ibitmap_blk s" "ibitmap_of t = ibitmap_of s"
    "total_inodes t = total_inodes s" "first_ino t = first_ino s" "used_inodes t = used_inodes s"
    "ialloc_inv t = ialloc_inv s" "static_eq s t"
proof -
  note i = alloc_frame_info [OF assms] and v = alloc_frame_views [OF assms]
  show p: "ipg t = ipg s" and ti: "total_inodes t = total_inodes s" and f: "first_ino t = first_ino s"
    by (simp_all add: ipg_def total_inodes_def first_ino_def i)
  show b: "ibitmap_blk t = ibitmap_blk s" by (simp add: ibitmap_blk_def v fun_eq_iff)
  show o: "ibitmap_of t = ibitmap_of s" by (simp add: ibitmap_of_def b i fun_eq_iff)
  show "used_inodes t = used_inodes s" by (simp add: used_inodes_def p o v)
  show "static_eq s t" by (simp add: static_eq_def p ti f v i test_opt_def fun_eq_iff)
  show "ialloc_inv t = ialloc_inv s"
    by (simp add: ialloc_inv_def inode_acct_def p ti f b o v i)
qed

section \<open>The updates\<close>

lemma put_ibitmap_frame:
  assumes l: "descs_loaded s" and g: "g < n_groups s" and fr: "alloc_frame s t"
    and t': "t' = t\<lparr>bcache := (bcache t)(ibitmap_blk s g \<mapsto> bs)\<rparr>"
  shows "descs_loaded t'" "n_groups t' = n_groups s" "desc_of t' = desc_of s"
    "desc_ptr_of t' = desc_ptr_of s" "static_eq s t'"
    "s_freeinodes_counter (sb_info t') = s_freeinodes_counter (sb_info s)"
    "s_dirs_counter (sb_info t') = s_dirs_counter (sb_info s)"
    "s_freeblocks_counter (sb_info t') = s_freeblocks_counter (sb_info s)"
    "bcache t' = (bcache s)(ibitmap_blk s g \<mapsto> bs)"
  using l alloc_frame_views [OF fr] ialloc_frame [OF fr] alloc_frame_info [OF fr]
  by (simp_all add: t' static_eq_def bpg_def fdb_def total_blocks_def ipg_def total_inodes_def
      first_ino_def test_opt_def fun_eq_iff)

lemma static_eq_updates:
  "static_eq s u \<Longrightarrow> static_eq s (gd_update f p u)"
  "static_eq s u \<Longrightarrow> static_eq s (u\<lparr>sb_info := (sb_info u)\<lparr>s_freeinodes_counter := x\<rparr>\<rparr>)"
  "static_eq s u \<Longrightarrow> static_eq s (u\<lparr>sb_info := (sb_info u)\<lparr>s_dirs_counter := x\<rparr>\<rparr>)"
  by (simp_all add: static_eq_def bpg_def fdb_def total_blocks_def ipg_def total_inodes_def
      first_ino_def test_opt_def fun_eq_iff)

lemma loaded_counters [simp]:
  "descs_loaded (u\<lparr>sb_info := (sb_info u)\<lparr>s_freeinodes_counter := x\<rparr>\<rparr>) = descs_loaded u"
  "descs_loaded (u\<lparr>sb_info := (sb_info u)\<lparr>s_dirs_counter := x\<rparr>\<rparr>) = descs_loaded u"
  "desc_ptr_of (u\<lparr>sb_info := (sb_info u)\<lparr>s_freeinodes_counter := x\<rparr>\<rparr>) = desc_ptr_of u"
  "desc_ptr_of (u\<lparr>sb_info := (sb_info u)\<lparr>s_dirs_counter := x\<rparr>\<rparr>) = desc_ptr_of u"
  by (simp_all add: descs_loaded_def n_groups_def Let_def desc_ptr_of_def fun_eq_iff)

lemma count_claim_upd:
  assumes l: "descs_loaded s" and g: "g < n_groups s" and fr: "alloc_frame s t"
    and t': "t' = t\<lparr>bcache := (bcache t)(ibitmap_blk s g \<mapsto> bs)\<rparr>"
  shows "inode_upd s g bs (claim_desc dir) (- 1) (if dir then 1 else 0)
     (count_claim dir (desc_ptr_of s g) t')"
proof -
  note f = put_ibitmap_frame [OF l g fr t']
  define v where "v = t'\<lparr>sb_info := (sb_info t')\<lparr>s_freeinodes_counter :=
                s_freeinodes_counter (sb_info t') - 1\<rparr>\<rparr>"
  define w where "w = (if dir then v\<lparr>sb_info := (sb_info v)\<lparr>s_dirs_counter :=
                s_dirs_counter (sb_info v) + 1\<rparr>\<rparr> else v)"
  have v: "descs_loaded v" "n_groups v = n_groups s" "desc_of v = desc_of s"
    "desc_ptr_of v = desc_ptr_of s" "static_eq s v" "bcache v = bcache t'"
    "s_freeinodes_counter (sb_info v) = s_freeinodes_counter (sb_info s) - 1"
    "s_dirs_counter (sb_info v) = s_dirs_counter (sb_info s)"
    "s_freeblocks_counter (sb_info v) = s_freeblocks_counter (sb_info s)"
    using f by (simp_all add: v_def static_eq_updates)
  then have w: "descs_loaded w" "n_groups w = n_groups s" "desc_of w = desc_of s"
    "desc_ptr_of w = desc_ptr_of s" "static_eq s w" "bcache w = bcache t'"
    "s_freeinodes_counter (sb_info w) = s_freeinodes_counter (sb_info s) - 1"
    "s_dirs_counter (sb_info w) = s_dirs_counter (sb_info s) + (if dir then 1 else 0)"
    "s_freeblocks_counter (sb_info w) = s_freeblocks_counter (sb_info s)"
    by (simp_all add: w_def static_eq_updates)
  have "count_claim dir (desc_ptr_of s g) t' = gd_update (claim_desc dir) (desc_ptr_of w g) w"
    by (simp only: count_claim_def Let_def v_def [symmetric] w_def [symmetric] w(4))
  then show ?thesis
    using gd_update_loaded [OF w(1), of g "claim_desc dir"] desc_of_update [OF w(1), of g _ "claim_desc dir"]
      static_eq_updates(1) [OF w(5)] w g f(9)
    by (simp add: inode_upd_def)
qed

lemma release_upd:
  assumes l: "descs_loaded s" and g: "unat g < n_groups s" and fr: "alloc_frame s t"
    and t': "t' = t\<lparr>bcache := (bcache t)(ibitmap_blk s (unat g) \<mapsto> bs)\<rparr>"
  shows "\<exists>u. ext2_release_inode t' g dir = Some u \<and>
     inode_upd s (unat g) bs (release_desc dir) 1 (if dir then - 1 else 0) u"
proof -
  note f = put_ibitmap_frame [OF l g fr t']
  define v where "v = gd_update (release_desc dir) (desc_ptr_of t' (unat g)) t'"
  define w where "w = v\<lparr>sb_info := (sb_info v)\<lparr>s_freeinodes_counter :=
                s_freeinodes_counter (sb_info v) + 1\<rparr>\<rparr>"
  define u where "u = (if dir then w\<lparr>sb_info := (sb_info w)\<lparr>s_dirs_counter :=
                s_dirs_counter (sb_info w) - 1\<rparr>\<rparr> else w)"
  have g': "unat g < n_groups t'" using g f(2) by simp
  have run: "ext2_release_inode t' g dir = Some u"
    by (simp add: ext2_release_inode_def get_group_desc_loaded [OF f(1) g'] Let_def
        u_def w_def v_def)
  have v: "descs_loaded v" "n_groups v = n_groups s" "static_eq s v" "bcache v = bcache t'"
    "s_freeinodes_counter (sb_info v) = s_freeinodes_counter (sb_info s)"
    "s_dirs_counter (sb_info v) = s_dirs_counter (sb_info s)"
    "s_freeblocks_counter (sb_info v) = s_freeblocks_counter (sb_info s)"
    using gd_update_loaded [OF f(1) g'] f by (simp_all add: v_def static_eq_updates)
  have d: "desc_of v h = (if h = unat g then release_desc dir (desc_of s h) else desc_of s h)"
    if "h < n_groups s" for h
    using desc_of_update [OF f(1) g', of h "release_desc dir"] that f(2,3) by (simp add: v_def)
  have w: "descs_loaded w" "n_groups w = n_groups s" "static_eq s w" "bcache w = bcache t'"
    "desc_of w = desc_of v" "s_freeinodes_counter (sb_info w) = s_freeinodes_counter (sb_info s) + 1"
    "s_dirs_counter (sb_info w) = s_dirs_counter (sb_info s)"
    "s_freeblocks_counter (sb_info w) = s_freeblocks_counter (sb_info s)"
    using v by (simp_all add: w_def static_eq_updates)
  have "inode_upd s (unat g) bs (release_desc dir) 1 (if dir then - 1 else 0) u"
    using w d f(9) by (simp add: inode_upd_def u_def static_eq_updates)
  with run show ?thesis by blast
qed

end
