(* ===== verification/Ialloc_Thms.thy ===== *)
theory Ialloc_Thms
  imports Ialloc_Correct
begin

text \<open>
  The properties of inode allocation: what a new inode's number is, that claiming and
  freeing are inverse on the set of used inodes, and what the error path for a reserved
  number leaves behind.
\<close>

section \<open>The small file system\<close>

lemma ex_inode_views [simp]:
  "ipg ex_fs = 8" "total_inodes ex_fs = 16" "first_ino ex_fs = 3"
  "ibitmap_blk ex_fs 0 = 4" "ibitmap_blk ex_fs (Suc 0) = 36"
  "ibitmap_of ex_fs 0 = [0x03] @ replicate 127 0" "ibitmap_of ex_fs (Suc 0) = replicate 128 0"
  by (simp_all add: ipg_def total_inodes_def first_ino_def ibitmap_blk_def ibitmap_of_def
      ex_desc_def ex_block_def)

lemma ex_inode_free:
  "n_free ([0x03] @ replicate 127 0) 8 = 6" "n_free (replicate 128 0) 8 = 8"
  by (simp_all add: n_free_code upt_rec bm_bit_def)

lemma ex_ialloc_inv [simp]: "ialloc_inv ex_fs"
proof -
  have "inode_acct ex_fs 0" "inode_acct ex_fs 1"
    by (simp_all add: inode_acct_def ex_inode_free [simplified] ex_block_def ex_desc_def)
  moreover have "inj_on (ibitmap_blk ex_fs) {..<2}"
    by (auto simp: inj_on_def less_2_cases_iff)
  moreover have "ibitmap_blk ex_fs ` {..<2} \<inter> bitmap_blk ex_fs ` {..<2} = {}"
    by (simp add: lessThan_2)
  moreover have "total_of bg_free_inodes_count ex_fs = 14"
    by (simp add: total_of_def lessThan_2 ex_desc_def)
  ultimately show ?thesis
    by (simp add: ialloc_inv_def all_less_2)
qed

definition ex_inode :: inode where
  "ex_inode = \<lparr> i_ino = 2, i_mode = 0x41ED, i_uid = 0, i_gid = 0, i_nlink = 2, i_size = 128,
     i_blocks = 0, i_atime = 0, i_ctime = 0, i_mtime = 0, i_flags = 0, i_rdev = 0,
     i_op = Ext2_dir_inode_ops, i_fop = Ext2_dir_ops, a_ops = Ext2_aops,
     i_pages = (\<lambda>_. None), i_read_err = (\<lambda>_. - EIO), i_version = 1, ei_data = 13 # replicate 14 0, ei_flags = 0,
     ei_state = 0, ei_dtime = 0, ei_block_group = 0 \<rparr>"

definition vfs_ref :: vfs where
  "vfs_ref = \<lparr> new_inode = Some ex_inode, inode_init_owner = (\<lambda>ip dir m. ip\<lparr>i_mode := m\<rparr>),
     insert_inode_locked = (\<lambda>_. True) \<rparr>"

section \<open>The search over the groups\<close>

lemma next_inode_group_less:
  assumes "descs_loaded s" "n_groups s < 2 ^ 30" "unat g < n_groups s"
  shows "unat (next_inode_group s g) < n_groups s"
proof -
  have n: "0 < n_groups s" using assms(3) by simp
  have "unat (scast (g + 1) mod s_groups_count (sb_info s) :: u64) < n_groups s"
    using n by (simp only: unat_mod_distrib n_groups_def) simp
  then show ?thesis
    using assms(2) by (simp add: next_inode_group_def unsigned_ucast_eq take_bit_nat_eq_self)
qed

lemma group_cast:
  assumes "unat (g :: s32) < 2 ^ 31"
  shows "unat (ucast (scast g :: u64) :: u32) = unat g"
  using unat_scast_small(1) [OF assms] assms
  by (simp add: unsigned_ucast_eq take_bit_nat_eq_self)

text \<open>The state right after bit \<open>i\<close> of group \<open>g\<close>'s inode bitmap has been set.\<close>

definition marked :: "ext2_fs \<Rightarrow> nat \<Rightarrow> nat \<Rightarrow> ext2_fs \<Rightarrow> bool" where
  "marked s g i u \<longleftrightarrow> (\<exists>t. alloc_frame s t \<and>
     u = t\<lparr>bcache := (bcache t)(ibitmap_blk s g \<mapsto> bm_set i (ibitmap_of s g))\<rparr>)"

lemma marked_frame:
  assumes "alloc_frame s t" "marked t g i u"
  shows "marked s g i u"
  using assms alloc_frame_trans [OF assms(1)] ialloc_frame [OF assms(1)]
  unfolding marked_def by metis

text \<open>One round of the search: the bitmap cannot be read, the group is full and the search goes on, or
  its first free inode is taken.\<close>

lemma claim_inode_round:
  assumes inv: "ialloc_inv s" and K: "bitops_ok K" and g: "unat g < n_groups s"
    and run: "claim_inode K (x # xs) s g = Some (r, u)"
  obtains "r = Claim_err (- EIO)" "alloc_frame s u"
  | t where "alloc_frame s t" "unat (next_inode_group t g) < n_groups t"
      "claim_inode K xs t (next_inode_group t g) = Some (r, u)"
  | i where "i < ipg s" "\<not> bm_bit (ibitmap_of s (unat g)) i" "\<forall>j < i. bm_bit (ibitmap_of s (unat g)) j"
      "r = Claimed g (desc_ptr_of s (unat g)) (of_nat i)" "marked s (unat g) i u"
proof -
  note l = ialloc_invD(2) [OF inv] and geom = ialloc_invD(1) [OF inv] and n = ialloc_invD(16) [OF inv]
  have gc: "unat (ucast (scast g :: u64) :: u32) = unat g" using g n by (intro group_cast) simp
  let ?step = "\<lambda>bo t. (case bo of None \<Rightarrow> Some (Claim_err (- EIO), t) | Some bh \<Rightarrow> do {
           bs \<leftarrow> bcache t bh;
           let inodes_pg = s_inodes_per_group (sb_info t);
           (r, bs') \<leftarrow> claim_in_group (Suc (unat inodes_pg)) K inodes_pg 0 bs;
           let s' = t\<lparr>bcache := (bcache t)(bh \<mapsto> bs')\<rparr>;
           (case r of None \<Rightarrow> claim_inode K xs s' (next_inode_group s' g)
             | Some ino \<Rightarrow> Some (Claimed g (desc_ptr_of s (unat g)) ino, s')) })"
  have "claim_inode K (x # xs) s g = do { (bo, t) \<leftarrow> read_inode_bitmap K s (scast g); ?step bo t }"
    by (simp only: claim_inode.simps get_group_desc_loaded [OF l g] bind.bind_lunit prod.case
        option.case)
  then obtain bo t where t: "read_inode_bitmap K s (scast g) = Some (bo, t)"
    and rest: "?step bo t = Some (r, u)"
    using run by (cases "read_inode_bitmap K s (scast g)") (auto simp del: claim_inode.simps)
  note f = read_inode_bitmap_result [OF l geom_okD(2) [OF geom] _ t, unfolded gc, OF g]
  show thesis
  proof (cases bo)
    case None
    with rest f show thesis by (intro that(1)) auto
  next
    case (Some bh)
    then have fr: "alloc_frame s t" and bh: "bh = ibitmap_blk s (unat g)" using f by simp_all
    note v = ialloc_frame [OF fr] alloc_frame_views(3,4) [OF fr] alloc_frame_info(15) [OF fr]
    let ?bm = "ibitmap_of s (unat g)"
    let ?m = "s_inodes_per_group (sb_info t)"
    have m: "unat ?m = ipg s" using v(1) by (simp add: ipg_def)
    have bc: "bcache t bh = Some ?bm" using ialloc_invD(9) [OF inv g] by (simp add: bh v)
    have le: "unat ?m \<le> bm_size ?bm" unfolding m by (rule ialloc_invD(15) [OF inv g])
    note rest' = rest [unfolded Some option.case bc bind.bind_lunit Let_def]
    consider (full) "claim_in_group (Suc (unat ?m)) K ?m 0 ?bm = Some (None, ?bm)"
      | (got) i where "i < ipg s" "\<not> bm_bit ?bm i" "\<forall>j < i. bm_bit ?bm j"
        "claim_in_group (Suc (unat ?m)) K ?m 0 ?bm = Some (Some (of_nat i), bm_set i ?bm)"
      using claim_in_group_result [OF K le, of "unat ?m"] unfolding m by blast
    then show thesis
    proof cases
      case full
      have same: "t\<lparr>bcache := (bcache t)(bh \<mapsto> ?bm)\<rparr> = t" using bc by (simp add: fun_upd_idem)
      have "claim_inode K xs t (next_inode_group t g) = Some (r, u)"
        using rest' unfolding full bind.bind_lunit prod.case option.case same .
      moreover have "unat (next_inode_group t g) < n_groups t"
        using l g n by (intro next_inode_group_less) (simp_all add: v)
      ultimately show thesis by (rule that(2) [OF fr, rotated])
    next
      case got
      have "r = Claimed g (desc_ptr_of s (unat g)) (of_nat i)"
        "u = t\<lparr>bcache := (bcache t)(bh \<mapsto> bm_set i ?bm)\<rparr>"
        using rest' unfolding got(4) bind.bind_lunit prod.case option.case by simp_all
      with got(1-3) fr bh show thesis by (intro that(3)) (auto simp: marked_def)
    qed
  qed
qed

lemma claim_inode_result:
  assumes "ialloc_inv s" "bitops_ok K" "unat g < n_groups s"
    and "claim_inode K xs s g = Some (r, u)"
  shows "case r of Claim_err e \<Rightarrow> e \<in> {- ENOSPC, - EIO} \<and> alloc_frame s u
     | Claimed h p b \<Rightarrow> unat h < n_groups s \<and> p = desc_ptr_of s (unat h) \<and> unat b < ipg s \<and>
         \<not> bm_bit (ibitmap_of s (unat h)) (unat b) \<and>
         (\<forall>j < unat b. bm_bit (ibitmap_of s (unat h)) j) \<and> marked s (unat h) (unat b) u"
  using assms
proof (induction xs arbitrary: s g)
  case Nil
  then show ?case by auto
next
  case (Cons x xs)
  note inv = Cons.prems(1)
  from Cons.prems show ?case
  proof (cases rule: claim_inode_round)
    case 1
    then show ?thesis by simp
  next
    case (2 t)
    note v = ialloc_frame [OF 2(1)] alloc_frame_views [OF 2(1)]
    from Cons.IH [OF _ Cons.prems(2) 2(2,3)] inv show ?thesis
      using alloc_frame_trans [OF 2(1)] marked_frame [OF 2(1)] by (cases r) (auto simp: v)
  next
    case (3 i)
    then have "i < 2 ^ 64" using ialloc_invD(4) [OF inv] by simp
    then have "unat (of_nat i :: u64) = i" by (rule unat_of_nat_64)
    with 3 Cons.prems(3) show ?thesis by simp
  qed
qed

section \<open>A new inode\<close>

text \<open>What it means that inode number \<open>n\<close> has been claimed.\<close>

definition inode_claimed :: "ext2_fs \<Rightarrow> bool \<Rightarrow> nat \<Rightarrow> ext2_fs \<Rightarrow> bool" where
  "inode_claimed s dir n s' \<longleftrightarrow> ialloc_inv s' \<and> balloc_inv s' \<and> n \<notin> used_inodes s \<and>
     used_inodes s' = insert n (used_inodes s) \<and>
     s_freeinodes_counter (sb_info s') = s_freeinodes_counter (sb_info s) - 1 \<and>
     s_dirs_counter (sb_info s') = s_dirs_counter (sb_info s) + (if dir then 1 else 0) \<and>
     s_freeblocks_counter (sb_info s') = s_freeblocks_counter (sb_info s) \<and>
     (\<forall>h < n_groups s. let own = (h = (n - 1) div ipg s); d = desc_of s h; d' = desc_of s' h in
        bg_free_inodes_count d' = bg_free_inodes_count d - (if own then 1 else 0) \<and>
        bg_used_dirs_count d' = bg_used_dirs_count d + (if own \<and> dir then 1 else 0) \<and>
        bg_free_blocks_count d' = bg_free_blocks_count d) \<and>
     static_eq s s'"

lemma unat_dec_16: "x \<noteq> 0 \<Longrightarrow> unat (x - 1 :: u16) = unat x - 1"
  by (metis unat_minus_one)

lemma claim_updates:
  assumes inv: "ialloc_inv s" and b: "balloc_inv s" and g: "g < n_groups s" and i: "i < ipg s"
    and clear: "\<not> bm_bit (ibitmap_of s g) i" and m: "marked s g i t'"
  shows "inode_claimed s dir (g * ipg s + i + 1) (count_claim dir (desc_ptr_of s g) t')"
proof -
  let ?bm = "ibitmap_of s g"
  let ?u = "count_claim dir (desc_ptr_of s g) t'"
  note l = ialloc_invD(2) [OF inv]
  from m obtain t where fr: "alloc_frame s t"
    and t': "t' = t\<lparr>bcache := (bcache t)(ibitmap_blk s g \<mapsto> bm_set i ?bm)\<rparr>"
    by (auto simp: marked_def)
  note upd = count_claim_upd [OF l g fr t', of dir]
  have sz: "i < bm_size ?bm" using i ialloc_invD(15) [OF inv g] by simp
  note nf = n_free_set [OF clear sz i]
  have free: "unat (bg_free_inodes_count (desc_of s g)) = n_free ?bm (ipg s)"
    by (rule ialloc_invD(11) [OF inv g])
  then have nz: "bg_free_inodes_count (desc_of s g) \<noteq> 0" using nf by auto
  have cnt: "unat (bg_free_inodes_count (claim_desc dir (desc_of s g))) = n_free (bm_set i ?bm) (ipg s)"
    using free nf unat_dec_16 [OF nz] by (simp add: claim_desc_def Let_def)
  have len: "length (bm_set i ?bm) = unat (sb_blocksize s)"
    by (simp add: ialloc_invD(10) [OF inv g])
  have iu: "ialloc_inv ?u"
    using nf by (intro inode_upd_inv [OF upd keeps_layout_desc(1) g inv len cnt]) simp
  have bu: "balloc_inv ?u" by (rule inode_upd_balloc [OF upd keeps_layout_desc(1) g inv b])
  have st: "static_eq s ?u" using upd by (simp add: inode_upd_def)
  have "used_inodes ?u = insert (g * ipg s + i + 1) (used_inodes s)"
  proof (rule used_inodes_eqI [of _ s])
    fix h j assume h: "h < n_groups s" and j: "j < ipg s"
    show "h * ipg s + j + 1 \<in> used_inodes ?u \<longleftrightarrow>
        h * ipg s + j + 1 \<in> insert (g * ipg s + i + 1) (used_inodes s)"
      using inode_upd_used [OF upd keeps_layout_desc(1) g inv h j] used_inode_iff [OF h j]
        ino_position [of h "ipg s" j g i] i j bm_bit_set [OF sz, of j]
      by (cases "h = g") auto
  next
    fix n assume "n \<in> insert (g * ipg s + i + 1) (used_inodes s)"
    then show "\<exists>h j. h < n_groups s \<and> j < ipg s \<and> n = h * ipg s + j + 1"
      using g i by (auto simp: used_inodes_def)
  qed (simp_all add: static_eq_views [OF st])
  moreover have "g * ipg s + i + 1 \<notin> used_inodes s" using used_inode_iff [OF g i] clear by simp
  ultimately show ?thesis
    using iu bu st upd i by (simp add: inode_claimed_def inode_upd_def claim_desc_def Let_def)
qed

lemma ino_arith:
  assumes inv: "ialloc_inv s" and g: "unat g < n_groups s" and i: "unat b < ipg s"
  shows "unat (b + scast (g :: s32) * s_inodes_per_group (sb_info s) + 1) = unat g * ipg s + unat b + 1"
proof -
  have sg: "unat (scast g :: u64) = unat g"
    using g ialloc_invD(16) [OF inv] by (intro unat_scast_small) simp
  have "unat g * ipg s + unat b < n_groups s * ipg s"
    using g i by (metis add_less_cancel_left add.commute mult.commute mult_Suc less_le_trans
        Suc_leI mult_le_mono1)
  then have lt: "unat g * ipg s + unat b < 2 ^ 32"
    using ialloc_invD(6) [OF inv] unat_less_32 [of "es_inodes_count (sb_es s)"]
    by (simp add: total_inodes_def)
  have "unat (scast g * s_inodes_per_group (sb_info s)) = unat g * ipg s"
    using lt by (subst unat_mult_64) (simp_all add: sg ipg_def)
  then show ?thesis using lt by (simp add: unat_add_64)
qed

lemma in_range_ino:
  assumes inv: "ialloc_inv s"
  shows "(ino < scast (s_first_ino (sb_info s)) \<or> ucast (es_inodes_count (sb_es s)) < (ino :: u64)) \<longleftrightarrow>
     unat ino < first_ino s \<or> total_inodes s < unat ino"
  using unat_scast_small(1) [of "s_first_ino (sb_info s)"] ialloc_invD(8) [OF inv]
  by (simp add: word_less_nat_alt first_ino_def total_inodes_def)

lemma new_inode_result:
  assumes "ialloc_inv s" "balloc_inv s" "bitops_ok K" "unat (ei_block_group dir) < n_groups s"
    and "ext2_new_inode K V s dir mode = Some (Inr ip, s')"
  shows "inode_claimed s (S_ISDIR mode) (unat (i_ino ip)) s' \<and>
     first_ino s \<le> unat (i_ino ip) \<and> unat (i_ino ip) \<le> total_inodes s \<and>
     unat (ei_block_group ip) = (unat (i_ino ip) - 1) div ipg s \<and>
     ei_data ip = replicate EXT2_N_BLOCKS 0 \<and> i_blocks ip = 0 \<and> ei_state ip = EXT2_STATE_NEW \<and>
     (\<exists>ip0 now g. new_inode V = Some ip0 \<and> ip = fill_new_inode V now ip0 dir mode (i_ino ip) g)"
proof -
  note inv = assms(1) and l = ialloc_invD(2) [OF assms(1)] and n = ialloc_invD(16) [OF assms(1)]
  obtain g where g: "find_group s dir = Some (g, s)" "g \<noteq> -1 \<Longrightarrow> unat g < n_groups s"
    using find_group_result [OF l n assms(4)] by (auto split: if_splits)
  from assms(5) g(1) obtain ip0 c t where v: "new_inode V = Some ip0" and nz: "g \<noteq> -1" and cl: "claim_inode K [0..<n_groups s] s g = Some (c, t)"
    and rest: "(case c of Claim_err e \<Rightarrow> Some (Inl e, t) | Claimed grp p b \<Rightarrow> do {
             let ino = b + scast grp * s_inodes_per_group (sb_info t) + 1;
             if ino < scast (s_first_ino (sb_info t)) \<or> ucast (es_inodes_count (sb_es t)) < ino
             then report (Inl (- EIO)) t
             else do {
               let s = count_claim (S_ISDIR mode) p t;
               if \<not> insert_inode_locked V ino then report (Inl (- EIO)) s
               else Some (Inr (fill_new_inode V (uint (clock s)) ip0 dir mode ino grp), s) } }) = Some (Inr ip, s')"
    by (auto simp: ext2_new_inode_def bind_Some_iff simp del: claim_inode.simps split: option.splits if_splits)
  note r = claim_inode_result [OF inv assms(3) g(2) [OF nz] cl]
  from rest obtain h p b where c: "c = Claimed h p b" by (cases c) auto
  note r = r [unfolded c claim.case]
  let ?ino = "b + scast h * s_inodes_per_group (sb_info s) + 1"
  obtain t0 where fr: "alloc_frame s t0"
    and t: "t = t0\<lparr>bcache := (bcache t0)(ibitmap_blk s (unat h) \<mapsto> bm_set (unat b) (ibitmap_of s (unat h)))\<rparr>"
    using r by (auto simp: marked_def)
  note i = alloc_frame_info [OF fr]
  have no_report: "report (Inl e :: int + inode) v \<noteq> Some (Inr x, w)" for e v x w
    by (auto simp: report_def)
  from rest have ok: "\<not> (?ino < scast (s_first_ino (sb_info s)) \<or> ucast (es_inodes_count (sb_es s)) < ?ino)"
    and s': "s' = count_claim (S_ISDIR mode) p t"
    and "\<exists>now. ip = fill_new_inode V now ip0 dir mode ?ino h"
    by (auto simp: c Let_def t i no_report split: if_splits)
  then obtain now where ip: "ip = fill_new_inode V now ip0 dir mode ?ino h" by blast
  have data: "i_ino ip = ?ino" "ei_block_group ip = h" "ei_data ip = replicate EXT2_N_BLOCKS 0" "i_blocks ip = 0"
    "ei_state ip = EXT2_STATE_NEW"
    by (simp_all add: ip fill_new_inode_def ext2_set_inode_flags_def)
  have ui: "unat ?ino = unat h * ipg s + unat b + 1" using r by (intro ino_arith [OF inv]) simp_all
  have "(unat ?ino - 1) div ipg s = unat h"
    using r unfolding ui by simp
  moreover have "inode_claimed s (S_ISDIR mode) (unat ?ino) s'"
    unfolding ui s' using r claim_updates [OF inv assms(2), of "unat h" "unat b" t "S_ISDIR mode"]
    by simp
  ultimately show ?thesis
    using ok [unfolded in_range_ino [OF inv]] v ip
    unfolding data by (intro conjI exI [of _ ip0] exI [of _ now] exI [of _ h]) simp_all
qed

text \<open>
  C5: a new inode has a number that was free and is neither reserved nor beyond the last
  one; its bit is set and no other bit changes; the group of its number has one free inode
  less and, for a directory, one directory more, the counts of the other groups stay and the
  file system's counters follow; the block accounting is untouched, and the in-memory inode starts with no blocks, the group of its number, and the
  mark that its disk inode has not been written.
\<close>

theorem ext2_new_inode_claims:
  assumes "ialloc_inv s" "balloc_inv s" "bitops_ok K" "unat (ei_block_group dir) < n_groups s"
    and "ext2_new_inode K V s dir mode = Some (Inr ip, s')"
  shows "inode_claimed s (S_ISDIR mode) (unat (i_ino ip)) s' \<and>
     first_ino s \<le> unat (i_ino ip) \<and> unat (i_ino ip) \<le> total_inodes s \<and>
     unat (ei_block_group ip) = (unat (i_ino ip) - 1) div ipg s \<and>
     ei_data ip = replicate EXT2_N_BLOCKS 0 \<and> i_blocks ip = 0 \<and> ei_state ip = EXT2_STATE_NEW"
  using new_inode_result [OF assms] by blast

lemma ex_claim:
  "\<exists>ip s'. ext2_new_inode kern_ref vfs_ref ex_fs ex_inode 0x81A4 = Some (Inr ip, s') \<and>
     i_ino ip = 3"
proof -
  have "find_group ex_fs ex_inode = Some (0, ex_fs)"
    by (simp add: find_group_def group_fits_loaded has_room_def ex_desc_def ex_inode_def Let_def)
  moreover have "find_next_zero_bit_le kern_ref ([0x03] @ replicate 127 0) 8 0 = 2"
    by (simp add: kern_ref_def ref_find_zero_def upt_rec bm_bit_def)
  moreover have "read_inode_bitmap kern_ref ex_fs 0 = Some (Some 4, ex_fs)"
    by (simp add: read_inode_bitmap_def get_group_desc_loaded gd_at_loaded sb_bread_def ex_desc_def
        kern_ref_def ex_block_def) (simp add: ex_fs_def fun_eq_iff)
  ultimately show ?thesis
    by (simp add: ext2_new_inode_def vfs_ref_def upt_rec get_group_desc_loaded ex_block_def Let_def
        set_bitD [OF kern_ref_ok] bm_size_def bm_bit_def fill_new_inode_def ext2_set_inode_flags_def)
qed

theorem ext2_new_inode_claims_witness:
  "\<exists>ip s'. ext2_new_inode kern_ref vfs_ref ex_fs ex_inode 0x81A4 = Some (Inr ip, s') \<and>
     used_inodes s' = insert 3 (used_inodes ex_fs) \<and> 3 \<notin> used_inodes ex_fs"
proof -
  obtain ip s' where r: "ext2_new_inode kern_ref vfs_ref ex_fs ex_inode 0x81A4 = Some (Inr ip, s')"
    "i_ino ip = 3"
    using ex_claim by blast
  have "unat (ei_block_group ex_inode) < n_groups ex_fs" by (simp add: ex_inode_def)
  from ext2_new_inode_claims [OF ex_ialloc_inv ex_balloc_inv kern_ref_ok this r(1)] r
  show ?thesis by (auto simp: inode_claimed_def)
qed

text \<open>
  C6: the choice of a group for a new inode always ends, changes nothing, and reports
  failure only when no group has a free inode; a group it chooses has one.
\<close>

theorem find_group_complete:
  assumes "descs_loaded s" "n_groups s < 2 ^ 30" "unat (ei_block_group dir) < n_groups s"
  shows "\<exists>g. find_group s dir = Some (g, s) \<and>
     (if g = -1 then \<forall>h < n_groups s. bg_free_inodes_count (desc_of s h) = 0
      else unat g < n_groups s \<and> bg_free_inodes_count (desc_of s (unat g)) \<noteq> 0)"
  by (rule find_group_result [OF assms])

theorem find_group_complete_witness:
  "\<exists>g. find_group ex_fs ex_inode = Some (g, ex_fs) \<and> g \<noteq> -1 \<and> unat g < 2"
proof -
  have "\<not> (\<forall>h < n_groups ex_fs. bg_free_inodes_count (desc_of ex_fs h) = 0)"
    by (simp add: all_less_2 ex_desc_def)
  then show ?thesis
    using find_group_complete [OF ex_loaded, of ex_inode] by (auto simp: ex_inode_def split: if_splits)
qed

section \<open>Freeing an inode\<close>

definition inode_released :: "ext2_fs \<Rightarrow> bool \<Rightarrow> nat \<Rightarrow> ext2_fs \<Rightarrow> bool" where
  "inode_released s dir n s' \<longleftrightarrow> ialloc_inv s' \<and> balloc_inv s' \<and>
     used_inodes s' = used_inodes s - {n} \<and>
     s_freeinodes_counter (sb_info s') = s_freeinodes_counter (sb_info s) + 1 \<and>
     s_dirs_counter (sb_info s') = s_dirs_counter (sb_info s) - (if dir then 1 else 0) \<and>
     s_freeblocks_counter (sb_info s') = s_freeblocks_counter (sb_info s) \<and>
     (\<forall>h < n_groups s. let own = (h = (n - 1) div ipg s); d = desc_of s h; d' = desc_of s' h in
        bg_free_inodes_count d' = bg_free_inodes_count d + (if own then 1 else 0) \<and>
        bg_used_dirs_count d' = bg_used_dirs_count d - (if own \<and> dir then 1 else 0) \<and>
        bg_free_blocks_count d' = bg_free_blocks_count d) \<and>
     static_eq s s'"

lemma unat_inc_16: "unat (x :: u16) < 65535 \<Longrightarrow> unat (x + 1) = unat x + 1"
  by (simp add: unat_word_ariths)

lemma release_updates:
  assumes inv: "ialloc_inv s" and b: "balloc_inv s" and g: "unat g < n_groups s" and i: "i < ipg s"
    and bit: "bm_bit (ibitmap_of s (unat g)) i" and fr: "alloc_frame s t"
    and t': "t' = t\<lparr>bcache := (bcache t)(ibitmap_blk s (unat g) \<mapsto> bm_clear i (ibitmap_of s (unat g)))\<rparr>"
  shows "\<exists>u. ext2_release_inode t' g dir = Some u \<and>
     inode_released s dir (unat g * ipg s + i + 1) u"
proof -
  let ?g = "unat g" and ?bm = "ibitmap_of s (unat g)"
  note l = ialloc_invD(2) [OF inv]
  obtain u where run: "ext2_release_inode t' g dir = Some u"
    and upd: "inode_upd s ?g (bm_clear i ?bm) (release_desc dir) 1 (if dir then - 1 else 0) u"
    using release_upd [OF l g fr t', of dir] by blast
  have sz: "i < bm_size ?bm" using i ialloc_invD(15) [OF inv g] by simp
  note nf = n_free_clear [OF bit sz i]
  have free: "unat (bg_free_inodes_count (desc_of s ?g)) = n_free ?bm (ipg s)"
    by (rule ialloc_invD(11) [OF inv g])
  have "n_free (bm_clear i ?bm) (ipg s) \<le> 32768"
    using n_free_le ialloc_invD(4) [OF inv] by (rule order.trans)
  then have cnt: "unat (bg_free_inodes_count (release_desc dir (desc_of s ?g))) =
      n_free (bm_clear i ?bm) (ipg s)"
    using free nf unat_inc_16 [of "bg_free_inodes_count (desc_of s ?g)"]
    by (simp add: release_desc_def Let_def)
  have len: "length (bm_clear i ?bm) = unat (sb_blocksize s)"
    by (simp add: ialloc_invD(10) [OF inv g])
  have iu: "ialloc_inv u"
    using nf by (intro inode_upd_inv [OF upd keeps_layout_desc(2) g inv len cnt]) simp
  have bu: "balloc_inv u" by (rule inode_upd_balloc [OF upd keeps_layout_desc(2) g inv b])
  have st: "static_eq s u" using upd by (simp add: inode_upd_def)
  have "used_inodes u = used_inodes s - {?g * ipg s + i + 1}"
  proof (rule used_inodes_eqI [of _ s])
    fix h j assume h: "h < n_groups s" and j: "j < ipg s"
    show "h * ipg s + j + 1 \<in> used_inodes u \<longleftrightarrow>
        h * ipg s + j + 1 \<in> used_inodes s - {?g * ipg s + i + 1}"
      using inode_upd_used [OF upd keeps_layout_desc(2) g inv h j] used_inode_iff [OF h j]
        ino_position [of h "ipg s" j ?g i] i j bm_bit_clear [OF sz, of j]
      by (cases "h = ?g") auto
  next
    fix n assume "n \<in> used_inodes s - {?g * ipg s + i + 1}"
    then show "\<exists>h j. h < n_groups s \<and> j < ipg s \<and> n = h * ipg s + j + 1"
      by (auto simp: used_inodes_def)
  qed (simp_all add: static_eq_views [OF st])
  then show ?thesis
    using run iu bu st upd i by (simp add: inode_released_def inode_upd_def release_desc_def Let_def)
qed

lemma ino_split:
  assumes inv: "ialloc_inv s" and r: "1 \<le> unat ino" "unat ino \<le> total_inodes s"
  defines "g \<equiv> (unat ino - 1) div ipg s" and "i \<equiv> (unat ino - 1) mod ipg s"
  shows "g < n_groups s" "i < ipg s" "unat ino = g * ipg s + i + 1"
    and "unat (ucast ((ino - 1) div s_inodes_per_group (sb_info s)) :: u32) = g"
    and "unat ((ino - 1) mod s_inodes_per_group (sb_info s)) = i"
    and "s_inodes_per_group (sb_info s) \<noteq> 0"
proof -
  have "unat ino - 1 < n_groups s * ipg s" using r ialloc_invD(6) [OF inv] by simp
  then show g: "g < n_groups s" unfolding g_def by (simp add: less_mult_imp_div_less)
  show "i < ipg s" using ialloc_invD(3) [OF inv] by (simp add: i_def)
  show "unat ino = g * ipg s + i + 1" using r by (simp add: g_def i_def)
  have u: "unat (ino - 1) = unat ino - 1" using r by (simp add: unat_sub_64)
  have "unat ((ino - 1) div s_inodes_per_group (sb_info s)) = g"
    by (simp add: unat_div_distrib u g_def ipg_def)
  then show "unat (ucast ((ino - 1) div s_inodes_per_group (sb_info s)) :: u32) = g"
    using g ialloc_invD(16) [OF inv] by (simp add: unsigned_ucast_eq take_bit_nat_eq_self)
  show "unat ((ino - 1) mod s_inodes_per_group (sb_info s)) = i"
    by (simp add: unat_mod_distrib u i_def ipg_def)
  show "s_inodes_per_group (sb_info s) \<noteq> 0" using ialloc_invD(3) [OF inv] by (auto simp: ipg_def)
qed

text \<open>
  C7: freeing an inode in use whose number is not reserved, when every inode bitmap's buffer
  can be had, clears its bit and no other; the group of its number has one free inode more
  and, for a directory, one directory less, the counts of the other groups stay and the file
  system's counters follow.
\<close>

theorem ext2_free_inode_releases:
  assumes inv: "ialloc_inv s" and b: "balloc_inv s" and K: "bitops_ok K"
    and k: "\<forall>g < n_groups s. k_getblk K (ibitmap_blk s g)"
    and used: "unat (i_ino ip) \<in> used_inodes s" and r: "first_ino s \<le> unat (i_ino ip)"
  shows "\<exists>s'. ext2_free_inode K s ip = Some s' \<and>
     inode_released s (S_ISDIR (i_mode ip)) (unat (i_ino ip)) s'"
proof -
  note l = ialloc_invD(2) [OF inv]
  let ?ino = "i_ino ip"
  obtain g0 i0 where gi: "g0 < n_groups s" "i0 < ipg s" "unat ?ino = g0 * ipg s + i0 + 1"
    "bm_bit (ibitmap_of s g0) i0"
    using used by (auto simp: used_inodes_def)
  have "(g0 + 1) * ipg s \<le> n_groups s * ipg s" using gi(1) by (intro mult_le_mono1) simp
  then have le: "unat ?ino \<le> total_inodes s" using gi ialloc_invD(6) [OF inv] by simp
  have ge: "1 \<le> unat ?ino" using gi by simp
  note p = ino_split [OF inv ge le]
  have pos: "g0 = (unat ?ino - 1) div ipg s" "i0 = (unat ?ino - 1) mod ipg s"
    using gi by simp_all
  let ?bg = "(?ino - 1) div s_inodes_per_group (sb_info s)"
  let ?g = "ucast ?bg :: u32"
  have g: "unat ?g = g0" using p(4) pos by simp
  have g': "unat ?g < n_groups s" using gi(1) g by simp
  have range: "\<not> (?ino < scast (s_first_ino (sb_info s)) \<or> ucast (es_inodes_count (sb_es s)) < ?ino)"
    unfolding in_range_ino [OF inv] using r le by simp
  obtain t where rd: "read_inode_bitmap K s ?bg = Some (Some (ibitmap_blk s g0), t)" and fr: "alloc_frame s t"
    using read_inode_bitmap_ok [OF l g'] k gi(1) ialloc_invD(9) [OF inv gi(1)] unfolding g by auto
  have bc: "bcache t (ibitmap_blk s g0) = Some (ibitmap_of s g0)"
    using ialloc_invD(9) [OF inv gi(1)] by (simp add: alloc_frame_info [OF fr])
  have "i0 < bm_size (ibitmap_of s g0)" using gi(2) ialloc_invD(15) [OF inv gi(1)] by simp
  then have cl: "ext2_clear_bit_atomic K ((?ino - 1) mod s_inodes_per_group (sb_info s)) (ibitmap_of s g0)
      = Some (True, bm_clear i0 (ibitmap_of s g0))"
    using clear_bitD [OF K, of "(?ino - 1) mod s_inodes_per_group (sb_info s)"] p(5) gi(4) pos(2) by simp
  obtain u where "ext2_release_inode (t\<lparr>bcache := (bcache t)(ibitmap_blk s g0 \<mapsto> bm_clear i0 (ibitmap_of s g0))\<rparr>)
      ?g (S_ISDIR (i_mode ip)) = Some u" "inode_released s (S_ISDIR (i_mode ip)) (unat ?ino) u"
    using release_updates [OF inv b g' gi(2) _ fr refl, of "S_ISDIR (i_mode ip)"] gi(3,4) g by auto
  then show ?thesis
    using range p(6) by (auto simp: ext2_free_inode_def Let_def rd bc cl)
qed

theorem ext2_free_inode_releases_witness:
  "\<exists>s'. ext2_free_inode kern_ref (ex_fs\<lparr>sb_info := ex_info\<lparr>s_first_ino := 1\<rparr>\<rparr>) ex_inode = Some s' \<and>
     2 \<notin> used_inodes s'"
proof -
  let ?s = "ex_fs\<lparr>sb_info := ex_info\<lparr>s_first_ino := 1\<rparr>\<rparr>"
  have v: "n_groups ?s = n_groups ex_fs" "desc_of ?s = desc_of ex_fs" "desc_ptr_of ?s = desc_ptr_of ex_fs"
    "bpg ?s = bpg ex_fs" "fdb ?s = fdb ex_fs" "total_blocks ?s = total_blocks ex_fs"
    "ipg ?s = ipg ex_fs" "total_inodes ?s = total_inodes ex_fs" "first_ino ?s = 1"
    by (simp_all add: n_groups_def desc_of_def gd_at_def desc_ptr_of_def bpg_def fdb_def
        total_blocks_def ipg_def total_inodes_def first_ino_def fun_eq_iff ex_fs_def)
  have w: "group_blocks ?s = group_blocks ex_fs" "bitmap_blk ?s = bitmap_blk ex_fs"
    "bitmap_of ?s = bitmap_of ex_fs" "ibitmap_blk ?s = ibitmap_blk ex_fs"
    "ibitmap_of ?s = ibitmap_of ex_fs" "total_of f ?s = total_of f ex_fs" for f
    by (simp_all add: v group_blocks_def group_first_def bitmap_blk_def bitmap_of_def
        ibitmap_blk_def ibitmap_of_def total_of_def fun_eq_iff)
  have g: "geom_ok ?s" by (simp add: geom_ok_def v descs_loaded_def)
  have i: "ialloc_inv ?s"
    using ex_ialloc_inv g by (simp add: ialloc_inv_def v w inode_acct_def)
  have b: "balloc_inv ?s"
    using ex_balloc_inv g by (simp add: balloc_inv_def v w group_acct_def)
  have e: "0 * ipg ?s + 1 + 1 = 2" by simp
  have "2 \<in> used_inodes ?s"
    using used_inode_iff [of 0 ?s 1, unfolded e] by (simp add: v w bm_bit_def)
  then have "unat (i_ino ex_inode) \<in> used_inodes ?s" by (simp add: ex_inode_def)
  from ext2_free_inode_releases [OF i b kern_ref_ok _ this]
  show ?thesis by (auto simp: v kern_ref_def inode_released_def ex_inode_def)
qed

section \<open>A reserved number leaks its bit\<close>

text \<open>The first free bit of the group's bitmap is the one that is claimed.\<close>

lemma claim_in_group_first:
  assumes "bitops_ok K" "unat m \<le> bm_size bm" "i < unat m" "\<not> bm_bit bm i" "\<forall>j < i. bm_bit bm j"
  shows "claim_in_group (Suc (unat m)) K m 0 bm = Some (Some (of_nat i), bm_set i bm)"
proof -
  consider (full) "\<forall>i < unat m. bm_bit bm i" | (got) k where "k < unat m" "\<not> bm_bit bm k" "\<forall>j < k. bm_bit bm j"
      "claim_in_group (Suc (unat m)) K m 0 bm = Some (Some (of_nat k), bm_set k bm)"
    using claim_in_group_result [OF assms(1,2), of "unat m"] by blast
  then show ?thesis
  proof cases
    case full
    with assms(3,4) show ?thesis by blast
  next
    case got
    then have "k = i" using assms(4,5) by (metis linorder_neqE_nat)
    with got show ?thesis by simp
  qed
qed

lemma claim_inode_first:
  assumes inv: "ialloc_inv s" and K: "bitops_ok K" and g: "unat g < n_groups s"
    and kb: "k_getblk K (ibitmap_blk s (unat g))"
    and i: "i < ipg s" "\<not> bm_bit (ibitmap_of s (unat g)) i" "\<forall>j < i. bm_bit (ibitmap_of s (unat g)) j"
  shows "\<exists>t. alloc_frame s t \<and> claim_inode K [0..<n_groups s] s g =
    Some (Claimed g (desc_ptr_of s (unat g)) (of_nat i),
      t\<lparr>bcache := (bcache t)(ibitmap_blk s (unat g) \<mapsto> bm_set i (ibitmap_of s (unat g)))\<rparr>)"
proof -
  note l = ialloc_invD(2) [OF inv] and n = ialloc_invD(16) [OF inv]
  let ?bm = "ibitmap_of s (unat g)" and ?m = "s_inodes_per_group (sb_info s)"
  have m: "unat ?m = ipg s" by (simp add: ipg_def)
  have gc: "unat (ucast (scast g :: u64) :: u32) = unat g" using g n by (intro group_cast) simp
  have bc0: "bcache s (ibitmap_blk s (unat g)) = Some ?bm" by (rule ialloc_invD(9) [OF inv g])
  obtain t where rd: "read_inode_bitmap K s (scast g) = Some (Some (ibitmap_blk s (unat g)), t)"
    and fr: "alloc_frame s t"
    using read_inode_bitmap_ok [OF l, of "scast g" K] kb g bc0 unfolding gc by auto
  note v = alloc_frame_info [OF fr]
  have "unat ?m \<le> bm_size ?bm" unfolding m by (rule ialloc_invD(15) [OF inv g])
  then have cl: "claim_in_group (Suc (unat ?m)) K ?m 0 ?bm = Some (Some (of_nat i), bm_set i ?bm)"
    using i by (intro claim_in_group_first [OF K]) (simp_all add: m)
  have n0: "[0..<n_groups s] = 0 # [1..<n_groups s]" using g by (simp add: upt_rec)
  have "claim_inode K [0..<n_groups s] s g = Some (Claimed g (desc_ptr_of s (unat g)) (of_nat i),
      t\<lparr>bcache := (bcache t)(ibitmap_blk s (unat g) \<mapsto> bm_set i ?bm)\<rparr>)"
    unfolding n0 using cl
    by (simp only: claim_inode.simps get_group_desc_loaded [OF l g] bind.bind_lunit prod.case
        option.case rd v bc0 Let_def)
  with fr show ?thesis by blast
qed

text \<open>A state that differs by a bit that was free breaks the accounting.\<close>

lemma marked_bit_breaks:
  assumes "ialloc_inv s" "unat g < n_groups s" "i < ipg s" "\<not> bm_bit (ibitmap_of s (unat g)) i"
    "desc_of s' = desc_of s" "n_groups s' = n_groups s" "ipg s' = ipg s"
    "ibitmap_of s' (unat g) = bm_set i (ibitmap_of s (unat g))"
  shows "unat g * ipg s + i + 1 \<in> used_inodes s'" "unat g * ipg s + i + 1 \<notin> used_inodes s" "\<not> ialloc_inv s'"
proof -
  have sz: "i < bm_size (ibitmap_of s (unat g))" using assms(3) ialloc_invD(15) [OF assms(1,2)] by simp
  show "unat g * ipg s + i + 1 \<in> used_inodes s'"
    using used_inode_iff [of "unat g" s' i] assms(2,3) bm_bit_set [OF sz, of i] by (simp add: assms(5-8))
  show "unat g * ipg s + i + 1 \<notin> used_inodes s" using used_inode_iff [OF assms(2,3)] assms(4) by simp
  show "\<not> ialloc_inv s'"
  proof
    assume "ialloc_inv s'"
    from ialloc_invD(11) [OF this, of "unat g"] ialloc_invD(11) [OF assms(1,2)] assms(2)
    have "n_free (bm_set i (ibitmap_of s (unat g))) (ipg s) = n_free (ibitmap_of s (unat g)) (ipg s)"
      by (simp add: assms(5-8))
    with n_free_set [OF assms(4) sz assms(3)] show False by simp
  qed
qed

text \<open>
  C8: when the first clear bit of the chosen group belongs to a reserved inode, the call
  fails with \<^verbatim>\<open>-EIO\<close> but leaves the bit set, while the group's count of free inodes stays as
  it was: the accounting of the group is broken from then on.
\<close>

theorem ext2_new_inode_reserved_leaks:
  assumes inv: "ialloc_inv s" and K: "bitops_ok K" and np: "\<not> test_opt s EXT2_MOUNT_ERRORS_PANIC"
    and V: "new_inode V \<noteq> None" and fg: "find_group s dir = Some (g, s)" and g: "unat g < n_groups s"
    and kb: "k_getblk K (ibitmap_blk s (unat g))"
    and i: "i < ipg s" "\<not> bm_bit (ibitmap_of s (unat g)) i" "\<forall>j < i. bm_bit (ibitmap_of s (unat g)) j"
    and low: "unat g * ipg s + i + 1 < first_ino s"
  shows "\<exists>s'. ext2_new_inode K V s dir mode = Some (Inl (- EIO), s') \<and>
     unat g * ipg s + i + 1 \<in> used_inodes s' \<and> unat g * ipg s + i + 1 \<notin> used_inodes s \<and>
     desc_of s' = desc_of s \<and> \<not> ialloc_inv s'"
proof -
  note l = ialloc_invD(2) [OF inv] and n = ialloc_invD(16) [OF inv] and geom = ialloc_invD(1) [OF inv]
  let ?bm = "ibitmap_of s (unat g)" and ?m = "s_inodes_per_group (sb_info s)"
  obtain t where fr: "alloc_frame s t" and ci: "claim_inode K [0..<n_groups s] s g =
      Some (Claimed g (desc_ptr_of s (unat g)) (of_nat i), t\<lparr>bcache := (bcache t)(ibitmap_blk s (unat g) \<mapsto> bm_set i ?bm)\<rparr>)"
    using claim_inode_first [OF inv K g kb i] by blast
  note v = alloc_frame_info [OF fr] and w = alloc_frame_views [OF fr]
  define u where "u = t\<lparr>bcache := (bcache t)(ibitmap_blk s (unat g) \<mapsto> bm_set i ?bm)\<rparr>"
  have iw: "unat (of_nat i :: u64) = i" using i(1) ialloc_invD(4) [OF inv] by (intro unat_of_nat_64) simp
  let ?ino = "of_nat i + scast g * ?m + 1 :: u64"
  have ui: "unat ?ino = unat g * ipg s + i + 1" using ino_arith [OF inv g, of "of_nat i"] i(1) iw by simp
  have bad: "?ino < scast (s_first_ino (sb_info s)) \<or> ucast (es_inodes_count (sb_es s)) < ?ino"
    unfolding in_range_ino [OF inv] ui using low by simp
  have "g \<noteq> 4294967295" using g n by auto
  then have "g \<noteq> -1" by (rule contrapos_nn) simp
  then have run: "ext2_new_inode K V s dir mode = report (Inl (- EIO)) u"
    using V fg ci bad by (auto simp: ext2_new_inode_def u_def Let_def v simp del: claim_inode.simps)
  have "descs_loaded u" "\<not> s_lock (sb_info u)" "test_opt u = test_opt s"
    using l geom_okD(2) [OF geom] w(4) by (simp_all add: u_def v test_opt_def fun_eq_iff)
  then have rep: "report (Inl (- EIO) :: int + inode) u = Some (Inl (- EIO), error_result u)"
    using np by (simp add: report_def ext2_error_loaded)
  have d: "desc_of (error_result u) = desc_of s" "n_groups (error_result u) = n_groups s"
    "ipg (error_result u) = ipg s" "desc_of u = desc_of s"
    by (simp_all add: u_def w ipg_def v)
  have "ibitmap_blk (error_result u) = ibitmap_blk s" by (simp add: ibitmap_blk_def fun_eq_iff d)
  then have b: "ibitmap_of (error_result u) (unat g) = bm_set i ?bm"
    by (simp add: ibitmap_of_def [of "error_result u"]) (simp add: u_def)
  show ?thesis
    using run rep d(1) marked_bit_breaks [OF inv g i(1,2) d(1-3) b] by simp
qed

theorem ext2_new_inode_reserved_leaks_witness:
  "\<exists>s'. ext2_new_inode kern_ref vfs_ref (ex_fs\<lparr>sb_info := ex_info\<lparr>s_first_ino := 11\<rparr>\<rparr>) ex_inode 0x81A4 =
     Some (Inl (- EIO), s') \<and> 3 \<in> used_inodes s'"
proof -
  let ?s = "ex_fs\<lparr>sb_info := ex_info\<lparr>s_first_ino := 11\<rparr>\<rparr>"
  have v: "n_groups ?s = n_groups ex_fs" "desc_of ?s = desc_of ex_fs"
    "bpg ?s = bpg ex_fs" "fdb ?s = fdb ex_fs" "total_blocks ?s = total_blocks ex_fs"
    "ipg ?s = ipg ex_fs" "total_inodes ?s = total_inodes ex_fs" "first_ino ?s = 11"
    by (simp_all add: n_groups_def desc_of_def gd_at_def desc_ptr_of_def bpg_def fdb_def
        total_blocks_def ipg_def total_inodes_def first_ino_def fun_eq_iff ex_fs_def)
  have w: "bitmap_blk ?s = bitmap_blk ex_fs" "ibitmap_blk ?s = ibitmap_blk ex_fs"
    "ibitmap_of ?s = ibitmap_of ex_fs" "total_of f ?s = total_of f ex_fs" for f
    by (simp_all add: v bitmap_blk_def ibitmap_blk_def ibitmap_of_def total_of_def fun_eq_iff)
  have l: "descs_loaded ?s" by (simp add: descs_loaded_def v)
  have g: "geom_ok ?s" by (simp add: geom_ok_def v l)
  have i: "ialloc_inv ?s"
    using ex_ialloc_inv g by (simp add: ialloc_inv_def v w inode_acct_def)
  have fg: "find_group ?s ex_inode = Some (0, ?s)"
    using group_fits_loaded [OF l, of 0 has_room]
    by (simp add: find_group_def has_room_def ex_desc_def ex_inode_def Let_def v)
  have bits: "\<forall>j < 2. bm_bit (ibitmap_of ?s 0) j" "\<not> bm_bit (ibitmap_of ?s 0) 2"
    by (simp_all add: w all_less_2 bm_bit_def)
  have e: "unat (0 :: s32) * ipg ?s + 2 + 1 = 3" by simp
  show ?thesis
    using ext2_new_inode_reserved_leaks [of ?s kern_ref vfs_ref ex_inode 0 2 "0x81A4", unfolded e,
        OF i kern_ref_ok _ _ fg] bits
    by (auto simp: test_opt_def vfs_ref_def kern_ref_def v)
qed

end
