(* ===== verification/Dir.thy ===== *)
theory Dir
  imports Ialloc
begin

text \<open>
  Directories (\<^verbatim>\<open>dir.c\<close>). A directory's data are the pages of its page cache; a page holds a
  chain of entries, each with an inode number, a record length, a name length and a name.
  An entry is its offset in the page's bytes. \<open>None\<close> stands for an access outside of the
  page or for \<^verbatim>\<open>BUG()\<close>.

  Chunk sizes are powers of two of at least 1024, as \<^verbatim>\<open>sb_set_blocksize\<close> makes them: the
  bit masks of the code are written as \<open>div\<close> and \<open>mod\<close>, and no subtraction from a
  page limit wraps.
\<close>

section \<open>Entries\<close>

definition de_inode :: "byte list \<Rightarrow> nat \<Rightarrow> u32" where
  "de_inode bs o' = le32_at bs o'"

definition de_rec_len :: "byte list \<Rightarrow> nat \<Rightarrow> nat" where
  "de_rec_len bs o' = unat (le16_at bs (o' + 4))"

definition de_name_len :: "byte list \<Rightarrow> nat \<Rightarrow> nat" where
  "de_name_len bs o' = unat (bs ! (o' + 6))"

definition de_name :: "byte list \<Rightarrow> nat \<Rightarrow> byte list" where
  "de_name bs o' = take (de_name_len bs o') (drop (o' + 8) bs)"

definition EXT2_DIR_REC_LEN :: "nat \<Rightarrow> nat" where
  "EXT2_DIR_REC_LEN name_len = (name_len + 8 + 3) div 4 * 4"

definition put_bytes :: "byte list \<Rightarrow> nat \<Rightarrow> byte list \<Rightarrow> byte list" where
  "put_bytes xs k bs = take k bs @ xs @ drop (k + length xs) bs"

definition set_inode_no :: "u32 \<Rightarrow> nat \<Rightarrow> byte list \<Rightarrow> byte list" where
  "set_inode_no ino o' bs = put_le32 ino o' bs"

definition set_rec_len :: "nat \<Rightarrow> nat \<Rightarrow> byte list \<Rightarrow> byte list" where
  "set_rec_len n o' bs = put_le16 (of_nat n) (o' + 4) bs"

definition set_name :: "byte list \<Rightarrow> nat \<Rightarrow> byte list \<Rightarrow> byte list" where
  "set_name name o' bs = put_bytes name (o' + 8) (bs[o' + 6 := of_nat (length name)])"

definition set_file_type :: "nat \<Rightarrow> byte list \<Rightarrow> byte list" where
  "set_file_type o' bs = bs[o' + 7 := 0]"

definition ext2_chunk_size :: "ext2_fs \<Rightarrow> nat" where
  "ext2_chunk_size s = unat (sb_blocksize s)"

definition dir_pages :: "inode \<Rightarrow> nat" where
  "dir_pages ip = nat ((i_size ip + int PAGE_SIZE - 1) div int PAGE_SIZE)"

definition ext2_last_byte :: "inode \<Rightarrow> nat \<Rightarrow> nat" where
  "ext2_last_byte ip page_nr =
     (let last_byte = (of_int (i_size ip) - of_nat (page_nr * PAGE_SIZE) :: u32)
      in if PAGE_SIZE < unat last_byte then PAGE_SIZE else unat last_byte)"

text \<open>
  The page cache and the writing of its pages. \<open>write_begin\<close> is \<^verbatim>\<open>__block_write_begin\<close>,
  which may allocate blocks through \<^verbatim>\<open>ext2_get_block\<close>; \<open>sync_page\<close> is the result of
  \<^verbatim>\<open>write_one_page\<close> and \<^verbatim>\<open>sync_inode_metadata\<close> for a directory that is written
  synchronously; \<open>grab_page\<close> is \<^verbatim>\<open>grab_cache_page\<close>.
\<close>

record pgcache =
  write_begin :: "inode \<Rightarrow> ext2_fs \<Rightarrow> int \<Rightarrow> nat \<Rightarrow> int \<times> inode \<times> ext2_fs"
  sync_page :: "inode \<Rightarrow> int"
  grab_page :: "inode \<Rightarrow> nat \<Rightarrow> page option"

abbreviation (input) SB_DIRSYNC :: u64 where "SB_DIRSYNC \<equiv> 128"

definition IS_DIRSYNC :: "ext2_fs \<Rightarrow> inode \<Rightarrow> bool" where
  "IS_DIRSYNC s ip \<longleftrightarrow> sb_flags s AND (SB_SYNCHRONOUS OR SB_DIRSYNC) \<noteq> 0 \<or>
     i_flags ip AND (S_SYNC OR S_DIRSYNC) \<noteq> 0"

definition set_page :: "nat \<Rightarrow> page \<Rightarrow> inode \<Rightarrow> inode" where
  "set_page n pg ip = ip\<lparr>i_pages := (i_pages ip)(n := Some pg)\<rparr>"

definition ext2_prepare_chunk ::
  "pgcache \<Rightarrow> inode \<Rightarrow> ext2_fs \<Rightarrow> int \<Rightarrow> nat \<Rightarrow> int \<times> inode \<times> ext2_fs" where
  "ext2_prepare_chunk P dir s pos len = write_begin P dir s pos len"

definition ext2_commit_chunk :: "pgcache \<Rightarrow> ext2_fs \<Rightarrow> inode \<Rightarrow> int \<Rightarrow> nat \<Rightarrow> int \<times> inode" where
  "ext2_commit_chunk P s dir pos len =
     (let dir = dir\<lparr>i_version := i_version dir + 1\<rparr>;
          dir = (if i_size dir < pos + int len then dir\<lparr>i_size := pos + int len\<rparr> else dir)
      in (if IS_DIRSYNC s dir then sync_page P dir else 0, dir))"

section \<open>Checking a page\<close>

function check_loop :: "byte list \<Rightarrow> nat \<Rightarrow> nat \<Rightarrow> nat \<Rightarrow> nat \<Rightarrow> bool" where
  "check_loop bs chunk max_inumber limit offs =
     (if offs + EXT2_DIR_REC_LEN 1 \<le> limit then
        let rec_len = de_rec_len bs offs in
        if rec_len < EXT2_DIR_REC_LEN 1 then False
        else if rec_len mod 4 \<noteq> 0 then False
        else if rec_len < EXT2_DIR_REC_LEN (de_name_len bs offs) then False
        else if (offs + rec_len - 1) div chunk \<noteq> offs div chunk then False
        else if max_inumber < unat (de_inode bs offs) then False
        else check_loop bs chunk max_inumber limit (offs + rec_len)
      else offs = limit)"
  by pat_completeness auto
termination
  by (relation "measure (\<lambda>(bs, chunk, m, limit, offs). limit - offs)")
    (auto simp: EXT2_DIR_REC_LEN_def)

declare check_loop.simps [simp del]

definition ext2_check_page ::
  "ext2_fs \<Rightarrow> inode \<Rightarrow> nat \<Rightarrow> page \<Rightarrow> bool \<Rightarrow> (bool \<times> page \<times> ext2_fs) option" where
  "ext2_check_page s dir index pg quiet =
     (let chunk_size = ext2_chunk_size s;
          max_inumber = unat (es_inodes_count (sb_es s));
          last_page = (i_size dir div int PAGE_SIZE = int index);
          limit = (if last_page then nat (i_size dir mod int PAGE_SIZE) else PAGE_SIZE);
          good = Some (True, pg\<lparr>pg_checked := True\<rparr>, s);
          fail = do { s \<leftarrow> (if quiet then Some s else ext2_error s);
                      Some (False, pg\<lparr>pg_error := True\<rparr>, s) }
      in if last_page \<and> limit mod chunk_size \<noteq> 0 then fail
         else if last_page \<and> limit = 0 then good
         else if check_loop (pg_data pg) chunk_size max_inumber limit 0 then good else fail)"

text \<open>A page that cannot be read gives the error of the read, one that fails the check \<^verbatim>\<open>-EIO\<close>.\<close>

definition ext2_get_page ::
  "ext2_fs \<Rightarrow> inode \<Rightarrow> nat \<Rightarrow> bool \<Rightarrow> ((int + page) \<times> inode \<times> ext2_fs) option" where
  "ext2_get_page s dir n quiet =
     (case i_pages dir n of None \<Rightarrow> Some (Inl (i_read_err dir n), dir, s)
      | Some pg \<Rightarrow>
          if pg_checked pg then Some (Inr pg, dir, s)
          else if pg_error pg then Some (Inl (- EIO), dir, s)
          else do {
            (ok, pg, s) \<leftarrow> ext2_check_page s dir n pg quiet;
            Some (if ok then Inr pg else Inl (- EIO), set_page n pg dir, s) })"

section \<open>Looking a name up\<close>

definition ext2_match :: "byte list \<Rightarrow> byte list \<Rightarrow> nat \<Rightarrow> bool" where
  "ext2_match name bs o' =
     (if length name \<noteq> de_name_len bs o' then False
      else if de_inode bs o' = 0 then False
      else take (length name) (drop (o' + 8) bs) = name)"

text \<open>The outcome of walking over the entries of one page.\<close>

datatype scan = Scan_oob | Scan_zero | Scan_found nat | Scan_end

function find_loop :: "byte list \<Rightarrow> byte list \<Rightarrow> int \<Rightarrow> nat \<Rightarrow> scan" where
  "find_loop name bs lim o' =
     (if int o' \<le> lim then
        (if length bs < o' + 8 + length name then Scan_oob
         else if de_rec_len bs o' = 0 then Scan_zero
         else if ext2_match name bs o' then Scan_found o'
         else find_loop name bs lim (o' + de_rec_len bs o'))
      else Scan_end)"
  by pat_completeness auto
termination
  by (relation "measure (\<lambda>(name, bs, lim, o'). nat (lim + 1 - int o'))") auto

declare find_loop.simps [simp del]

text \<open>
  \<^verbatim>\<open>ext2_find_entry\<close> reads a variable \<^verbatim>\<open>n\<close> that it does not declare; \<open>n i\<close> is what it would
  hold in round \<open>i\<close>, and \<open>n i = i\<close> the evident intention. A found entry is its page number
  and its offset.
\<close>

fun find_pages ::
  "(nat \<Rightarrow> nat) \<Rightarrow> byte list \<Rightarrow> nat list \<Rightarrow> inode \<Rightarrow> ext2_fs
     \<Rightarrow> ((int + nat \<times> nat) \<times> inode \<times> ext2_fs) option" where
  "find_pages n name [] dir s = Some (Inl (- ENOENT), dir, s)"
| "find_pages n name (i # is) dir s = do {
     (pg, dir, s) \<leftarrow> ext2_get_page s dir i False;
     (case pg of Inl e \<Rightarrow> Some (Inl e, dir, s)
      | Inr pg \<Rightarrow>
        (case find_loop name (pg_data pg)
                (int (ext2_last_byte dir (n i)) - int (EXT2_DIR_REC_LEN (length name))) 0 of
           Scan_oob \<Rightarrow> None
         | Scan_zero \<Rightarrow> do { s \<leftarrow> ext2_error s; Some (Inl (- ENOENT), dir, s) }
         | Scan_found o' \<Rightarrow> Some (Inr (i, o'), dir, s)
         | Scan_end \<Rightarrow> find_pages n name is dir s)) }"

definition ext2_find_entry ::
  "(nat \<Rightarrow> nat) \<Rightarrow> ext2_fs \<Rightarrow> inode \<Rightarrow> byte list
     \<Rightarrow> ((int + nat \<times> nat) \<times> inode \<times> ext2_fs) option" where
  "ext2_find_entry n s dir name =
     (if dir_pages dir = 0 then Some (Inl (- ENOENT), dir, s)
      else find_pages n name [0..<dir_pages dir] dir s)"

definition page_bytes :: "inode \<Rightarrow> nat \<Rightarrow> byte list" where
  "page_bytes dir n = (case i_pages dir n of None \<Rightarrow> [] | Some pg \<Rightarrow> pg_data pg)"

definition ext2_dotdot ::
  "ext2_fs \<Rightarrow> inode \<Rightarrow> ((nat \<times> nat) option \<times> inode \<times> ext2_fs) option" where
  "ext2_dotdot s dir = do {
     (pg, dir, s) \<leftarrow> ext2_get_page s dir 0 False;
     Some (case pg of Inl e \<Rightarrow> None | Inr pg \<Rightarrow> Some (0, de_rec_len (pg_data pg) 0), dir, s) }"

definition ext2_inode_by_name ::
  "(nat \<Rightarrow> nat) \<Rightarrow> ext2_fs \<Rightarrow> inode \<Rightarrow> byte list
     \<Rightarrow> ((int + u32) \<times> inode \<times> ext2_fs) option" where
  "ext2_inode_by_name n s dir name = do {
     (r, dir, s) \<leftarrow> ext2_find_entry n s dir name;
     Some (case r of Inl e \<Rightarrow> Inl e | Inr (i, o') \<Rightarrow> Inr (de_inode (page_bytes dir i) o'), dir, s) }"

section \<open>Changing entries\<close>

definition with_page_bytes :: "nat \<Rightarrow> (byte list \<Rightarrow> byte list) \<Rightarrow> inode \<Rightarrow> inode" where
  "with_page_bytes n f ip =
     ip\<lparr>i_pages := (i_pages ip)(n :=
          map_option (\<lambda>pg. pg\<lparr>pg_data := f (pg_data pg)\<rparr>) (i_pages ip n))\<rparr>"

definition touch_dir :: "ext2_fs \<Rightarrow> inode \<Rightarrow> inode" where
  "touch_dir s ip = ip\<lparr>i_mtime := uint (clock s), i_ctime := uint (clock s)\<rparr>"

text \<open>The entry is at offset \<open>o'\<close> of page \<open>n\<close>; \<open>ino\<close> is the number of the inode to link.\<close>

definition ext2_set_link ::
  "pgcache \<Rightarrow> ext2_fs \<Rightarrow> inode \<Rightarrow> nat \<times> nat \<Rightarrow> u64 \<Rightarrow> bool \<Rightarrow> (inode \<times> ext2_fs) option" where
  "ext2_set_link P s dir de ino update_times =
     (case de of (n, o') \<Rightarrow>
        let pos = int (n * PAGE_SIZE + o');
            len = de_rec_len (page_bytes dir n) o';
            (err, dir, s) = ext2_prepare_chunk P dir s pos len
        in if err \<noteq> 0 then None
           else let dir = with_page_bytes n (\<lambda>bs. set_file_type o' (set_inode_no (ucast ino) o' bs)) dir;
                    (err, dir) = ext2_commit_chunk P s dir pos len
                in Some (if update_times then touch_dir s dir else dir, s))"

datatype add_scan = Add_oob | Add_zero | Add_exists | Add_size nat | Add_here nat nat nat | Add_next

text \<open>
  The search for room in one page. \<open>Add_size o'\<close>: the search reached the end of the
  directory inside the page. \<open>Add_here o' name_len rec_len\<close>: the entry at \<open>o'\<close> is free
  and large enough, or has that much room behind the part its own name needs.
\<close>

function add_loop :: "byte list \<Rightarrow> byte list \<Rightarrow> nat \<Rightarrow> nat \<Rightarrow> add_scan" where
  "add_loop name bs dir_end o' =
     (let reclen = EXT2_DIR_REC_LEN (length name) in
      if int o' \<le> int PAGE_SIZE - int reclen then
        (if o' = dir_end then Add_size o'
         else if length bs < o' + 8 + length name then Add_oob
         else if de_rec_len bs o' = 0 then Add_zero
         else if ext2_match name bs o' then Add_exists
         else let name_len = EXT2_DIR_REC_LEN (de_name_len bs o');
                  rec_len = de_rec_len bs o'
              in if de_inode bs o' = 0 \<and> reclen \<le> rec_len then Add_here o' name_len rec_len
                 else if name_len + reclen \<le> rec_len then Add_here o' name_len rec_len
                 else add_loop name bs dir_end (o' + rec_len))
      else Add_next)"
  by pat_completeness auto
termination
  by (relation "measure (\<lambda>(name, bs, dir_end, o'). PAGE_SIZE + 1 - o')")
    (auto simp: EXT2_DIR_REC_LEN_def)

declare add_loop.simps [simp del]

text \<open>What the code writes at \<^verbatim>\<open>got_it\<close>.\<close>

definition fill_entry :: "byte list \<Rightarrow> u32 \<Rightarrow> nat \<Rightarrow> byte list \<Rightarrow> byte list" where
  "fill_entry name ino o' bs = set_file_type o' (set_inode_no ino o' (set_name name o' bs))"

definition add_write :: "byte list \<Rightarrow> u32 \<Rightarrow> nat \<Rightarrow> nat \<Rightarrow> nat \<Rightarrow> byte list \<Rightarrow> byte list" where
  "add_write name ino o' name_len rec_len bs =
     (if de_inode bs o' \<noteq> 0
      then fill_entry name ino (o' + name_len)
             (set_rec_len name_len o' (set_rec_len (rec_len - name_len) (o' + name_len) bs))
      else fill_entry name ino o' bs)"

definition add_got_it ::
  "pgcache \<Rightarrow> ext2_fs \<Rightarrow> inode \<Rightarrow> nat \<Rightarrow> byte list \<Rightarrow> u32 \<Rightarrow> nat \<Rightarrow> nat \<Rightarrow> nat
     \<Rightarrow> int \<times> inode \<times> ext2_fs" where
  "add_got_it P s dir n name ino o' name_len rec_len =
     (let pos = int (n * PAGE_SIZE + o');
          (err, dir, s) = ext2_prepare_chunk P dir s pos rec_len
      in if err \<noteq> 0 then (err, dir, s)
         else let dir = with_page_bytes n (add_write name ino o' name_len rec_len) dir;
                  (err, dir) = ext2_commit_chunk P s dir pos rec_len
              in (err, touch_dir s dir, s))"

fun add_pages ::
  "pgcache \<Rightarrow> byte list \<Rightarrow> u32 \<Rightarrow> nat list \<Rightarrow> inode \<Rightarrow> ext2_fs
     \<Rightarrow> (int \<times> inode \<times> ext2_fs) option" where
  "add_pages P name ino [] dir s = None"
| "add_pages P name ino (n # ns) dir s = do {
     (pg, dir, s) \<leftarrow> ext2_get_page s dir n False;
     (case pg of Inl e \<Rightarrow> Some (e, dir, s)
      | Inr pg \<Rightarrow>
        (case add_loop name (pg_data pg) (ext2_last_byte dir n) 0 of
           Add_oob \<Rightarrow> None
         | Add_zero \<Rightarrow> do { s \<leftarrow> ext2_error s; Some (- EIO, dir, s) }
         | Add_exists \<Rightarrow> Some (- EEXIST, dir, s)
         | Add_size o' \<Rightarrow>
             (let chunk_size = ext2_chunk_size s;
                  dir = with_page_bytes n (\<lambda>bs. set_inode_no 0 o' (set_rec_len chunk_size o' bs)) dir
              in Some (add_got_it P s dir n name ino o' 0 chunk_size))
         | Add_here o' name_len rec_len \<Rightarrow>
             Some (add_got_it P s dir n name ino o' name_len rec_len)
         | Add_next \<Rightarrow> add_pages P name ino ns dir s)) }"

definition ext2_add_link ::
  "pgcache \<Rightarrow> ext2_fs \<Rightarrow> inode \<Rightarrow> byte list \<Rightarrow> u64 \<Rightarrow> (int \<times> inode \<times> ext2_fs) option" where
  "ext2_add_link P s dir name ino =
     add_pages P name (ucast ino) [0..<dir_pages dir + 1] dir s"

text \<open>
  The entry in front of the one at \<open>o'\<close>, from the chunk's start on: \<open>None\<close> in the
  first component when the search meets an entry of length 0, \<open>Some None\<close> when the entry is
  the chunk's first.
\<close>

function prev_entry :: "byte list \<Rightarrow> nat \<Rightarrow> nat \<Rightarrow> nat option \<Rightarrow> nat option option" where
  "prev_entry bs o' de pde =
     (if de < o' then
        if de_rec_len bs de = 0 then None
        else prev_entry bs o' (de + de_rec_len bs de) (Some de)
      else Some pde)"
  by pat_completeness auto
termination
  by (relation "measure (\<lambda>(bs, o', de, pde). o' - de)") auto

declare prev_entry.simps [simp del]

definition delete_write :: "nat \<Rightarrow> nat option \<Rightarrow> nat \<Rightarrow> byte list \<Rightarrow> byte list" where
  "delete_write o' pde len bs =
     set_inode_no 0 o' (case pde of None \<Rightarrow> bs | Some q \<Rightarrow> set_rec_len len q bs)"

definition ext2_delete_entry ::
  "pgcache \<Rightarrow> ext2_fs \<Rightarrow> inode \<Rightarrow> nat \<times> nat \<Rightarrow> (int \<times> inode \<times> ext2_fs) option" where
  "ext2_delete_entry P s dir de =
     (case de of (n, o') \<Rightarrow>
        let bs = page_bytes dir n;
            from0 = o' div ext2_chunk_size s * ext2_chunk_size s;
            to = o' + de_rec_len bs o'
        in (case prev_entry bs o' from0 None of
              None \<Rightarrow> do { s \<leftarrow> ext2_error s; Some (- EIO, dir, s) }
            | Some pde \<Rightarrow>
                let from = (case pde of None \<Rightarrow> from0 | Some q \<Rightarrow> q);
                    pos = int (n * PAGE_SIZE + from);
                    (err, dir, s) = ext2_prepare_chunk P dir s pos (to - from)
                in if err \<noteq> 0 then None
                   else let dir = with_page_bytes n (delete_write o' pde (to - from)) dir;
                            (err, dir) = ext2_commit_chunk P s dir pos (to - from)
                        in Some (err, touch_dir s dir, s)))"

abbreviation (input) DOT :: byte where "DOT \<equiv> 0x2E"

definition empty_chunk :: "u32 \<Rightarrow> u32 \<Rightarrow> nat \<Rightarrow> byte list \<Rightarrow> byte list" where
  "empty_chunk self parent chunk_size bs =
     (let r = EXT2_DIR_REC_LEN 1;
          bs = put_bytes (replicate chunk_size 0) 0 bs;
          bs = put_bytes [DOT, 0, 0, 0] 8 (set_rec_len r 0 (bs[6 := 1]));
          bs = set_file_type 0 (set_inode_no self 0 bs);
          bs = set_inode_no parent r (set_rec_len (chunk_size - r) r (bs[r + 6 := 2]));
          bs = put_bytes [DOT, DOT, 0, 0] (r + 8) bs
      in set_file_type r bs)"

definition ext2_make_empty ::
  "pgcache \<Rightarrow> ext2_fs \<Rightarrow> inode \<Rightarrow> u64 \<Rightarrow> (int \<times> inode \<times> ext2_fs)" where
  "ext2_make_empty P s ip parent =
     (case grab_page P ip 0 of None \<Rightarrow> (- ENOMEM, ip, s)
      | Some pg \<Rightarrow>
          let ip = set_page 0 pg ip;
              chunk_size = ext2_chunk_size s;
              (err, ip, s) = ext2_prepare_chunk P ip s 0 chunk_size
          in if err \<noteq> 0 then (err, ip, s)
             else let ip = with_page_bytes 0
                         (empty_chunk (ucast (i_ino ip)) (ucast parent) chunk_size) ip;
                      (err, ip) = ext2_commit_chunk P s ip 0 chunk_size
                  in (err, ip, s))"

section \<open>Emptiness and listing\<close>

datatype empty_scan = Empty_oob | Empty_zero | Not_empty | Empty_end

function empty_loop :: "u32 \<Rightarrow> byte list \<Rightarrow> int \<Rightarrow> nat \<Rightarrow> empty_scan" where
  "empty_loop self bs lim o' =
     (if int o' \<le> lim then
        (if length bs < o' + EXT2_DIR_REC_LEN 1 then Empty_oob
         else if de_rec_len bs o' = 0 then Empty_zero
         else if de_inode bs o' \<noteq> 0 \<and> bs ! (o' + 8) \<noteq> DOT then Not_empty
         else if de_inode bs o' \<noteq> 0 \<and> 2 < de_name_len bs o' then Not_empty
         else if de_inode bs o' \<noteq> 0 \<and> de_name_len bs o' < 2 \<and> de_inode bs o' \<noteq> self then Not_empty
         else if de_inode bs o' \<noteq> 0 \<and> \<not> de_name_len bs o' < 2 \<and> bs ! (o' + 9) \<noteq> DOT then Not_empty
         else empty_loop self bs lim (o' + de_rec_len bs o'))
      else Empty_end)"
  by pat_completeness auto
termination
  by (relation "measure (\<lambda>(self, bs, lim, o'). nat (lim + 1 - int o'))") auto

declare empty_loop.simps [simp del]

fun empty_pages :: "nat list \<Rightarrow> bool \<Rightarrow> inode \<Rightarrow> ext2_fs \<Rightarrow> (bool \<times> inode \<times> ext2_fs) option" where
  "empty_pages [] dir_has_error ip s = Some (True, ip, s)"
| "empty_pages (i # is) dir_has_error ip s = do {
     (pg, ip, s) \<leftarrow> ext2_get_page s ip i dir_has_error;
     (case pg of Inl e \<Rightarrow> empty_pages is True ip s
      | Inr pg \<Rightarrow>
        (case empty_loop (ucast (i_ino ip)) (pg_data pg)
                (int (ext2_last_byte ip i) - int (EXT2_DIR_REC_LEN 1)) 0 of
           Empty_oob \<Rightarrow> None
         | Empty_zero \<Rightarrow> do { s \<leftarrow> ext2_error s; Some (False, ip, s) }
         | Not_empty \<Rightarrow> Some (False, ip, s)
         | Empty_end \<Rightarrow> empty_pages is dir_has_error ip s)) }"

definition ext2_empty_dir :: "ext2_fs \<Rightarrow> inode \<Rightarrow> (bool \<times> inode \<times> ext2_fs) option" where
  "ext2_empty_dir s ip = empty_pages [0..<dir_pages ip] False ip s"

function validate_entry :: "byte list \<Rightarrow> nat \<Rightarrow> nat \<Rightarrow> nat" where
  "validate_entry bs offset p =
     (if p < offset then
        if de_rec_len bs p = 0 then p else validate_entry bs offset (p + de_rec_len bs p)
      else p)"
  by pat_completeness auto
termination
  by (relation "measure (\<lambda>(bs, offset, p). offset - p)") auto

declare validate_entry.simps [simp del]

definition ext2_validate_entry :: "byte list \<Rightarrow> nat \<Rightarrow> nat \<Rightarrow> nat" where
  "ext2_validate_entry bs offset chunk = validate_entry bs offset (offset div chunk * chunk)"

text \<open>
  \<open>emit\<close> is \<^verbatim>\<open>dir_emit\<close>: it takes the name and the inode number of an entry and the
  consumer's state, and returns whether the consumer took the entry.
\<close>

datatype readdir_scan = Rd_oob | Rd_zero | Rd_full | Rd_end

function readdir_loop ::
  "(byte list \<Rightarrow> u32 \<Rightarrow> 'c \<Rightarrow> bool \<times> 'c) \<Rightarrow> byte list \<Rightarrow> int \<Rightarrow> nat \<Rightarrow> int \<Rightarrow> 'c
     \<Rightarrow> readdir_scan \<times> int \<times> 'c" where
  "readdir_loop emit bs lim o' pos c =
     (if int o' \<le> lim then
        (if length bs < o' + 8 then (Rd_oob, pos, c)
         else if de_rec_len bs o' = 0 then (Rd_zero, pos, c)
         else if de_inode bs o' \<noteq> 0
         then (case emit (de_name bs o') (de_inode bs o') c of
                 (ok, c) \<Rightarrow> if \<not> ok then (Rd_full, pos, c)
                   else readdir_loop emit bs lim (o' + de_rec_len bs o')
                          (pos + int (de_rec_len bs o')) c)
         else readdir_loop emit bs lim (o' + de_rec_len bs o') (pos + int (de_rec_len bs o')) c)
      else (Rd_end, pos, c))"
  by pat_completeness auto
termination
  by (relation "measure (\<lambda>(emit, bs, lim, o', pos, c). nat (lim + 1 - int o'))") auto

declare readdir_loop.simps [simp del]

text \<open>The state of a listing: the file's version, the position and the consumer's state.\<close>

fun readdir_pages ::
  "(byte list \<Rightarrow> u32 \<Rightarrow> 'c \<Rightarrow> bool \<times> 'c) \<Rightarrow> nat list \<Rightarrow> nat \<Rightarrow> bool \<Rightarrow> nat \<Rightarrow> int \<Rightarrow> 'c \<Rightarrow> inode
     \<Rightarrow> ext2_fs \<Rightarrow> (int \<times> (nat \<times> int \<times> 'c) \<times> inode \<times> ext2_fs) option" where
  "readdir_pages emit [] offset need_revalidate ver pos c ip s = Some (0, (ver, pos, c), ip, s)"
| "readdir_pages emit (n # ns) offset need_revalidate ver pos c ip s = do {
     (pg, ip, s) \<leftarrow> ext2_get_page s ip n False;
     (case pg of Inl e \<Rightarrow> do {
           s \<leftarrow> ext2_error s;
           Some (e, (ver, pos + int PAGE_SIZE - int offset, c), ip, s) }
      | Inr pg \<Rightarrow>
        let bs = pg_data pg;
            o' = (if need_revalidate \<and> offset \<noteq> 0
                  then ext2_validate_entry bs offset (ext2_chunk_size s) else offset);
            pos = (if need_revalidate \<and> offset \<noteq> 0 then int (n * PAGE_SIZE + o') else pos);
            ver = (if need_revalidate then i_version ip else ver)
        in (case readdir_loop emit bs
                  (int (ext2_last_byte ip n) - int (EXT2_DIR_REC_LEN 1)) o' pos c of
              (Rd_oob, _) \<Rightarrow> None
            | (Rd_zero, pos, c) \<Rightarrow> do { s \<leftarrow> ext2_error s; Some (- EIO, (ver, pos, c), ip, s) }
            | (Rd_full, pos, c) \<Rightarrow> Some (0, (ver, pos, c), ip, s)
            | (Rd_end, pos, c) \<Rightarrow> readdir_pages emit ns 0 False ver pos c ip s)) }"

definition ext2_readdir ::
  "(byte list \<Rightarrow> u32 \<Rightarrow> 'c \<Rightarrow> bool \<times> 'c) \<Rightarrow> nat \<Rightarrow> int \<Rightarrow> 'c \<Rightarrow> inode \<Rightarrow> ext2_fs
     \<Rightarrow> (int \<times> (nat \<times> int \<times> 'c) \<times> inode \<times> ext2_fs) option" where
  "ext2_readdir emit ver pos c ip s =
     (if i_size ip - int (EXT2_DIR_REC_LEN 1) < pos then Some (0, (ver, pos, c), ip, s)
      else readdir_pages emit [nat (pos div int PAGE_SIZE)..<dir_pages ip]
             (nat (pos mod int PAGE_SIZE)) (i_version ip \<noteq> ver) ver pos c ip s)"

end
