(* ===== verification/Dir_Chain.thy ===== *)
theory Dir_Chain
  imports Dir
begin

text \<open>
  The contents of a directory page as a list of entries. \<open>chain\<close> says that the bytes of a
  page from one offset up to a limit are exactly a list of well-formed entries; a page
  passes \<^verbatim>\<open>ext2_check_page\<close> when its bytes are such a chain, and the walks over the
  page's bytes are walks over the list.
\<close>

record dent =
  d_ino :: u32
  d_rec :: nat
  d_name :: "byte list"

definition dent_at :: "byte list \<Rightarrow> nat \<Rightarrow> dent" where
  "dent_at bs o' = \<lparr> d_ino = de_inode bs o', d_rec = de_rec_len bs o', d_name = de_name bs o' \<rparr>"

definition entry_ok :: "nat \<Rightarrow> nat \<Rightarrow> nat \<Rightarrow> dent \<Rightarrow> bool" where
  "entry_ok ch mx o' e \<longleftrightarrow> 12 \<le> d_rec e \<and> d_rec e mod 4 = 0 \<and>
     EXT2_DIR_REC_LEN (length (d_name e)) \<le> d_rec e \<and>
     (o' + d_rec e - 1) div ch = o' div ch \<and> unat (d_ino e) \<le> mx"

fun chain :: "nat \<Rightarrow> nat \<Rightarrow> byte list \<Rightarrow> nat \<Rightarrow> dent list \<Rightarrow> nat \<Rightarrow> bool" where
  "chain ch mx bs o' [] lim \<longleftrightarrow> o' = lim"
| "chain ch mx bs o' (e # es) lim \<longleftrightarrow> dent_at bs o' = e \<and> de_name_len bs o' = length (d_name e) \<and>
     entry_ok ch mx o' e \<and> chain ch mx bs (o' + d_rec e) es lim"

definition recs :: "dent list \<Rightarrow> nat" where
  "recs es = sum_list (map d_rec es)"

lemma recs_simps [simp]: "recs [] = 0" "recs (e # es) = d_rec e + recs es"
  "recs (xs @ ys) = recs xs + recs ys"
  by (simp_all add: recs_def)

definition is_live :: "dent \<Rightarrow> bool" where
  "is_live e \<longleftrightarrow> d_ino e \<noteq> 0"

definition live :: "dent list \<Rightarrow> (byte list \<times> u32) list" where
  "live es = map (\<lambda>e. (d_name e, d_ino e)) (filter is_live es)"

lemma live_simps [simp]: "live [] = []"
  "live (e # es) = (if is_live e then [(d_name e, d_ino e)] else []) @ live es"
  "live (xs @ ys) = live xs @ live ys"
  by (simp_all add: live_def)

lemma REC_LEN_bounds:
  "n + 8 \<le> EXT2_DIR_REC_LEN n" "EXT2_DIR_REC_LEN n \<le> n + 11" "EXT2_DIR_REC_LEN n mod 4 = 0"
  "EXT2_DIR_REC_LEN 1 = 12" "EXT2_DIR_REC_LEN (Suc 0) = 12"
  unfolding EXT2_DIR_REC_LEN_def by simp_all

lemma REC_LEN_mono: "m \<le> n \<Longrightarrow> EXT2_DIR_REC_LEN m \<le> EXT2_DIR_REC_LEN n"
  by (simp add: EXT2_DIR_REC_LEN_def div_le_mono)

lemma chain_end: "chain ch mx bs o' es lim \<Longrightarrow> lim = o' + recs es"
  by (induction es arbitrary: o') fastforce+

lemma chain_le: "chain ch mx bs o' es lim \<Longrightarrow> o' \<le> lim"
  by (drule chain_end) simp

lemma chain_append:
  "chain ch mx bs o' (xs @ ys) lim \<longleftrightarrow>
     chain ch mx bs o' xs (o' + recs xs) \<and> chain ch mx bs (o' + recs xs) ys lim"
  by (induction xs arbitrary: o') (auto simp: add.assoc)

lemma chain_unique:
  "chain ch mx bs o' es lim \<Longrightarrow> chain ch mx bs o' fs lim \<Longrightarrow> es = fs"
proof (induction es arbitrary: o' fs)
  case Nil
  then show ?case by (cases fs) (auto simp: entry_ok_def dest: chain_le)
next
  case (Cons e es)
  then show ?case by (cases fs) (auto simp: entry_ok_def dest: chain_le)
qed

text \<open>Only the bytes between the offset and the limit matter.\<close>

lemma le_at_cong:
  "(\<forall>i. a \<le> i \<and> i < b \<longrightarrow> bs ! i = cs ! i) \<Longrightarrow> a \<le> k \<Longrightarrow> k + 2 \<le> b \<Longrightarrow> le16_at cs k = le16_at bs k"
  "(\<forall>i. a \<le> i \<and> i < b \<longrightarrow> bs ! i = cs ! i) \<Longrightarrow> a \<le> k \<Longrightarrow> k + 4 \<le> b \<Longrightarrow> le32_at cs k = le32_at bs k"
  by (simp_all add: le16_at_def le32_at_def)

lemma dent_cong:
  assumes same: "\<forall>i. a \<le> i \<and> i < b \<longrightarrow> bs ! i = cs ! i" and len: "length cs = length bs"
    and a: "a \<le> o'" and b: "o' + 8 + de_name_len bs o' \<le> b"
  shows "dent_at cs o' = dent_at bs o'" "de_name_len cs o' = de_name_len bs o'"
proof -
  have h: "de_inode cs o' = de_inode bs o'" "de_rec_len cs o' = de_rec_len bs o'"
    unfolding de_inode_def de_rec_len_def using a b by (simp_all add: le_at_cong [OF same])
  show n: "de_name_len cs o' = de_name_len bs o'"
    using same a b by (simp add: de_name_len_def)
  have "take (de_name_len bs o') (drop (o' + 8) cs) = take (de_name_len bs o') (drop (o' + 8) bs)"
    by (rule nth_equalityI) (use same a b len in \<open>auto\<close>)
  then show "dent_at cs o' = dent_at bs o'" by (simp add: dent_at_def h de_name_def n)
qed

lemma entry_room: "entry_ok ch mx o' e \<Longrightarrow> length (d_name e) + 8 \<le> d_rec e"
  using REC_LEN_bounds(1) [of "length (d_name e)"] by (simp add: entry_ok_def)

lemma chain_cong:
  assumes "\<forall>i. o' \<le> i \<and> i < lim \<longrightarrow> bs ! i = cs ! i" "length cs = length bs"
    and "chain ch mx bs o' es lim"
  shows "chain ch mx cs o' es lim"
  using assms
proof (induction es arbitrary: o')
  case Nil
  then show ?case by simp
next
  case (Cons e es)
  have e: "dent_at bs o' = e" "de_name_len bs o' = length (d_name e)" "entry_ok ch mx o' e"
    and rest: "chain ch mx bs (o' + d_rec e) es lim"
    using Cons.prems(3) by simp_all
  have "o' + 8 + de_name_len bs o' \<le> lim"
    using entry_room [OF e(3)] chain_le [OF rest] e(2) by simp
  from dent_cong [OF Cons.prems(1,2) order_refl this] e
  have "dent_at cs o' = e" "de_name_len cs o' = length (d_name e)" by simp_all
  moreover have "chain ch mx cs (o' + d_rec e) es lim"
    using Cons.prems(1) by (intro Cons.IH [OF _ Cons.prems(2) rest]) simp
  ultimately show ?case using e(3) by simp
qed

section \<open>The check\<close>

lemma length_de_name: "o' + 8 + de_name_len bs o' \<le> length bs \<Longrightarrow> length (de_name bs o') = de_name_len bs o'"
  by (simp add: de_name_def)

text \<open>
  The loop of \<^verbatim>\<open>ext2_check_page\<close> accepts exactly the pages whose bytes up to the limit are a
  chain of well-formed entries.
\<close>

lemma chain_short:
  assumes "\<not> offs + EXT2_DIR_REC_LEN 1 \<le> limit"
  shows "(\<exists>es. chain ch mx bs offs es limit) \<longleftrightarrow> offs = limit"
proof
  assume "\<exists>es. chain ch mx bs offs es limit"
  then obtain es where c: "chain ch mx bs offs es limit" by blast
  show "offs = limit"
  proof (cases es)
    case (Cons e fs)
    with c have "12 \<le> d_rec e" "chain ch mx bs (offs + d_rec e) fs limit"
      by (auto simp: entry_ok_def)
    with assms chain_le [OF this(2)] show ?thesis by (simp add: REC_LEN_bounds)
  qed (use c in simp)
next
  assume "offs = limit"
  then have "chain ch mx bs offs [] limit" by simp
  then show "\<exists>es. chain ch mx bs offs es limit" ..
qed

text \<open>What the walk of ext2_check_page asks of the entry at an offset before it steps over it.\<close>

definition head_ok :: "byte list \<Rightarrow> nat \<Rightarrow> nat \<Rightarrow> nat \<Rightarrow> bool" where
  "head_ok bs ch mx offs \<longleftrightarrow>
     12 \<le> de_rec_len bs offs \<and> de_rec_len bs offs mod 4 = 0 \<and>
     EXT2_DIR_REC_LEN (de_name_len bs offs) \<le> de_rec_len bs offs \<and>
     (offs + de_rec_len bs offs - 1) div ch = offs div ch \<and> unat (de_inode bs offs) \<le> mx"

lemma check_loop_step:
  assumes "offs + EXT2_DIR_REC_LEN 1 \<le> limit"
  shows "check_loop bs ch mx limit offs \<longleftrightarrow>
    head_ok bs ch mx offs \<and> check_loop bs ch mx limit (offs + de_rec_len bs offs)"
  using assms by (subst check_loop.simps) (auto simp: head_ok_def REC_LEN_bounds(4,5) Let_def)

lemma chain_step:
  assumes "limit \<le> length bs" "offs + EXT2_DIR_REC_LEN 1 \<le> limit"
  shows "(\<exists>es. chain ch mx bs offs es limit) \<longleftrightarrow>
    head_ok bs ch mx offs \<and> offs + de_rec_len bs offs \<le> limit \<and>
    (\<exists>es. chain ch mx bs (offs + de_rec_len bs offs) es limit)" (is "_ \<longleftrightarrow> ?steps")
proof
  assume "\<exists>es. chain ch mx bs offs es limit"
  then obtain es where c: "chain ch mx bs offs es limit" by blast
  have "12 \<le> limit - offs" using assms(2) by (simp add: REC_LEN_bounds)
  then obtain e fs where es: "es = e # fs" using c by (cases es) auto
  with c have e: "dent_at bs offs = e" "de_name_len bs offs = length (d_name e)"
    "entry_ok ch mx offs e" "chain ch mx bs (offs + d_rec e) fs limit" by simp_all
  have "d_rec e = de_rec_len bs offs" "d_ino e = de_inode bs offs"
    using e(1) by (auto simp: dent_at_def)
  with e chain_le [OF e(4)] show ?steps by (auto simp: head_ok_def entry_ok_def)
next
  assume a: ?steps
  then obtain es where c: "chain ch mx bs (offs + de_rec_len bs offs) es limit" by blast
  have "de_name_len bs offs + 8 \<le> de_rec_len bs offs"
    using a REC_LEN_bounds(1) [of "de_name_len bs offs"] by (simp add: head_ok_def)
  then have "length (de_name bs offs) = de_name_len bs offs"
    using a assms(1) by (intro length_de_name) simp
  with a c have "chain ch mx bs offs (dent_at bs offs # es) limit"
    by (simp add: dent_at_def entry_ok_def head_ok_def)
  then show "\<exists>es. chain ch mx bs offs es limit" ..
qed

lemma check_loop_chain:
  assumes "limit \<le> length bs" "offs \<le> limit"
  shows "check_loop bs ch mx limit offs \<longleftrightarrow> (\<exists>es. chain ch mx bs offs es limit)"
  using assms
proof (induction bs ch mx limit offs rule: check_loop.induct)
  case (1 bs ch mx limit offs)
  let ?r = "de_rec_len bs offs"
  show ?case
  proof (cases "offs + EXT2_DIR_REC_LEN 1 \<le> limit")
    case False
    with chain_short [OF False, of ch mx bs] show ?thesis
      by (simp add: check_loop.simps [of bs ch mx limit offs])
  next
    case True
    note loop = check_loop_step [OF True, of bs ch mx]
      and split = chain_step [OF "1.prems"(1) True, of ch mx]
    show ?thesis
    proof (cases "head_ok bs ch mx offs \<and> offs + ?r \<le> limit")
      case True
      have "check_loop bs ch mx limit (offs + ?r) \<longleftrightarrow> (\<exists>es. chain ch mx bs (offs + ?r) es limit)"
        using True \<open>offs + EXT2_DIR_REC_LEN 1 \<le> limit\<close> "1.prems"(1)
        by (intro "1.IH") (auto simp: head_ok_def REC_LEN_bounds(4,5))
      with loop split True show ?thesis by blast
    next
      case False
      have "\<not> check_loop bs ch mx limit (offs + ?r)" if "\<not> offs + ?r \<le> limit"
        using that by (subst check_loop.simps) simp
      with loop split False show ?thesis by blast
    qed
  qed
qed

end
