(* ===== verification/Dir_Ops.thy ===== *)
theory Dir_Ops
  imports Dir_Chain
begin

text \<open>
  The operations of one directory page on its list of entries: looking a name up finds the
  first live entry of that name, adding a name extends the live entries by one, deleting an
  entry takes it out of them, and in both cases the page stays a chain of well-formed
  entries.
\<close>

lemma chain_head:
  assumes "chain ch mx bs o' (e # es) lim"
  shows "de_inode bs o' = d_ino e" "de_rec_len bs o' = d_rec e" "de_name bs o' = d_name e"
    "de_name_len bs o' = length (d_name e)" "12 \<le> d_rec e" "length (d_name e) + 8 \<le> d_rec e"
    "EXT2_DIR_REC_LEN (length (d_name e)) \<le> d_rec e" "o' + d_rec e \<le> lim"
    "chain ch mx bs (o' + d_rec e) es lim" "entry_ok ch mx o' e"
proof -
  have d: "dent_at bs o' = e" "de_name_len bs o' = length (d_name e)" "entry_ok ch mx o' e"
    "chain ch mx bs (o' + d_rec e) es lim"
    using assms by simp_all
  then show "de_inode bs o' = d_ino e" "de_rec_len bs o' = d_rec e" "de_name bs o' = d_name e"
    by (auto simp: dent_at_def)
  show "de_name_len bs o' = length (d_name e)" "chain ch mx bs (o' + d_rec e) es lim"
    "entry_ok ch mx o' e" by (fact d)+
  show "12 \<le> d_rec e" "EXT2_DIR_REC_LEN (length (d_name e)) \<le> d_rec e"
    using d(3) by (simp_all add: entry_ok_def)
  show "length (d_name e) + 8 \<le> d_rec e" by (rule entry_room [OF d(3)])
  show "o' + d_rec e \<le> lim" by (rule chain_le [OF d(4)])
qed

definition wanted :: "byte list \<Rightarrow> dent \<Rightarrow> bool" where
  "wanted name e \<longleftrightarrow> is_live e \<and> d_name e = name"

lemma match_entry:
  assumes "chain ch mx bs o' (e # es) lim"
  shows "ext2_match name bs o' \<longleftrightarrow> wanted name e"
  using chain_head(1,3,4) [OF assms]
  by (auto simp: ext2_match_def is_live_def de_name_def wanted_def)

section \<open>Lookup\<close>

text \<open>The offset of the first entry that satisfies \<open>P\<close>.\<close>

fun entry_pos :: "(dent \<Rightarrow> bool) \<Rightarrow> nat \<Rightarrow> dent list \<Rightarrow> nat option" where
  "entry_pos P o' [] = None"
| "entry_pos P o' (e # es) = (if P e then Some o' else entry_pos P (o' + d_rec e) es)"

lemma entry_pos_None: "entry_pos P o' es = None \<longleftrightarrow> (\<forall>e \<in> set es. \<not> P e)"
  by (induction es arbitrary: o') auto

lemma entry_pos_Some:
  "entry_pos P o' es = Some k \<longleftrightarrow>
     (\<exists>xs e ys. es = xs @ e # ys \<and> k = o' + recs xs \<and> P e \<and> (\<forall>x \<in> set xs. \<not> P x))"
proof (induction es arbitrary: o')
  case Nil
  then show ?case by simp
next
  case (Cons a es)
  show ?case
  proof (cases "P a")
    case True
    have "(\<exists>xs e ys. a # es = xs @ e # ys \<and> k = o' + recs xs \<and> P e \<and> (\<forall>x \<in> set xs. \<not> P x)) \<longleftrightarrow> k = o'"
    proof
      assume "\<exists>xs e ys. a # es = xs @ e # ys \<and> k = o' + recs xs \<and> P e \<and> (\<forall>x \<in> set xs. \<not> P x)"
      then obtain xs e ys where "a # es = xs @ e # ys" "k = o' + recs xs" "\<forall>x \<in> set xs. \<not> P x" by blast
      with True show "k = o'" by (cases xs) auto
    next
      assume "k = o'"
      with True show "\<exists>xs e ys. a # es = xs @ e # ys \<and> k = o' + recs xs \<and> P e \<and> (\<forall>x \<in> set xs. \<not> P x)"
        by (intro exI [of _ "[]"]) simp
    qed
    with True show ?thesis by auto
  next
    case False
    have "(\<exists>xs e ys. a # es = xs @ e # ys \<and> k = o' + recs xs \<and> P e \<and> (\<forall>x \<in> set xs. \<not> P x)) \<longleftrightarrow>
        (\<exists>xs e ys. es = xs @ e # ys \<and> k = o' + d_rec a + recs xs \<and> P e \<and> (\<forall>x \<in> set xs. \<not> P x))"
      (is "?L \<longleftrightarrow> ?R")
    proof
      assume ?L
      then obtain xs e ys where x: "a # es = xs @ e # ys" "k = o' + recs xs" "P e" "\<forall>x \<in> set xs. \<not> P x"
        by blast
      with False obtain zs where "xs = a # zs" by (cases xs) auto
      with x show ?R by (intro exI [of _ zs] exI [of _ e] exI [of _ ys]) simp
    next
      assume ?R
      then obtain xs e ys where "es = xs @ e # ys" "k = o' + d_rec a + recs xs" "P e"
          "\<forall>x \<in> set xs. \<not> P x" by blast
      with False show ?L by (intro exI [of _ "a # xs"] exI [of _ e] exI [of _ ys]) simp
    qed
    with False Cons.IH [of "o' + d_rec a"] show ?thesis by simp
  qed
qed

lemma find_loop_chain:
  assumes "chain ch mx bs o' es lim" "lim \<le> length bs"
  shows "find_loop name bs (int lim - int (EXT2_DIR_REC_LEN (length name))) o' =
     (case entry_pos (wanted name) o' es of None \<Rightarrow> Scan_end | Some k \<Rightarrow> Scan_found k)"
  using assms(1)
proof (induction es arbitrary: o')
  case Nil
  have "0 < EXT2_DIR_REC_LEN (length name)" using REC_LEN_bounds(1) [of "length name"] by simp
  with Nil show ?case by (subst find_loop.simps) simp
next
  case (Cons e es)
  note h = chain_head [OF Cons.prems]
  let ?lim = "int lim - int (EXT2_DIR_REC_LEN (length name))"
  show ?case
  proof (cases "int o' \<le> ?lim")
    case True
    have "o' + 8 + length name \<le> length bs"
      using True REC_LEN_bounds(1) [of "length name"] assms(2) by simp
    then show ?thesis
      using True h(2,5) Cons.IH [OF h(9)] match_entry [OF Cons.prems]
      by (subst find_loop.simps) auto
  next
    case False
    have "\<forall>x \<in> set (e # es). \<not> wanted name x"
    proof
      fix x assume "x \<in> set (e # es)"
      then obtain xs ys where es: "e # es = xs @ x # ys" by (meson split_list)
      from Cons.prems [unfolded es chain_append]
      have "chain ch mx bs (o' + recs xs) (x # ys) lim" by simp
      from chain_head(7,8) [OF this] False
      show "\<not> wanted name x" by (auto simp: wanted_def)
    qed
    then have "entry_pos (wanted name) o' (e # es) = None" by (simp add: entry_pos_None)
    with False show ?thesis by (subst find_loop.simps) simp
  qed
qed

section \<open>Deleting an entry\<close>

lemma recs_split_boundary:
  assumes "chain ch mx bs o' es lim" "0 < ch" "c mod ch = 0" "o' \<le> c" "c \<le> lim"
  shows "\<exists>xs ys. es = xs @ ys \<and> c = o' + recs xs"
  using assms
proof (induction es arbitrary: o')
  case Nil
  then show ?case by simp
next
  case (Cons e es)
  note h = chain_head [OF Cons.prems(1)]
  show ?case
  proof (cases "c = o'")
    case True
    then show ?thesis by (intro exI [of _ "[]"] exI [of _ "e # es"]) simp
  next
    case False
    have "o' + d_rec e \<le> c"
    proof (rule ccontr)
      assume "\<not> o' + d_rec e \<le> c"
      then have b1: "c \<le> o' + d_rec e - 1" by linarith
      have "o' < c" using le_neq_implies_less [OF Cons.prems(4)] False by blast
      note b = this b1
      obtain k where k: "c = k * ch" using Cons.prems(3) by (metis mod_0_imp_dvd dvdE mult.commute)
      have "o' div ch < k" using b(1) Cons.prems(2) k by (simp add: div_less_iff_less_mult)
      moreover have "k \<le> (o' + d_rec e - 1) div ch"
        using b(2) Cons.prems(2) k by (simp add: less_eq_div_iff_mult_less_eq)
      moreover have "(o' + d_rec e - 1) div ch = o' div ch" using h(10) by (simp add: entry_ok_def)
      ultimately show False by simp
    qed
    from Cons.IH [OF h(9) Cons.prems(2,3) this Cons.prems(5)]
    obtain xs ys where "es = xs @ ys" "c = o' + d_rec e + recs xs" by blast
    then show ?thesis by (intro exI [of _ "e # xs"] exI [of _ ys]) simp
  qed
qed

lemma prev_entry_chain:
  assumes "chain ch mx bs c xs o'"
  shows "prev_entry bs o' c pde = Some (if xs = [] then pde else Some (c + recs (butlast xs)))"
  using assms
proof (induction xs arbitrary: c pde)
  case Nil
  then show ?case by (subst prev_entry.simps) simp
next
  case (Cons x xs)
  note h = chain_head [OF Cons.prems]
  have "c < o'" using h(5,8) by simp
  then have "prev_entry bs o' c pde = prev_entry bs o' (c + d_rec x) (Some c)"
    using h(2,5) by (subst prev_entry.simps) simp
  then show ?case using Cons.IH [OF h(9), of "Some c"] by (simp add: add.assoc)
qed

lemma delete_target:
  assumes c: "chain ch mx bs 0 (xs @ e # ys) lim" and ch: "0 < ch"
  shows "\<exists>as bs'. xs = as @ bs' \<and> recs as = recs xs div ch * ch \<and>
     prev_entry bs (recs xs) (recs xs div ch * ch) None =
       Some (if bs' = [] then None else Some (recs (butlast xs)))"
proof -
  have cx: "chain ch mx bs 0 xs (recs xs)"
    using c by (simp add: chain_append)
  let ?f = "recs xs div ch * ch"
  obtain as zs where az: "xs = as @ zs" "?f = 0 + recs as"
    using recs_split_boundary [OF cx ch, of ?f] by auto
  have "chain ch mx bs ?f zs (recs xs)"
    using cx az unfolding az(1) chain_append by simp
  from prev_entry_chain [OF this, of None] az
  have "prev_entry bs (recs xs) ?f None = Some (if zs = [] then None else Some (recs (butlast xs)))"
    by (auto simp: butlast_append)
  with az show ?thesis by auto
qed

lemma chain_suffix_same:
  assumes "chain ch mx bs a ys lim" "length cs = length bs" "\<forall>i. a \<le> i \<longrightarrow> cs ! i = bs ! i"
  shows "chain ch mx cs a ys lim"
  using assms by (intro chain_cong [OF _ _ assms(1)]) auto

lemma chain_prefix_same:
  assumes "chain ch mx bs 0 xs b" "length cs = length bs" "\<forall>i < b. cs ! i = bs ! i"
  shows "chain ch mx cs 0 xs b"
  using assms by (intro chain_cong [OF _ _ assms(1)]) auto

lemma nth_set_rec_len: "i < a + 4 \<or> a + 6 \<le> i \<Longrightarrow> set_rec_len n a bs ! i = bs ! i"
  by (auto simp: set_rec_len_def nth_put_le16_other)

lemma nth_set_inode: "i < a \<or> a + 4 \<le> i \<Longrightarrow> set_inode_no n a bs ! i = bs ! i"
  by (simp add: set_inode_no_def nth_put_le32_other)

lemma length_set [simp]:
  "length (set_rec_len n a bs) = length bs" "length (set_inode_no i a bs) = length bs"
  "length (set_file_type a bs) = length bs"
  by (simp_all add: set_rec_len_def set_inode_no_def set_file_type_def)

lemma de_name_cong:
  assumes "\<forall>i. a + 6 \<le> i \<longrightarrow> i \<noteq> a + 7 \<longrightarrow> cs ! i = bs ! i" "length cs = length bs"
  shows "de_name_len cs a = de_name_len bs a" "de_name cs a = de_name bs a"
proof -
  show n: "de_name_len cs a = de_name_len bs a" using assms(1) by (simp add: de_name_len_def)
  have "drop (a + 8) cs = drop (a + 8) bs"
    by (rule nth_equalityI) (use assms in auto)
  then show "de_name cs a = de_name bs a" by (simp add: de_name_def n)
qed

text \<open>A header field changed in place.\<close>

lemma dent_set_rec:
  assumes "a + 8 \<le> length bs" "n < 65536"
  shows "dent_at (set_rec_len n a bs) a = (dent_at bs a)\<lparr>d_rec := n\<rparr>"
    "de_name_len (set_rec_len n a bs) a = de_name_len bs a"
proof -
  note nm = de_name_cong [of a "set_rec_len n a bs" bs]
  have "\<forall>i. a + 6 \<le> i \<longrightarrow> i \<noteq> a + 7 \<longrightarrow> set_rec_len n a bs ! i = bs ! i"
    by (simp add: nth_set_rec_len)
  note nm = nm [OF this length_set(1)]
  show "de_name_len (set_rec_len n a bs) a = de_name_len bs a" by (rule nm)
  have "de_inode (set_rec_len n a bs) a = de_inode bs a"
    by (simp add: de_inode_def set_rec_len_def le32_put_le16_other)
  moreover have "de_rec_len (set_rec_len n a bs) a = n"
    using assms by (simp add: de_rec_len_def set_rec_len_def unsigned_of_nat take_bit_nat_eq_self)
  ultimately show "dent_at (set_rec_len n a bs) a = (dent_at bs a)\<lparr>d_rec := n\<rparr>"
    by (simp add: dent_at_def nm)
qed

lemma dent_set_inode:
  assumes "a + 8 \<le> length bs"
  shows "dent_at (set_inode_no n a bs) a = (dent_at bs a)\<lparr>d_ino := n\<rparr>"
    "de_name_len (set_inode_no n a bs) a = de_name_len bs a"
proof -
  note nm = de_name_cong [of a "set_inode_no n a bs" bs]
  have "\<forall>i. a + 6 \<le> i \<longrightarrow> i \<noteq> a + 7 \<longrightarrow> set_inode_no n a bs ! i = bs ! i"
    by (simp add: nth_set_inode)
  note nm = nm [OF this length_set(2)]
  show "de_name_len (set_inode_no n a bs) a = de_name_len bs a" by (rule nm)
  have "de_rec_len (set_inode_no n a bs) a = de_rec_len bs a"
    by (simp add: de_rec_len_def set_inode_no_def le16_put_le32_other)
  moreover have "de_inode (set_inode_no n a bs) a = n"
    using assms by (simp add: de_inode_def set_inode_no_def)
  ultimately show "dent_at (set_inode_no n a bs) a = (dent_at bs a)\<lparr>d_ino := n\<rparr>"
    by (simp add: dent_at_def nm)
qed

text \<open>
  Replacing the middle of a chain: the bytes outside of the replaced part stay, and the new
  middle is a chain of its own.
\<close>

lemma chain_replace:
  assumes c: "chain ch mx bs 0 (xs @ ms @ ys) lim" and len: "length cs = length bs"
    and pre: "\<forall>i < recs xs. cs ! i = bs ! i" and post: "\<forall>i \<ge> recs xs + recs ms. cs ! i = bs ! i"
    and new: "chain ch mx cs (recs xs) ns (recs xs + recs ms)"
  shows "chain ch mx cs 0 (xs @ ns @ ys) lim"
proof -
  have "chain ch mx bs 0 xs (recs xs)" "chain ch mx bs (recs xs + recs ms) ys lim"
    using c by (simp_all add: chain_append)
  then have "chain ch mx cs 0 xs (recs xs)" "chain ch mx cs (recs xs + recs ms) ys lim"
    using chain_prefix_same [OF _ len] chain_suffix_same [OF _ len] pre post by blast+
  with new chain_end [OF new] show ?thesis by (simp add: chain_append)
qed

text \<open>The list of entries after the deletion of \<open>e\<close>, whose predecessors are \<open>xs\<close>.\<close>

definition merge_out :: "nat option \<Rightarrow> dent list \<Rightarrow> dent \<Rightarrow> dent list" where
  "merge_out pde xs e = (case pde of None \<Rightarrow> xs @ [e\<lparr>d_ino := 0\<rparr>]
     | Some _ \<Rightarrow> butlast xs @ [(last xs)\<lparr>d_rec := d_rec (last xs) + d_rec e\<rparr>])"

lemma live_upd [simp]: "live [e\<lparr>d_ino := 0\<rparr>] = []" "is_live (e\<lparr>d_rec := n\<rparr>) = is_live e"
  by (simp_all add: is_live_def)

lemma live_merge_out:
  assumes "pde = None \<or> xs \<noteq> []"
  shows "live (merge_out pde xs e) = live xs"
proof (cases pde)
  case None
  then show ?thesis by (simp add: merge_out_def is_live_def)
next
  case (Some q)
  then have "xs = butlast xs @ [last xs]" using assms by simp
  then have "live xs = live (butlast xs) @ live [last xs]" by (metis live_simps(3))
  with Some show ?thesis by (simp add: merge_out_def)
qed

lemma rec_le_chunk:
  assumes "entry_ok ch mx a e" "0 < ch"
  shows "d_rec e \<le> ch"
proof -
  have r: "(a + d_rec e - 1) div ch = a div ch" "12 \<le> d_rec e"
    using assms(1) by (simp_all add: entry_ok_def)
  have "a + d_rec e - 1 < ch + a div ch * ch" "a div ch * ch \<le> a"
    using dividend_less_div_times [OF assms(2), of "a + d_rec e - 1"] unfolding r(1) by simp_all
  then show ?thesis using r(2) by linarith
qed

lemma recs_butlast: "recs (butlast xs) \<le> recs xs"
  by (induction xs) auto

lemma recs_last: "xs \<noteq> [] \<Longrightarrow> recs xs = recs (butlast xs) + d_rec (last xs)"
  by (induction xs) auto

lemma clear_entry_chain:
  assumes c: "chain ch mx bs 0 (xs @ e # ys) lim" and lim: "lim \<le> length bs"
  shows "chain ch mx (set_inode_no 0 (recs xs) bs) 0 (xs @ e\<lparr>d_ino := 0\<rparr> # ys) lim"
proof -
  let ?cs = "set_inode_no 0 (recs xs) bs"
  have ce: "chain ch mx bs (recs xs) (e # ys) lim" using c by (simp add: chain_append)
  note h = chain_head [OF ce]
  have room: "recs xs + 8 \<le> length bs" using h(5,8) lim by simp
  have "chain ch mx ?cs 0 (xs @ [e\<lparr>d_ino := 0\<rparr>] @ ys) lim"
  proof (rule chain_replace [where ms = "[e]"])
    show "chain ch mx bs 0 (xs @ [e] @ ys) lim" using c by simp
    show "\<forall>i < recs xs. ?cs ! i = bs ! i" "\<forall>i \<ge> recs xs + recs [e]. ?cs ! i = bs ! i"
      using h(5) by (auto simp: nth_set_inode)
    have "dent_at ?cs (recs xs) = e\<lparr>d_ino := 0\<rparr>" "de_name_len ?cs (recs xs) = length (d_name e)"
      using dent_set_inode [OF room, of 0] h(4) ce by simp_all
    then show "chain ch mx ?cs (recs xs) [e\<lparr>d_ino := 0\<rparr>] (recs xs + recs [e])"
      using h(10) by (simp add: entry_ok_def)
  qed simp
  then show ?thesis by simp
qed

text \<open>The record before it, in the same chunk, takes a cleared record in.\<close>

lemma merge_entry_chain:
  fixes xs :: "dent list"
  assumes c: "chain ch mx bs 0 (xs @ e # ys) lim" and ne: "xs \<noteq> []" and ch: "0 < ch" "ch < 65536"
    and lim: "lim \<le> length bs" and same: "recs (butlast xs) div ch = recs xs div ch"
  defines "l \<equiv> (last xs)\<lparr>d_rec := d_rec (last xs) + d_rec e\<rparr>"
  shows "chain ch mx (set_inode_no 0 (recs xs) (set_rec_len (d_rec l) (recs (butlast xs)) bs)) 0 (butlast xs @ l # ys) lim"
proof -
  let ?q = "recs (butlast xs)" and ?b = "set_rec_len (d_rec l) (recs (butlast xs)) bs"
  let ?cs = "set_inode_no 0 (recs xs) ?b"
  have ce: "chain ch mx bs (recs xs) (e # ys) lim" using c by (simp add: chain_append)
  note h = chain_head [OF ce]
  have xl: "butlast xs @ last xs # e # ys = xs @ e # ys" using ne by simp
  note rx = recs_last [OF ne]
  have cb: "chain ch mx bs 0 (butlast xs @ last xs # e # ys) lim" using c unfolding xl .
  then have cl: "chain ch mx bs ?q (last xs # e # ys) lim" unfolding chain_append by simp
  note hl = chain_head [OF cl]
  have ok: "entry_ok ch mx ?q l"
    using hl(10) h(10) same rx by (simp add: entry_ok_def l_def add.assoc mod_add_eq [symmetric])
  have small: "d_rec l < 65536" using rec_le_chunk [OF ok ch(1)] ch(2) by simp
  have roomq: "?q + 8 \<le> length bs" using hl(5,8) lim by simp
  have apart: "?q + 12 \<le> recs xs" using hl(5) rx by simp
  have "chain ch mx ?cs 0 (butlast xs @ [l] @ ys) lim"
  proof (rule chain_replace [where ms = "[last xs, e]"])
    show "chain ch mx bs 0 (butlast xs @ [last xs, e] @ ys) lim" using cb by simp
    show "\<forall>i < ?q. ?cs ! i = bs ! i" "\<forall>i \<ge> ?q + recs [last xs, e]. ?cs ! i = bs ! i"
      using h(5) hl(5) apart rx by (auto simp: nth_set_inode nth_set_rec_len)
    have "\<forall>i. ?q \<le> i \<and> i < recs xs \<longrightarrow> ?b ! i = ?cs ! i" by (simp add: nth_set_inode)
    moreover have "?q + 8 + de_name_len ?b ?q \<le> recs xs"
      using dent_set_rec(2) [OF roomq small] hl(4,6) rx by simp
    ultimately have "dent_at ?cs ?q = dent_at ?b ?q" "de_name_len ?cs ?q = de_name_len ?b ?q"
      using dent_cong [of ?q "recs xs" ?b ?cs ?q] by simp_all
    then have "dent_at ?cs ?q = l" "de_name_len ?cs ?q = length (d_name l)"
      using dent_set_rec [OF roomq small] hl(4) cl by (simp_all add: l_def)
    then show "chain ch mx ?cs ?q [l] (?q + recs [last xs, e])"
      using ok by (simp add: l_def)
  qed (simp add: l_def)
  then show ?thesis by simp
qed

lemma delete_write_chain:
  assumes c: "chain ch mx bs 0 (xs @ e # ys) lim" and ch: "0 < ch" "ch < 65536" and lim: "lim \<le> length bs"
    and pe: "prev_entry bs (recs xs) (recs xs div ch * ch) None = Some pde"
  defines "from \<equiv> (case pde of None \<Rightarrow> recs xs div ch * ch | Some q \<Rightarrow> q)"
  shows "chain ch mx (delete_write (recs xs) pde (recs xs + d_rec e - from) bs) 0
           (merge_out pde xs e @ ys) lim"
    and "pde = None \<or> xs \<noteq> []" "from \<le> recs xs"
proof -
  obtain as zs where az: "xs = as @ zs" "recs as = recs xs div ch * ch"
    and pde: "pde = (if zs = [] then None else Some (recs (butlast xs)))"
    using delete_target [OF c ch(1)] unfolding pe option.inject by blast
  show "pde = None \<or> xs \<noteq> []" using pde az(1) by auto
  have "recs (butlast xs) \<le> recs xs" by (rule recs_butlast)
  then show "from \<le> recs xs" using pde by (simp add: from_def split: if_splits)
  show "chain ch mx (delete_write (recs xs) pde (recs xs + d_rec e - from) bs) 0 (merge_out pde xs e @ ys) lim"
  proof (cases "zs = []")
    case True
    then have "pde = None" using pde by simp
    then show ?thesis using clear_entry_chain [OF c lim] by (simp add: delete_write_def merge_out_def)
  next
    case False
    then have ne: "xs \<noteq> []" and p: "pde = Some (recs (butlast xs))" using az(1) pde by simp_all
    have "butlast xs = as @ butlast zs" using az(1) False by (simp add: butlast_append)
    then have fq: "recs as \<le> recs (butlast xs)" by simp
    have same: "recs (butlast xs) div ch = recs xs div ch"
    proof (rule antisym)
      show "recs (butlast xs) div ch \<le> recs xs div ch" using recs_last [OF ne] by (simp add: div_le_mono)
      have "recs as div ch \<le> recs (butlast xs) div ch" using fq by (rule div_le_mono)
      then show "recs xs div ch \<le> recs (butlast xs) div ch" using az(2) ch(1) by simp
    qed
    have "recs xs + d_rec e - from = d_rec (last xs) + d_rec e" using recs_last [OF ne] p by (simp add: from_def)
    then show ?thesis
      using merge_entry_chain [OF c ne ch lim same] unfolding delete_write_def merge_out_def p by simp
  qed
qed

end
