(* ===== verification/Dir_Add.thy ===== *)
theory Dir_Add
  imports Dir_Ops
begin

text \<open>
  Adding a name to a directory page, the first chunk of a new directory, the emptiness test
  and the listing, on the page's list of entries.
\<close>

section \<open>Finding room\<close>

definition has_space :: "byte list \<Rightarrow> dent \<Rightarrow> bool" where
  "has_space name e \<longleftrightarrow> (\<not> is_live e \<and> EXT2_DIR_REC_LEN (length name) \<le> d_rec e) \<or>
     EXT2_DIR_REC_LEN (length (d_name e)) + EXT2_DIR_REC_LEN (length name) \<le> d_rec e"

lemma add_loop_chain:
  assumes c: "chain ch mx bs o' es lim" and len: "length bs = PAGE_SIZE" and lim: "lim \<le> PAGE_SIZE"
  shows "add_loop name bs lim o' =
     (case entry_pos (\<lambda>e. wanted name e \<or> has_space name e) o' es of
        Some k \<Rightarrow> (if ext2_match name bs k then Add_exists
                   else Add_here k (EXT2_DIR_REC_LEN (de_name_len bs k)) (de_rec_len bs k))
      | None \<Rightarrow> (if lim + EXT2_DIR_REC_LEN (length name) \<le> PAGE_SIZE then Add_size lim else Add_next))"
  using c
proof (induction es arbitrary: o')
  case Nil
  then show ?case by (subst add_loop.simps) (simp add: Let_def)
next
  case (Cons e es)
  note h = chain_head [OF Cons.prems]
  let ?rl = "EXT2_DIR_REC_LEN (length name)"
  have ne: "o' \<noteq> lim" using h(5,8) by simp
  show ?case
  proof (cases "o' + ?rl \<le> PAGE_SIZE")
    case True
    have room: "\<not> length bs < o' + 8 + length name"
      using True REC_LEN_bounds(1) [of "length name"] len by simp
    have "add_loop name bs lim o' =
       (if wanted name e then Add_exists
        else if has_space name e then Add_here o' (EXT2_DIR_REC_LEN (length (d_name e))) (d_rec e)
        else add_loop name bs lim (o' + d_rec e))"
      using True ne room h(1-5) match_entry [OF Cons.prems]
      by (subst add_loop.simps) (auto simp: has_space_def is_live_def Let_def)
    then show ?thesis
      using Cons.IH [OF h(9)] match_entry [OF Cons.prems] h(2,4) by auto
  next
    case False
    have "\<forall>x \<in> set (e # es). \<not> (wanted name x \<or> has_space name x)"
    proof
      fix x assume "x \<in> set (e # es)"
      then obtain xs ys where es: "e # es = xs @ x # ys" by (meson split_list)
      from Cons.prems [unfolded es chain_append]
      have "chain ch mx bs (o' + recs xs) (x # ys) lim" by simp
      from chain_head(7,8) [OF this] False lim
      show "\<not> (wanted name x \<or> has_space name x)" by (auto simp: wanted_def has_space_def)
    qed
    then have "entry_pos (\<lambda>e. wanted name e \<or> has_space name e) o' (e # es) = None"
      by (simp add: entry_pos_None)
    moreover have "\<not> lim + ?rl \<le> PAGE_SIZE" using False h(8) by simp
    ultimately show ?thesis using False by (subst add_loop.simps) (simp add: Let_def)
  qed
qed

section \<open>Writing the entry\<close>

lemma nth_put_bytes:
  assumes "k + length xs \<le> length bs"
  shows "put_bytes xs k bs ! i =
     (if k \<le> i \<and> i < k + length xs then xs ! (i - k) else bs ! i)"
proof -
  consider "i < k" | "k \<le> i" "i < k + length xs" | "k + length xs \<le> i" by linarith
  then show ?thesis
  proof cases
    case 3
    then have "\<not> i < k" "\<not> i - k < length xs" by linarith+
    then have "(take k bs @ xs @ drop (k + length xs) bs) ! i = drop (k + length xs) bs ! (i - k - length xs)"
      using assms by (simp add: nth_append min_absorb2)
    also have "... = bs ! i" using 3 assms by (cases "i < length bs") (simp_all add: nth_drop)
    finally show ?thesis using 3 by (simp add: put_bytes_def)
  next
    case 2
    then have "i - k < length xs" by linarith
    with 2 assms show ?thesis by (simp add: put_bytes_def nth_append)
  qed (use assms in \<open>simp add: put_bytes_def nth_append\<close>)
qed

lemma length_put_bytes [simp]:
  "k + length xs \<le> length bs \<Longrightarrow> length (put_bytes xs k bs) = length bs"
  by (simp add: put_bytes_def)

lemma length_set_name [simp]:
  "a + 8 + length name \<le> length bs \<Longrightarrow> length (set_name name a bs) = length bs"
  by (simp add: set_name_def)

lemma nth_set_name:
  assumes "a + 8 + length name \<le> length bs" "i < a + 6 \<or> a + 8 + length name \<le> i"
  shows "set_name name a bs ! i = bs ! i"
  using assms by (auto simp: set_name_def nth_put_bytes)

lemma fill_entry_frame:
  assumes "a + 8 + length name \<le> length bs"
  shows "length (fill_entry name ino a bs) = length bs"
    and "i < a \<or> a + 8 + length name \<le> i \<Longrightarrow> fill_entry name ino a bs ! i = bs ! i"
  using assms by (auto simp: fill_entry_def set_file_type_def nth_set_inode nth_set_name)

lemma fill_entry_dent:
  assumes len: "a + 8 + length name \<le> length bs" and name: "length name < 256"
  shows "dent_at (fill_entry name ino a bs) a =
      \<lparr> d_ino = ino, d_rec = de_rec_len bs a, d_name = name \<rparr>"
    and "de_name_len (fill_entry name ino a bs) a = length name"
proof -
  let ?f = "fill_entry name ino a bs"
  have n6: "?f ! (a + 6) = of_nat (length name)"
    using len by (simp add: fill_entry_def set_file_type_def nth_set_inode set_name_def nth_put_bytes)
  show nl: "de_name_len ?f a = length name"
    using name by (simp add: de_name_len_def n6 unsigned_of_nat take_bit_nat_eq_self)
  have "take (length name) (drop (a + 8) ?f) = name"
  proof (rule nth_equalityI)
    show "length (take (length name) (drop (a + 8) ?f)) = length name"
      using len fill_entry_frame(1) [OF len, where ino = ino] by simp
    fix i assume "i < length (take (length name) (drop (a + 8) ?f))"
    then show "take (length name) (drop (a + 8) ?f) ! i = name ! i"
      using len by (simp add: fill_entry_def set_file_type_def nth_set_inode set_name_def nth_put_bytes)
  qed
  then have "de_name ?f a = name" by (simp add: de_name_def nl)
  moreover have "de_inode ?f a = ino"
  proof -
    let ?s = "set_name name a bs"
    have "de_inode ?f a = de_inode (set_inode_no ino a ?s) a"
      unfolding de_inode_def fill_entry_def set_file_type_def
      by (rule le_at_cong(2) [of a "a + 4"]) simp_all
    then show ?thesis using len by (simp add: de_inode_def set_inode_no_def)
  qed
  moreover have "de_rec_len ?f a = de_rec_len bs a"
    unfolding de_rec_len_def
    by (subst le_at_cong(1) [of "a + 4" "a + 6" bs "?f"])
      (use len in \<open>auto simp: fill_entry_def set_file_type_def nth_set_inode nth_set_name\<close>)
  ultimately show "dent_at ?f a = \<lparr> d_ino = ino, d_rec = de_rec_len bs a, d_name = name \<rparr>"
    by (simp add: dent_at_def)
qed

text \<open>The entries that replace \<open>e\<close> when a name is put behind it or in its place.\<close>

definition add_split :: "byte list \<Rightarrow> u32 \<Rightarrow> dent \<Rightarrow> dent list" where
  "add_split name ino e = (let nl = EXT2_DIR_REC_LEN (length (d_name e)) in
     if is_live e
     then [e\<lparr>d_rec := nl\<rparr>, \<lparr> d_ino = ino, d_rec = d_rec e - nl, d_name = name \<rparr>]
     else [\<lparr> d_ino = ino, d_rec = d_rec e, d_name = name \<rparr>])"

lemma live_add_split:
  "ino \<noteq> 0 \<Longrightarrow> live (add_split name ino e) = live [e] @ [(name, ino)]"
  by (simp add: add_split_def Let_def is_live_def)

lemma chunk_within:
  fixes a :: nat
  assumes "(a + n - 1) div ch = a div ch" "a \<le> b" "b + m \<le> a + n" "0 < m"
  shows "(b + m - 1) div ch = b div ch"
proof -
  have "a div ch \<le> b div ch" using assms(2) by (rule div_le_mono)
  moreover have "b div ch \<le> (b + m - 1) div ch" using assms(4) by (intro div_le_mono) linarith
  moreover have "(b + m - 1) div ch \<le> (a + n - 1) div ch" using assms(3) by (intro div_le_mono) linarith
  ultimately show ?thesis using assms(1) by simp
qed

lemma add_write_dead:
  assumes c: "chain ch mx bs 0 (xs @ e # ys) lim" and lim: "lim \<le> length bs"
    and name: "length name < 256" and ino: "unat ino \<le> mx" and dead: "\<not> is_live e"
    and fits: "EXT2_DIR_REC_LEN (length name) \<le> d_rec e"
  shows "chain ch mx (add_write name ino (recs xs) nl rl bs) 0 (xs @ add_split name ino e @ ys) lim"
proof -
  have ce: "chain ch mx bs (recs xs) (e # ys) lim" using c by (simp add: chain_append)
  note h = chain_head [OF ce]
  let ?cs = "fill_entry name ino (recs xs) bs"
  have cs: "add_write name ino (recs xs) nl rl bs = ?cs"
    using dead h(1) by (simp add: add_write_def is_live_def)
  have room: "recs xs + 8 + length name \<le> recs xs + d_rec e"
    using fits REC_LEN_bounds(1) [of "length name"] by simp
  then have len: "recs xs + 8 + length name \<le> length bs" using h(8) lim by simp
  note f = fill_entry_frame [OF len, where ino = ino] and d = fill_entry_dent [OF len name, where ino = ino]
  have "chain ch mx ?cs 0 (xs @ add_split name ino e @ ys) lim"
  proof (rule chain_replace [where ms = "[e]"])
    show "chain ch mx bs 0 (xs @ [e] @ ys) lim" using c by simp
    show "\<forall>i < recs xs. ?cs ! i = bs ! i" "\<forall>i \<ge> recs xs + recs [e]. ?cs ! i = bs ! i"
      using room by (auto intro: f(2))
    show "chain ch mx ?cs (recs xs) (add_split name ino e) (recs xs + recs [e])"
      using d h(2,10) dead fits ino by (simp add: add_split_def Let_def entry_ok_def)
  qed (rule f(1))
  then show ?thesis unfolding cs .
qed

text \<open>The record behind a split fits, too.\<close>

lemma split_entry_ok:
  assumes e: "entry_ok ch mx o' e" and nl: "nl mod 4 = 0" and ino: "unat ino \<le> mx"
    and fits: "nl + EXT2_DIR_REC_LEN (length name) \<le> d_rec e" and rl: "12 \<le> EXT2_DIR_REC_LEN (length name)"
  shows "entry_ok ch mx (o' + nl) \<lparr> d_ino = ino, d_rec = d_rec e - nl, d_name = name \<rparr>"
proof -
  have ok: "d_rec e mod 4 = 0" "(o' + d_rec e - 1) div ch = o' div ch"
    using e unfolding entry_ok_def by blast+
  have "4 dvd d_rec e - nl"
    using dvd_diff_nat [OF mod_0_imp_dvd [OF ok(1)] mod_0_imp_dvd [OF nl]] .
  then have "(d_rec e - nl) mod 4 = 0" by (rule dvd_imp_mod_0)
  moreover have "(o' + nl + (d_rec e - nl) - 1) div ch = (o' + nl) div ch"
    by (rule chunk_within [OF ok(2)]) (use rl fits in linarith)+
  moreover have "EXT2_DIR_REC_LEN (length name) \<le> d_rec e - nl" "12 \<le> d_rec e - nl" using fits rl by linarith+
  ultimately show ?thesis using ino by (simp add: entry_ok_def)
qed

lemma REC_LEN_room:
  assumes "name \<noteq> ([] :: byte list)"
  shows "length name + 8 \<le> EXT2_DIR_REC_LEN (length name)" "12 \<le> EXT2_DIR_REC_LEN (length name)"
  using REC_LEN_bounds(1) [of "length name"] REC_LEN_mono [of 1 "length name"] assms
    REC_LEN_bounds(4) by (auto simp: Suc_le_eq)

lemma split_headers:
  assumes ce: "chain ch mx bs o' (e # ys) lim" and lim: "lim \<le> length bs" "lim < 65536"
    and ne: "d_name e \<noteq> []" and fits: "EXT2_DIR_REC_LEN (length (d_name e)) + 8 \<le> d_rec e"
    and nl: "nl = EXT2_DIR_REC_LEN (length (d_name e))"
    and b2: "b2 = set_rec_len nl o' (set_rec_len (d_rec e - nl) (o' + nl) bs)"
  shows "de_rec_len b2 (o' + nl) = d_rec e - nl"
    and "dent_at b2 o' = e\<lparr>d_rec := nl\<rparr>" and "de_name_len b2 o' = length (d_name e)"
proof -
  note h = chain_head [OF ce]
  let ?b1 = "set_rec_len (d_rec e - nl) (o' + nl) bs"
  note r = REC_LEN_room [OF ne, folded nl]
  have small: "d_rec e - nl < 65536" "nl < 65536" using h(8) lim(2) fits nl by simp_all
  have end_le: "o' + d_rec e \<le> length bs" using h(8) lim(1) by simp
  have "de_rec_len b2 (o' + nl) = de_rec_len ?b1 (o' + nl)"
    using r by (simp add: b2 de_rec_len_def set_rec_len_def le16_put_other)
  also have "... = d_rec (dent_at ?b1 (o' + nl))" by (simp add: dent_at_def)
  also have "... = d_rec e - nl"
    using dent_set_rec(1) [OF _ small(1), of "o' + nl" bs] end_le fits nl by simp
  finally show "de_rec_len b2 (o' + nl) = d_rec e - nl" .
  have same: "\<forall>i. o' \<le> i \<and> i < o' + nl \<longrightarrow> bs ! i = ?b1 ! i"
    by (simp add: nth_set_rec_len)
  have bo: "dent_at ?b1 o' = e" "de_name_len ?b1 o' = length (d_name e)"
    using dent_cong [OF same, of o'] r(1) h(4) ce by simp_all
  show "dent_at b2 o' = e\<lparr>d_rec := nl\<rparr>" "de_name_len b2 o' = length (d_name e)"
    using dent_set_rec [OF _ small(2), of o' ?b1] end_le h(5) by (simp_all add: b2 bo)
qed

lemma add_write_live:
  assumes c: "chain ch mx bs 0 (xs @ e # ys) lim" and lim: "lim \<le> length bs" "lim < 65536"
    and name: "length name < 256" and ino: "unat ino \<le> mx" and lv: "is_live e"
    and ne: "d_name e \<noteq> []" and nn: "name \<noteq> []"
    and fits: "EXT2_DIR_REC_LEN (length (d_name e)) + EXT2_DIR_REC_LEN (length name) \<le> d_rec e"
  shows "chain ch mx (add_write name ino (recs xs) (EXT2_DIR_REC_LEN (length (d_name e))) (d_rec e) bs) 0
     (xs @ add_split name ino e @ ys) lim"
proof -
  have ce: "chain ch mx bs (recs xs) (e # ys) lim" using c by (simp add: chain_append)
  note h = chain_head [OF ce]
  let ?o = "recs xs"
  let ?nl = "EXT2_DIR_REC_LEN (length (d_name e))" and ?rl = "EXT2_DIR_REC_LEN (length name)"
  let ?b1 = "set_rec_len (d_rec e - ?nl) (?o + ?nl) bs"
  let ?b2 = "set_rec_len ?nl ?o ?b1"
  let ?cs = "fill_entry name ino (?o + ?nl) ?b2"
  have cs: "add_write name ino ?o ?nl (d_rec e) bs = ?cs"
    using lv h(1) by (simp add: add_write_def is_live_def)
  note nl = REC_LEN_room [OF ne] REC_LEN_bounds(3) [of "length (d_name e)"] and rl = REC_LEN_room [OF nn]
  have end_le: "?o + d_rec e \<le> length bs" using h(8) lim(1) by simp
  have len: "?o + ?nl + 8 + length name \<le> length ?b2" using end_le fits rl by simp
  note f = fill_entry_frame [OF len, where ino = ino] and d = fill_entry_dent [OF len name, where ino = ino]
  have fits8: "?nl + 8 \<le> d_rec e" using fits rl by simp
  note b2 = split_headers [OF ce lim ne fits8 refl refl]
  have same2: "\<forall>i. ?o \<le> i \<and> i < ?o + ?nl \<longrightarrow> ?b2 ! i = ?cs ! i"
    by (simp add: f(2))
  have co: "dent_at ?cs ?o = e\<lparr>d_rec := ?nl\<rparr>" "de_name_len ?cs ?o = length (d_name e)"
    using dent_cong [OF same2 _ order_refl] nl(1) f(1) b2(2,3) by simp_all
  have ok1: "entry_ok ch mx ?o (e\<lparr>d_rec := ?nl\<rparr>)"
    using h(10) nl fits chunk_within [of ?o "d_rec e" ch ?o ?nl] by (simp add: entry_ok_def)
  note ok2 = split_entry_ok [OF h(10) nl(3) ino fits rl(2)]
  have frame: "?cs ! i = bs ! i" if "i < ?o \<or> ?o + d_rec e \<le> i" for i
    using that rl fits nl by (auto simp: f(2) nth_set_rec_len)
  have d1: "dent_at ?cs (?o + ?nl) = \<lparr> d_ino = ino, d_rec = d_rec e - ?nl, d_name = name \<rparr>"
    unfolding d(1) b2(1) ..
  obtain ds where ds: "ds = ?cs" by blast
  note facts = co [folded ds] d(2) [folded ds] d1 [folded ds] frame [folded ds] f(1) [folded ds]
  have "chain ch mx ds 0 (xs @ add_split name ino e @ ys) lim"
  proof (rule chain_replace [where ms = "[e]"])
    show "chain ch mx bs 0 (xs @ [e] @ ys) lim" using c by simp
    show "\<forall>i < ?o. ds ! i = bs ! i" "\<forall>i \<ge> ?o + recs [e]. ds ! i = bs ! i"
      by (simp_all add: facts(5))
    have "?nl \<le> d_rec e" using fits by simp
    then show "chain ch mx ds ?o (add_split name ino e) (?o + recs [e])"
      using lv ok1 ok2 by (simp add: add_split_def Let_def facts(1-4))
  qed (use facts(6) in simp)
  then show ?thesis unfolding cs ds .
qed

end
