(* ===== verification/Dir_Walk.thy ===== *)
theory Dir_Walk
  imports Dir_Add
begin

text \<open>
  The first chunk of a new directory, the emptiness test and the listing, on the page's
  list of entries.
\<close>

section \<open>Extending the directory inside a page\<close>

lemma add_size_chain:
  assumes c: "chain ch mx bs 0 es lim" and len: "lim + ch \<le> length bs"
    and ch: "12 \<le> ch" "ch mod 4 = 0" "ch < 65536" "lim mod ch = 0"
    and name: "length name < 256" and ino: "unat ino \<le> mx"
    and fits: "EXT2_DIR_REC_LEN (length name) \<le> ch"
  shows "chain ch mx (add_write name ino lim 0 ch (set_inode_no 0 lim (set_rec_len ch lim bs))) 0
     (es @ [\<lparr> d_ino = ino, d_rec = ch, d_name = name \<rparr>]) (lim + ch)"
proof -
  let ?b = "set_inode_no 0 lim (set_rec_len ch lim bs)"
  have room: "lim + 8 \<le> length bs" using len ch(1) by simp
  have i0: "de_inode ?b lim = 0" using room by (simp add: de_inode_def set_inode_no_def)
  have r: "de_rec_len ?b lim = ch"
    using room ch(3) by (simp add: de_rec_len_def set_inode_no_def le16_put_le32_other set_rec_len_def
        unsigned_of_nat take_bit_nat_eq_self)
  let ?cs = "fill_entry name ino lim ?b"
  have cs: "add_write name ino lim 0 ch ?b = ?cs" by (simp add: add_write_def i0)
  have l: "lim + 8 + length name \<le> length ?b"
    using len fits REC_LEN_bounds(1) [of "length name"] by simp
  note f = fill_entry_frame [OF l, where ino = ino] and d = fill_entry_dent [OF l name, where ino = ino]
  have end0: "lim = recs es" using chain_end [OF c] by simp
  have "chain ch mx ?cs 0 es lim"
    by (rule chain_prefix_same [OF c]) (simp_all add: f nth_set_inode nth_set_rec_len)
  moreover have "(lim + ch - 1) div ch = lim div ch"
  proof -
    obtain k where k: "lim = ch * k" using ch(4) by (metis mod_0_imp_dvd dvdE)
    have "(ch - 1 + ch * k) div ch = k + (ch - 1) div ch" using ch(1) by (intro div_mult_self2) simp
    moreover have "lim + ch - 1 = ch - 1 + ch * k" using ch(1) k by simp
    ultimately show ?thesis using ch(1) by (simp add: k)
  qed
  then have "entry_ok ch mx lim \<lparr> d_ino = ino, d_rec = ch, d_name = name \<rparr>"
    using ch fits ino by (simp add: entry_ok_def)
  ultimately show ?thesis unfolding cs using d r end0 by (simp add: chain_append)
qed

section \<open>A new directory\<close>

lemma empty_chunk_entries_ok:
  assumes ch: "24 \<le> ch" "ch mod 4 = 0" "ch < 65536" and ino: "unat self \<le> mx" "unat parent \<le> mx"
  shows "entry_ok ch mx 0 \<lparr> d_ino = self, d_rec = 12, d_name = [DOT] \<rparr>"
    and "entry_ok ch mx 12 \<lparr> d_ino = parent, d_rec = ch - 12, d_name = [DOT, DOT] \<rparr>"
proof -
  have "4 dvd ch" using ch(2) by (rule mod_0_imp_dvd)
  then have "(ch - 12) mod 4 = 0" by (intro dvd_imp_mod_0 dvd_diff_nat) simp_all
  moreover have "(12 + (ch - 12) - 1) div ch = 0" using ch(1) by simp
  ultimately show "entry_ok ch mx 12 \<lparr> d_ino = parent, d_rec = ch - 12, d_name = [DOT, DOT] \<rparr>"
    using ch ino by (simp add: entry_ok_def EXT2_DIR_REC_LEN_def)
  show "entry_ok ch mx 0 \<lparr> d_ino = self, d_rec = 12, d_name = [DOT] \<rparr>"
    using ch ino by (simp add: entry_ok_def EXT2_DIR_REC_LEN_def)
qed

text \<open>The two records of a fresh chunk, in the order they are written: the second leaves the
  twelve bytes of the first alone.\<close>

definition first_record :: "u32 \<Rightarrow> nat \<Rightarrow> byte list \<Rightarrow> byte list" where
  "first_record self ch bs = set_file_type 0 (set_inode_no self 0
     (put_bytes [DOT, 0, 0, 0] 8 (set_rec_len 12 0 ((put_bytes (replicate ch 0) 0 bs)[6 := 1]))))"

definition second_record :: "u32 \<Rightarrow> nat \<Rightarrow> byte list \<Rightarrow> byte list" where
  "second_record parent ch bs = set_file_type 12 (put_bytes [DOT, DOT, 0, 0] 20
     (set_inode_no parent 12 (set_rec_len (ch - 12) 12 (bs[18 := 2]))))"

lemma empty_chunk_records:
  "empty_chunk self parent ch bs = second_record parent ch (first_record self ch bs)"
  by (simp add: empty_chunk_def first_record_def second_record_def Let_def REC_LEN_bounds(5)
      REC_LEN_bounds(4) [unfolded One_nat_def])

lemma length_first_record:
  "ch \<le> length bs \<Longrightarrow> 24 \<le> ch \<Longrightarrow> length (first_record self ch bs) = length bs"
  by (simp add: first_record_def)

lemma second_record_below:
  "24 \<le> length bs \<Longrightarrow> i < 12 \<Longrightarrow> second_record parent ch bs ! i = bs ! i"
  by (simp add: second_record_def set_file_type_def nth_put_bytes nth_set_inode nth_set_rec_len)

lemma first_record_fields:
  assumes "24 \<le> ch" "ch \<le> length bs"
  shows "de_inode (first_record self ch bs) 0 = self" "de_rec_len (first_record self ch bs) 0 = 12"
    "first_record self ch bs ! 6 = 1" "first_record self ch bs ! 8 = DOT"
proof -
  define b0 where "b0 = set_rec_len 12 0 ((put_bytes (replicate ch 0) 0 bs)[6 := 1])"
  define b1 where "b1 = set_inode_no self 0 (put_bytes [DOT, 0, 0, 0] 8 b0)"
  have cs: "first_record self ch bs = set_file_type 0 b1"
    by (simp add: first_record_def b1_def b0_def)
  have l: "length b0 = length bs" "length b1 = length bs" "24 \<le> length bs"
    using assms by (simp_all add: b0_def b1_def)
  have "de_inode (set_file_type 0 b1) 0 = de_inode b1 0"
    unfolding de_inode_def
    by (rule le_at_cong(2) [of 0 4]) (use l in \<open>auto simp: set_file_type_def\<close>)
  then show "de_inode (first_record self ch bs) 0 = self"
    using l by (simp add: cs de_inode_def b1_def set_inode_no_def)
  have "de_rec_len (set_file_type 0 b1) 0 = de_rec_len b0 0"
    unfolding de_rec_len_def
    by (subst le_at_cong(1) [of 4 6 b0 "set_file_type 0 b1"])
      (use l in \<open>auto simp: b1_def set_file_type_def nth_put_bytes nth_set_inode\<close>)
  also have "\<dots> = 12"
    using l by (simp add: b0_def de_rec_len_def set_rec_len_def unsigned_of_nat take_bit_nat_eq_self)
  finally show "de_rec_len (first_record self ch bs) 0 = 12" by (simp add: cs)
  show "first_record self ch bs ! 6 = 1" "first_record self ch bs ! 8 = DOT"
    using l assms by (simp_all add: cs b1_def b0_def set_file_type_def nth_put_bytes nth_set_inode
        nth_set_rec_len)
qed

lemma second_record_fields:
  assumes big: "24 \<le> length bs" and ch: "ch < 65536"
  shows "de_inode (second_record parent ch bs) 12 = parent"
    "de_rec_len (second_record parent ch bs) 12 = ch - 12"
    "second_record parent ch bs ! 18 = 2" "second_record parent ch bs ! 20 = DOT"
    "second_record parent ch bs ! 21 = DOT"
proof -
  define b0 where "b0 = set_rec_len (ch - 12) 12 (bs[18 := 2])"
  define b1 where "b1 = set_inode_no parent 12 b0"
  define cs where "cs = set_file_type 12 (put_bytes [DOT, DOT, 0, 0] 20 b1)"
  have cs: "second_record parent ch bs = cs"
    by (simp add: second_record_def cs_def b1_def b0_def)
  have l: "length b0 = length bs" "length b1 = length bs" "length cs = length bs"
    using big by (simp_all add: b0_def b1_def cs_def)
  have "de_inode cs 12 = de_inode b1 12"
    unfolding de_inode_def
    by (rule le_at_cong(2) [of 12 16])
      (use big l in \<open>auto simp: cs_def set_file_type_def nth_put_bytes\<close>)
  then show "de_inode (second_record parent ch bs) 12 = parent"
    using big l by (simp add: cs de_inode_def b1_def set_inode_no_def)
  have "de_rec_len cs 12 = de_rec_len b0 12"
    unfolding de_rec_len_def
    by (subst le_at_cong(1) [of 16 18 b0 cs])
      (use big l in \<open>auto simp: cs_def b1_def set_file_type_def nth_put_bytes nth_set_inode\<close>)
  moreover have "unat (of_nat (ch - 12) :: u16) = ch - 12"
    using ch by (simp only: unsigned_of_nat) (simp add: take_bit_nat_eq_self)
  ultimately show "de_rec_len (second_record parent ch bs) 12 = ch - 12"
    using big l by (simp only: cs b0_def de_rec_len_def set_rec_len_def) simp
  show "second_record parent ch bs ! 18 = 2" "second_record parent ch bs ! 20 = DOT"
    "second_record parent ch bs ! 21 = DOT"
    using big l by (simp_all add: cs cs_def b1_def b0_def set_file_type_def nth_put_bytes
        nth_set_inode nth_set_rec_len)
qed

lemma empty_chunk_chain:
  assumes len: "ch \<le> length bs" and ch: "24 \<le> ch" "ch mod 4 = 0" "ch < 65536"
    and ino: "unat self \<le> mx" "unat parent \<le> mx"
  shows "chain ch mx (empty_chunk self parent ch bs) 0
     [\<lparr> d_ino = self, d_rec = 12, d_name = [DOT] \<rparr>,
      \<lparr> d_ino = parent, d_rec = ch - 12, d_name = [DOT, DOT] \<rparr>] ch"
proof -
  let ?b = "first_record self ch bs" and ?cs = "empty_chunk self parent ch bs"
  have big: "24 \<le> length ?b" using len ch(1) by (simp add: length_first_record)
  note first = first_record_fields [OF ch(1) len, of self]
    and second = second_record_fields [OF big ch(3), of parent]
    and below = second_record_below [OF big, of _ parent ch]
  have lc: "24 \<le> length ?cs" using big by (simp add: empty_chunk_records second_record_def)
  have same: "?cs ! i = ?b ! i" if "i < 12" for i
    using below [OF that] by (simp add: empty_chunk_records)
  have "de_inode ?cs 0 = de_inode ?b 0"
    unfolding de_inode_def by (rule le_at_cong(2) [of 0 4]) (simp_all add: same)
  moreover have "de_rec_len ?cs 0 = de_rec_len ?b 0"
    unfolding de_rec_len_def by (subst le_at_cong(1) [of 4 6 ?b ?cs]) (simp_all add: same)
  ultimately have fst_rec: "de_inode ?cs 0 = self" "de_rec_len ?cs 0 = 12"
    using first(1,2) by simp_all
  have n: "?cs ! 6 = 1" "?cs ! 8 = DOT" "?cs ! 18 = 2" "?cs ! 20 = DOT" "?cs ! 21 = DOT"
    using first(3,4) second(3-5) by (simp_all add: empty_chunk_records below)
  have nl: "de_name_len ?cs 0 = 1" "de_name_len ?cs 12 = 2"
    by (simp_all add: de_name_len_def n)
  have nm: "de_name ?cs 0 = [DOT]" "de_name ?cs 12 = [DOT, DOT]"
    using lc n by (auto simp: de_name_def nl numeral_2_eq_2 take_Suc_conv_app_nth hd_drop_conv_nth)
  have "de_inode ?cs 12 = parent" "de_rec_len ?cs 12 = ch - 12"
    using second(1,2) by (simp_all add: empty_chunk_records)
  then show ?thesis
    using empty_chunk_entries_ok [OF ch ino] nl ch(1) by (simp add: dent_at_def fst_rec nm)
qed

section \<open>Emptiness\<close>

definition dot_entry :: "u32 \<Rightarrow> dent \<Rightarrow> bool" where
  "dot_entry self e \<longleftrightarrow> d_name e = [DOT] \<and> d_ino e = self \<or> d_name e = [DOT, DOT]"

definition only_dots :: "u32 \<Rightarrow> dent list \<Rightarrow> bool" where
  "only_dots self es \<longleftrightarrow> (\<forall>e \<in> set es. is_live e \<longrightarrow> dot_entry self e)"

definition names_ok :: "dent list \<Rightarrow> bool" where
  "names_ok es \<longleftrightarrow> (\<forall>e \<in> set es. is_live e \<longrightarrow> d_name e \<noteq> [])"

lemma nth_name:
  assumes "chain ch mx bs o' (e # es) lim" "i < length (d_name e)" "lim \<le> length bs"
  shows "bs ! (o' + 8 + i) = d_name e ! i"
proof -
  note h = chain_head [OF assms(1)]
  have "d_name e ! i = take (length (d_name e)) (drop (o' + 8) bs) ! i"
    using h(3,4) by (simp add: de_name_def)
  also have "... = bs ! (o' + 8 + i)" using assms(2,3) h(6,8) by simp
  finally show ?thesis by simp
qed

lemma empty_loop_chain:
  assumes "chain ch mx bs o' es lim" "lim \<le> length bs" "names_ok es"
  shows "empty_loop self bs (int lim - int (EXT2_DIR_REC_LEN 1)) o' =
     (if only_dots self es then Empty_end else Not_empty)"
  using assms(1,3)
proof (induction es arbitrary: o')
  case Nil
  then show ?case by (subst empty_loop.simps) (simp add: only_dots_def REC_LEN_bounds)
next
  case (Cons e es)
  note h = chain_head [OF Cons.prems(1)]
  have in_range: "int o' \<le> int lim - int (EXT2_DIR_REC_LEN 1)" "o' + EXT2_DIR_REC_LEN 1 \<le> length bs"
    using h(5,8) assms(2) by (simp_all add: REC_LEN_bounds(4,5))
  have rest: "empty_loop self bs (int lim - int (EXT2_DIR_REC_LEN 1)) (o' + d_rec e) =
     (if only_dots self es then Empty_end else Not_empty)"
    using Cons.prems(2) by (intro Cons.IH [OF h(9)]) (simp add: names_ok_def)
  show ?case
  proof (cases "is_live e")
    case False
    then show ?thesis
      using in_range h(1,2,5) rest
      by (subst empty_loop.simps) (simp add: is_live_def only_dots_def)
  next
    case True
    then have ne: "0 < length (d_name e)" using Cons.prems(2) by (simp add: names_ok_def)
    have b0: "bs ! (o' + 8) = d_name e ! 0"
      using nth_name [OF Cons.prems(1) ne assms(2)] by simp
    have b1: "bs ! (o' + 9) = d_name e ! 1" if "1 < length (d_name e)"
      using nth_name [OF Cons.prems(1) that assms(2)] by (simp add: add.commute)
    have dot: "dot_entry self e \<longleftrightarrow> d_name e ! 0 = DOT \<and> length (d_name e) \<le> 2 \<and>
        (length (d_name e) < 2 \<longrightarrow> d_ino e = self) \<and> (\<not> length (d_name e) < 2 \<longrightarrow> d_name e ! 1 = DOT)"
      using ne by (cases "d_name e"; cases "tl (d_name e)") (auto simp: dot_entry_def)
    have "empty_loop self bs (int lim - int (EXT2_DIR_REC_LEN 1)) o' =
      (if dot_entry self e then empty_loop self bs (int lim - int (EXT2_DIR_REC_LEN 1)) (o' + d_rec e)
       else Not_empty)"
      using in_range h(1,2,4,5) True ne b0 b1
      by (subst empty_loop.simps) (auto simp: is_live_def dot)
    then show ?thesis using True rest by (simp add: only_dots_def)
  qed
qed

section \<open>Listing\<close>

definition collect :: "byte list \<Rightarrow> u32 \<Rightarrow> (byte list \<times> u32) list \<Rightarrow> bool \<times> (byte list \<times> u32) list" where
  "collect name ino acc = (True, acc @ [(name, ino)])"

lemma collect_emit: "collect name ino acc = (True, acc @ [(name, ino)])"
  by (simp add: collect_def)

lemma readdir_loop_chain:
  assumes "chain ch mx bs o' es lim" "lim \<le> length bs"
  shows "readdir_loop collect bs (int lim - int (EXT2_DIR_REC_LEN 1)) o' pos acc =
     (Rd_end, pos + int (recs es), acc @ live es)"
  using assms(1)
proof (induction es arbitrary: o' pos acc)
  case Nil
  then show ?case by (subst readdir_loop.simps) (simp add: REC_LEN_bounds)
next
  case (Cons e es)
  note h = chain_head [OF Cons.prems]
  have "int o' \<le> int lim - int (EXT2_DIR_REC_LEN 1)" "\<not> length bs < o' + 8"
    using h(5,8) assms(2) by (simp_all add: REC_LEN_bounds(4,5))
  then have "readdir_loop collect bs (int lim - int (EXT2_DIR_REC_LEN 1)) o' pos acc =
     readdir_loop collect bs (int lim - int (EXT2_DIR_REC_LEN 1)) (o' + d_rec e)
       (pos + int (d_rec e)) (acc @ (if is_live e then [(d_name e, d_ino e)] else []))"
    using h(1,2,3,5) by (subst readdir_loop.simps) (simp add: is_live_def collect_emit)
  then show ?case by (simp only: Cons.IH [OF h(9)]) simp
qed

end
