(* ===== verification/Dir_View.thy ===== *)
theory Dir_View
  imports Dir_Walk
begin

text \<open>
  A whole directory: \<open>dir_view s dir E\<close> says that every page of the directory holds the chain
  of entries \<open>E\<close> gives for it, and \<open>names_of\<close> is the set of names with their inode numbers.
  Reading pages changes nothing but the flags that a page has been checked.
\<close>

definition max_ino :: "ext2_fs \<Rightarrow> nat" where
  "max_ino s = unat (es_inodes_count (sb_es s))"

definition dir_page_ok :: "ext2_fs \<Rightarrow> inode \<Rightarrow> nat \<Rightarrow> dent list \<Rightarrow> bool" where
  "dir_page_ok s dir n es \<longleftrightarrow> (\<exists>pg. i_pages dir n = Some pg \<and> length (pg_data pg) = PAGE_SIZE \<and>
     \<not> pg_error pg \<and> names_ok es \<and>
     chain (ext2_chunk_size s) (max_ino s) (pg_data pg) 0 es (ext2_last_byte dir n))"

definition chunks_ok :: "ext2_fs \<Rightarrow> bool" where
  "chunks_ok s \<longleftrightarrow> 1024 \<le> ext2_chunk_size s \<and> ext2_chunk_size s \<le> PAGE_SIZE \<and>
     PAGE_SIZE mod ext2_chunk_size s = 0"

definition dir_view :: "ext2_fs \<Rightarrow> inode \<Rightarrow> (nat \<Rightarrow> dent list) \<Rightarrow> bool" where
  "dir_view s dir E \<longleftrightarrow> chunks_ok s \<and> 0 \<le> i_size dir \<and> i_size dir < 2 ^ 32 \<and>
     nat (i_size dir) mod ext2_chunk_size s = 0 \<and>
     (\<forall>n < dir_pages dir. dir_page_ok s dir n (E n))"

definition names_of :: "inode \<Rightarrow> (nat \<Rightarrow> dent list) \<Rightarrow> (byte list \<times> u32) set" where
  "names_of dir E = (\<Union>n < dir_pages dir. set (live (E n)))"

lemma chunks_okD:
  assumes "chunks_ok s"
  shows "1024 \<le> ext2_chunk_size s" "ext2_chunk_size s \<le> PAGE_SIZE" "0 < ext2_chunk_size s"
    "PAGE_SIZE mod ext2_chunk_size s = 0" "ext2_chunk_size s mod 4 = 0"
proof -
  show c: "1024 \<le> ext2_chunk_size s" "ext2_chunk_size s \<le> PAGE_SIZE" "PAGE_SIZE mod ext2_chunk_size s = 0"
    using assms by (simp_all add: chunks_ok_def)
  then show "0 < ext2_chunk_size s" by simp
  obtain k where k: "ext2_chunk_size s * k = 4096" using c(3) by (metis mod_0_imp_dvd dvdE)
  have "k \<le> 4"
  proof (rule ccontr)
    assume "\<not> k \<le> 4"
    then have "1024 * 5 \<le> ext2_chunk_size s * k" using c(1) by (intro mult_le_mono) simp_all
    with k show False by simp
  qed
  moreover have "k \<noteq> 0" using k by (intro notI) simp
  ultimately have "k = 1 \<or> k = 2 \<or> k = 3 \<or> k = 4" by linarith
  then show "ext2_chunk_size s mod 4 = 0" using k by (elim disjE) (presburger | simp)+
qed

text \<open>The number of bytes of a page that belong to the directory.\<close>

lemma last_byte_in:
  assumes "0 \<le> i_size dir" "i_size dir < 2 ^ 32" "n < dir_pages dir"
  shows "ext2_last_byte dir n = min (nat (i_size dir) - n * PAGE_SIZE) PAGE_SIZE"
    and "n * PAGE_SIZE < nat (i_size dir)"
proof -
  let ?sz = "nat (i_size dir)"
  have n: "n < (?sz + 4095) div 4096"
    using assms(1,3) by (simp add: dir_pages_def nat_div_distrib nat_add_distrib)
  show lt: "n * PAGE_SIZE < ?sz"
  proof (rule ccontr)
    assume "\<not> n * PAGE_SIZE < ?sz"
    then have "?sz + 4095 < (n + 1) * 4096" by simp
    then have "(?sz + 4095) div 4096 < n + 1" by (simp add: less_mult_imp_div_less)
    with n show False by simp
  qed
  have sz: "?sz < 2 ^ 32" using assms(1,2) by (simp add: nat_less_iff)
  have "(of_int (i_size dir) :: u32) = of_nat ?sz" using assms(1) by simp
  then have "(of_int (i_size dir) - of_nat (n * PAGE_SIZE) :: u32) = of_nat (?sz - n * PAGE_SIZE)"
    using lt by (simp only: of_nat_diff)
  then have "unat (of_int (i_size dir) - of_nat (n * PAGE_SIZE) :: u32) = ?sz - n * PAGE_SIZE"
    using sz by (simp only: unsigned_of_nat) (simp add: take_bit_nat_eq_self)
  then show "ext2_last_byte dir n = min (?sz - n * PAGE_SIZE) PAGE_SIZE"
    by (simp add: ext2_last_byte_def Let_def min_def)
qed

lemma check_limit:
  assumes "0 \<le> i_size dir" "i_size dir < 2 ^ 32" "n < dir_pages dir"
  shows "(if i_size dir div int PAGE_SIZE = int n then nat (i_size dir mod int PAGE_SIZE) else PAGE_SIZE)
     = ext2_last_byte dir n"
proof -
  let ?sz = "nat (i_size dir)"
  note lb = last_byte_in [OF assms]
  have i: "i_size dir = int ?sz" using assms(1) by simp
  have p: "int m div int 4096 = int (m div 4096)" "nat (int m mod int 4096) = m mod 4096" for m
    by (metis zdiv_int, metis nat_int zmod_int)
  have d: "i_size dir div int PAGE_SIZE = int (?sz div PAGE_SIZE)"
    "nat (i_size dir mod int PAGE_SIZE) = ?sz mod PAGE_SIZE"
    by (subst i, rule p(1), subst i, rule p(2))
  show ?thesis
  proof (cases "?sz div PAGE_SIZE = n")
    case True
    then have "?sz - n * PAGE_SIZE = ?sz mod PAGE_SIZE"
      using minus_div_mult_eq_mod [of ?sz PAGE_SIZE] by simp
    then show ?thesis using True unfolding d lb(1) by simp
  next
    case False
    have "n \<le> ?sz div PAGE_SIZE" using lb(2) by (simp add: less_eq_div_iff_mult_less_eq)
    then have "n + 1 \<le> ?sz div PAGE_SIZE" using False by simp
    then have "(n + 1) * PAGE_SIZE \<le> ?sz" by (simp add: less_eq_div_iff_mult_less_eq)
    then show ?thesis using False unfolding d lb(1) by simp
  qed
qed

lemma last_byte_bounds:
  assumes "dir_view s dir E" "n < dir_pages dir"
  shows "0 < ext2_last_byte dir n" "ext2_last_byte dir n \<le> PAGE_SIZE"
    "ext2_last_byte dir n mod ext2_chunk_size s = 0"
proof -
  have v: "0 \<le> i_size dir" "i_size dir < 2 ^ 32" "nat (i_size dir) mod ext2_chunk_size s = 0"
    "chunks_ok s"
    using assms(1) by (simp_all add: dir_view_def)
  note lb = last_byte_in [OF v(1,2) assms(2)]
  show "0 < ext2_last_byte dir n" "ext2_last_byte dir n \<le> PAGE_SIZE" using lb by simp_all
  have "ext2_chunk_size s dvd nat (i_size dir)" "ext2_chunk_size s dvd PAGE_SIZE"
    using v(3) chunks_okD(4) [OF v(4)] by (simp_all only: dvd_eq_mod_eq_0)
  then have "ext2_chunk_size s dvd min (nat (i_size dir) - n * PAGE_SIZE) PAGE_SIZE"
    by (simp only: min_def dvd_diff_nat dvd_mult split: if_split) simp
  then show "ext2_last_byte dir n mod ext2_chunk_size s = 0" by (simp only: lb dvd_imp_mod_0)
qed

section \<open>Reading a page\<close>

definition same_dir :: "inode \<Rightarrow> inode \<Rightarrow> bool" where
  "same_dir dir dir' \<longleftrightarrow> (\<exists>p. dir' = dir\<lparr>i_pages := p\<rparr> \<and>
     (\<forall>n. map_option pg_data (p n) = map_option pg_data (i_pages dir n) \<and>
          map_option pg_error (p n) = map_option pg_error (i_pages dir n)))"

lemma same_dir_refl [simp]: "same_dir dir dir"
  by (auto simp: same_dir_def intro: exI [of _ "i_pages dir"])

lemma same_dir_trans: "same_dir a b \<Longrightarrow> same_dir b c \<Longrightarrow> same_dir a c"
  by (auto simp: same_dir_def)

lemma same_dir_views:
  assumes "same_dir dir dir'"
  shows "i_size dir' = i_size dir" "dir_pages dir' = dir_pages dir" "i_ino dir' = i_ino dir"
    "ext2_last_byte dir' n = ext2_last_byte dir n" "page_bytes dir' n = page_bytes dir n"
    "dir_page_ok s dir' n es = dir_page_ok s dir n es" "dir_view s dir' E = dir_view s dir E"
    "names_of dir' E = names_of dir E"
proof -
  obtain p where p: "dir' = dir\<lparr>i_pages := p\<rparr>"
    "\<And>n. map_option pg_data (p n) = map_option pg_data (i_pages dir n)"
    "\<And>n. map_option pg_error (p n) = map_option pg_error (i_pages dir n)"
    using assms by (auto simp: same_dir_def)
  show s: "i_size dir' = i_size dir" "i_ino dir' = i_ino dir" by (simp_all add: p(1))
  show d: "dir_pages dir' = dir_pages dir" by (simp add: dir_pages_def s)
  show l: "ext2_last_byte dir' n = ext2_last_byte dir n" for n by (simp add: ext2_last_byte_def s)
  show "page_bytes dir' n = page_bytes dir n"
    using p(2) [of n] by (auto simp: page_bytes_def p(1) split: option.splits)
  have ok: "dir_page_ok s dir' n es = dir_page_ok s dir n es" for n es
  proof -
    have "(\<exists>pg. p n = Some pg \<and> Q (pg_data pg) (pg_error pg)) \<longleftrightarrow>
        (\<exists>pg. i_pages dir n = Some pg \<and> Q (pg_data pg) (pg_error pg))" for Q
      using p(2) [of n] p(3) [of n] by (cases "p n"; cases "i_pages dir n") auto
    from this [of "\<lambda>d e. length d = PAGE_SIZE \<and> \<not> e \<and> names_ok es \<and>
        chain (ext2_chunk_size s) (max_ino s) d 0 es (ext2_last_byte dir n)"]
    show ?thesis by (simp add: dir_page_ok_def l p(1) [THEN arg_cong, of i_pages])
  qed
  then show "dir_page_ok s dir' n es = dir_page_ok s dir n es" .
  show "dir_view s dir' E = dir_view s dir E" by (simp add: dir_view_def s d ok)
  show "names_of dir' E = names_of dir E" by (simp add: names_of_def d)
qed

lemma get_page_ok:
  assumes v: "dir_view s dir E" and n: "n < dir_pages dir"
  shows "\<exists>pg dir'. ext2_get_page s dir n quiet = Some (Inr pg, dir', s) \<and> same_dir dir dir' \<and>
     i_pages dir' n = Some pg \<and> pg_data pg = page_bytes dir n \<and> length (pg_data pg) = PAGE_SIZE \<and>
     \<not> pg_error pg \<and>
     chain (ext2_chunk_size s) (max_ino s) (pg_data pg) 0 (E n) (ext2_last_byte dir n)"
proof -
  have w: "0 \<le> i_size dir" "i_size dir < 2 ^ 32" using v by (simp_all add: dir_view_def)
  obtain pg where pg: "i_pages dir n = Some pg" "length (pg_data pg) = PAGE_SIZE" "\<not> pg_error pg"
    "chain (ext2_chunk_size s) (max_ino s) (pg_data pg) 0 (E n) (ext2_last_byte dir n)"
    using v n by (auto simp: dir_view_def dir_page_ok_def)
  have b: "page_bytes dir n = pg_data pg" by (simp add: page_bytes_def pg(1))
  show ?thesis
  proof (cases "pg_checked pg")
    case True
    then show ?thesis using pg b by (auto simp: ext2_get_page_def)
  next
    case False
    note lb = last_byte_bounds [OF v n]
    have "ext2_check_page s dir n pg quiet = Some (True, pg\<lparr>pg_checked := True\<rparr>, s)"
      using lb pg(2) check_loop_chain [of "ext2_last_byte dir n" "pg_data pg" 0] pg(4)
      unfolding ext2_check_page_def Let_def check_limit [OF w n] max_ino_def [symmetric]
      by auto
    moreover have "same_dir dir (set_page n (pg\<lparr>pg_checked := True\<rparr>) dir)"
      unfolding same_dir_def set_page_def
      by (intro exI [of _ "(i_pages dir)(n := Some (pg\<lparr>pg_checked := True\<rparr>))"]) (auto simp: pg(1))
    ultimately show ?thesis
      using False pg b by (auto simp: ext2_get_page_def set_page_def)
  qed
qed

end
