(* ===== verification/Dir_Correct.thy ===== *)
theory Dir_Correct
  imports Dir_View
begin

text \<open>
  The operations of \<^verbatim>\<open>dir.c\<close> on a whole directory: lookup, adding a name, deleting an
  entry, the emptiness test and the listing, against the set of names with their inode
  numbers.
\<close>

section \<open>Lookup\<close>

lemma find_pages_result:
  assumes "dir_view s dir E" "\<forall>i \<in> set is. i < dir_pages dir"
  shows "\<exists>r dir'. find_pages (\<lambda>i. i) name is dir s = Some (r, dir', s) \<and> same_dir dir dir' \<and>
     ((\<exists>i o'. r = Inr (i, o') \<and> i \<in> set is \<and> entry_pos (wanted name) 0 (E i) = Some o') \<or>
      r = Inl (- ENOENT) \<and> (\<forall>i \<in> set is. \<forall>e \<in> set (E i). \<not> wanted name e))"
  using assms
proof (induction "is" arbitrary: dir)
  case Nil
  then show ?case by auto
next
  case (Cons i "is")
  have i: "i < dir_pages dir" using Cons.prems(2) by simp
  obtain pg d1 where g: "ext2_get_page s dir i False = Some (Inr pg, d1, s)" "same_dir dir d1"
    "length (pg_data pg) = PAGE_SIZE"
    "chain (ext2_chunk_size s) (max_ino s) (pg_data pg) 0 (E i) (ext2_last_byte dir i)"
    using get_page_ok [OF Cons.prems(1) i, of False] by blast
  note sv = same_dir_views [OF g(2)]
  have le: "ext2_last_byte dir i \<le> length (pg_data pg)"
    using last_byte_bounds(2) [OF Cons.prems(1) i] g(3) by simp
  note fl = find_loop_chain [OF g(4) le, of name]
  show ?case
  proof (cases "entry_pos (wanted name) 0 (E i)")
    case (Some o')
    then show ?thesis using g(1,2) fl by (auto simp: sv)
  next
    case None
    obtain r d2 where r: "find_pages (\<lambda>i. i) name is d1 s = Some (r, d2, s)" "same_dir d1 d2"
      "(\<exists>j o'. r = Inr (j, o') \<and> j \<in> set is \<and> entry_pos (wanted name) 0 (E j) = Some o') \<or>
      r = Inl (- ENOENT) \<and> (\<forall>j \<in> set is. \<forall>e \<in> set (E j). \<not> wanted name e)"
      using Cons.IH [of d1] Cons.prems sv by auto
    have "find_pages (\<lambda>i. i) name (i # is) dir s = find_pages (\<lambda>i. i) name is d1 s"
      using g(1) fl None by (simp add: sv)
    with r None same_dir_trans [OF g(2) r(2)] show ?thesis
      by (auto simp: entry_pos_None)
  qed
qed

lemma wanted_live: "wanted name e \<Longrightarrow> (name, d_ino e) \<in> set (live [e])"
  by (simp add: wanted_def)

lemma names_wanted:
  "(\<exists>ino. (name, ino) \<in> names_of dir E) \<longleftrightarrow> (\<exists>n < dir_pages dir. \<exists>e \<in> set (E n). wanted name e)"
  by (auto simp: names_of_def live_def wanted_def image_iff)

lemma find_entry_result:
  assumes v: "dir_view s dir E"
  shows "\<exists>r dir'. ext2_find_entry (\<lambda>i. i) s dir name = Some (r, dir', s) \<and> same_dir dir dir' \<and>
     ((\<exists>n xs e ys. r = Inr (n, recs xs) \<and> n < dir_pages dir \<and> E n = xs @ e # ys \<and>
         wanted name e \<and> (\<forall>x \<in> set xs. \<not> wanted name x)) \<or>
      r = Inl (- ENOENT) \<and> (\<forall>ino. (name, ino) \<notin> names_of dir E))"
proof (cases "dir_pages dir = 0")
  case True
  then show ?thesis by (auto simp: ext2_find_entry_def names_of_def)
next
  case False
  obtain r dir' where r: "find_pages (\<lambda>i. i) name [0..<dir_pages dir] dir s = Some (r, dir', s)"
    "same_dir dir dir'"
    "(\<exists>i o'. r = Inr (i, o') \<and> i \<in> set [0..<dir_pages dir] \<and> entry_pos (wanted name) 0 (E i) = Some o') \<or>
      r = Inl (- ENOENT) \<and> (\<forall>i \<in> set [0..<dir_pages dir]. \<forall>e \<in> set (E i). \<not> wanted name e)"
    using find_pages_result [OF v, of "[0..<dir_pages dir]" name] by auto
  have "(\<exists>n xs e ys. r = Inr (n, recs xs) \<and> n < dir_pages dir \<and> E n = xs @ e # ys \<and>
         wanted name e \<and> (\<forall>x \<in> set xs. \<not> wanted name x)) \<or>
      r = Inl (- ENOENT) \<and> (\<forall>ino. (name, ino) \<notin> names_of dir E)"
    using r(3)
  proof
    assume "\<exists>i o'. r = Inr (i, o') \<and> i \<in> set [0..<dir_pages dir] \<and> entry_pos (wanted name) 0 (E i) = Some o'"
    then obtain i o' where io: "r = Inr (i, o')" "i < dir_pages dir" "entry_pos (wanted name) 0 (E i) = Some o'"
      by auto
    from io(3) [unfolded entry_pos_Some] obtain xs e ys where
      "E i = xs @ e # ys" "o' = 0 + recs xs" "wanted name e" "\<forall>x \<in> set xs. \<not> wanted name x" by blast
    with io show ?thesis by auto
  next
    assume "r = Inl (- ENOENT) \<and> (\<forall>i \<in> set [0..<dir_pages dir]. \<forall>e \<in> set (E i). \<not> wanted name e)"
    then show ?thesis using names_wanted [of name dir E] by auto
  qed
  with False r(1,2) show ?thesis by (auto simp: ext2_find_entry_def)
qed

lemma entry_bytes:
  assumes v: "dir_view s dir E" and n: "n < dir_pages dir" and E: "E n = xs @ e # ys"
  shows "de_inode (page_bytes dir n) (recs xs) = d_ino e"
    and "de_rec_len (page_bytes dir n) (recs xs) = d_rec e"
    and "chain (ext2_chunk_size s) (max_ino s) (page_bytes dir n) 0 (xs @ e # ys) (ext2_last_byte dir n)"
    and "length (page_bytes dir n) = PAGE_SIZE"
proof -
  obtain pg where pg: "i_pages dir n = Some pg" "length (pg_data pg) = PAGE_SIZE"
    "chain (ext2_chunk_size s) (max_ino s) (pg_data pg) 0 (E n) (ext2_last_byte dir n)"
    using v n by (auto simp: dir_view_def dir_page_ok_def)
  show c: "chain (ext2_chunk_size s) (max_ino s) (page_bytes dir n) 0 (xs @ e # ys) (ext2_last_byte dir n)"
    and "length (page_bytes dir n) = PAGE_SIZE"
    using pg E by (simp_all add: page_bytes_def)
  then have "chain (ext2_chunk_size s) (max_ino s) (page_bytes dir n) (recs xs) (e # ys) (ext2_last_byte dir n)"
    by (simp add: chain_append)
  from chain_head(1,2) [OF this]
  show "de_inode (page_bytes dir n) (recs xs) = d_ino e"
    "de_rec_len (page_bytes dir n) (recs xs) = d_rec e" .
qed

lemma inode_by_name_result:
  assumes v: "dir_view s dir E"
  shows "\<exists>r dir'. ext2_inode_by_name (\<lambda>i. i) s dir name = Some (r, dir', s) \<and> same_dir dir dir' \<and>
     (case r of Inr ino \<Rightarrow> (name, ino) \<in> names_of dir E \<and> ino \<noteq> 0
      | Inl e \<Rightarrow> e = - ENOENT \<and> (\<forall>ino. (name, ino) \<notin> names_of dir E))"
proof -
  obtain r dir' where r: "ext2_find_entry (\<lambda>i. i) s dir name = Some (r, dir', s)" "same_dir dir dir'"
    "(\<exists>n xs e ys. r = Inr (n, recs xs) \<and> n < dir_pages dir \<and> E n = xs @ e # ys \<and>
         wanted name e \<and> (\<forall>x \<in> set xs. \<not> wanted name x)) \<or>
      r = Inl (- ENOENT) \<and> (\<forall>ino. (name, ino) \<notin> names_of dir E)"
    using find_entry_result [OF v, of name] by (elim exE conjE) (rule that)
  show ?thesis
  proof (cases r)
    case (Inl e)
    with r(3) have e: "e = - ENOENT" "\<forall>ino. (name, ino) \<notin> names_of dir E" by simp_all
    have "ext2_inode_by_name (\<lambda>i. i) s dir name = Some (Inl e, dir', s)"
      using r(1) by (simp add: ext2_inode_by_name_def Inl)
    with r(2) e show ?thesis
      by (intro exI [of _ "Inl e"] exI [of _ dir']) simp
  next
    case (Inr p)
    with r(3) obtain n xs e ys where n: "r = Inr (n, recs xs)" "n < dir_pages dir" "E n = xs @ e # ys"
      "wanted name e" by auto
    have "de_inode (page_bytes dir' n) (recs xs) = d_ino e"
      using entry_bytes(1) [OF v n(2,3)] by (simp add: same_dir_views [OF r(2)])
    moreover have "(name, d_ino e) \<in> names_of dir E" "d_ino e \<noteq> 0"
      using n by (auto simp: names_of_def wanted_def is_live_def intro!: bexI [of _ n])
    moreover have "ext2_inode_by_name (\<lambda>i. i) s dir name =
        Some (Inr (de_inode (page_bytes dir' n) (recs xs)), dir', s)"
      using r(1) by (simp add: ext2_inode_by_name_def n(1))
    ultimately show ?thesis using r(2)
      by (intro exI [of _ "Inr (d_ino e)"] exI [of _ dir']) simp
  qed
qed

section \<open>Emptiness and listing\<close>

lemma empty_pages_result:
  assumes "dir_view s dir E" "\<forall>i \<in> set is. i < dir_pages dir"
  shows "\<exists>dir'. empty_pages is False dir s =
       Some (\<forall>i \<in> set is. only_dots (ucast (i_ino dir)) (E i), dir', s) \<and> same_dir dir dir'"
  using assms
proof (induction "is" arbitrary: dir)
  case Nil
  then show ?case by auto
next
  case (Cons i "is")
  have i: "i < dir_pages dir" using Cons.prems(2) by simp
  obtain pg d1 where g: "ext2_get_page s dir i False = Some (Inr pg, d1, s)" "same_dir dir d1"
    "length (pg_data pg) = PAGE_SIZE"
    "chain (ext2_chunk_size s) (max_ino s) (pg_data pg) 0 (E i) (ext2_last_byte dir i)"
    using get_page_ok [OF Cons.prems(1) i, of False] by blast
  note sv = same_dir_views [OF g(2)]
  have le: "ext2_last_byte dir i \<le> length (pg_data pg)"
    using last_byte_bounds(2) [OF Cons.prems(1) i] g(3) by simp
  have nm: "names_ok (E i)" using Cons.prems(1) i by (auto simp: dir_view_def dir_page_ok_def)
  note el = empty_loop_chain [OF g(4) le nm, of "ucast (i_ino dir)"]
  obtain d2 where r: "empty_pages is False d1 s =
       Some (\<forall>j \<in> set is. only_dots (ucast (i_ino d1)) (E j), d2, s)" "same_dir d1 d2"
    using Cons.IH [of d1] Cons.prems sv by auto
  show ?case
  proof (cases "only_dots (ucast (i_ino dir)) (E i)")
    case True
    then show ?thesis using g(1) el r same_dir_trans [OF g(2) r(2)] by (auto simp: sv)
  next
    case False
    then show ?thesis using g(1,2) el by (auto simp: sv)
  qed
qed

lemma readdir_pages_result:
  assumes "dir_view s dir E" "\<forall>i \<in> set is. i < dir_pages dir"
  shows "\<exists>dir'. readdir_pages collect is 0 False ver pos acc dir s =
       Some (0, (ver, pos + (\<Sum>i \<leftarrow> is. int (recs (E i))), acc @ concat (map (\<lambda>i. live (E i)) is)), dir', s) \<and>
     same_dir dir dir'"
  using assms
proof (induction "is" arbitrary: dir pos acc)
  case Nil
  then show ?case by auto
next
  case (Cons i "is")
  have i: "i < dir_pages dir" using Cons.prems(2) by simp
  obtain pg d1 where g: "ext2_get_page s dir i False = Some (Inr pg, d1, s)" "same_dir dir d1"
    "length (pg_data pg) = PAGE_SIZE"
    "chain (ext2_chunk_size s) (max_ino s) (pg_data pg) 0 (E i) (ext2_last_byte dir i)"
    using get_page_ok [OF Cons.prems(1) i, of False] by blast
  note sv = same_dir_views [OF g(2)]
  have le: "ext2_last_byte dir i \<le> length (pg_data pg)"
    using last_byte_bounds(2) [OF Cons.prems(1) i] g(3) by simp
  let ?pos = "pos + int (recs (E i))" and ?acc = "acc @ live (E i)"
  obtain d2 where r: "readdir_pages collect is 0 False ver ?pos ?acc d1 s =
       Some (0, (ver, ?pos + (\<Sum>i \<leftarrow> is. int (recs (E i))), ?acc @ concat (map (\<lambda>i. live (E i)) is)), d2, s)"
    "same_dir d1 d2"
    using Cons.IH [of d1 ?pos ?acc] Cons.prems sv by auto
  have "readdir_pages collect (i # is) 0 False ver pos acc dir s =
      readdir_pages collect is 0 False ver ?pos ?acc d1 s"
    by (simp only: readdir_pages.simps g(1) bind.bind_lunit prod.case sum.case Let_def
        readdir_loop_chain [OF g(4) le] sv readdir_scan.case simp_thms if_False)
  with r same_dir_trans [OF g(2) r(2)] show ?case by (simp add: add.assoc)
qed

end
