(* ===== verification/Dir_Update.thy ===== *)
theory Dir_Update
  imports Dir_Correct "HOL-Library.Multiset"
begin

text \<open>
  The operations that change a directory: adding a name, deleting an entry, making a
  directory with only the two dot entries. The contents are the multiset of names with
  their inode numbers; \<open>writes_ok\<close> states what the code relies on of the page cache.
\<close>

section \<open>Contents\<close>

definition entries :: "inode \<Rightarrow> (nat \<Rightarrow> dent list) \<Rightarrow> (byte list \<times> u32) multiset" where
  "entries dir E = (\<Sum>n < dir_pages dir. mset (live (E n)))"

lemma set_entries: "set_mset (entries dir E) = names_of dir E"
  by (simp add: entries_def names_of_def set_mset_sum)

lemma entries_upd:
  assumes "n < dir_pages dir"
  shows "entries dir (E(n := es)) + mset (live (E n)) = entries dir E + mset (live es)"
proof -
  let ?A = "{..<dir_pages dir}"
  have n: "finite ?A" "n \<in> ?A" using assms by simp_all
  have "(\<Sum>k \<in> ?A - {n}. mset (live ((E(n := es)) k))) = (\<Sum>k \<in> ?A - {n}. mset (live (E k)))"
    by (rule sum.cong) auto
  then show ?thesis
    by (simp add: entries_def sum.remove [OF n] del: sum.lessThan_Suc)
qed

definition same_geom :: "ext2_fs \<Rightarrow> ext2_fs \<Rightarrow> bool" where
  "same_geom s s' \<longleftrightarrow> sb_blocksize s' = sb_blocksize s \<and>
     es_inodes_count (sb_es s') = es_inodes_count (sb_es s)"

lemma same_geomD:
  assumes "same_geom s s'"
  shows "ext2_chunk_size s' = ext2_chunk_size s" "max_ino s' = max_ino s"
    "chunks_ok s' = chunks_ok s"
  using assms by (simp_all add: same_geom_def ext2_chunk_size_def max_ino_def chunks_ok_def)

lemma same_geom_refl [simp]: "same_geom s s"
  by (simp add: same_geom_def)

definition same_data :: "inode \<Rightarrow> inode \<Rightarrow> bool" where
  "same_data dir dir' \<longleftrightarrow> i_pages dir' = i_pages dir \<and> i_size dir' = i_size dir \<and> i_ino dir' = i_ino dir"

lemma same_dataD:
  assumes "same_data dir dir'"
  shows "dir_pages dir' = dir_pages dir" "ext2_last_byte dir' n = ext2_last_byte dir n"
    "page_bytes dir' n = page_bytes dir n" "entries dir' E = entries dir E"
  using assms by (simp_all add: same_data_def dir_pages_def ext2_last_byte_def page_bytes_def entries_def)

lemma dir_view_cong:
  assumes "same_data dir dir'" "same_geom s s'"
  shows "dir_view s' dir' E = dir_view s dir E"
  using assms(1)
  by (simp add: dir_view_def dir_page_ok_def same_geomD [OF assms(2)] same_dataD [OF assms(1)]
      same_data_def)

text \<open>
  \<^verbatim>\<open>__block_write_begin\<close> on an up-to-date page changes no byte of it, fails with a negative
  number, and cannot fail on a range inside the file, whose blocks are all there.
\<close>

definition writes_ok :: "pgcache \<Rightarrow> bool" where
  "writes_ok P \<longleftrightarrow> (\<forall>dir s pos len err dir' s'. write_begin P dir s pos len = (err, dir', s') \<longrightarrow>
     err \<le> 0 \<and> (pos + int len \<le> i_size dir \<longrightarrow> err = 0) \<and> same_data dir dir' \<and> same_geom s s') \<and>
   (\<forall>dir. sync_page P dir \<le> 0)"

lemma writes_okD:
  assumes "writes_ok P" "write_begin P dir s pos len = (err, dir', s')"
  shows "err \<le> 0" "pos + int len \<le> i_size dir \<Longrightarrow> err = 0" "same_data dir dir'" "same_geom s s'"
  using assms unfolding writes_ok_def by blast+

lemma commit_result:
  assumes "writes_ok P"
  shows "\<exists>r dir'. ext2_commit_chunk P s dir pos len = (r, dir') \<and> r \<le> 0 \<and>
     i_pages dir' = i_pages dir \<and> i_ino dir' = i_ino dir \<and> i_size dir' = max (i_size dir) (pos + int len) \<and>
     ((\<forall>d. sync_page P d = 0) \<longrightarrow> r = 0)"
  using assms by (auto simp: ext2_commit_chunk_def Let_def writes_ok_def max_def)

lemma below_size:
  assumes v: "dir_view s dir E" and n: "n < dir_pages dir" and k: "k \<le> ext2_last_byte dir n"
  shows "int (n * PAGE_SIZE + k) \<le> i_size dir"
proof -
  have "n * PAGE_SIZE + ext2_last_byte dir n \<le> nat (i_size dir)"
    using last_byte_in [of dir n] v n by (auto simp: dir_view_def min_def)
  with k have "n * PAGE_SIZE + k \<le> nat (i_size dir)" by linarith
  then show ?thesis using v by (simp add: dir_view_def le_nat_iff)
qed

text \<open>Writing the bytes of one page of the directory.\<close>

lemma with_page_views [simp]:
  "i_size (with_page_bytes n f dir) = i_size dir" "i_ino (with_page_bytes n f dir) = i_ino dir"
  "dir_pages (with_page_bytes n f dir) = dir_pages dir"
  "ext2_last_byte (with_page_bytes n f dir) m = ext2_last_byte dir m"
  by (simp_all add: with_page_bytes_def dir_pages_def ext2_last_byte_def)

lemma touch_data [simp]: "same_data dir (touch_dir s dir)"
  by (simp add: same_data_def touch_dir_def)

lemma view_page_upd:
  assumes v: "dir_view s dir E" and len: "length (f (page_bytes dir n)) = PAGE_SIZE"
    and nm: "names_ok es"
    and c: "chain (ext2_chunk_size s) (max_ino s) (f (page_bytes dir n)) 0 es (ext2_last_byte dir n)"
  shows "dir_view s (with_page_bytes n f dir) (E(n := es))"
proof -
  have "dir_page_ok s (with_page_bytes n f dir) m ((E(n := es)) m)" if m: "m < dir_pages dir" for m
  proof (cases "m = n")
    case False
    have "dir_page_ok s dir m (E m)" using v m by (simp add: dir_view_def)
    with False show ?thesis by (simp add: dir_page_ok_def with_page_bytes_def ext2_last_byte_def)
  next
    case True
    have "dir_page_ok s dir n (E n)" using v m True by (simp add: dir_view_def)
    then obtain pg where "i_pages dir n = Some pg" "\<not> pg_error pg" by (auto simp: dir_page_ok_def)
    with True len nm c show ?thesis
      by (simp add: dir_page_ok_def page_bytes_def with_page_bytes_def ext2_last_byte_def)
  qed
  with v show ?thesis by (simp add: dir_view_def)
qed

section \<open>Deleting an entry\<close>

lemma names_ok_merge_out:
  assumes n: "names_ok (xs @ e # ys)" and p: "pde = None \<or> xs \<noteq> []"
  shows "names_ok (merge_out pde xs e @ ys)"
proof -
  have "x \<in> set xs" if "xs \<noteq> []" "x \<in> set (butlast xs) \<or> x = last xs" for x
    using that by (auto dest: in_set_butlastD)
  with assms show ?thesis
    by (auto simp: names_ok_def merge_out_def is_live_def split: option.splits)
qed

lemma entries_merge_out:
  assumes n: "n < dir_pages dir" "dir_pages d2 = dir_pages dir" and E: "E n = xs @ e # ys"
    and lv: "is_live e" and p: "pde = None \<or> xs \<noteq> []"
  shows "entries dir E = add_mset (d_name e, d_ino e) (entries d2 (E(n := merge_out pde xs e @ ys)))"
proof -
  let ?es = "merge_out pde xs e @ ys"
  have "live ?es = live xs @ live ys" using live_merge_out [OF p] by simp
  then have "entries d2 (E(n := ?es)) + mset (live (E n)) = entries d2 E + mset (live xs @ live ys)"
    using entries_upd [of n d2 E ?es] n by simp
  then show ?thesis using lv n(2) by (simp add: E entries_def)
qed

lemma delete_entry_result:
  assumes v: "dir_view s dir E" and n: "n < dir_pages dir" and E: "E n = xs @ e # ys" and lv: "is_live e"
    and P: "writes_ok P"
  shows "\<exists>r dir' s' E'. ext2_delete_entry P s dir (n, recs xs) = Some (r, dir', s') \<and> r \<le> 0 \<and>
     same_geom s s' \<and> i_ino dir' = i_ino dir \<and> i_size dir' = i_size dir \<and> dir_view s' dir' E' \<and>
     entries dir E = add_mset (d_name e, d_ino e) (entries dir' E') \<and>
     ((\<forall>d. sync_page P d = 0) \<longrightarrow> r = 0)"
proof -
  let ?ch = "ext2_chunk_size s" and ?bs = "page_bytes dir n" and ?lim = "ext2_last_byte dir n"
  have ck: "chunks_ok s" using v by (simp add: dir_view_def)
  have ch: "0 < ?ch" "?ch < 65536" using chunks_okD [OF ck] by simp_all
  note b = entry_bytes [OF v n E]
  have lim: "?lim \<le> length ?bs" using last_byte_bounds(2) [OF v n] b(4) by simp
  obtain pde where pde: "prev_entry ?bs (recs xs) (recs xs div ?ch * ?ch) None = Some pde"
    using delete_target [OF b(3) ch(1)] by blast
  define fr where "fr = (case pde of None \<Rightarrow> recs xs div ?ch * ?ch | Some q \<Rightarrow> q)"
  define len where "len = recs xs + d_rec e - fr"
  define pos where "pos = int (n * PAGE_SIZE + fr)"
  note w = delete_write_chain [OF b(3) ch lim pde, folded fr_def, folded len_def]
  obtain err d1 s1 where pr: "write_begin P dir s pos len = (err, d1, s1)" by (metis prod_cases3)
  have "recs xs + d_rec e \<le> ext2_last_byte dir n" using chain_end [OF b(3)] by simp
  from below_size [OF v n this] have in_size: "pos + int len \<le> i_size dir"
    using w(3) unfolding pos_def len_def by simp
  note wd = writes_okD [OF P pr]
  define d2 where "d2 = with_page_bytes n (delete_write (recs xs) pde len) d1"
  obtain r d3 where cm: "ext2_commit_chunk P s1 d2 pos len = (r, d3)" "r \<le> 0" "i_pages d3 = i_pages d2"
    "i_ino d3 = i_ino d2" "i_size d3 = max (i_size d2) (pos + int len)" "(\<forall>d. sync_page P d = 0) \<longrightarrow> r = 0"
    using commit_result [OF P, of s1 d2 pos len] by blast
  have run: "ext2_delete_entry P s dir (n, recs xs) = Some (r, touch_dir s1 d3, s1)"
    using wd(2) [OF in_size]
    unfolding ext2_delete_entry_def prod.case Let_def pde option.case ext2_prepare_chunk_def b(2)
      fr_def [symmetric] len_def [symmetric] pos_def [symmetric] pr d2_def [symmetric] cm(1)
    by simp
  let ?es = "merge_out pde xs e @ ys"
  have sz: "i_size d2 = i_size dir" "i_ino d2 = i_ino dir"
    using wd(3) by (simp_all add: d2_def same_data_def)
  have "names_ok (xs @ e # ys)" using v n E by (auto simp: dir_view_def dir_page_ok_def)
  note nm = names_ok_merge_out [OF this w(2)]
  have v1: "dir_view s1 d1 E" using dir_view_cong [OF wd(3,4)] v by simp
  have "dir_view s1 d2 (E(n := ?es))"
    unfolding d2_def
    by (rule view_page_upd [OF v1 _ nm])
      (use w(1) b(4) in \<open>simp_all add: same_dataD [OF wd(3)] same_geomD [OF wd(4)] delete_write_def
        split: option.splits\<close>)
  moreover have "same_data d2 (touch_dir s1 d3)"
    using cm(3-5) in_size sz by (simp add: same_data_def touch_dir_def)
  ultimately have v3: "dir_view s1 (touch_dir s1 d3) (E(n := ?es))"
    and e3: "entries (touch_dir s1 d3) (E(n := ?es)) = entries d2 (E(n := ?es))"
    and sd: "i_ino (touch_dir s1 d3) = i_ino dir" "i_size (touch_dir s1 d3) = i_size dir"
    using dir_view_cong [of d2 "touch_dir s1 d3" s1 s1] sz
    by (simp_all add: same_dataD) (simp_all add: same_data_def)
  have p2: "dir_pages d2 = dir_pages dir" using sz(1) by (simp add: dir_pages_def)
  note entries_merge_out [where ?d2.0 = d2 and E = E, OF n p2 E lv w(2)]
  with run cm(2,6) wd(4) v3 e3 sd show ?thesis
    by (intro exI [of _ r] exI [of _ "touch_dir s1 d3"] exI [of _ s1] exI [of _ "E(n := ?es)"]) simp
qed

end
