(* ===== verification/Dir_Insert.thy ===== *)
theory Dir_Insert
  imports Dir_Update
begin

text \<open>
  Adding a name to a directory: the walk over the pages ends at an entry with room, or at
  the end of the directory, which then grows by one chunk.
\<close>

section \<open>Where the walk ends\<close>

definition name_ok :: "byte list \<Rightarrow> bool" where
  "name_ok name \<longleftrightarrow> name \<noteq> [] \<and> length name < 256"

text \<open>The page behind the last one, which \<^verbatim>\<open>ext2_add_link\<close> reads when the directory is full.\<close>

definition next_page_ok :: "inode \<Rightarrow> bool" where
  "next_page_ok dir \<longleftrightarrow> (\<exists>pg. i_pages dir (dir_pages dir) = Some pg \<and> length (pg_data pg) = PAGE_SIZE \<and>
     \<not> pg_error pg)"

lemma same_dir_next: "same_dir dir dir' \<Longrightarrow> next_page_ok dir' = next_page_ok dir"
proof -
  assume s: "same_dir dir dir'"
  then obtain p where p: "dir' = dir\<lparr>i_pages := p\<rparr>"
    "\<And>n. map_option pg_data (p n) = map_option pg_data (i_pages dir n)"
    "\<And>n. map_option pg_error (p n) = map_option pg_error (i_pages dir n)"
    by (auto simp: same_dir_def)
  show ?thesis
    using p(2,3) [of "dir_pages dir"]
    by (cases "p (dir_pages dir)"; cases "i_pages dir (dir_pages dir)")
      (auto simp: next_page_ok_def same_dir_views [OF s] p(1) dir_pages_def)
qed

text \<open>
  The entry for the end of the directory: an empty one that takes a whole chunk. The search
  has found room in page \<open>n\<close> when it stops at an entry with space or at the directory's end.
\<close>

definition grow_page :: "ext2_fs \<Rightarrow> nat \<Rightarrow> inode \<Rightarrow> inode" where
  "grow_page s n dir = with_page_bytes n (\<lambda>bs. set_inode_no 0 (ext2_last_byte dir n)
     (set_rec_len (ext2_chunk_size s) (ext2_last_byte dir n) bs)) dir"

definition room_found ::
  "pgcache \<Rightarrow> ext2_fs \<Rightarrow> (nat \<Rightarrow> dent list) \<Rightarrow> byte list \<Rightarrow> u32 \<Rightarrow> inode \<Rightarrow> nat
     \<Rightarrow> (int \<times> inode \<times> ext2_fs) option \<Rightarrow> bool" where
  "room_found P s E name ino dir n res \<longleftrightarrow>
     (\<exists>xs e ys. E n = xs @ e # ys \<and> has_space name e \<and>
        res = Some (add_got_it P s dir n name ino (recs xs) (EXT2_DIR_REC_LEN (length (d_name e))) (d_rec e))) \<or>
     (ext2_last_byte dir n + EXT2_DIR_REC_LEN (length name) \<le> PAGE_SIZE \<and>
        res = Some (add_got_it P s (grow_page s n dir) n name ino (ext2_last_byte dir n) 0 (ext2_chunk_size s)))"

lemma add_pages_page:
  assumes v: "dir_view s dir E" and n: "n < dir_pages dir" and absent: "\<forall>ino. (name, ino) \<notin> names_of dir E"
  shows "\<exists>dir'. same_dir dir dir' \<and>
     (room_found P s E name ino dir' n (add_pages P name ino (n # ns) dir s) \<or>
      (PAGE_SIZE < ext2_last_byte dir n + EXT2_DIR_REC_LEN (length name) \<and>
       add_pages P name ino (n # ns) dir s = add_pages P name ino ns dir' s))"
proof -
  obtain pg d1 where g: "ext2_get_page s dir n False = Some (Inr pg, d1, s)" "same_dir dir d1"
    "length (pg_data pg) = PAGE_SIZE"
    "chain (ext2_chunk_size s) (max_ino s) (pg_data pg) 0 (E n) (ext2_last_byte dir n)"
    using get_page_ok [OF v n, of False] by blast
  note sv = same_dir_views [OF g(2)]
  note lb = last_byte_bounds(2) [OF v n]
  note al = add_loop_chain [OF g(4,3) lb, of name]
  let ?P = "\<lambda>e. wanted name e \<or> has_space name e"
  show ?thesis
  proof (cases "entry_pos ?P 0 (E n)")
    case None
    with g(1) al show ?thesis
      by (intro exI [of _ d1] conjI g(2)) (auto simp: room_found_def grow_page_def sv Let_def)
  next
    case (Some k)
    then obtain xs e ys where x: "E n = xs @ e # ys" "k = recs xs" "?P e"
      unfolding entry_pos_Some by auto
    have nw: "\<not> wanted name e" if "e \<in> set (E n)" for e
      using absent n that names_wanted [of name dir E] by auto
    have c: "chain (ext2_chunk_size s) (max_ino s) (pg_data pg) (recs xs) (e # ys) (ext2_last_byte dir n)"
      using g(4) by (simp add: x(1) chain_append)
    have nm: "\<not> ext2_match name (pg_data pg) k"
      using match_entry [OF c, of name] nw x by simp
    note h = chain_head [OF c]
    have "add_pages P name ino (n # ns) dir s =
        Some (add_got_it P s d1 n name ino (recs xs) (EXT2_DIR_REC_LEN (length (d_name e))) (d_rec e))"
      using g(1) al Some nm x(2) h(2) c by (simp add: sv)
    moreover have "has_space name e" using x nw by auto
    ultimately show ?thesis using x(1) g(2) unfolding room_found_def by blast
  qed
qed

lemma add_pages_walk:
  assumes "dir_view s dir E" "\<forall>n \<in> set ns. n < dir_pages dir" "\<forall>ino. (name, ino) \<notin> names_of dir E"
  shows "\<exists>dir'. same_dir dir dir' \<and>
     ((\<exists>n < dir_pages dir. room_found P s E name ino dir' n (add_pages P name ino (ns @ rest) dir s)) \<or>
      ((\<forall>n \<in> set ns. PAGE_SIZE < ext2_last_byte dir n + EXT2_DIR_REC_LEN (length name)) \<and>
       add_pages P name ino (ns @ rest) dir s = add_pages P name ino rest dir' s))"
  using assms
proof (induction ns arbitrary: dir)
  case Nil
  then show ?case by (intro exI [of _ dir]) simp
next
  case (Cons n ns)
  have n: "n < dir_pages dir" using Cons.prems(2) by simp
  let ?ns = "ns @ rest"
  obtain d1 where d1: "same_dir dir d1"
    "room_found P s E name ino d1 n (add_pages P name ino (n # ?ns) dir s) \<or>
      (PAGE_SIZE < ext2_last_byte dir n + EXT2_DIR_REC_LEN (length name) \<and>
       add_pages P name ino (n # ?ns) dir s = add_pages P name ino ?ns d1 s)"
    using add_pages_page [OF Cons.prems(1) n Cons.prems(3), of P ino ?ns] by (elim exE conjE) (rule that)
  note sv = same_dir_views [OF d1(1)]
  have prems: "dir_view s d1 E" "\<forall>n \<in> set ns. n < dir_pages d1" "\<forall>ino. (name, ino) \<notin> names_of d1 E"
    using Cons.prems by (simp_all add: sv)
  show ?case
    using d1(2)
  proof
    assume "room_found P s E name ino d1 n (add_pages P name ino (n # ?ns) dir s)"
    then show ?thesis using d1(1) n unfolding append_Cons by blast
  next
    assume a: "PAGE_SIZE < ext2_last_byte dir n + EXT2_DIR_REC_LEN (length name) \<and>
       add_pages P name ino (n # ?ns) dir s = add_pages P name ino ?ns d1 s"
    obtain d2 where d2: "same_dir d1 d2"
      "(\<exists>n < dir_pages dir. room_found P s E name ino d2 n (add_pages P name ino ?ns d1 s)) \<or>
      ((\<forall>n \<in> set ns. PAGE_SIZE < ext2_last_byte dir n + EXT2_DIR_REC_LEN (length name)) \<and>
       add_pages P name ino ?ns d1 s = add_pages P name ino rest d2 s)"
      using Cons.IH [OF prems, unfolded sv] by (elim exE conjE) (rule that)
    from a d2(2) same_dir_trans [OF d1(1) d2(1)] show ?thesis
      unfolding append_Cons list.set ball_simps by (intro exI [of _ d2]) simp
  qed
qed

section \<open>Writing the entry\<close>

definition added ::
  "pgcache \<Rightarrow> ext2_fs \<Rightarrow> inode \<Rightarrow> (byte list \<times> u32) multiset \<Rightarrow> byte list \<Rightarrow> u32
     \<Rightarrow> int \<times> inode \<times> ext2_fs \<Rightarrow> bool" where
  "added P s dir M name ino res \<longleftrightarrow> (case res of (r, dir', s') \<Rightarrow> r \<le> 0 \<and> same_geom s s' \<and>
     i_ino dir' = i_ino dir \<and>
     (\<exists>E'. dir_view s' dir' E' \<and>
       (entries dir' E' = add_mset (name, ino) M \<or> r \<noteq> 0 \<and> entries dir' E' = M)) \<and>
     ((\<forall>d. sync_page P d = 0) \<and> (\<forall>d s pos len. fst (write_begin P d s pos len) = 0) \<longrightarrow> r = 0))"

lemma got_it_run:
  assumes P: "writes_ok P"
    and fail: "\<And>d1 s1. same_data dir d1 \<Longrightarrow> same_geom s s1 \<Longrightarrow>
       \<exists>E'. dir_view s1 d1 E' \<and> entries d1 E' = M"
    and ok: "\<And>d1 s1 d3. same_data dir d1 \<Longrightarrow> same_geom s s1 \<Longrightarrow>
       i_pages d3 = i_pages (with_page_bytes n (add_write name ino o' nl rl) d1) \<Longrightarrow>
       i_ino d3 = i_ino d1 \<Longrightarrow> i_size d3 = max (i_size d1) (int (n * PAGE_SIZE + o') + int rl) \<Longrightarrow>
       \<exists>E'. dir_view s1 d3 E' \<and> entries d3 E' = add_mset (name, ino) M"
  shows "added P s dir M name ino (add_got_it P s dir n name ino o' nl rl)"
proof -
  define pos where "pos = int (n * PAGE_SIZE + o')"
  obtain err d1 s1 where pr: "write_begin P dir s pos rl = (err, d1, s1)" by (metis prod_cases3)
  note wd = writes_okD [OF P pr]
  have e0: "err = 0" if "\<forall>d s pos len. fst (write_begin P d s pos len) = 0"
    using that pr by (metis fst_conv)
  show ?thesis
  proof (cases "err = 0")
    case False
    then have "add_got_it P s dir n name ino o' nl rl = (err, d1, s1)"
      by (simp only: add_got_it_def Let_def ext2_prepare_chunk_def pos_def [symmetric] pr prod.case if_True simp_thms)
    with wd fail [OF wd(3,4)] False e0 show ?thesis by (auto simp: added_def same_data_def)
  next
    case True
    define d2 where "d2 = with_page_bytes n (add_write name ino o' nl rl) d1"
    obtain r d3 where cm: "ext2_commit_chunk P s1 d2 pos rl = (r, d3)" "r \<le> 0" "i_pages d3 = i_pages d2"
      "i_ino d3 = i_ino d2" "i_size d3 = max (i_size d2) (pos + int rl)" "(\<forall>d. sync_page P d = 0) \<longrightarrow> r = 0"
      using commit_result [OF P, of s1 d2 pos rl] by blast
    have run: "add_got_it P s dir n name ino o' nl rl = (r, touch_dir s1 d3, s1)"
      unfolding add_got_it_def Let_def ext2_prepare_chunk_def pos_def [symmetric] pr prod.case
        d2_def [symmetric] cm(1)
      using True by simp
    have "\<exists>E'. dir_view s1 d3 E' \<and> entries d3 E' = add_mset (name, ino) M"
      using cm(3-5) by (intro ok [OF wd(3,4)]) (simp_all add: d2_def pos_def)
    then have "\<exists>E'. dir_view s1 (touch_dir s1 d3) E' \<and> entries (touch_dir s1 d3) E' = add_mset (name, ino) M"
      by (simp add: dir_view_cong [OF touch_data same_geom_refl] same_dataD(4) [OF touch_data])
    moreover have "i_ino (touch_dir s1 d3) = i_ino dir"
      using cm(4) wd(3) by (simp add: touch_dir_def d2_def same_data_def)
    ultimately show ?thesis using cm(2,6) wd(4) unfolding added_def run prod.case by blast
  qed
qed

section \<open>Room inside an entry\<close>

lemma has_space_cases:
  "has_space name e \<Longrightarrow>
     (\<not> is_live e \<and> EXT2_DIR_REC_LEN (length name) \<le> d_rec e) \<or>
     (is_live e \<and> EXT2_DIR_REC_LEN (length (d_name e)) + EXT2_DIR_REC_LEN (length name) \<le> d_rec e)"
  by (auto simp: has_space_def)

lemma add_write_here:
  assumes c: "chain ch mx bs 0 (xs @ e # ys) lim" and lim: "lim \<le> length bs" "lim < 65536"
    and name: "name_ok name" and ino: "unat ino \<le> mx" and sp: "has_space name e"
    and nm: "names_ok (xs @ e # ys)"
  shows "chain ch mx (add_write name ino (recs xs) (EXT2_DIR_REC_LEN (length (d_name e))) (d_rec e) bs) 0
           (xs @ add_split name ino e @ ys) lim"
proof (cases "is_live e")
  case True
  moreover have "d_name e \<noteq> []" using True nm by (simp add: names_ok_def)
  ultimately show ?thesis
    using has_space_cases [OF sp] name by (intro add_write_live [OF c lim _ ino]) (simp_all add: name_ok_def)
next
  case False
  then show ?thesis
    using has_space_cases [OF sp] name by (intro add_write_dead [OF c lim(1) _ ino]) (simp_all add: name_ok_def)
qed

lemma got_it_here:
  assumes v: "dir_view s dir E" and n: "n < dir_pages dir" and E: "E n = xs @ e # ys"
    and sp: "has_space name e" and name: "name_ok name" and ino: "ino \<noteq> 0" "unat ino \<le> max_ino s"
    and P: "writes_ok P"
  shows "added P s dir (entries dir E) name ino
     (add_got_it P s dir n name ino (recs xs) (EXT2_DIR_REC_LEN (length (d_name e))) (d_rec e))"
proof (rule got_it_run [OF P])
  fix d1 s1 assume "same_data dir d1" "same_geom s s1"
  then show "\<exists>E'. dir_view s1 d1 E' \<and> entries d1 E' = entries dir E"
    using v by (intro exI [of _ E]) (simp add: dir_view_cong same_dataD)
next
  let ?nl = "EXT2_DIR_REC_LEN (length (d_name e))"
  fix d1 s1 and d3 :: inode
  assume d1: "same_data dir d1" "same_geom s s1"
    and d3: "i_pages d3 = i_pages (with_page_bytes n (add_write name ino (recs xs) ?nl (d_rec e)) d1)"
      "i_ino d3 = i_ino d1" "i_size d3 = max (i_size d1) (int (n * PAGE_SIZE + recs xs) + int (d_rec e))"
  let ?d2 = "with_page_bytes n (add_write name ino (recs xs) ?nl (d_rec e)) d1"
  let ?es = "xs @ add_split name ino e @ ys"
  note b = entry_bytes [OF v n E]
  note lb = last_byte_bounds [OF v n]
  have lim: "ext2_last_byte dir n \<le> length (page_bytes dir n)" "ext2_last_byte dir n < 65536"
    using lb(2) b(4) by simp_all
  have nm: "names_ok (xs @ e # ys)" using v n E by (auto simp: dir_view_def dir_page_ok_def)
  note c = add_write_here [OF b(3) lim name ino(2) sp nm]
  have c2: "chain (ext2_chunk_size s) (max_ino s) (page_bytes dir n) (recs xs) (e # ys) (ext2_last_byte dir n)"
    using b(3) by (simp add: chain_append)
  have "recs xs + d_rec e \<le> PAGE_SIZE" using chain_head(8) [OF c2] lb(2) by simp
  then have len: "length (add_write name ino (recs xs) ?nl (d_rec e) (page_bytes dir n)) = PAGE_SIZE"
    using has_space_cases [OF sp] REC_LEN_bounds(1) [of "length name"] b(4)
    by (cases "is_live e") (simp_all add: add_write_def fill_entry_frame(1) b(1) is_live_def)
  have nm': "names_ok ?es"
    using nm name by (auto simp: names_ok_def add_split_def Let_def name_ok_def is_live_def)
  have v1: "dir_view s1 d1 E" using v by (simp add: dir_view_cong [OF d1])
  have v2: "dir_view s1 ?d2 (E(n := ?es))"
    using len c by (intro view_page_upd [OF v1 _ nm']) (simp_all add: same_dataD [OF d1(1)] same_geomD [OF d1(2)])
  have "int (n * PAGE_SIZE + recs xs) + int (d_rec e) \<le> i_size d1"
    using below_size [OF v n chain_head(8) [OF c2]] d1(1) by (simp add: same_data_def)
  then have sd: "same_data ?d2 d3" using d3 by (simp add: same_data_def)
  have "mset (live ?es) = add_mset (name, ino) (mset (live (E n)))"
    using ino(1) by (cases "is_live e") (simp_all add: E add_split_def Let_def is_live_def)
  then have "entries dir (E(n := ?es)) = add_mset (name, ino) (entries dir E)"
    using entries_upd [OF n, of E ?es] by simp
  moreover have "entries d3 (E(n := ?es)) = entries dir (E(n := ?es))"
    using d1(1) by (simp add: same_dataD [OF sd]) (simp add: entries_def same_dataD)
  ultimately show "\<exists>E'. dir_view s1 d3 E' \<and> entries d3 E' = add_mset (name, ino) (entries dir E)"
    using v2 by (intro exI [of _ "E(n := ?es)"]) (simp add: dir_view_cong [OF sd same_geom_refl])
qed

section \<open>Room at the end of the directory\<close>

lemma last_byte_at:
  assumes "0 \<le> i_size dir" "i_size dir < 2 ^ 32" "nat (i_size dir) = n * PAGE_SIZE + lim" "lim \<le> PAGE_SIZE"
  shows "ext2_last_byte dir n = lim"
proof -
  have i: "i_size dir = int (n * PAGE_SIZE + lim)" using assms(1,3) by linarith
  have "(of_int (i_size dir) - of_nat (n * PAGE_SIZE) :: u32) = of_nat lim" unfolding i by simp
  then show ?thesis
    using assms(4) by (simp add: ext2_last_byte_def Let_def unsigned_of_nat take_bit_nat_eq_self)
qed

lemma pages_at:
  assumes "0 \<le> i_size dir" "nat (i_size dir) = n * PAGE_SIZE + lim" "lim \<le> PAGE_SIZE"
  shows "dir_pages dir = n + (if lim = 0 then 0 else 1)"
proof -
  have "dir_pages dir = (nat (i_size dir) + 4095) div 4096"
    using assms(1) by (simp add: dir_pages_def nat_div_distrib nat_add_distrib)
  also have "... = n + (lim + 4095) div 4096"
    unfolding assms(2) by (simp add: add.assoc)
  also have "(lim + 4095) div 4096 = (if lim = 0 then 0 else 1)"
    using assms(3) by (simp add: div_nat_eqI)
  finally show ?thesis .
qed

text \<open>The directory's end: page \<open>n\<close> holds its last \<open>lim\<close> bytes, fewer than a page.\<close>

definition ends_in :: "inode \<Rightarrow> nat \<Rightarrow> nat \<Rightarrow> bool" where
  "ends_in dir n lim \<longleftrightarrow> nat (i_size dir) = n * PAGE_SIZE + lim \<and> lim < PAGE_SIZE \<and>
     (\<exists>pg. i_pages dir n = Some pg \<and> length (pg_data pg) = PAGE_SIZE \<and> \<not> pg_error pg)"

definition end_entries :: "(nat \<Rightarrow> dent list) \<Rightarrow> nat \<Rightarrow> nat \<Rightarrow> dent list" where
  "end_entries E n lim = (if lim = 0 then [] else E n)"

lemma end_chain:
  assumes v: "dir_view s dir E" and e: "ends_in dir n lim"
  shows "ext2_last_byte dir n = lim" "dir_pages dir = n + (if lim = 0 then 0 else 1)"
    "chain (ext2_chunk_size s) (max_ino s) (page_bytes dir n) 0 (end_entries E n lim) lim"
    "names_ok (end_entries E n lim)" "length (page_bytes dir n) = PAGE_SIZE"
    "lim mod ext2_chunk_size s = 0" "lim + ext2_chunk_size s \<le> PAGE_SIZE"
proof -
  have sz: "0 \<le> i_size dir" "i_size dir < 2 ^ 32" "nat (i_size dir) = n * PAGE_SIZE + lim" "lim < PAGE_SIZE"
    using v e by (simp_all add: dir_view_def ends_in_def)
  show l: "ext2_last_byte dir n = lim" using sz by (simp add: last_byte_at)
  show p: "dir_pages dir = n + (if lim = 0 then 0 else 1)" using sz by (simp add: pages_at)
  show "length (page_bytes dir n) = PAGE_SIZE" using e by (auto simp: ends_in_def page_bytes_def)
  have ok: "dir_page_ok s dir n (E n)" if "lim \<noteq> 0" using v p that by (simp add: dir_view_def)
  show "chain (ext2_chunk_size s) (max_ino s) (page_bytes dir n) 0 (end_entries E n lim) lim"
    using ok l by (auto simp: end_entries_def dir_page_ok_def page_bytes_def)
  show "names_ok (end_entries E n lim)"
    using ok by (auto simp: end_entries_def dir_page_ok_def names_ok_def)
  have ck: "chunks_ok s" using v by (simp add: dir_view_def)
  have d: "ext2_chunk_size s dvd n * PAGE_SIZE + lim" "ext2_chunk_size s dvd PAGE_SIZE"
    using v chunks_okD(4) [OF ck] sz(3) by (simp_all only: dir_view_def dvd_eq_mod_eq_0)
  then have dl: "ext2_chunk_size s dvd lim" by (meson dvd_add_right_iff dvd_mult)
  then show "lim mod ext2_chunk_size s = 0" by simp
  have "ext2_chunk_size s dvd PAGE_SIZE - lim" using d(2) dl by (rule dvd_diff_nat)
  then have "ext2_chunk_size s \<le> PAGE_SIZE - lim" using sz(4) by (intro dvd_imp_le) simp_all
  then show "lim + ext2_chunk_size s \<le> PAGE_SIZE" using sz(4) by simp
qed

lemma grow_view:
  assumes v: "dir_view s dir E" and e: "ends_in dir n lim"
  shows "dir_view s (grow_page s n dir) E" "entries (grow_page s n dir) E = entries dir E"
proof -
  note ec = end_chain [OF v e]
  show "entries (grow_page s n dir) E = entries dir E" by (simp add: entries_def grow_page_def)
  show "dir_view s (grow_page s n dir) E"
  proof (cases "lim = 0")
    case True
    then have "m \<noteq> n" if "m < dir_pages dir" for m using ec(2) that by simp
    then show ?thesis
      using v by (simp add: dir_view_def dir_page_ok_def grow_page_def)
        (simp add: with_page_bytes_def)
  next
    case False
    let ?f = "\<lambda>bs. set_inode_no 0 lim (set_rec_len (ext2_chunk_size s) lim bs)"
    have es: "end_entries E n lim = E n" using False by (simp add: end_entries_def)
    have "chain (ext2_chunk_size s) (max_ino s) (?f (page_bytes dir n)) 0 (E n) lim"
      using ec(3) unfolding es
      by (rule chain_prefix_same) (simp_all add: nth_set_inode nth_set_rec_len)
    then have "dir_view s (with_page_bytes n ?f dir) (E(n := E n))"
      using ec(1,4,5) es by (intro view_page_upd [OF v]) simp_all
    then show ?thesis by (simp add: grow_page_def ec(1))
  qed
qed

lemma grown_pages_ok:
  assumes v: "dir_view s dir E" and e: "ends_in dir n lim" and n: "n \<le> dir_pages dir"
    and sz: "i_size d3 = i_size dir + int (ext2_chunk_size s)" "i_size d3 < 2 ^ 32"
      "nat (i_size dir) = n * PAGE_SIZE + lim" and fit: "lim + ext2_chunk_size s \<le> PAGE_SIZE"
    and pages: "i_pages d3 = (i_pages dir)(n := map_option (\<lambda>pg. pg\<lparr>pg_data := b\<rparr>) (i_pages dir n))"
    and b: "length b = PAGE_SIZE" "chain (ext2_chunk_size s) (max_ino s) b 0 es (lim + ext2_chunk_size s)"
    and nm: "names_ok es"
  shows "dir_pages d3 = n + 1" and "dir_view s d3 (E(n := es))"
proof -
  let ?ch = "ext2_chunk_size s"
  have ck: "chunks_ok s" using v by (simp add: dir_view_def)
  have sz0: "0 \<le> i_size dir" "i_size dir < 2 ^ 32" using v by (simp_all add: dir_view_def)
  have sz3: "nat (i_size d3) = n * PAGE_SIZE + (lim + ?ch)" "0 \<le> i_size d3"
    using sz sz0 by (simp_all add: nat_add_distrib)
  show p3: "dir_pages d3 = n + 1" using pages_at [OF sz3(2,1) fit] chunks_okD(1,3) [OF ck] by simp
  have l3: "ext2_last_byte d3 n = lim + ?ch" using last_byte_at [OF sz3(2) sz(2) sz3(1) fit] .
  have "dir_page_ok s d3 m ((E(n := es)) m)" if m: "m < n + 1" for m
  proof (cases "m = n")
    case True
    with e pages b nm l3 show ?thesis by (auto simp: dir_page_ok_def ends_in_def)
  next
    case False
    then have mn: "m < n" using m by simp
    then have md: "m < dir_pages dir" using n by simp
    have "(m + 1) * PAGE_SIZE \<le> n * PAGE_SIZE" using mn by (intro mult_right_mono) simp_all
    then have "min (n * PAGE_SIZE + x - m * PAGE_SIZE) PAGE_SIZE = PAGE_SIZE" for x
      by (simp add: min_def) linarith
    then have "ext2_last_byte d3 m = ext2_last_byte dir m"
      using last_byte_in(1) [OF sz0 md] last_byte_in(1) [OF sz3(2) sz(2), of m] sz(3) sz3(1) p3 mn
      by simp
    moreover have "dir_page_ok s dir m (E m)" using v md by (simp add: dir_view_def)
    ultimately show ?thesis using False by (simp add: dir_page_ok_def pages)
  qed
  moreover have "nat (i_size d3) mod ?ch = 0"
    using v sz(1) by (simp add: dir_view_def nat_add_distrib)
  ultimately show "dir_view s d3 (E(n := es))"
    using ck sz(2) sz3(2) by (simp add: dir_view_def p3)
qed

lemma got_it_grow:
  assumes v: "dir_view s dir E" and e: "ends_in dir n lim" and name: "name_ok name"
    and ino: "ino \<noteq> 0" "unat ino \<le> max_ino s" and room: "i_size dir + int (ext2_chunk_size s) < 2 ^ 32"
    and P: "writes_ok P"
  shows "added P s dir (entries dir E) name ino
     (add_got_it P s (grow_page s n dir) n name ino lim 0 (ext2_chunk_size s))"
proof -
  let ?ch = "ext2_chunk_size s" and ?g = "grow_page s n dir"
  let ?new = "\<lparr> d_ino = ino, d_rec = ?ch, d_name = name \<rparr>"
  let ?es = "end_entries E n lim @ [?new]"
  note ec = end_chain [OF v e] and gv = grow_view [OF v e]
  have ck: "chunks_ok s" using v by (simp add: dir_view_def)
  note ch = chunks_okD [OF ck]
  have "added P s ?g (entries dir E) name ino (add_got_it P s ?g n name ino lim 0 ?ch)"
  proof (rule got_it_run [OF P])
    fix d1 s1 assume "same_data ?g d1" "same_geom s s1"
    then show "\<exists>E'. dir_view s1 d1 E' \<and> entries d1 E' = entries dir E"
      using gv by (intro exI [of _ E]) (simp add: dir_view_cong same_dataD)
  next
    fix d1 s1 and d3 :: inode
    assume d1: "same_data ?g d1" "same_geom s s1"
      and d3: "i_pages d3 = i_pages (with_page_bytes n (add_write name ino lim 0 ?ch) d1)"
        "i_ino d3 = i_ino d1" "i_size d3 = max (i_size d1) (int (n * PAGE_SIZE + lim) + int ?ch)"
    let ?b = "add_write name ino lim 0 ?ch (set_inode_no 0 lim (set_rec_len ?ch lim (page_bytes dir n)))"
    have c: "chain ?ch (max_ino s) ?b 0 ?es (lim + ?ch)"
      using ch ec name by (intro add_size_chain [OF ec(3)])
        (simp_all add: ino name_ok_def order_trans [OF REC_LEN_bounds(2)])
    have fit: "lim + 8 + length name \<le> PAGE_SIZE" using ec(7) ch(1) name by (simp add: name_ok_def)
    then have len: "length ?b = PAGE_SIZE" using ec(5) by (simp add: add_write_def fill_entry_frame(1))
    have sz: "i_size d3 = i_size dir + int ?ch" "0 \<le> i_size dir" "i_size dir < 2 ^ 32"
      "nat (i_size dir) = n * PAGE_SIZE + lim"
      using d3(3) d1(1) e v by (auto simp: same_data_def grow_page_def ends_in_def dir_view_def)
    have pages: "i_pages d3 = (i_pages dir)(n := map_option (\<lambda>pg. pg\<lparr>pg_data := ?b\<rparr>) (i_pages dir n))"
      using d3(1) d1(1) ec(1)
      by (cases "i_pages dir n") (auto simp: same_data_def grow_page_def with_page_bytes_def page_bytes_def)
    have nm: "names_ok ?es" using ec(4) name by (auto simp: names_ok_def name_ok_def)
    have e': "i_size d3 < 2 ^ 32" "n \<le> dir_pages dir" using sz(1) room ec(2) by simp_all
    note g3 = grown_pages_ok [OF v e e'(2) sz(1) e'(1) sz(4) ec(7) pages len c nm]
    then have p3: "dir_pages d3 = n + 1" and v3: "dir_view s1 d3 (E(n := ?es))"
      using dir_view_cong [of d3 d3 s s1] d1(2) by (simp_all add: same_data_def)
    have "(\<Sum>m < n. mset (live ((E(n := ?es)) m))) = (\<Sum>m < n. mset (live (E m)))"
      by (rule sum.cong) auto
    then have "entries d3 (E(n := ?es)) = add_mset (name, ino) (entries dir E)"
      using ec(2) ino(1) by (simp add: entries_def p3 end_entries_def is_live_def)
    with v3 show "\<exists>E'. dir_view s1 d3 E' \<and> entries d3 E' = add_mset (name, ino) (entries dir E)" by blast
  qed
  then show ?thesis by (simp add: added_def grow_page_def)
qed

lemma get_end_page:
  assumes "ends_in dir n 0" "0 \<le> i_size dir"
  shows "\<exists>pg dir'. ext2_get_page s dir n False = Some (Inr pg, dir', s) \<and> same_dir dir dir'"
proof -
  obtain pg where pg: "i_pages dir n = Some pg" "\<not> pg_error pg"
    using assms(1) by (auto simp: ends_in_def)
  have "i_size dir = int (n * PAGE_SIZE)" using assms unfolding ends_in_def by linarith
  then have d: "i_size dir div int PAGE_SIZE = int n" "i_size dir mod int PAGE_SIZE = 0" by simp_all
  show ?thesis
  proof (cases "pg_checked pg")
    case True
    then show ?thesis using pg by (auto simp: ext2_get_page_def)
  next
    case False
    have "ext2_check_page s dir n pg False = Some (True, pg\<lparr>pg_checked := True\<rparr>, s)"
      unfolding ext2_check_page_def Let_def d by simp
    moreover have "same_dir dir (set_page n (pg\<lparr>pg_checked := True\<rparr>) dir)"
      unfolding same_dir_def set_page_def
      by (intro exI [of _ "(i_pages dir)(n := Some (pg\<lparr>pg_checked := True\<rparr>))"]) (auto simp: pg(1))
    ultimately show ?thesis using False pg by (auto simp: ext2_get_page_def)
  qed
qed

lemma same_dir_ends:
  assumes "same_dir dir dir'" "ends_in dir n lim"
  shows "ends_in dir' n lim"
proof -
  obtain p where p: "dir' = dir\<lparr>i_pages := p\<rparr>"
    "\<And>n. map_option pg_data (p n) = map_option pg_data (i_pages dir n)"
    "\<And>n. map_option pg_error (p n) = map_option pg_error (i_pages dir n)"
    using assms(1) by (auto simp: same_dir_def)
  show ?thesis
    using p(2,3) [of n] assms(2)
    by (cases "p n"; cases "i_pages dir n") (auto simp: ends_in_def p(1))
qed

section \<open>Adding a name\<close>

lemma last_page_ends:
  assumes v: "dir_view s dir E" and n: "n < dir_pages dir" and lt: "ext2_last_byte dir n < PAGE_SIZE"
  shows "ends_in dir n (ext2_last_byte dir n)"
proof -
  have "dir_page_ok s dir n (E n)" using v n by (simp add: dir_view_def)
  moreover have "nat (i_size dir) = n * PAGE_SIZE + ext2_last_byte dir n"
    using last_byte_in [of dir n] v n lt by (simp add: dir_view_def min_def split: if_splits)
  ultimately show ?thesis using lt by (auto simp: ends_in_def dir_page_ok_def)
qed

text \<open>When no page has room behind its end, the directory ends with a full page.\<close>

lemma full_pages:
  assumes v: "dir_view s dir E" and rl: "l \<le> 1024"
    and full: "\<forall>n < dir_pages dir. PAGE_SIZE < ext2_last_byte dir n + l"
  shows "nat (i_size dir) = dir_pages dir * PAGE_SIZE"
proof (cases "dir_pages dir = 0")
  case True
  then show ?thesis using v by (simp add: dir_view_def dir_pages_def)
next
  case False
  let ?np = "dir_pages dir"
  from False have k: "?np - 1 < ?np" by simp
  have "ext2_last_byte dir (?np - 1) = PAGE_SIZE"
  proof (rule ccontr)
    assume "ext2_last_byte dir (?np - 1) \<noteq> PAGE_SIZE"
    then have "ext2_last_byte dir (?np - 1) < PAGE_SIZE" using last_byte_bounds(2) [OF v k] by simp
    from end_chain(1,7) [OF v last_page_ends [OF v k this]]
    have "ext2_last_byte dir (?np - 1) + 1024 \<le> PAGE_SIZE"
      using chunks_okD(1) [of s] v by (simp add: dir_view_def)
    with full k rl show False by (auto dest!: spec [of _ "?np - 1"])
  qed
  then have ge: "?np * PAGE_SIZE \<le> nat (i_size dir)"
    using last_byte_in [of dir "?np - 1"] v k False
    by (simp add: dir_view_def min_def diff_mult_distrib split: if_splits)
  show ?thesis
  proof (rule antisym [OF _ ge])
    have "?np = (nat (i_size dir) + 4095) div 4096"
      using v by (simp add: dir_pages_def dir_view_def nat_div_distrib nat_add_distrib)
    then show "nat (i_size dir) \<le> ?np * PAGE_SIZE" by linarith
  qed
qed

text \<open>In an empty page the entry goes to its start.\<close>

lemma add_pages_new_page:
  assumes v: "dir_view s dir E" and e: "ends_in dir n 0" and rl: "EXT2_DIR_REC_LEN (length name) \<le> 1024"
  shows "\<exists>dir'. same_dir dir dir' \<and> add_pages P name ino [n] dir s =
    Some (add_got_it P s (grow_page s n dir') n name ino 0 0 (ext2_chunk_size s))"
proof -
  obtain pg d where g: "ext2_get_page s dir n False = Some (Inr pg, d, s)" "same_dir dir d"
    using get_end_page [OF e, of s] v unfolding dir_view_def by blast
  have l: "ext2_last_byte d n = 0" using end_chain(1) [OF v e] same_dir_views [OF g(2)] by simp
  have "add_loop name (pg_data pg) 0 0 = Add_size 0"
    using rl by (subst add_loop.simps) (simp add: Let_def)
  then have "add_pages P name ino [n] dir s = Some (add_got_it P s (grow_page s n d) n name ino 0 0 (ext2_chunk_size s))"
    using g(1) by (simp add: l grow_page_def Let_def)
  with g(2) show ?thesis by blast
qed

lemma room_found_added:
  assumes v: "dir_view s d1 E" and n: "n < dir_pages d1" and r: "room_found P s E name ino d1 n res"
    and name: "name_ok name" and ino: "ino \<noteq> 0" "unat ino \<le> max_ino s"
    and room: "i_size d1 + int (ext2_chunk_size s) < 2 ^ 32" and P: "writes_ok P"
  shows "\<exists>x. res = Some x \<and> added P s d1 (entries d1 E) name ino x"
  using r unfolding room_found_def
proof
  assume "\<exists>xs e ys. E n = xs @ e # ys \<and> has_space name e \<and>
    res = Some (add_got_it P s d1 n name ino (recs xs) (EXT2_DIR_REC_LEN (length (d_name e))) (d_rec e))"
  then obtain xs e ys where x: "E n = xs @ e # ys" "has_space name e"
    "res = Some (add_got_it P s d1 n name ino (recs xs) (EXT2_DIR_REC_LEN (length (d_name e))) (d_rec e))"
    by blast
  from got_it_here [OF v n x(1,2) name ino P] x(3) show ?thesis by simp
next
  assume a: "ext2_last_byte d1 n + EXT2_DIR_REC_LEN (length name) \<le> PAGE_SIZE \<and>
    res = Some (add_got_it P s (grow_page s n d1) n name ino (ext2_last_byte d1 n) 0 (ext2_chunk_size s))"
  have "ext2_last_byte d1 n < PAGE_SIZE"
    using a REC_LEN_bounds(1) [of "length name"] by linarith
  from got_it_grow [OF v last_page_ends [OF v n this] name ino room P] a show ?thesis by simp
qed

lemma add_link_result:
  assumes v: "dir_view s dir E" and absent: "\<forall>i. (name, i) \<notin> names_of dir E" and name: "name_ok name"
    and ino: "(ucast ino :: u32) \<noteq> 0" "unat (ucast ino :: u32) \<le> max_ino s"
    and room: "i_size dir + int (ext2_chunk_size s) < 2 ^ 32" and next_ok: "next_page_ok dir"
    and P: "writes_ok P"
  shows "\<exists>res. ext2_add_link P s dir name ino = Some res \<and> added P s dir (entries dir E) name (ucast ino) res"
proof -
  let ?ino = "ucast ino :: u32" and ?np = "dir_pages dir"
  have rl: "EXT2_DIR_REC_LEN (length name) \<le> 1024"
    using name REC_LEN_bounds(2) [of "length name"] by (simp add: name_ok_def)
  have upt: "[0..<?np + 1] = [0..<?np] @ [?np]" by simp
  obtain d1 where d1: "same_dir dir d1"
    "(\<exists>n < ?np. room_found P s E name ?ino d1 n (add_pages P name ?ino ([0..<?np] @ [?np]) dir s)) \<or>
      ((\<forall>n \<in> set [0..<?np]. PAGE_SIZE < ext2_last_byte dir n + EXT2_DIR_REC_LEN (length name)) \<and>
       add_pages P name ?ino ([0..<?np] @ [?np]) dir s = add_pages P name ?ino [?np] d1 s)"
    using add_pages_walk [OF v _ absent, of "[0..<?np]" P ?ino "[?np]"] by (auto simp: atLeast0LessThan)
  note sv = same_dir_views [OF d1(1)]
  have v1: "dir_view s d1 E" using v sv by simp
  have ents: "entries d1 E = entries dir E" "i_ino d1 = i_ino dir" by (simp_all add: entries_def sv)
  have room1: "i_size d1 + int (ext2_chunk_size s) < 2 ^ 32" using room sv by simp
  show ?thesis
    using d1(2)
  proof
    assume "\<exists>n < ?np. room_found P s E name ?ino d1 n (add_pages P name ?ino ([0..<?np] @ [?np]) dir s)"
    then obtain n where n: "n < ?np" "room_found P s E name ?ino d1 n (ext2_add_link P s dir name ino)"
      by (auto simp: ext2_add_link_def)
    have "n < dir_pages d1" using n(1) sv by simp
    from room_found_added [OF v1 this n(2) name ino room1 P] show ?thesis by (simp add: added_def ents)
  next
    assume a: "(\<forall>n \<in> set [0..<?np]. PAGE_SIZE < ext2_last_byte dir n + EXT2_DIR_REC_LEN (length name)) \<and>
       add_pages P name ?ino ([0..<?np] @ [?np]) dir s = add_pages P name ?ino [?np] d1 s"
    have "\<forall>n < dir_pages d1. PAGE_SIZE < ext2_last_byte d1 n + EXT2_DIR_REC_LEN (length name)"
      using a sv by simp
    from full_pages [OF v1 rl this] have e1: "ends_in d1 ?np 0"
      using next_ok same_dir_next [OF d1(1)] by (simp add: ends_in_def next_page_ok_def sv)
    obtain d2 where g: "same_dir d1 d2" "add_pages P name ?ino [?np] d1 s =
        Some (add_got_it P s (grow_page s ?np d2) ?np name ?ino 0 0 (ext2_chunk_size s))"
      using add_pages_new_page [OF v1 e1 rl] by blast
    then have "ext2_add_link P s dir name ino =
        Some (add_got_it P s (grow_page s ?np d2) ?np name ?ino 0 0 (ext2_chunk_size s))"
      using a by (simp add: ext2_add_link_def upt)
    moreover have "added P s dir (entries dir E) name ?ino
        (add_got_it P s (grow_page s ?np d2) ?np name ?ino 0 0 (ext2_chunk_size s))"
      using got_it_grow [OF _ same_dir_ends [OF g(1) e1] name ino _ P] v1 room1 same_dir_views [OF g(1)]
      by (simp add: added_def entries_def sv)
    ultimately show ?thesis by blast
  qed
qed

end
