(* ===== verification/Directory.thy ===== *)
theory Directory
  imports Main
begin

text \<open>
  What a directory promises to the operations on names: it holds a finite map, a lookup
  reads the map, a successful insertion of an absent name adds one pair, a removal takes one
  away. An insertion or a removal that reports an error may still have taken effect, since
  writing the page back can fail after the change.
\<close>

datatype ('k, 'v) dirop = Ins 'k 'v | Del 'k

primrec apply_op :: "('k, 'v) dirop \<Rightarrow> ('k \<Rightarrow> 'v option) \<Rightarrow> 'k \<Rightarrow> 'v option" where
  "apply_op (Ins k v) m = m(k \<mapsto> v)"
| "apply_op (Del k) m = m(k := None)"

locale directory =
  fixes holds :: "'d \<Rightarrow> ('k \<Rightarrow> 'v option) \<Rightarrow> bool"
    and lookup :: "'d \<Rightarrow> 'k \<Rightarrow> ('v option \<times> 'd) option"
    and insert :: "'d \<Rightarrow> 'k \<Rightarrow> 'v \<Rightarrow> (bool \<times> 'd) option"
    and remove :: "'d \<Rightarrow> 'k \<Rightarrow> (bool \<times> 'd) option"
    and fits :: "'d \<Rightarrow> 'k \<Rightarrow> 'v \<Rightarrow> bool"
  assumes lookup_law: "holds d m \<Longrightarrow> \<exists>d'. lookup d k = Some (m k, d') \<and> holds d' m"
    and insert_law: "holds d m \<Longrightarrow> m k = None \<Longrightarrow> fits d k v \<Longrightarrow>
      \<exists>ok d'. insert d k v = Some (ok, d') \<and> (holds d' (m(k \<mapsto> v)) \<or> \<not> ok \<and> holds d' m)"
    and remove_law: "holds d m \<Longrightarrow> m k = Some v \<Longrightarrow>
      \<exists>ok d'. remove d k = Some (ok, d') \<and> holds d' (m(k := None))"
begin

definition perform :: "'d \<Rightarrow> ('k, 'v) dirop \<Rightarrow> (bool \<times> 'd) option" where
  "perform d c = (case c of Ins k v \<Rightarrow> insert d k v | Del k \<Rightarrow> remove d k)"

text \<open>An operation is admissible: the name is absent and fits, or it is there.\<close>

definition admissible :: "'d \<Rightarrow> ('k \<Rightarrow> 'v option) \<Rightarrow> ('k, 'v) dirop \<Rightarrow> bool" where
  "admissible d m c = (case c of Ins k v \<Rightarrow> m k = None \<and> fits d k v | Del k \<Rightarrow> m k \<noteq> None)"

inductive performs :: "'d \<Rightarrow> ('k \<Rightarrow> 'v option) \<Rightarrow> ('k, 'v) dirop list \<Rightarrow> 'd \<Rightarrow> bool" where
  none: "performs d m [] d"
| some: "admissible d m c \<Longrightarrow> perform d c = Some (True, d') \<Longrightarrow> performs d' (apply_op c m) cs d'' \<Longrightarrow>
    performs d m (c # cs) d''"

lemma perform_holds:
  assumes "holds d m" "admissible d m c" "perform d c = Some (True, d')"
  shows "holds d' (apply_op c m)"
proof (cases c)
  case (Ins k v)
  with assms show ?thesis using insert_law [of d m k v] by (auto simp: perform_def admissible_def)
next
  case (Del k)
  with assms show ?thesis using remove_law [of d m k] by (auto simp: perform_def admissible_def)
qed

lemma performs_holds:
  "performs d m cs d' \<Longrightarrow> holds d m \<Longrightarrow> holds d' (fold apply_op cs m)"
  by (induction rule: performs.induct) (auto intro: perform_holds)

lemma insert_lookup:
  assumes "holds d m" "m k = None" "fits d k v" "insert d k v = Some (True, d')"
  shows "\<exists>d''. lookup d' x = Some (if x = k then Some v else m x, d'')"
proof -
  have "holds d' (m(k \<mapsto> v))" using insert_law [OF assms(1-3)] assms(4) by auto
  from lookup_law [OF this, of x] show ?thesis by auto
qed

lemma insert_remove:
  assumes "holds d m" "m k = None" "fits d k v" "insert d k v = Some (True, d')"
  shows "\<exists>ok d''. remove d' k = Some (ok, d'') \<and> holds d'' m"
proof -
  have "holds d' (m(k \<mapsto> v))" using insert_law [OF assms(1-3)] assms(4) by auto
  from remove_law [OF this, of k v] assms(2) show ?thesis by (auto simp: fun_upd_idem)
qed

end

end
