(* ===== verification/Dir_Map.thy ===== *)
theory Dir_Map
  imports Dir_Insert Directory
begin

text \<open>
  The directories of \<^verbatim>\<open>dir.c\<close> as an instance of the interface: \<open>dir_holds\<close> relates a directory
  with the map from its names to their inode numbers.
\<close>

type_synonym dirmap = "byte list \<Rightarrow> u32 option"
type_synonym dstate = "pgcache \<times> ext2_fs \<times> inode"

definition holds_map :: "ext2_fs \<Rightarrow> inode \<Rightarrow> dirmap \<Rightarrow> bool" where
  "holds_map s dir m \<longleftrightarrow> finite (dom m) \<and>
     (\<exists>E. dir_view s dir E \<and> entries dir E = mset_set (Map.graph m))"

definition dir_holds :: "dstate \<Rightarrow> dirmap \<Rightarrow> bool" where
  "dir_holds d m = (case d of (P, s, dir) \<Rightarrow> writes_ok P \<and> holds_map s dir m)"

definition dir_lookup :: "dstate \<Rightarrow> byte list \<Rightarrow> (u32 option \<times> dstate) option" where
  "dir_lookup d name = (case d of (P, s, dir) \<Rightarrow> do {
     (r, dir, s) \<leftarrow> ext2_inode_by_name (\<lambda>i. i) s dir name;
     Some (case r of Inl e \<Rightarrow> None | Inr ino \<Rightarrow> Some ino, P, s, dir) })"

definition dir_insert :: "dstate \<Rightarrow> byte list \<Rightarrow> u32 \<Rightarrow> (bool \<times> dstate) option" where
  "dir_insert d name ino = (case d of (P, s, dir) \<Rightarrow> do {
     (err, dir, s) \<leftarrow> ext2_add_link P s dir name (ucast ino);
     Some (err = 0, P, s, dir) })"

definition dir_remove :: "dstate \<Rightarrow> byte list \<Rightarrow> (bool \<times> dstate) option" where
  "dir_remove d name = (case d of (P, s, dir) \<Rightarrow> do {
     (r, dir, s) \<leftarrow> ext2_find_entry (\<lambda>i. i) s dir name;
     (case r of Inl e \<Rightarrow> Some (False, P, s, dir)
      | Inr de \<Rightarrow> do {
          (err, dir, s) \<leftarrow> ext2_delete_entry P s dir de;
          Some (err = 0, P, s, dir) }) })"

definition dir_fits :: "dstate \<Rightarrow> byte list \<Rightarrow> u32 \<Rightarrow> bool" where
  "dir_fits d name ino = (case d of (P, s, dir) \<Rightarrow> name_ok name \<and> ino \<noteq> 0 \<and> unat ino \<le> max_ino s \<and>
     i_size dir + int (ext2_chunk_size s) < 2 ^ 32 \<and> next_page_ok dir)"

section \<open>Maps and multisets\<close>

lemma graph_finite: "finite (dom m) \<Longrightarrow> finite (Map.graph m)"
  by (simp add: finite_graph_iff_finite_dom)

lemma graph_insert:
  assumes "finite (dom m)" "m k = None"
  shows "mset_set (Map.graph (m(k \<mapsto> v))) = add_mset (k, v) (mset_set (Map.graph m))"
proof -
  have "m(k := None) = m" using assms(2) by (simp add: fun_upd_idem)
  then have "Map.graph (m(k \<mapsto> v)) = Set.insert (k, v) (Map.graph m)" by (simp add: graph_map_upd)
  moreover have "(k, v) \<notin> Map.graph m" using assms(2) by (simp add: in_graphI graph_def)
  ultimately show ?thesis using graph_finite [OF assms(1)] by simp
qed

lemma graph_remove:
  assumes "finite (dom m)" "m k = Some v"
  shows "mset_set (Map.graph m) = add_mset (k, v) (mset_set (Map.graph (m(k := None))))"
proof -
  have "m = (m(k := None))(k \<mapsto> v)" using assms(2) by (simp add: fun_upd_idem)
  then show ?thesis using graph_insert [of "m(k := None)" k v] assms(1) by simp
qed

lemma holds_names:
  assumes "finite (dom m)" "entries dir E = mset_set (Map.graph m)"
  shows "(name, ino) \<in> names_of dir E \<longleftrightarrow> m name = Some ino"
proof -
  have "names_of dir E = Map.graph m"
    using assms set_entries [of dir E] graph_finite [of m] by simp
  then show ?thesis by (simp add: graph_def)
qed

lemma same_dir_entries: "same_dir dir dir' \<Longrightarrow> entries dir' E = entries dir E"
  by (simp add: entries_def same_dir_views)

lemma holds_same: "same_dir dir dir' \<Longrightarrow> holds_map s dir' m = holds_map s dir m"
  by (simp add: holds_map_def same_dir_views same_dir_entries)

lemma holds_mapD:
  assumes "holds_map s dir m"
  obtains E where "finite (dom m)" "dir_view s dir E" "entries dir E = mset_set (Map.graph m)"
    "\<And>name ino. (name, ino) \<in> names_of dir E \<longleftrightarrow> m name = Some ino"
  using assms holds_names unfolding holds_map_def by blast

section \<open>The operations\<close>

lemma inode_by_name_map:
  assumes "holds_map s dir m"
  shows "\<exists>dir'. ext2_inode_by_name (\<lambda>i. i) s dir name =
      Some (case m name of None \<Rightarrow> Inl (- ENOENT) | Some ino \<Rightarrow> Inr ino, dir', s) \<and>
    same_dir dir dir' \<and> m name \<noteq> Some 0"
proof -
  obtain E where E: "dir_view s dir E" "\<And>ino. (name, ino) \<in> names_of dir E \<longleftrightarrow> m name = Some ino"
    using holds_mapD [OF assms] by metis
  obtain r dir' where r: "ext2_inode_by_name (\<lambda>i. i) s dir name = Some (r, dir', s)" "same_dir dir dir'"
    "(case r of Inr ino \<Rightarrow> (name, ino) \<in> names_of dir E \<and> ino \<noteq> 0
      | Inl e \<Rightarrow> e = - ENOENT \<and> (\<forall>ino. (name, ino) \<notin> names_of dir E))"
    using inode_by_name_result [OF E(1), of name] by (elim exE conjE) (rule that)
  have "r = (case m name of None \<Rightarrow> Inl (- ENOENT) | Some ino \<Rightarrow> Inr ino) \<and> m name \<noteq> Some 0"
    using r(3) by (cases r; cases "m name") (simp_all add: E(2))
  with r(1,2) show ?thesis by blast
qed

lemma find_entry_map:
  assumes "holds_map s dir m"
  shows "\<exists>r dir'. ext2_find_entry (\<lambda>i. i) s dir name = Some (r, dir', s) \<and> same_dir dir dir' \<and>
     (case r of Inl e \<Rightarrow> e = - ENOENT \<and> m name = None
      | Inr de \<Rightarrow> \<exists>E n xs e ys ino. de = (n, recs xs) \<and> dir_view s dir' E \<and>
          entries dir' E = mset_set (Map.graph m) \<and> n < dir_pages dir' \<and> E n = xs @ e # ys \<and>
          is_live e \<and> d_name e = name \<and> d_ino e = ino \<and> m name = Some ino)"
proof -
  obtain E where E: "dir_view s dir E" "entries dir E = mset_set (Map.graph m)"
    "\<And>ino. (name, ino) \<in> names_of dir E \<longleftrightarrow> m name = Some ino"
    using holds_mapD [OF assms] by metis
  obtain r dir' where r: "ext2_find_entry (\<lambda>i. i) s dir name = Some (r, dir', s)" "same_dir dir dir'"
    "(\<exists>n xs e ys. r = Inr (n, recs xs) \<and> n < dir_pages dir \<and> E n = xs @ e # ys \<and>
         wanted name e \<and> (\<forall>x \<in> set xs. \<not> wanted name x)) \<or>
      r = Inl (- ENOENT) \<and> (\<forall>ino. (name, ino) \<notin> names_of dir E)"
    using find_entry_result [OF E(1), of name] by (elim exE conjE) (rule that)
  note sv = same_dir_views [OF r(2)] same_dir_entries [OF r(2)]
  show ?thesis
    using r(3)
  proof (elim disjE exE conjE)
    assume "r = Inl (- ENOENT)" "\<forall>ino. (name, ino) \<notin> names_of dir E"
    with r(1,2) show ?thesis by (intro exI [of _ r] exI [of _ dir']) (simp add: E(3))
  next
    fix n xs e ys assume n: "r = Inr (n, recs xs)" "n < dir_pages dir" "E n = xs @ e # ys" "wanted name e"
    have w: "is_live e" "d_name e = name" using n(4) by (simp_all add: wanted_def is_live_def)
    have "(name, d_ino e) \<in> names_of dir E"
      using n(2,3) w by (auto simp: names_of_def intro!: bexI [of _ n])
    then have m: "m name = Some (d_ino e)" by (simp add: E(3))
    show ?thesis
    proof (intro exI [of _ r] exI [of _ dir'] conjI)
      show "case r of Inl e \<Rightarrow> e = - ENOENT \<and> m name = None
      | Inr de \<Rightarrow> \<exists>E n xs e ys ino. de = (n, recs xs) \<and> dir_view s dir' E \<and>
          entries dir' E = mset_set (Map.graph m) \<and> n < dir_pages dir' \<and> E n = xs @ e # ys \<and>
          is_live e \<and> d_name e = name \<and> d_ino e = ino \<and> m name = Some ino"
        unfolding n(1) sum.case
        by (intro exI [of _ E] exI [of _ n] exI [of _ xs] exI [of _ e] exI [of _ ys] exI [of _ "d_ino e"])
          (use n(2,3) w m E(1,2) in \<open>simp add: sv\<close>)
    qed (use r(1,2) in simp_all)
  qed
qed

lemma add_link_map:
  assumes h: "holds_map s dir m" and absent: "m name = None" and name: "name_ok name"
    and ino: "(ucast ino :: u32) \<noteq> 0" "unat (ucast ino :: u32) \<le> max_ino s"
    and room: "i_size dir + int (ext2_chunk_size s) < 2 ^ 32" "next_page_ok dir" and P: "writes_ok P"
  shows "\<exists>r dir' s'. ext2_add_link P s dir name ino = Some (r, dir', s') \<and> r \<le> 0 \<and> same_geom s s' \<and>
     i_ino dir' = i_ino dir \<and>
     (holds_map s' dir' (m(name \<mapsto> ucast ino)) \<or> r \<noteq> 0 \<and> holds_map s' dir' m) \<and>
     ((\<forall>d. sync_page P d = 0) \<and> (\<forall>d s pos len. fst (write_begin P d s pos len) = 0) \<longrightarrow> r = 0)"
proof -
  obtain E where E: "finite (dom m)" "dir_view s dir E" "entries dir E = mset_set (Map.graph m)"
    "\<And>n i. (n, i) \<in> names_of dir E \<longleftrightarrow> m n = Some i"
    using holds_mapD [OF h] by metis
  have ab: "\<forall>i. (name, i) \<notin> names_of dir E" by (simp add: E(4) absent)
  obtain r dir' s' where res: "ext2_add_link P s dir name ino = Some (r, dir', s')"
    "added P s dir (entries dir E) name (ucast ino) (r, dir', s')"
    using add_link_result [OF E(2) ab name ino room P] by (metis prod_cases3)
  obtain E' where E': "dir_view s' dir' E'"
    "entries dir' E' = add_mset (name, ucast ino) (entries dir E) \<or> r \<noteq> 0 \<and> entries dir' E' = entries dir E"
    using res(2) [unfolded added_def prod.case] by (elim exE conjE) (rule that)
  have "holds_map s' dir' (m(name \<mapsto> ucast ino)) \<or> r \<noteq> 0 \<and> holds_map s' dir' m"
    using E'(2)
  proof
    assume "entries dir' E' = add_mset (name, ucast ino) (entries dir E)"
    then have "entries dir' E' = mset_set (Map.graph (m(name \<mapsto> ucast ino)))"
      by (simp only: E(3) graph_insert [OF E(1) absent])
    with E'(1) E(1) have "holds_map s' dir' (m(name \<mapsto> ucast ino))" unfolding holds_map_def by auto
    then show ?thesis ..
  next
    assume "r \<noteq> 0 \<and> entries dir' E' = entries dir E"
    with E'(1) E(1,3) show ?thesis unfolding holds_map_def by auto
  qed
  with res(1) res(2) [unfolded added_def prod.case] show ?thesis
    by (intro exI [of _ r] exI [of _ dir'] exI [of _ s']) (elim conjE, intro conjI, assumption+)
qed

lemma remove_map:
  assumes h: "holds_map s dir m" and P: "writes_ok P" and there: "m name = Some ino"
  shows "\<exists>de dir1. ext2_find_entry (\<lambda>i. i) s dir name = Some (Inr de, dir1, s) \<and> same_dir dir dir1 \<and>
     (\<exists>r dir' s'. ext2_delete_entry P s dir1 de = Some (r, dir', s') \<and> r \<le> 0 \<and> same_geom s s' \<and>
        i_ino dir' = i_ino dir \<and> holds_map s' dir' (m(name := None)) \<and>
        ((\<forall>d. sync_page P d = 0) \<longrightarrow> r = 0))"
proof -
  obtain r dir1 where r: "ext2_find_entry (\<lambda>i. i) s dir name = Some (r, dir1, s)" "same_dir dir dir1"
    "(case r of Inl e \<Rightarrow> e = - ENOENT \<and> m name = None
      | Inr de \<Rightarrow> \<exists>E n xs e ys ino. de = (n, recs xs) \<and> dir_view s dir1 E \<and>
          entries dir1 E = mset_set (Map.graph m) \<and> n < dir_pages dir1 \<and> E n = xs @ e # ys \<and>
          is_live e \<and> d_name e = name \<and> d_ino e = ino \<and> m name = Some ino)"
    using find_entry_map [OF h, of name] by (elim exE conjE) (rule that)
  obtain de where de: "r = Inr de" using r(3) there by (cases r) simp_all
  obtain E n xs e ys where x: "de = (n, recs xs)" "dir_view s dir1 E" "entries dir1 E = mset_set (Map.graph m)"
    "n < dir_pages dir1" "E n = xs @ e # ys" "is_live e" "d_name e = name" "m name = Some (d_ino e)"
    using r(3) de by auto
  have fin: "finite (dom m)" using h by (simp add: holds_map_def)
  obtain q dir' s' E' where q: "ext2_delete_entry P s dir1 (n, recs xs) = Some (q, dir', s')" "q \<le> 0"
    "same_geom s s'" "i_ino dir' = i_ino dir1" "dir_view s' dir' E'"
    "entries dir1 E = add_mset (d_name e, d_ino e) (entries dir' E')" "(\<forall>d. sync_page P d = 0) \<longrightarrow> q = 0"
    using delete_entry_result [OF x(2,4,5,6) P] by blast
  have "entries dir' E' = mset_set (Map.graph (m(name := None)))"
    using q(6) graph_remove [OF fin x(8)] by (simp add: x(3,7))
  then have "holds_map s' dir' (m(name := None))" using fin q(5) unfolding holds_map_def by auto
  with r(1,2) q de x(1) same_dir_views(3) [OF r(2)] show ?thesis
    by (intro exI [of _ de] exI [of _ dir1]) auto
qed

interpretation ext2_dir: directory dir_holds dir_lookup dir_insert dir_remove dir_fits
proof
  fix d m k assume h: "dir_holds d m"
  obtain P s dir where d: "d = (P, s, dir)" by (metis prod_cases3)
  from h have hm: "writes_ok P" "holds_map s dir m" by (simp_all add: d dir_holds_def)
  obtain dir' where "ext2_inode_by_name (\<lambda>i. i) s dir k =
      Some (case m k of None \<Rightarrow> Inl (- ENOENT) | Some ino \<Rightarrow> Inr ino, dir', s)" "same_dir dir dir'"
    using inode_by_name_map [OF hm(2), of k] by blast
  with hm show "\<exists>d'. dir_lookup d k = Some (m k, d') \<and> dir_holds d' m"
    by (cases "m k") (simp_all add: d dir_lookup_def dir_holds_def holds_same)
next
  fix d m k v assume h: "dir_holds d m" and a: "m k = None" and f: "dir_fits d k v"
  obtain P s dir where d: "d = (P, s, dir)" by (metis prod_cases3)
  have u: "ucast (ucast v :: u64) = v" by (rule bit_word_eqI) (auto simp: bit_simps)
  have "\<exists>r dir' s'. ext2_add_link P s dir k (ucast v) = Some (r, dir', s') \<and> r \<le> 0 \<and> same_geom s s' \<and>
     i_ino dir' = i_ino dir \<and>
     (holds_map s' dir' (m(k \<mapsto> v)) \<or> r \<noteq> 0 \<and> holds_map s' dir' m) \<and>
     ((\<forall>d. sync_page P d = 0) \<and> (\<forall>d s pos len. fst (write_begin P d s pos len) = 0) \<longrightarrow> r = 0)"
    using h f unfolding d dir_holds_def dir_fits_def prod.case
    by (intro add_link_map [of s dir m k "ucast v" P, unfolded u]) (use a in simp_all)
  with h show "\<exists>ok d'. dir_insert d k v = Some (ok, d') \<and>
      (dir_holds d' (m(k \<mapsto> v)) \<or> \<not> ok \<and> dir_holds d' m)"
    unfolding d dir_holds_def dir_insert_def prod.case by auto
next
  fix d m k v assume h: "dir_holds d m" and a: "m k = Some v"
  obtain P s dir where d: "d = (P, s, dir)" by (metis prod_cases3)
  from h have hm: "writes_ok P" "holds_map s dir m" by (simp_all add: d dir_holds_def)
  obtain de dir1 r dir' s' where "ext2_find_entry (\<lambda>i. i) s dir k = Some (Inr de, dir1, s)"
    "ext2_delete_entry P s dir1 de = Some (r, dir', s')" "holds_map s' dir' (m(k := None))"
    using remove_map [OF hm(2,1) a] by blast
  with hm(1) show "\<exists>ok d'. dir_remove d k = Some (ok, d') \<and> dir_holds d' (m(k := None))"
    by (simp add: d dir_remove_def dir_holds_def)
qed

end
