(* ===== verification/Dir_Thms.thy ===== *)
theory Dir_Thms
  imports Dir_Map Ialloc_Thms
begin

text \<open>
  The properties of directories: what the page check accepts, that lookup, insertion and
  removal implement a finite map, what a new directory holds, when a directory is empty and
  what a listing contains.
\<close>

section \<open>New directories, emptiness and listing over the map\<close>

definition dots :: "u32 \<Rightarrow> u32 \<Rightarrow> dirmap" where
  "dots self parent = [[DOT] \<mapsto> self, [DOT, DOT] \<mapsto> parent]"

lemma make_chunk_view:
  assumes ck: "chunks_ok s" and sz: "i_size dir = int (ext2_chunk_size s)"
    and pg: "i_pages dir 0 = Some pg" "\<not> pg_error pg" "pg_data pg = empty_chunk self parent (ext2_chunk_size s) bs"
    and len: "length bs = PAGE_SIZE"
    and ino: "self \<noteq> 0" "parent \<noteq> 0" "unat self \<le> max_ino s" "unat parent \<le> max_ino s"
  shows "holds_map s dir (dots self parent)"
proof -
  let ?ch = "ext2_chunk_size s"
  note ch = chunks_okD [OF ck]
  let ?es = "[\<lparr> d_ino = self, d_rec = 12, d_name = [DOT] \<rparr>,
      \<lparr> d_ino = parent, d_rec = ?ch - 12, d_name = [DOT, DOT] \<rparr>]"
  have c: "chain ?ch (max_ino s) (pg_data pg) 0 ?es ?ch"
    unfolding pg(3) using ch len ino by (intro empty_chunk_chain) simp_all
  have l: "length (pg_data pg) = PAGE_SIZE"
    unfolding pg(3) using ch len
    by (simp add: empty_chunk_def Let_def length_put_bytes EXT2_DIR_REC_LEN_def)
  have sz': "0 \<le> i_size dir" "i_size dir < 2 ^ 32" "nat (i_size dir) = 0 * PAGE_SIZE + ?ch" using sz ch by simp_all
  have p: "dir_pages dir = 1" using pages_at [OF sz'(1,3) ch(2)] ch(3) by simp
  have lb: "ext2_last_byte dir 0 = ?ch" using last_byte_at [OF sz' ch(2)] .
  have "dir_view s dir (\<lambda>_. ?es)"
    using ck sz' pg(1,2) c l by (simp add: dir_view_def p dir_page_ok_def lb names_ok_def)
  moreover have "entries dir (\<lambda>_. ?es) = mset_set (Map.graph (dots self parent))"
  proof -
    have "Map.graph (dots self parent) = {([DOT], self), ([DOT, DOT], parent)}"
      by (auto simp: dots_def graph_def split: if_splits)
    moreover have "([DOT], self) \<noteq> ([DOT, DOT], parent)" by simp
    ultimately show ?thesis using ino(1,2) by (simp add: entries_def p is_live_def)
  qed
  ultimately show ?thesis by (auto simp: holds_map_def dots_def)
qed

lemma make_empty_map:
  assumes ck: "chunks_ok s" and sz: "i_size ip = 0" and P: "writes_ok P"
    and pg: "grab_page P ip 0 = Some pg" "\<not> pg_error pg" "length (pg_data pg) = PAGE_SIZE"
    and ino: "(ucast (i_ino ip) :: u32) \<noteq> 0" "(ucast parent :: u32) \<noteq> 0"
      "unat (ucast (i_ino ip) :: u32) \<le> max_ino s" "unat (ucast parent :: u32) \<le> max_ino s"
  shows "\<exists>r ip' s'. ext2_make_empty P s ip parent = (r, ip', s') \<and> r \<le> 0 \<and> same_geom s s' \<and>
     i_ino ip' = i_ino ip \<and>
     (r = 0 \<longrightarrow> holds_map s' ip' (dots (ucast (i_ino ip)) (ucast parent)))"
proof -
  let ?ch = "ext2_chunk_size s" and ?ip = "set_page 0 pg ip"
  obtain err d1 s1 where pr: "write_begin P ?ip s 0 ?ch = (err, d1, s1)" by (metis prod_cases3)
  note wd = writes_okD [OF P pr]
  have i1: "i_ino d1 = i_ino ip" using wd(3) by (simp add: same_data_def set_page_def)
  show ?thesis
  proof (cases "err = 0")
    case False
    then have "ext2_make_empty P s ip parent = (err, d1, s1)"
      unfolding ext2_make_empty_def pg(1) option.case Let_def ext2_prepare_chunk_def pr prod.case by simp
    with False wd i1 show ?thesis by auto
  next
    case True
    define d2 where "d2 = with_page_bytes 0 (empty_chunk (ucast (i_ino d1)) (ucast parent) ?ch) d1"
    obtain r d3 where cm: "ext2_commit_chunk P s1 d2 0 ?ch = (r, d3)" "r \<le> 0" "i_pages d3 = i_pages d2"
      "i_ino d3 = i_ino d2" "i_size d3 = max (i_size d2) (0 + int ?ch)"
      using commit_result [OF P, of s1 d2 0 ?ch] by blast
    have run: "ext2_make_empty P s ip parent = (r, d3, s1)"
      unfolding ext2_make_empty_def pg(1) option.case Let_def ext2_prepare_chunk_def pr prod.case
        d2_def [symmetric] cm(1) using True by simp
    have p1: "i_pages d1 0 = Some pg" using wd(3) by (simp add: same_data_def set_page_def)
    have "i_size d3 = int (ext2_chunk_size s1)"
      using cm(5) wd(3) sz by (simp add: d2_def same_data_def set_page_def same_geomD [OF wd(4)])
    moreover have "i_pages d3 0 = Some (pg\<lparr>pg_data := empty_chunk (ucast (i_ino ip)) (ucast parent) ?ch (pg_data pg)\<rparr>)"
      using cm(3) p1 i1 by (simp add: d2_def with_page_bytes_def)
    ultimately have "holds_map s1 d3 (dots (ucast (i_ino ip)) (ucast parent))"
      using ck pg(2,3) ino same_geomD [OF wd(4)]
      by (intro make_chunk_view [where bs = "pg_data pg" and pg = "pg\<lparr>pg_data := empty_chunk (ucast (i_ino ip))
        (ucast parent) ?ch (pg_data pg)\<rparr>"]) simp_all
    with run cm(2,4) wd(4) i1 show ?thesis by (simp add: d2_def)
  qed
qed

lemma empty_dir_map:
  assumes "holds_map s dir m"
  shows "\<exists>dir'. ext2_empty_dir s dir =
      Some (\<forall>name ino. m name = Some ino \<longrightarrow> name = [DOT] \<and> ino = ucast (i_ino dir) \<or> name = [DOT, DOT], dir', s) \<and>
    same_dir dir dir'"
proof -
  obtain E where E: "dir_view s dir E" "\<And>name ino. (name, ino) \<in> names_of dir E \<longleftrightarrow> m name = Some ino"
    using holds_mapD [OF assms] by metis
  have "(\<forall>i \<in> set [0..<dir_pages dir]. only_dots (ucast (i_ino dir)) (E i)) \<longleftrightarrow>
      (\<forall>p \<in> names_of dir E. fst p = [DOT] \<and> snd p = ucast (i_ino dir) \<or> fst p = [DOT, DOT])"
    by (auto simp: only_dots_def dot_entry_def names_of_def live_def)
  also have "... \<longleftrightarrow> (\<forall>name ino. m name = Some ino \<longrightarrow>
      name = [DOT] \<and> ino = ucast (i_ino dir) \<or> name = [DOT, DOT])"
    unfolding E(2) [symmetric] by fastforce
  finally show ?thesis
    using empty_pages_result [OF E(1), of "[0..<dir_pages dir]"] by (simp add: ext2_empty_dir_def)
qed

lemma readdir_map:
  assumes "holds_map s dir m" "i_version dir = ver"
  shows "\<exists>pos ls dir'. ext2_readdir collect ver 0 [] dir s = Some (0, (ver, pos, ls), dir', s) \<and>
     same_dir dir dir' \<and> mset ls = mset_set (Map.graph m)"
proof -
  obtain E where E: "dir_view s dir E" "entries dir E = mset_set (Map.graph m)"
    using holds_mapD [OF assms(1)] by metis
  show ?thesis
  proof (cases "i_size dir - int (EXT2_DIR_REC_LEN 1) < 0")
    case True
    have "dir_pages dir = 0"
    proof (rule ccontr)
      assume "dir_pages dir \<noteq> 0"
      then have n: "0 < dir_pages dir" by simp
      have "ext2_chunk_size s \<le> ext2_last_byte dir 0"
        using last_byte_bounds(1,3) [OF E(1) n] by (intro dvd_imp_le) auto
      moreover have "1024 \<le> ext2_chunk_size s" using E(1) chunks_okD(1) by (simp add: dir_view_def)
      moreover have "int (0 * PAGE_SIZE + ext2_last_byte dir 0) \<le> i_size dir"
        using below_size [OF E(1) n] by blast
      ultimately show False using True by (simp add: REC_LEN_bounds)
    qed
    then show ?thesis using True E(2) by (auto simp: ext2_readdir_def entries_def)
  next
    case False
    have "mset (concat (map (\<lambda>i. live (E i)) [0..<n])) = (\<Sum>i < n. mset (live (E i)))" for n
      by (induction n) simp_all
    then show ?thesis
      using False E(2) assms(2) readdir_pages_result [OF E(1), of "[0..<dir_pages dir]" ver 0 "[]"]
      by (auto simp: ext2_readdir_def entries_def)
  qed
qed

section \<open>A directory for the witnesses\<close>

definition zero_page :: page where
  "zero_page = \<lparr> pg_data = replicate 4096 0, pg_checked = False, pg_error = False \<rparr>"

definition pgcache_ref :: pgcache where
  "pgcache_ref = \<lparr> write_begin = (\<lambda>dir s pos len. (0, dir, s)), sync_page = (\<lambda>_. 0),
     grab_page = (\<lambda>_ _. Some zero_page) \<rparr>"

definition exd_fs :: ext2_fs where
  "exd_fs = ex_fs\<lparr>sb_blocksize := 1024\<rparr>"

definition exd_dir :: inode where
  "exd_dir = ex_inode\<lparr>i_size := 1024, i_pages := (\<lambda>n. if n = 0
     then Some (zero_page\<lparr>pg_data := empty_chunk 2 2 1024 (replicate 4096 0)\<rparr>)
     else if n = 1 then Some zero_page else None)\<rparr>"

lemma pgcache_ref_ok [simp]: "writes_ok pgcache_ref"
  by (simp add: writes_ok_def pgcache_ref_def same_data_def)

lemma pgcache_ref_sync [simp]: "sync_page pgcache_ref d = 0" "fst (write_begin pgcache_ref d s pos len) = 0"
  by (simp_all add: pgcache_ref_def)

lemma exd_fs_views [simp]: "ext2_chunk_size exd_fs = 1024" "max_ino exd_fs = 16" "chunks_ok exd_fs"
  by (simp_all add: exd_fs_def ext2_chunk_size_def max_ino_def chunks_ok_def)

lemma exd_dir_views [simp]: "i_size exd_dir = 1024" "dir_pages exd_dir = 1" "next_page_ok exd_dir"
  "i_ino exd_dir = 2" "i_version exd_dir = 1"
  by (simp_all add: exd_dir_def dir_pages_def next_page_ok_def zero_page_def ex_inode_def)

lemma exd_holds [simp]: "holds_map exd_fs exd_dir (dots 2 2)"
  by (rule make_chunk_view [where bs = "replicate 4096 0" and pg = "zero_page\<lparr>pg_data :=
      empty_chunk 2 2 1024 (replicate 4096 0)\<rparr>"]) (simp_all add: exd_dir_def zero_page_def)

abbreviation (input) exd :: dstate where "exd \<equiv> (pgcache_ref, exd_fs, exd_dir)"

section \<open>Properties\<close>

text \<open>
  C9. The page check accepts exactly the pages that are chains of well-formed entries: on a
  page of the directory, \<^verbatim>\<open>ext2_check_page\<close> succeeds if and only if the bytes up to the
  directory's end on that page (a whole number of chunks) are a list of entries, each with a
  record length that is a multiple of 4, at least 12 and large enough for its name, inside one
  chunk and with an inode number in range. Otherwise the page is marked as bad.
\<close>

theorem ext2_check_page_accepts:
  assumes "chunks_ok s" "0 \<le> i_size dir" "i_size dir < 2 ^ 32" "n < dir_pages dir"
    and "length (pg_data pg) = PAGE_SIZE"
  shows "ext2_check_page s dir n pg True = Some (
     if ext2_last_byte dir n mod ext2_chunk_size s = 0 \<and>
        (\<exists>es. chain (ext2_chunk_size s) (max_ino s) (pg_data pg) 0 es (ext2_last_byte dir n))
     then (True, pg\<lparr>pg_checked := True\<rparr>, s) else (False, pg\<lparr>pg_error := True\<rparr>, s))"
proof -
  let ?lim = "ext2_last_byte dir n"
  have lb: "?lim \<le> PAGE_SIZE" "0 < ?lim" using last_byte_in [OF assms(2-4)] by simp_all
  have div: "?lim mod ext2_chunk_size s = 0" if "i_size dir div int PAGE_SIZE \<noteq> int n"
    using check_limit [OF assms(2-4)] that chunks_okD(4) [OF assms(1)] by simp
  show ?thesis
    using lb div check_loop_chain [of ?lim "pg_data pg" 0] assms(5)
    unfolding ext2_check_page_def Let_def check_limit [OF assms(2-4)] max_ino_def [symmetric]
    by (cases "?lim mod ext2_chunk_size s = 0") auto
qed

theorem ext2_check_page_accepts_witness:
  "ext2_check_page exd_fs exd_dir 0 zero_page True = Some (False, zero_page\<lparr>pg_error := True\<rparr>, exd_fs)"
proof -
  have "de_rec_len (replicate 4096 0) 0 = 0" by (simp add: de_rec_len_def le16_at_def)
  then have "\<not> chain 1024 16 (pg_data zero_page) 0 es (ext2_last_byte exd_dir 0)" for es
    by (cases es) (auto simp: zero_page_def ext2_last_byte_def Let_def entry_ok_def dent_at_def)
  then show ?thesis
    using ext2_check_page_accepts [of exd_fs exd_dir 0 zero_page] by (simp add: zero_page_def)
qed

text \<open>
  C10. Directories refine finite maps: whatever sequence of insertions of absent names and
  removals of present names succeeds on a directory that holds the map \<open>m\<close>, the result holds
  the map the sequence makes of \<open>m\<close>, and a lookup of any name in the result reads that map.
\<close>

theorem ext2_dir_refines_map:
  assumes "dir_holds d m" "ext2_dir.performs d m cs d'"
  shows "dir_holds d' (fold apply_op cs m) \<and>
     (\<exists>d''. dir_lookup d' name = Some (fold apply_op cs m name, d''))"
proof -
  have "dir_holds d' (fold apply_op cs m)" using assms(2,1) by (rule ext2_dir.performs_holds)
  moreover from ext2_dir.lookup_law [OF this, of name]
  have "\<exists>d''. dir_lookup d' name = Some (fold apply_op cs m name, d'')" by blast
  ultimately show ?thesis by blast
qed

lemma exd_insert:
  "\<exists>d1. dir_insert exd [97] 12 = Some (True, d1) \<and> dir_holds d1 ((dots 2 2)([97] \<mapsto> 12))"
proof -
  have u: "ucast (12 :: u64) = (12 :: u32)" by simp
  obtain r dir' s' where r: "ext2_add_link pgcache_ref exd_fs exd_dir [97] 12 = Some (r, dir', s')"
    "holds_map s' dir' ((dots 2 2)([97] \<mapsto> 12)) \<or> r \<noteq> 0 \<and> holds_map s' dir' (dots 2 2)"
    "(\<forall>d. sync_page pgcache_ref d = 0) \<and> (\<forall>d s pos len. fst (write_begin pgcache_ref d s pos len) = 0) \<longrightarrow> r = 0"
    using add_link_map [OF exd_holds, where name = "[97]" and ino = 12 and P = pgcache_ref, unfolded u]
    by (auto simp: dots_def name_ok_def)
  then show ?thesis by (simp add: dir_insert_def dir_holds_def)
qed

theorem ext2_dir_refines_map_witness:
  "\<exists>d'. ext2_dir.performs exd (dots 2 2) [Ins [97] 12] d' \<and>
     dir_holds d' ((dots 2 2)([97] \<mapsto> 12)) \<and> (\<exists>d''. dir_lookup d' [97] = Some (Some 12, d''))"
proof -
  obtain d1 where d1: "dir_insert exd [97] 12 = Some (True, d1)" using exd_insert by blast
  have h: "dir_holds exd (dots 2 2)" by (simp add: dir_holds_def)
  have p: "ext2_dir.performs exd (dots 2 2) [Ins [97] 12] d1"
    using d1 by (intro ext2_dir.performs.some [OF _ _ ext2_dir.performs.none])
      (simp_all add: ext2_dir.admissible_def ext2_dir.perform_def dots_def dir_fits_def name_ok_def)
  from ext2_dir_refines_map [OF h p, of "[97]"] p show ?thesis by (intro exI [of _ d1]) simp
qed

text \<open>
  C11. Adding a name. On a directory that holds \<open>m\<close>, with an absent name of 1 to 255 bytes and
  an inode number in range, \<^verbatim>\<open>ext2_add_link\<close> returns; with 0 the directory holds \<open>m\<close> and the
  new pair; a negative result leaves \<open>m\<close>, or \<open>m\<close> and the new pair when only the synchronous
  write-back failed. It is 0 when the page cache reports no error.
\<close>

theorem ext2_add_link_adds:
  assumes "holds_map s dir m" "m name = None" "name_ok name"
    and "(ucast ino :: u32) \<noteq> 0" "unat (ucast ino :: u32) \<le> max_ino s"
    and "i_size dir + int (ext2_chunk_size s) < 2 ^ 32" "next_page_ok dir" "writes_ok P"
  shows "\<exists>r dir' s'. ext2_add_link P s dir name ino = Some (r, dir', s') \<and> r \<le> 0 \<and> same_geom s s' \<and>
     i_ino dir' = i_ino dir \<and>
     (holds_map s' dir' (m(name \<mapsto> ucast ino)) \<or> r \<noteq> 0 \<and> holds_map s' dir' m) \<and>
     ((\<forall>d. sync_page P d = 0) \<and> (\<forall>d s pos len. fst (write_begin P d s pos len) = 0) \<longrightarrow> r = 0)"
  using assms by (rule add_link_map)

theorem ext2_add_link_adds_witness:
  "\<exists>dir' s'. ext2_add_link pgcache_ref exd_fs exd_dir [97] 12 = Some (0, dir', s') \<and>
     holds_map s' dir' ((dots 2 2)([97] \<mapsto> 12))"
proof -
  have u: "ucast (12 :: u64) = (12 :: u32)" by simp
  show ?thesis
    using ext2_add_link_adds [OF exd_holds, where name = "[97]" and ino = 12 and P = pgcache_ref, unfolded u]
    by (auto simp: dots_def name_ok_def)
qed

text \<open>
  C12. Removing a name. The entry \<^verbatim>\<open>ext2_find_entry\<close> finds for a name of the directory is the
  one \<^verbatim>\<open>ext2_delete_entry\<close> takes out: the directory then holds the map without that name, every
  other name keeps its inode number, and the size of the directory does not change. (Here
  \<^verbatim>\<open>n\<close> is read as the page number.)
\<close>

theorem ext2_delete_entry_removes:
  assumes "holds_map s dir m" "writes_ok P" "m name = Some ino"
  shows "\<exists>de dir1. ext2_find_entry (\<lambda>i. i) s dir name = Some (Inr de, dir1, s) \<and> same_dir dir dir1 \<and>
     (\<exists>r dir' s'. ext2_delete_entry P s dir1 de = Some (r, dir', s') \<and> r \<le> 0 \<and> same_geom s s' \<and>
        i_ino dir' = i_ino dir \<and> holds_map s' dir' (m(name := None)) \<and>
        ((\<forall>d. sync_page P d = 0) \<longrightarrow> r = 0))"
  using assms by (rule remove_map)

theorem ext2_delete_entry_removes_witness:
  "\<exists>de dir1 dir' s'. ext2_find_entry (\<lambda>i. i) exd_fs exd_dir [DOT, DOT] = Some (Inr de, dir1, exd_fs) \<and>
     ext2_delete_entry pgcache_ref exd_fs dir1 de = Some (0, dir', s') \<and>
     holds_map s' dir' [[DOT] \<mapsto> 2]"
proof -
  have "(dots 2 2)([DOT, DOT] := None) = [[DOT] \<mapsto> 2]" by (auto simp: dots_def)
  then show ?thesis
    using ext2_delete_entry_removes [OF exd_holds pgcache_ref_ok, of "[DOT, DOT]" 2]
    by (fastforce simp: dots_def)
qed

text \<open>
  A directory made by \<^verbatim>\<open>ext2_make_empty\<close> holds exactly the names \<^verbatim>\<open>.\<close> and \<^verbatim>\<open>..\<close>, and
  \<^verbatim>\<open>ext2_empty_dir\<close> calls it empty.
\<close>

theorem ext2_make_empty_is_empty:
  assumes "chunks_ok s" "i_size ip = 0" "writes_ok P"
    and "grab_page P ip 0 = Some pg" "\<not> pg_error pg" "length (pg_data pg) = PAGE_SIZE"
    and "(ucast (i_ino ip) :: u32) \<noteq> 0" "(ucast parent :: u32) \<noteq> 0"
      "unat (ucast (i_ino ip) :: u32) \<le> max_ino s" "unat (ucast parent :: u32) \<le> max_ino s"
    and "ext2_make_empty P s ip parent = (0, ip', s')"
  shows "holds_map s' ip' (dots (ucast (i_ino ip)) (ucast parent)) \<and>
     (\<exists>ip''. ext2_empty_dir s' ip' = Some (True, ip'', s'))"
proof -
  have h: "holds_map s' ip' (dots (ucast (i_ino ip)) (ucast parent))" "i_ino ip' = i_ino ip"
    using make_empty_map [OF assms(1-10)] assms(11) by auto
  from empty_dir_map [OF h(1)] h show ?thesis by (auto simp: dots_def split: if_splits)
qed

theorem ext2_make_empty_is_empty_witness:
  "\<exists>ip' s' ip''. ext2_make_empty pgcache_ref exd_fs (ex_inode\<lparr>i_size := 0\<rparr>) 2 = (0, ip', s') \<and>
     ext2_empty_dir s' ip' = Some (True, ip'', s')"
proof -
  obtain ip' s' where r: "ext2_make_empty pgcache_ref exd_fs (ex_inode\<lparr>i_size := 0\<rparr>) 2 = (0, ip', s')"
    by (simp add: ext2_make_empty_def ext2_prepare_chunk_def ext2_commit_chunk_def pgcache_ref_def Let_def)
  have g: "grab_page pgcache_ref (ex_inode\<lparr>i_size := 0\<rparr>) 0 = Some zero_page" by (simp add: pgcache_ref_def)
  have i: "i_ino (ex_inode\<lparr>i_size := 0\<rparr>) = 2" by (simp add: ex_inode_def)
  from ext2_make_empty_is_empty [OF _ _ _ g _ _ _ _ _ _ r] show ?thesis
    using r by (simp add: i zero_page_def)
qed

text \<open>
  C13. The emptiness test says that a directory is empty exactly when its only names are \<^verbatim>\<open>..\<close>
  and a \<^verbatim>\<open>.\<close> that names the directory itself.
\<close>

theorem ext2_empty_dir_iff:
  assumes "holds_map s dir m"
  shows "\<exists>dir'. ext2_empty_dir s dir =
      Some (\<forall>name ino. m name = Some ino \<longrightarrow> name = [DOT] \<and> ino = ucast (i_ino dir) \<or> name = [DOT, DOT], dir', s) \<and>
    same_dir dir dir'"
  using assms by (rule empty_dir_map)

theorem ext2_empty_dir_iff_witness:
  "\<exists>dir'. ext2_empty_dir exd_fs exd_dir = Some (True, dir', exd_fs)"
proof -
  have "\<forall>name ino. dots 2 2 name = Some ino \<longrightarrow> name = [DOT] \<and> ino = 2 \<or> name = [DOT, DOT]"
    by (auto simp: dots_def split: if_splits)
  then show ?thesis using ext2_empty_dir_iff [OF exd_holds] by auto
qed

text \<open>
  C14. A listing from position 0 with a consumer that takes every entry returns 0 and delivers
  every pair of the directory's map once, and nothing else.
\<close>

theorem ext2_readdir_lists:
  assumes "holds_map s dir m" "i_version dir = ver"
  shows "\<exists>pos ls dir'. ext2_readdir collect ver 0 [] dir s = Some (0, (ver, pos, ls), dir', s) \<and>
     same_dir dir dir' \<and> mset ls = mset_set (Map.graph m)"
  using assms by (rule readdir_map)

theorem ext2_readdir_lists_witness:
  "\<exists>pos ls dir'. ext2_readdir collect 1 0 [] exd_dir exd_fs = Some (0, (1, pos, ls), dir', exd_fs) \<and>
     mset ls = mset_set (Map.graph (dots 2 2))"
  using ext2_readdir_lists [OF exd_holds, of 1] by auto

end
