(* ===== verification/Inode.thy ===== *)
theory Inode
  imports Dir
begin

text \<open>
  Inodes (\<^verbatim>\<open>inode.c\<close>): mapping a file's blocks, truncating a file, reading an inode from its
  slot in the inode table and writing it back, deleting it, changing its size.

  \<open>vm\<close> collects the kernel services these operations call: the inode cache, the page cache's
  truncation, the write-back of one buffer, special inodes and the encodings of device
  numbers, and the three
  names \<^verbatim>\<open>inode.c\<close> uses without any declaration (\<^verbatim>\<open>ext2_set_file_ops\<close>, the mount option \<^verbatim>\<open>NOBH\<close>
  and its address space operations); \<^verbatim>\<open>inode_pg\<close> and the label \<^verbatim>\<open>Eio\<close>, also undeclared, are read
  as \<^verbatim>\<open>inodes_pg\<close> and \<^verbatim>\<open>eio\<close>.
\<close>

record iattr =
  ia_valid :: u32
  ia_size :: int

record vm =
  iget_locked :: "u64 \<Rightarrow> (inode \<times> bool) option"
  is_bad_inode :: "inode \<Rightarrow> bool"
  truncate_pages_final :: "inode \<Rightarrow> inode"
  truncate_pagecache :: "int \<Rightarrow> inode \<Rightarrow> inode"
  block_truncate_page :: "inode \<Rightarrow> ext2_fs \<Rightarrow> int \<Rightarrow> int \<times> inode \<times> ext2_fs"
  buffer_synced :: "u64 \<Rightarrow> bool"
  setattr_prepare :: "inode \<Rightarrow> iattr \<Rightarrow> int"
  setattr_copy :: "iattr \<Rightarrow> inode \<Rightarrow> inode"
  high2low :: "u32 \<Rightarrow> u16"
  old_valid_dev :: "u32 \<Rightarrow> bool"
  old_encode_dev :: "u32 \<Rightarrow> u32"
  old_decode_dev :: "u32 \<Rightarrow> u32"
  new_encode_dev :: "u32 \<Rightarrow> u32"
  new_decode_dev :: "u32 \<Rightarrow> u32"
  init_special_inode :: "inode \<Rightarrow> u16 \<Rightarrow> u32 \<Rightarrow> inode"
  ext2_set_file_ops :: "inode \<Rightarrow> inode"
  mount_nobh :: u64
  nobh_aops :: aspace_ops

section \<open>Mapping blocks\<close>

definition ext2_inode_is_fast_symlink :: "inode \<Rightarrow> bool" where
  "ext2_inode_is_fast_symlink ip \<longleftrightarrow> S_ISLNK (i_mode ip) \<and> i_blocks ip = 0"

text \<open>
  The result is the return value, \<open>*bno\<close> and \<open>*new\<close>, which keep their old values where the
  code does not write them. \<open>junk\<close> is passed on to the allocation.
\<close>

definition ext2_get_blocks ::
  "kern \<Rightarrow> (nat \<Rightarrow> u64) \<Rightarrow> ext2_fs \<Rightarrow> inode \<Rightarrow> u64 \<Rightarrow> u32 \<Rightarrow> bool \<Rightarrow> bool
     \<Rightarrow> ((int \<times> u32 \<times> bool) \<times> inode \<times> ext2_fs) option" where
  "ext2_get_blocks K junk s ip iblock bno new create =
     (if EXT2_NDIR_BLOCKS \<le> unat iblock then Some ((- EIO, bno, new), ip, s)
      else let block_no = ei_data ip ! unat iblock in
        if 0 < block_no then Some ((1, block_no, new), ip, s)
        else if \<not> create then Some ((0, 0, new), ip, s)
        else do {
          ((resb, errp, count), s) \<leftarrow> ext2_new_blocks K junk s (ei_block_group ip) 1;
          if errp < 0 then Some ((errp, bno, new), ip, s)
          else Some ((sint (ucast count :: s32), ucast resb, True),
            ip\<lparr>ei_data := (ei_data ip)[unat iblock := ucast resb],
               i_blocks := i_blocks ip + (count * sb_blocksize s) div 512\<rparr>, s) })"

record buffer_head =
  b_blocknr :: u64
  b_size :: u64
  b_mapped :: bool
  b_new :: bool

definition map_bh :: "ext2_fs \<Rightarrow> u64 \<Rightarrow> buffer_head \<Rightarrow> buffer_head" where
  "map_bh s block bh = bh\<lparr>b_mapped := True, b_blocknr := block, b_size := sb_blocksize s\<rparr>"

definition ext2_get_block ::
  "kern \<Rightarrow> (nat \<Rightarrow> u64) \<Rightarrow> ext2_fs \<Rightarrow> inode \<Rightarrow> u64 \<Rightarrow> u32 \<Rightarrow> buffer_head \<Rightarrow> bool
     \<Rightarrow> (int \<times> buffer_head \<times> inode \<times> ext2_fs) option" where
  "ext2_get_block K junk s ip iblock bno bh_result create = do {
     ((ret, bno, new), ip, s) \<leftarrow> ext2_get_blocks K junk s ip iblock bno False create;
     if ret \<le> 0 then Some (ret, bh_result, ip, s)
     else let bh = map_bh s (ucast bno) bh_result;
              bh = bh\<lparr>b_size := push_bit (sb_blocksize_bits s) (of_int ret)\<rparr>
          in Some (0, if new then bh\<lparr>b_new := True\<rparr> else bh, ip, s) }"

section \<open>Truncation\<close>

definition free_run :: "kern \<Rightarrow> u64 \<Rightarrow> u64 \<Rightarrow> inode \<Rightarrow> ext2_fs \<Rightarrow> (inode \<times> ext2_fs) option" where
  "free_run K block count ip s = do {
     (iblocks, s) \<leftarrow> ext2_free_blocks K s (i_blocks ip) block count;
     Some (ip\<lparr>i_blocks := iblocks\<rparr>, s) }"

text \<open>The loop of \<^verbatim>\<open>ext2_free_data\<close> over the indices of \<^verbatim>\<open>i_data\<close> between \<open>p\<close> and \<open>q\<close>.\<close>

fun free_data_loop ::
  "kern \<Rightarrow> nat list \<Rightarrow> u64 \<Rightarrow> u64 \<Rightarrow> inode \<Rightarrow> ext2_fs \<Rightarrow> ((u64 \<times> u64) \<times> inode \<times> ext2_fs) option" where
  "free_data_loop K [] block_to_free count ip s = Some ((block_to_free, count), ip, s)"
| "free_data_loop K (p # ps) block_to_free count ip s =
     (let nr = ucast (ei_data ip ! p) in
      if nr = 0 then free_data_loop K ps block_to_free count ip s
      else let ip = ip\<lparr>ei_data := (ei_data ip)[p := 0]\<rparr> in
        if count = 0 then free_data_loop K ps nr 1 ip s
        else if block_to_free = nr - count
        then free_data_loop K ps block_to_free (count + 1) ip s
        else do {
          (ip, s) \<leftarrow> free_run K block_to_free count ip s;
          free_data_loop K ps nr 1 ip s })"

definition ext2_free_data :: "kern \<Rightarrow> nat list \<Rightarrow> inode \<Rightarrow> ext2_fs \<Rightarrow> (inode \<times> ext2_fs) option" where
  "ext2_free_data K ps ip s = do {
     ((block_to_free, count), ip, s) \<leftarrow> free_data_loop K ps 0 0 ip s;
     if 0 < count then free_run K block_to_free count ip s else Some (ip, s) }"

definition truncatable :: "inode \<Rightarrow> bool" where
  "truncatable ip \<longleftrightarrow> S_ISREG (i_mode ip) \<or> S_ISDIR (i_mode ip) \<or> S_ISLNK (i_mode ip)"

definition final_block :: "ext2_fs \<Rightarrow> int \<Rightarrow> nat" where
  "final_block s offset = nat (drop_bit (sb_blocksize_bits s) (offset + uint (sb_blocksize s) - 1))"

definition ext2_truncate_blocks :: "kern \<Rightarrow> ext2_fs \<Rightarrow> inode \<Rightarrow> int \<Rightarrow> (inode \<times> ext2_fs) option" where
  "ext2_truncate_blocks K s ip offset =
     (if \<not> truncatable ip then Some (ip, s)
      else if ext2_inode_is_fast_symlink ip then Some (ip, s)
      else ext2_free_data K [final_block s offset..<EXT2_NDIR_BLOCKS] ip s)"

definition ext2_write_failed :: "kern \<Rightarrow> vm \<Rightarrow> ext2_fs \<Rightarrow> inode \<Rightarrow> int \<Rightarrow> (inode \<times> ext2_fs) option" where
  "ext2_write_failed K M s ip to =
     (if i_size ip < to
      then ext2_truncate_blocks K s (truncate_pagecache M (i_size ip) ip) (i_size ip)
      else Some (ip, s))"

text \<open>
  \<open>block_write_begin\<close>, \<open>generic_write_end\<close> and \<open>blockdev_direct_IO\<close> are the kernel's. In
  \<^verbatim>\<open>ext2_write_end\<close> the signed result is compared with an unsigned length, so a negative result
  counts as a large one.
\<close>

definition ext2_write_begin ::
  "kern \<Rightarrow> vm \<Rightarrow> (inode \<Rightarrow> ext2_fs \<Rightarrow> int \<Rightarrow> u32 \<Rightarrow> int \<times> inode \<times> ext2_fs) \<Rightarrow> ext2_fs \<Rightarrow> inode
     \<Rightarrow> int \<Rightarrow> u32 \<Rightarrow> (int \<times> inode \<times> ext2_fs) option" where
  "ext2_write_begin K M block_write_begin s ip pos len =
     (let (ret, ip, s) = block_write_begin ip s pos len in
      if ret < 0 then do { (ip, s) \<leftarrow> ext2_write_failed K M s ip (pos + uint len); Some (ret, ip, s) }
      else Some (ret, ip, s))"

definition ext2_write_end ::
  "kern \<Rightarrow> vm \<Rightarrow> (inode \<Rightarrow> ext2_fs \<Rightarrow> int \<Rightarrow> u32 \<Rightarrow> u32 \<Rightarrow> int \<times> inode \<times> ext2_fs) \<Rightarrow> ext2_fs \<Rightarrow> inode
     \<Rightarrow> int \<Rightarrow> u32 \<Rightarrow> u32 \<Rightarrow> (int \<times> inode \<times> ext2_fs) option" where
  "ext2_write_end K M generic_write_end s ip pos len copied =
     (let (ret, ip, s) = generic_write_end ip s pos len copied in
      if (of_int ret :: u32) < len
      then do { (ip, s) \<leftarrow> ext2_write_failed K M s ip (pos + uint len); Some (ret, ip, s) }
      else Some (ret, ip, s))"

definition ext2_direct_IO ::
  "kern \<Rightarrow> vm \<Rightarrow> (inode \<Rightarrow> ext2_fs \<Rightarrow> int \<Rightarrow> u64 \<Rightarrow> int \<times> inode \<times> ext2_fs) \<Rightarrow> bool \<Rightarrow> ext2_fs \<Rightarrow> inode
     \<Rightarrow> int \<Rightarrow> u64 \<Rightarrow> (int \<times> inode \<times> ext2_fs) option" where
  "ext2_direct_IO K M blockdev_direct_IO is_write s ip offset count =
     (let (ret, ip, s) = blockdev_direct_IO ip s offset count in
      if ret < 0 \<and> is_write
      then do { (ip, s) \<leftarrow> ext2_write_failed K M s ip (offset + uint count); Some (ret, ip, s) }
      else Some (ret, ip, s))"

section \<open>The inode on disk\<close>

text \<open>The fields of \<^verbatim>\<open>struct ext2_inode\<close> at their offsets in the 128 bytes of a slot.\<close>

definition get_raw :: "byte list \<Rightarrow> nat \<Rightarrow> ext2_inode" where
  "get_raw bs k = \<lparr> raw_mode = le16_at bs k, raw_uid = le16_at bs (k + 2),
     raw_size = le32_at bs (k + 4), raw_atime = le32_at bs (k + 8), raw_ctime = le32_at bs (k + 12),
     raw_mtime = le32_at bs (k + 16), raw_dtime = le32_at bs (k + 20), raw_gid = le16_at bs (k + 24),
     raw_links_count = le16_at bs (k + 26), raw_blocks = le32_at bs (k + 28),
     raw_flags = le32_at bs (k + 32),
     raw_block = map (\<lambda>n. le32_at bs (k + 40 + 4 * n)) [0..<EXT2_N_BLOCKS] \<rparr>"

definition put_blocks :: "u32 list \<Rightarrow> nat \<Rightarrow> byte list \<Rightarrow> byte list" where
  "put_blocks ns k bs = fold (\<lambda>(n, b). put_le32 b (k + 40 + 4 * n)) (enumerate 0 ns) bs"

definition ext2_get_inode ::
  "kern \<Rightarrow> ext2_fs \<Rightarrow> u64 \<Rightarrow> ((int + u64 \<times> nat) \<times> ext2_fs) option" where
  "ext2_get_inode K s ino =
     (let inodes_pg = s_inodes_per_group (sb_info s);
          inode_sz = scast (s_inode_size (sb_info s)) in
      if (ino \<noteq> EXT2_ROOT_INO \<and> ino < scast (s_first_ino (sb_info s)))
         \<or> ucast (es_inodes_count (sb_es s)) < ino
      then report (Inl (- EINVAL)) s
      else if inodes_pg = 0 then None
      else do {
        let block_group = (ino - 1) div inodes_pg;
        (gdp, s) \<leftarrow> ext2_get_group_desc ext2_error s (ucast block_group);
        (case gdp of None \<Rightarrow> report (Inl (- EIO)) s | Some p \<Rightarrow> do {
           d \<leftarrow> gd_at s p;
           let offset = ((ino - 1) mod inodes_pg) * inode_sz;
           let block = ucast (bg_inode_table d) + drop_bit (sb_blocksize_bits s) offset;
           (case sb_bread K s block of
              (None, s) \<Rightarrow> report (Inl (- EIO)) s
            | (Some bh, s) \<Rightarrow>
                Some (Inr (bh, unat (offset AND (sb_blocksize s - 1))), s)) }) })"

text \<open>
  Filling an inode from its slot. For a fast symlink the code uses \<^verbatim>\<open>ei\<close> before it is set:
  the access through the uninitialised pointer does not complete.
\<close>

definition fill_times :: "ext2_inode \<Rightarrow> inode \<Rightarrow> inode" where
  "fill_times raw ip = ip\<lparr>i_mode := raw_mode raw, i_uid := ucast (raw_uid raw),
     i_gid := ucast (raw_gid raw), i_nlink := ucast (raw_links_count raw),
     i_atime := sint (raw_atime raw), i_ctime := sint (raw_ctime raw),
     i_mtime := sint (raw_mtime raw), i_blocks := ucast (raw_blocks raw),
     i_size := uint (raw_size raw)\<rparr>"

definition fill_ops :: "vm \<Rightarrow> ext2_fs \<Rightarrow> ext2_inode \<Rightarrow> inode \<Rightarrow> inode option" where
  "fill_ops M s raw ip =
     (if S_ISREG (i_mode ip) then Some (ext2_set_file_ops M ip)
      else if S_ISDIR (i_mode ip)
      then Some (ip\<lparr>i_op := Ext2_dir_inode_ops, i_fop := Ext2_dir_ops,
             a_ops := (if test_opt s (mount_nobh M) then nobh_aops M else Ext2_aops)\<rparr>)
      else if S_ISLNK (i_mode ip)
      then (if ext2_inode_is_fast_symlink ip then None
            else Some (ip\<lparr>i_op := Page_symlink_ops, a_ops := Ext2_aops\<rparr>))
      else Some (init_special_inode M (ip\<lparr>i_op := Ext2_special_inode_ops\<rparr>) (i_mode ip)
             (if raw_block raw ! 0 \<noteq> 0 then old_decode_dev M (raw_block raw ! 0)
              else new_decode_dev M (raw_block raw ! 1))))"

definition fill_info :: "ext2_fs \<Rightarrow> u64 \<Rightarrow> ext2_inode \<Rightarrow> inode \<Rightarrow> inode" where
  "fill_info s ino raw ip =
     (let ip = ip\<lparr>ei_dtime := raw_dtime raw, ei_flags := raw_flags raw\<rparr>;
          ip = ext2_set_inode_flags ip
      in ip\<lparr>ei_dtime := 0, ei_state := 0,
            ei_block_group := ucast ((ino - 1) div s_inodes_per_group (sb_info s)),
            ei_data := raw_block raw\<rparr>)"

definition ext2_iget :: "kern \<Rightarrow> vm \<Rightarrow> ext2_fs \<Rightarrow> u64 \<Rightarrow> ((int + inode) \<times> ext2_fs) option" where
  "ext2_iget K M s ino =
     (case iget_locked M ino of
        None \<Rightarrow> Some (Inl (- ENOMEM), s)
      | Some (ip, is_new) \<Rightarrow>
          if \<not> is_new then Some (Inr ip, s)
          else do {
            (r, s) \<leftarrow> ext2_get_inode K s ino;
            (case r of Inl e \<Rightarrow> Some (Inl e, s) | Inr (bh, offset) \<Rightarrow> do {
               bs \<leftarrow> bcache s bh;
               let raw = get_raw bs offset;
               let ip = fill_times raw ip;
               if i_size ip < 0 then Some (Inl (- EUCLEAN), s)
               else do {
                 ip \<leftarrow> fill_ops M s raw ip;
                 Some (Inr (fill_info s ino raw ip), s) } }) })"

definition put_header :: "vm \<Rightarrow> inode \<Rightarrow> nat \<Rightarrow> byte list \<Rightarrow> byte list" where
  "put_header M ip k bs =
     put_le32 (ei_flags ip) (k + 32) (put_le32 (ei_dtime ip) (k + 20)
      (put_le32 (ucast (i_blocks ip)) (k + 28) (put_le32 (of_int (i_mtime ip)) (k + 16)
       (put_le32 (of_int (i_ctime ip)) (k + 12) (put_le32 (of_int (i_atime ip)) (k + 8)
        (put_le32 (of_int (i_size ip)) (k + 4) (put_le16 (ucast (i_nlink ip)) (k + 26)
         (put_le16 (high2low M (i_gid ip)) (k + 24) (put_le16 (high2low M (i_uid ip)) (k + 2)
          (put_le16 (i_mode ip) k bs))))))))))"

definition put_block_map :: "vm \<Rightarrow> inode \<Rightarrow> nat \<Rightarrow> byte list \<Rightarrow> byte list" where
  "put_block_map M ip k bs =
     (if S_ISCHR (i_mode ip) \<or> S_ISBLK (i_mode ip)
      then (if old_valid_dev M (i_rdev ip)
            then put_blocks [old_encode_dev M (i_rdev ip), 0] k bs
            else put_blocks [0, new_encode_dev M (i_rdev ip), 0] k bs)
      else put_blocks (ei_data ip) k bs)"

definition ext2_do_write_inode ::
  "kern \<Rightarrow> vm \<Rightarrow> ext2_fs \<Rightarrow> inode \<Rightarrow> bool \<Rightarrow> (int \<times> inode \<times> ext2_fs) option" where
  "ext2_do_write_inode K M s ip do_sync = do {
     (r, s) \<leftarrow> ext2_get_inode K s (i_ino ip);
     (case r of Inl e \<Rightarrow> Some (- EIO, ip, s) | Inr (bh, k) \<Rightarrow> do {
        bs \<leftarrow> bcache s bh;
        let bs = (if ei_state ip AND EXT2_STATE_NEW \<noteq> 0
                  then put_bytes (replicate (unat (s_inode_size (sb_info s))) 0) k bs else bs);
        let bs = put_block_map M ip k (put_header M ip k bs);
        let s = s\<lparr>bcache := (bcache s)(bh \<mapsto> bs)\<rparr>;
        let err = (if do_sync \<and> \<not> buffer_synced M bh then - EIO else 0);
        Some (err, ip\<lparr>ei_state := ei_state ip AND NOT EXT2_STATE_NEW\<rparr>, s) }) }"

section \<open>Deleting and resizing\<close>

definition inode_needs_sync :: "ext2_fs \<Rightarrow> inode \<Rightarrow> bool" where
  "inode_needs_sync s ip \<longleftrightarrow>
     (if sb_flags s AND SB_SYNCHRONOUS \<noteq> 0 \<or> i_flags ip AND S_SYNC \<noteq> 0 then True
      else S_ISDIR (i_mode ip) \<and> IS_DIRSYNC s ip)"

definition ext2_evict_inode :: "kern \<Rightarrow> vm \<Rightarrow> ext2_fs \<Rightarrow> inode \<Rightarrow> (inode \<times> ext2_fs) option" where
  "ext2_evict_inode K M s ip =
     (let want_delete = (i_nlink ip = 0 \<and> \<not> is_bad_inode M ip);
          ip = truncate_pages_final M ip
      in if \<not> want_delete then Some (ip, s)
         else do {
           let ip = ip\<lparr>ei_dtime := ucast (clock s)\<rparr>;
           (err, ip, s) \<leftarrow> ext2_do_write_inode K M s ip (inode_needs_sync s ip);
           let ip = ip\<lparr>i_size := 0\<rparr>;
           (ip, s) \<leftarrow> (if i_blocks ip \<noteq> 0 then ext2_truncate_blocks K s ip 0 else Some (ip, s));
           s \<leftarrow> ext2_free_inode K s ip;
           Some (ip, s) })"

definition ext2_write_inode ::
  "kern \<Rightarrow> vm \<Rightarrow> ext2_fs \<Rightarrow> inode \<Rightarrow> bool \<Rightarrow> (int \<times> inode \<times> ext2_fs) option" where
  "ext2_write_inode K M s ip sync_all = ext2_do_write_inode K M s ip sync_all"

definition ext2_setsize :: "kern \<Rightarrow> vm \<Rightarrow> ext2_fs \<Rightarrow> inode \<Rightarrow> int \<Rightarrow> (int \<times> inode \<times> ext2_fs) option" where
  "ext2_setsize K M s ip newsize =
     (if \<not> truncatable ip then Some (- EINVAL, ip, s)
      else if ext2_inode_is_fast_symlink ip then Some (- EINVAL, ip, s)
      else let (error, ip, s) = block_truncate_page M ip s newsize in
        if error \<noteq> 0 then Some (error, ip, s)
        else do {
          let ip = truncate_pagecache M newsize (ip\<lparr>i_size := newsize\<rparr>);
          (ip, s) \<leftarrow> ext2_truncate_blocks K s ip newsize;
          Some (0, ip\<lparr>i_mtime := uint (clock s), i_ctime := uint (clock s)\<rparr>, s) })"

abbreviation (input) ATTR_SIZE :: u32 where "ATTR_SIZE \<equiv> 8"

definition ext2_setattr :: "kern \<Rightarrow> vm \<Rightarrow> ext2_fs \<Rightarrow> inode \<Rightarrow> iattr \<Rightarrow> (int \<times> inode \<times> ext2_fs) option" where
  "ext2_setattr K M s ip attr =
     (let error = setattr_prepare M ip attr in
      if error \<noteq> 0 then Some (error, ip, s)
      else do {
        (error, ip, s) \<leftarrow> (if ia_valid attr AND ATTR_SIZE \<noteq> 0 \<and> ia_size attr \<noteq> i_size ip
           then ext2_setsize K M s ip (ia_size attr) else Some (0, ip, s));
        if error \<noteq> 0 then Some (error, ip, s)
        else Some (error, setattr_copy M attr ip, s) })"

abbreviation (input) STATX_ATTRS :: u64 where
  "STATX_ATTRS \<equiv> 0x20 OR 0x10 OR 0x40"

text \<open>\<open>generic_fillattr\<close> fills the rest of the caller's \<^verbatim>\<open>struct kstat\<close>.\<close>

definition ext2_getattr :: "(inode \<Rightarrow> 'st \<Rightarrow> 'st) \<Rightarrow> inode \<Rightarrow> u64 \<times> 'st \<Rightarrow> int \<times> u64 \<times> 'st" where
  "ext2_getattr generic_fillattr ip stat =
     (case stat of (attributes_mask, st) \<Rightarrow>
        (0, attributes_mask OR STATX_ATTRS, generic_fillattr ip st))"

end
