(* ===== verification/Inode_Blocks.thy ===== *)
theory Inode_Blocks
  imports Inode Balloc_Thms
begin

text \<open>
  The blocks of a file: mapping a block never hands out one that is in use, and truncating
  a file gives back exactly the blocks behind its new end.
\<close>

section \<open>Mapping\<close>

definition file_blocks :: "inode \<Rightarrow> nat set \<Rightarrow> nat set" where
  "file_blocks ip A = {unat (ei_data ip ! i) | i. i \<in> A \<and> ei_data ip ! i \<noteq> 0}"

definition file_ok :: "ext2_fs \<Rightarrow> inode \<Rightarrow> bool" where
  "file_ok s ip \<longleftrightarrow> length (ei_data ip) = EXT2_N_BLOCKS \<and>
     (\<forall>i < 12. \<forall>j < 12. ei_data ip ! i \<noteq> 0 \<longrightarrow> ei_data ip ! i = ei_data ip ! j \<longrightarrow> i = j) \<and>
     file_blocks ip {..<12} \<subseteq> used_blocks s"

text \<open>Block 0 is never handed out: it lies in front of the first data block or is in use.\<close>

definition boot_used :: "ext2_fs \<Rightarrow> bool" where
  "boot_used s \<longleftrightarrow> 0 < fdb s \<or> 0 \<in> used_blocks s"

lemma file_blocks_less: "b \<in> file_blocks ip A \<Longrightarrow> b < 2 ^ 32"
  using unat_less_32 by (auto simp: file_blocks_def)

lemma file_ok_frame: "alloc_frame s t \<Longrightarrow> file_ok t ip = file_ok s ip"
  by (simp add: file_ok_def used_blocks_frame)

lemma granted_one:
  assumes "granted s b 1 s'" "boot_used s"
  shows "b \<notin> used_blocks s" "b \<noteq> 0" "b < 2 ^ 32" "used_blocks s' = insert b (used_blocks s)"
    "balloc_inv s'"
  using assms total_blocks_less [of s] by (cases "b = 0"; auto simp: granted_def boot_used_def)+

lemma file_ok_put:
  assumes ok: "file_ok s ip" and i: "i < 12" and hole: "ei_data ip ! i = 0"
    and b: "b \<notin> used_blocks s" "b \<noteq> 0" "b < 2 ^ 32" and used: "used_blocks s' = insert b (used_blocks s)"
  shows "file_ok s' (ip\<lparr>ei_data := (ei_data ip)[i := of_nat b], i_blocks := n\<rparr>)"
proof -
  let ?d = "ei_data ip" and ?w = "of_nat b :: u32"
  have len: "length ?d = 15" using ok by (simp add: file_ok_def)
  have w: "unat ?w = b" using b(3) by (simp add: unsigned_of_nat take_bit_nat_eq_self)
  have inj: "\<And>j k. j < 12 \<Longrightarrow> k < 12 \<Longrightarrow> ?d ! j \<noteq> 0 \<Longrightarrow> ?d ! j = ?d ! k \<Longrightarrow> j = k"
    and sub: "\<And>j. j < 12 \<Longrightarrow> ?d ! j \<noteq> 0 \<Longrightarrow> unat (?d ! j) \<in> used_blocks s"
    using ok by (auto simp: file_ok_def file_blocks_def)
  have new: "?d ! j \<noteq> ?w" if "j < 12" for j
  proof
    assume e: "?d ! j = ?w"
    then have "?d ! j \<noteq> 0" using w b(2) by (metis unat_0)
    from sub [OF that this] e w b(1) show False by simp
  qed
  have "\<forall>j < 12. \<forall>k < 12. ?d[i := ?w] ! j \<noteq> 0 \<longrightarrow> ?d[i := ?w] ! j = ?d[i := ?w] ! k \<longrightarrow> j = k"
    using inj new len i by (auto simp: nth_list_update) (metis new)+
  moreover have "file_blocks (ip\<lparr>ei_data := ?d[i := ?w], i_blocks := n\<rparr>) {..<12} \<subseteq> used_blocks s'"
    using sub len i w by (auto simp: file_blocks_def used nth_list_update)
  ultimately show ?thesis using len by (simp add: file_ok_def)
qed

lemma get_blocks_hole:
  assumes inv: "balloc_inv s" and K: "bitops_ok K" and ok: "file_ok s ip" and boot: "boot_used s"
    and g: "unat (ei_block_group ip) < n_groups s"
    and run: "ext2_get_blocks K (\<lambda>_. 0) s ip iblock bno new create = Some ((ret, b, new'), ip', s')"
    and low: "unat iblock < 12" and hole: "ei_data ip ! unat iblock = 0" and cr: create
  shows "balloc_inv s' \<and> file_ok s' ip' \<and> ret \<noteq> 0 \<and>
     (ret \<le> 0 \<longrightarrow> ip' = ip \<and> used_blocks s' = used_blocks s) \<and>
     (0 < ret \<longrightarrow> ret = 1 \<and> ei_data ip' ! unat iblock = b \<and> b \<noteq> 0 \<and> new' \<and>
        granted s (unat b) 1 s' \<and>
        ip' = ip\<lparr>ei_data := (ei_data ip)[unat iblock := b], i_blocks := i_blocks ip + sb_blocksize s' div 512\<rparr>)"
proof -
  obtain resb errp count t where nb: "ext2_new_blocks K (\<lambda>_. 0) s (ei_block_group ip) 1 =
      Some ((resb, errp, count), t)"
    using run low hole cr by (auto simp: ext2_get_blocks_def Let_def bind_Some_iff)
  note res = ext2_new_blocks_result [OF inv K _ g nb]
  show ?thesis
  proof (cases "errp < 0")
    case True
    then have "alloc_frame s t" using res by auto
    moreover have "ret = errp" "ip' = ip" "s' = t"
      using run low hole cr True nb by (simp_all add: ext2_get_blocks_def Let_def)
    ultimately show ?thesis
      using True inv ok by (simp add: alloc_frame_views file_ok_frame used_blocks_frame)
  next
    case False
    then have gr: "0 < unat count" "unat count \<le> 1" "granted s (unat resb) (unat count) t" using res by auto
    then have c: "count = 1" by (metis Suc_leI le_antisym One_nat_def unat_1 word_unat_eq_iff)
    note g1 = granted_one [OF gr(3) [unfolded c unat_1] boot]
    have w: "(ucast resb :: u32) = of_nat (unat resb)" by simp
    have u: "unat (ucast resb :: u32) = unat resb"
      using g1(3) by (simp add: unsigned_ucast_eq take_bit_nat_eq_self)
    have f: "ret = 1" "b = ucast resb" "new'" "s' = t"
      "ip' = ip\<lparr>ei_data := (ei_data ip)[unat iblock := ucast resb], i_blocks := i_blocks ip + sb_blocksize s' div 512\<rparr>"
      using run low hole cr False nb by (auto simp: ext2_get_blocks_def Let_def c)
    have "file_ok t ip'"
      unfolding f(5) w by (rule file_ok_put [OF ok low hole g1(1-4)])
    moreover have "b \<noteq> 0" using u g1(2) f(2) by (metis unat_0)
    moreover have "unat iblock < length (ei_data ip)" using ok low by (simp add: file_ok_def)
    ultimately show ?thesis
      using g1(5) f gr(3) low hole cr u by (simp add: c)
  qed
qed

lemma get_blocks_result:
  assumes inv: "balloc_inv s" and K: "bitops_ok K" and ok: "file_ok s ip" and boot: "boot_used s"
    and g: "unat (ei_block_group ip) < n_groups s"
    and run: "ext2_get_blocks K (\<lambda>_. 0) s ip iblock bno new create = Some ((ret, b, new'), ip', s')"
  shows "balloc_inv s' \<and> file_ok s' ip' \<and>
     (ret \<le> 0 \<longrightarrow> ip' = ip \<and> used_blocks s' = used_blocks s) \<and>
     (ret = 0 \<longleftrightarrow> unat iblock < 12 \<and> ei_data ip ! unat iblock = 0 \<and> \<not> create) \<and>
     (0 < ret \<longrightarrow> ret = 1 \<and> unat iblock < 12 \<and> ei_data ip' ! unat iblock = b \<and> b \<noteq> 0 \<and>
        (if ei_data ip ! unat iblock \<noteq> 0 then ip' = ip \<and> s' = s
         else create \<and> new' \<and> granted s (unat b) 1 s' \<and>
           ip' = ip\<lparr>ei_data := (ei_data ip)[unat iblock := b], i_blocks := i_blocks ip + sb_blocksize s' div 512\<rparr>))"
proof (cases "unat iblock < 12")
  case False
  with run have "ret = - EIO" "ip' = ip" "s' = s" by (simp_all add: ext2_get_blocks_def)
  with inv ok False show ?thesis by simp
next
  case True
  show ?thesis
  proof (cases "ei_data ip ! unat iblock = 0")
    case False
    then have "0 < ei_data ip ! unat iblock" by (simp add: word_neq_0_conv)
    with True run have "ret = 1" "b = ei_data ip ! unat iblock" "ip' = ip" "s' = s"
      by (auto simp: ext2_get_blocks_def Let_def)
    with inv ok True False show ?thesis by simp
  next
    case hole: True
    show ?thesis
    proof (cases create)
      case False
      with True hole run have "ret = 0" "ip' = ip" "s' = s"
        by (simp_all add: ext2_get_blocks_def Let_def)
      with inv ok True False hole show ?thesis by simp
    next
      case cr: True
      have "unat iblock < length (ei_data ip)" using ok True by (simp add: file_ok_def)
      with get_blocks_hole [OF inv K ok boot g run True hole cr] True hole cr show ?thesis by simp
    qed
  qed
qed

section \<open>Truncation\<close>

text \<open>A block of group \<open>g\<close> that holds data: none of the blocks the checks of \<^verbatim>\<open>balloc.c\<close> protect.\<close>

definition data_block :: "ext2_fs \<Rightarrow> nat \<Rightarrow> nat \<Rightarrow> bool" where
  "data_block s g b \<longleftrightarrow> fdb s < b \<and> b < total_blocks s \<and> b \<noteq> unat (s_sb_block (sb_info s)) \<and>
     b \<noteq> unat (bg_block_bitmap (desc_of s g)) \<and> b \<noteq> unat (bg_inode_bitmap (desc_of s g)) \<and>
     \<not> in_range (of_nat b) (ucast (bg_inode_table (desc_of s g))) (s_itb_per_group (sb_info s)) \<and>
     group_first s g \<le> b \<and> b < group_first s g + group_blocks s g"

lemma in_run:
  assumes "c > 0" "b + c < 2 ^ 33"
  shows "in_range x (of_nat b) (of_nat c) \<longleftrightarrow> b \<le> unat x \<and> unat x < b + c"
proof -
  have "unat (of_nat b :: u64) = b" "unat (of_nat c :: u64) = c" using assms(2) by (simp_all add: unat_of_nat_64)
  then have "unat (of_nat b + of_nat c - 1 :: u64) = b + c - 1"
    using assms by (simp add: unat_sub_64 unat_add_64)
  with \<open>unat (of_nat b :: u64) = b\<close> show ?thesis
    using assms(1) by (auto simp: in_range_def word_le_nat_alt)
qed

lemma run_valid:
  assumes c: "0 < c" "c \<le> 12" and d: "\<forall>x \<in> {b..<b + c}. data_block s g x"
  shows "ext2_data_blocks_valid s (of_nat b) (of_nat c)"
    and "ext2_data_blocks_valid_bg (desc_of s g) (sb_info s) (of_nat b) (of_nat c)"
    and "group_first s g \<le> b" "b - group_first s g + c \<le> group_blocks s g" "b + c < 2 ^ 33"
proof -
  have db: "data_block s g b" "data_block s g (b + c - 1)" using d c by simp_all
  have small: "b + c < 2 ^ 33" using db(1) c total_blocks_less [of s] by (simp add: data_block_def)
  then show "b + c < 2 ^ 33" .
  have uc: "(ucast (of_nat c :: u32) :: u64) = of_nat c"
    using c by (simp add: word_unat_eq_iff unsigned_of_nat unsigned_ucast_eq take_bit_nat_eq_self)
  have ub: "unat (of_nat b :: u64) = b" using small by (simp add: unat_of_nat_64)
  have wc: "unat (of_nat c :: u64) = c" using c by (simp add: unat_of_nat_64)
  obtain B E :: u64 where B: "B = of_nat b" and E: "E = of_nat (b + c - 1)" by blast
  have e: "B + of_nat c - 1 = E" unfolding B E using c by (simp add: of_nat_diff)
  have ue: "unat E = b + c - 1" unfolding E using small by (intro unat_of_nat_64) simp
  have uB: "unat B = b" using ub B by simp
  have not_meta: "\<not> (b \<le> unat x \<and> unat x < b + c)" if "\<And>y. data_block s g y \<Longrightarrow> y \<noteq> unat x" for x :: "'w::len word"
    using d that [of "unat x"] by auto
  have sb: "\<not> (b \<le> unat (s_sb_block (sb_info s)) \<and> unat (s_sb_block (sb_info s)) < b + c)"
    by (rule not_meta) (simp add: data_block_def)
  then show "ext2_data_blocks_valid s (of_nat b) (of_nat c)"
    using db c unfolding ext2_data_blocks_valid_def uc Let_def B [symmetric] e
    by (simp add: word_less_nat_alt word_le_nat_alt uB ue data_block_def fdb_def total_blocks_def) linarith
  have bm: "\<not> in_range (ucast (bg_block_bitmap (desc_of s g))) (of_nat b) (of_nat c)"
      "\<not> in_range (ucast (bg_inode_bitmap (desc_of s g))) (of_nat b) (of_nat c)"
    unfolding in_run [OF c(1) small] unat_ucast_32_64
    by (rule not_meta, simp add: data_block_def)+
  moreover have "\<not> in_range B (ucast (bg_inode_table (desc_of s g))) (s_itb_per_group (sb_info s))"
      "\<not> in_range E (ucast (bg_inode_table (desc_of s g))) (s_itb_per_group (sb_info s))" "\<not> E < B"
    using db c uB ue by (simp_all add: data_block_def B E word_less_nat_alt)
  ultimately show "ext2_data_blocks_valid_bg (desc_of s g) (sb_info s) (of_nat b) (of_nat c)"
    unfolding ext2_data_blocks_valid_bg_def uc Let_def B [symmetric] e by simp
  show "group_first s g \<le> b" "b - group_first s g + c \<le> group_blocks s g"
    using db c by (auto simp: data_block_def)
qed

definition free_ready :: "kern \<Rightarrow> nat \<Rightarrow> ext2_fs \<Rightarrow> bool" where
  "free_ready K g s \<longleftrightarrow> balloc_inv s \<and> bitops_ok K \<and> bitmaps_cached K s \<and>
     \<not> test_opt s EXT2_MOUNT_ERRORS_PANIC \<and> g < n_groups s"

lemma meta_put_bitmap:
  assumes "descs_loaded s" "g < n_groups s" "h < n_groups s"
  shows "bg_block_bitmap (desc_of (put_bitmap s g cs d) h) = bg_block_bitmap (desc_of s h)"
    "bg_inode_bitmap (desc_of (put_bitmap s g cs d) h) = bg_inode_bitmap (desc_of s h)"
    "bg_inode_table (desc_of (put_bitmap s g cs d) h) = bg_inode_table (desc_of s h)"
  by (simp_all add: desc_of_put_bitmap [OF assms])

lemma put_bitmap_info [simp]:
  "s_sb_block (sb_info (put_bitmap s g cs d)) = s_sb_block (sb_info s)"
  "s_itb_per_group (sb_info (put_bitmap s g cs d)) = s_itb_per_group (sb_info s)"
  by (simp_all add: put_bitmap_def group_update_free_blocks_def Let_def)

lemma free_run_step:
  assumes r: "free_ready K g s" and c: "0 < c" "c \<le> 12" and d: "\<forall>x \<in> {b..<b + c}. data_block s g x"
    and used: "{b..<b + c} \<subseteq> used_blocks s"
  shows "\<exists>s'. free_run K (of_nat b) (of_nat c) ip s =
      Some (ip\<lparr>i_blocks := i_blocks ip - (of_nat c * sb_blocksize s) div 512\<rparr>, s') \<and>
     free_ready K g s' \<and> released s b c s' \<and> data_block s' g = data_block s g \<and>
     sb_blocksize s' = sb_blocksize s"
proof -
  note v = run_valid [OF c d]
  have ub: "unat (of_nat b :: u64) = b" "unat (of_nat c :: u64) = c"
    using v(5) by (simp_all add: unat_of_nat_64)
  have uc: "(ucast (of_nat c :: u64) :: u32) = of_nat c" by (rule ucast_of_nat_32)
  have rd: "balloc_inv s" "bitops_ok K" "bitmaps_cached K s" "\<not> test_opt s EXT2_MOUNT_ERRORS_PANIC" "g < n_groups s"
    using r by (simp_all add: free_ready_def)
  have pos: "unat (of_nat b :: u64) = group_first s g + (b - group_first s g)" using v(3) ub by simp
  obtain s' t cs \<delta> where f: "ext2_free_blocks K s (i_blocks ip) (of_nat b) (of_nat c) =
       Some (i_blocks ip - (of_nat (card (used_blocks s \<inter> {b..<b + c})) * sb_blocksize s) div 512, s')"
     "released s b c s'" "alloc_frame s t" "s' = put_bitmap t g cs \<delta>"
    using free_blocks_result [OF rd(1,2,3,4,5) _ pos, of "of_nat c" "i_blocks ip"] v(1,2,4) unfolding ub uc by blast
  have t: "balloc_inv t" "g < n_groups t" "test_opt t = test_opt s" "bitmaps_cached K t" "descs_loaded t"
    using rd alloc_frame_views [OF f(3)] alloc_frame_info [OF f(3)] cached_frame [OF f(3) rd(3)]
      balloc_invD(2) [OF rd(1)] by (simp_all add: test_opt_def fun_eq_iff)
  have "free_ready K g s'"
    using f(2) rd t put_bitmap_cached [OF t(1,2,4)] by (simp add: free_ready_def released_def f(4))
  moreover have "data_block s' g = data_block s g"
    using alloc_frame_views [OF f(3)] alloc_frame_info [OF f(3)] meta_put_bitmap [OF t(5,2,2)]
    by (simp add: fun_eq_iff data_block_def f(4))
  moreover have "sb_blocksize s' = sb_blocksize s" using alloc_frame_info [OF f(3)] by (simp add: f(4))
  moreover have "card (used_blocks s \<inter> {b..<b + c}) = c" using used by (simp add: Int_absorb1)
  ultimately show ?thesis using f(1,2) by (simp add: free_run_def)
qed

text \<open>\<^verbatim>\<open>ext2_free_data\<close> from a point of its loop on, with a run of \<open>c\<close> blocks still to be freed.\<close>

definition drain :: "kern \<Rightarrow> nat list \<Rightarrow> u64 \<Rightarrow> u64 \<Rightarrow> inode \<Rightarrow> ext2_fs \<Rightarrow> (inode \<times> ext2_fs) option" where
  "drain K ps blk cnt ip s = do {
     ((block_to_free, count), ip, s) \<leftarrow> free_data_loop K ps blk cnt ip s;
     if 0 < count then free_run K block_to_free count ip s else Some (ip, s) }"

lemma free_data_drain: "ext2_free_data K ps ip s = drain K ps 0 0 ip s"
  by (simp add: ext2_free_data_def drain_def)

lemma drain_Nil: "drain K [] blk cnt ip s = (if 0 < cnt then free_run K blk cnt ip s else Some (ip, s))"
  by (simp add: drain_def)

lemma drain_Cons:
  "drain K (p # ps) blk cnt ip s =
     (let nr = ucast (ei_data ip ! p); ip' = ip\<lparr>ei_data := (ei_data ip)[p := 0]\<rparr> in
      if nr = 0 then drain K ps blk cnt ip s
      else if cnt = 0 then drain K ps nr 1 ip' s
      else if blk = nr - cnt then drain K ps blk (cnt + 1) ip' s
      else do { (ip, s) \<leftarrow> free_run K blk cnt ip' s; drain K ps nr 1 ip s })"
  by (cases "free_run K blk cnt (ip\<lparr>ei_data := (ei_data ip)[p := 0]\<rparr>) s")
    (auto simp: drain_def Let_def)

definition zeroed :: "nat list \<Rightarrow> u32 list \<Rightarrow> u32 list" where
  "zeroed ps ds = fold (\<lambda>p ds. ds[p := 0]) ps ds"

definition drained :: "kern \<Rightarrow> nat \<Rightarrow> ext2_fs \<Rightarrow> inode \<Rightarrow> nat list \<Rightarrow> nat set \<Rightarrow> (inode \<times> ext2_fs) option \<Rightarrow> bool" where
  "drained K g s ip ps B res \<longleftrightarrow> (\<exists>s'. res = Some (ip\<lparr>ei_data := zeroed ps (ei_data ip),
       i_blocks := i_blocks ip - of_nat (card B * (unat (sb_blocksize s) div 512))\<rparr>, s') \<and>
     free_ready K g s' \<and> used_blocks s' = used_blocks s - B \<and> sb_blocksize s' = sb_blocksize s)"

text \<open>What a point of the loop relies on: \<open>R\<close> is the pending run, \<open>ps\<close> the indices to come.\<close>

definition drain_pre :: "kern \<Rightarrow> nat \<Rightarrow> ext2_fs \<Rightarrow> inode \<Rightarrow> nat list \<Rightarrow> nat set \<Rightarrow> bool" where
  "drain_pre K g s ip ps R \<longleftrightarrow> free_ready K g s \<and> 512 dvd unat (sb_blocksize s) \<and> distinct ps \<and>
     (\<forall>p \<in> set ps. p < length (ei_data ip)) \<and>
     (\<forall>x \<in> R \<union> file_blocks ip (set ps). data_block s g x \<and> x \<in> used_blocks s) \<and>
     (\<forall>p \<in> set ps. \<forall>q \<in> set ps. ei_data ip ! p \<noteq> 0 \<longrightarrow> ei_data ip ! p = ei_data ip ! q \<longrightarrow> p = q) \<and>
     R \<inter> file_blocks ip (set ps) = {}"

lemma file_blocks_finite [simp]: "finite (file_blocks ip (set ps))"
proof -
  have "file_blocks ip (set ps) \<subseteq> (\<lambda>i. unat (ei_data ip ! i)) ` set ps" by (auto simp: file_blocks_def)
  then show ?thesis by (rule finite_subset) simp
qed

lemma file_blocks_upd:
  "p \<notin> A \<Longrightarrow> file_blocks (ip\<lparr>ei_data := (ei_data ip)[p := 0]\<rparr>) A = file_blocks ip A"
  "file_blocks (ip\<lparr>i_blocks := n\<rparr>) A = file_blocks ip A"
  "file_blocks (ip\<lparr>ei_data := ds, i_blocks := n\<rparr>) A = file_blocks (ip\<lparr>ei_data := ds\<rparr>) A"
  by (auto simp: file_blocks_def nth_list_update) (metis nth_list_update_neq)+

lemma file_blocks_insert:
  "file_blocks ip (insert p A) = (if ei_data ip ! p = 0 then {} else {unat (ei_data ip ! p)}) \<union> file_blocks ip A"
  by (auto simp: file_blocks_def)

lemma run_iblocks:
  assumes "c \<le> 12" "512 dvd unat (bs :: u64)" "unat bs \<le> 4096"
  shows "(of_nat c * bs) div 512 = of_nat (c * (unat bs div 512))"
proof -
  have "c * unat bs \<le> 12 * 4096" using assms(1,3) by (rule mult_le_mono)
  then have small: "c * unat bs < 2 ^ 64" by simp
  have "unat (of_nat c * bs) = c * unat bs"
    using small assms(1) by (simp add: unat_mult_64 unat_of_nat_64)
  then have "unat ((of_nat c * bs) div 512) = c * unat bs div 512" by (simp add: unat_div_distrib)
  also have "... = c * (unat bs div 512)" using assms(2) by (simp add: div_mult_swap)
  finally have u: "unat ((of_nat c * bs) div 512) = c * (unat bs div 512)" .
  have "(of_nat c * bs) div 512 = of_nat (unat ((of_nat c * bs) div 512))" by simp
  then show ?thesis unfolding u .
qed

lemma drain_run:
  assumes pre: "drain_pre K g s ip ps {b..<b + c}" and c: "0 < c" "c \<le> 12"
  shows "\<exists>s'. free_run K (of_nat b) (of_nat c) ip' s =
      Some (ip'\<lparr>i_blocks := i_blocks ip' - of_nat (c * (unat (sb_blocksize s) div 512))\<rparr>, s') \<and>
     free_ready K g s' \<and> used_blocks s' = used_blocks s - {b..<b + c} \<and> data_block s' g = data_block s g \<and>
     sb_blocksize s' = sb_blocksize s"
proof -
  have r: "free_ready K g s" "512 dvd unat (sb_blocksize s)"
    and d: "\<forall>x \<in> {b..<b + c}. data_block s g x" "{b..<b + c} \<subseteq> used_blocks s"
    using pre by (auto simp: drain_pre_def)
  have "unat (sb_blocksize s) \<le> 4096" using r(1) geom_okD(6) by (simp add: free_ready_def balloc_inv_def)
  note ib = run_iblocks [OF c(2) r(2) this]
  from free_run_step [OF r(1) c d, of ip'] show ?thesis unfolding ib by (auto simp: released_def)
qed

text \<open>The next index holds a block: what is known of it, and of the rest without it.\<close>

lemma drain_pre_head:
  fixes ip :: inode
  assumes "drain_pre K g s ip (p # ps) R" "ei_data ip ! p \<noteq> 0"
  defines "n \<equiv> unat (ei_data ip ! p)" and "ip' \<equiv> ip\<lparr>ei_data := (ei_data ip)[p := 0]\<rparr>"
  shows "n \<notin> R" "n \<notin> file_blocks ip (set ps)" "file_blocks ip (insert p (set ps)) = insert n (file_blocks ip (set ps))"
    "file_blocks ip' (set ps) = file_blocks ip (set ps)" "data_block s g n" "n \<in> used_blocks s"
    "drain_pre K g s ip' ps R" "drain_pre K g s ip' ps (insert n R)" "drain_pre K g s ip' ps {n}"
proof -
  note pre = assms(1) [unfolded drain_pre_def]
  have p: "p \<notin> set ps" "p < length (ei_data ip)" using pre by simp_all
  show fb: "file_blocks ip' (set ps) = file_blocks ip (set ps)" unfolding ip'_def using p(1) by (rule file_blocks_upd)
  show ins: "file_blocks ip (insert p (set ps)) = insert n (file_blocks ip (set ps))"
    using assms(2) by (auto simp: file_blocks_insert n_def)
  show R: "n \<notin> R" and data: "data_block s g n" "n \<in> used_blocks s" using pre ins by auto
  show fresh: "n \<notin> file_blocks ip (set ps)"
  proof
    assume "n \<in> file_blocks ip (set ps)"
    then obtain q where "q \<in> set ps" "ei_data ip ! p = ei_data ip ! q"
      by (auto simp: file_blocks_def n_def word_unat_eq_iff)
    with pre assms(2) p(1) show False by auto
  qed
  have keep: "\<forall>q \<in> set ps. q < length (ei_data ip')"
    "\<forall>q \<in> set ps. \<forall>r \<in> set ps. ei_data ip' ! q \<noteq> 0 \<longrightarrow> ei_data ip' ! q = ei_data ip' ! r \<longrightarrow> q = r"
    using pre p(1) by (auto simp: nth_list_update ip'_def)
  show "drain_pre K g s ip' ps R" "drain_pre K g s ip' ps (insert n R)" "drain_pre K g s ip' ps {n}"
    using pre keep fresh data ins fb unfolding drain_pre_def by auto
qed

lemma drain_words:
  assumes "(nr :: u32) \<noteq> 0" "b + c < 2 ^ 33"
  shows "(ucast nr :: u64) = of_nat (unat nr)" "(of_nat (unat nr) :: u64) \<noteq> 0"
    "(of_nat b :: u64) = of_nat (unat nr) - of_nat c \<longleftrightarrow> unat nr = b + c"
proof -
  let ?n = "unat nr"
  have n64: "unat (of_nat ?n :: u64) = ?n" using unat_less_32 [of nr] by (intro unat_of_nat_64) simp
  then show "(ucast nr :: u64) = of_nat ?n" "(of_nat ?n :: u64) \<noteq> 0"
    using assms(1) by (simp_all add: word_unat_eq_iff)
  have "(of_nat b :: u64) = of_nat ?n - of_nat c \<longleftrightarrow> (of_nat (b + c) :: u64) = of_nat ?n"
    by (auto simp: algebra_simps)
  also have "... \<longleftrightarrow> b + c = ?n"
    using assms(2) unat_less_32 [of nr] by (simp only: word_unat_eq_iff) (simp add: unat_of_nat_64 del: of_nat_add)
  finally show "(of_nat b :: u64) = of_nat ?n - of_nat c \<longleftrightarrow> ?n = b + c" by auto
qed

text \<open>A block that does not follow the pending run: the run is freed, and the block starts another.\<close>

lemma drain_flush:
  fixes ip :: inode
  assumes pre: "drain_pre K g s ip (p # ps) {b..<b + c}" and nz: "ei_data ip ! p \<noteq> 0" and c: "0 < c" "c \<le> 12"
    and gap: "unat (ei_data ip ! p) \<noteq> b + c"
    and rest: "\<And>ip s. drain_pre K g s ip ps {n} \<Longrightarrow>
      drained K g s ip ps ({n} \<union> file_blocks ip (set ps)) (drain K ps (of_nat n) 1 ip s)"
    and n: "n = unat (ei_data ip ! p)"
  shows "drained K g s ip (p # ps) ({b..<b + c} \<union> file_blocks ip (set (p # ps))) (drain K (p # ps) (of_nat b) (of_nat c) ip s)"
proof -
  let ?n = "unat (ei_data ip ! p)" and ?R = "{b..<b + c}" and ?ip = "ip\<lparr>ei_data := (ei_data ip)[p := 0]\<rparr>"
  let ?F = "file_blocks ip (set ps)"
  note h = drain_pre_head [OF pre nz]
  note p0 = h(7) [unfolded drain_pre_def h(4)]
  have "\<forall>x \<in> ?R. data_block s g x" using p0 by auto
  note w = drain_words [OF nz run_valid(5) [OF c this]]
  have cw: "(of_nat c :: u64) \<noteq> 0" using c by (simp add: word_unat_eq_iff unat_of_nat_64)
  obtain s1 where s1: "free_run K (of_nat b) (of_nat c) ?ip s =
      Some (?ip\<lparr>i_blocks := i_blocks ip - of_nat (c * (unat (sb_blocksize s) div 512))\<rparr>, s1)"
    "free_ready K g s1" "used_blocks s1 = used_blocks s - ?R" "data_block s1 g = data_block s g"
    "sb_blocksize s1 = sb_blocksize s"
    using drain_run [OF h(7) c, of ?ip] by auto
  let ?ip1 = "?ip\<lparr>i_blocks := i_blocks ip - of_nat (c * (unat (sb_blocksize s) div 512))\<rparr>"
  have fb1: "file_blocks ?ip1 (set ps) = ?F" using h(4) by (simp add: file_blocks_upd(2))
  have pre1: "drain_pre K g s1 ?ip1 ps {?n}"
    unfolding drain_pre_def fb1
  proof (intro conjI)
    show "\<forall>x \<in> {?n} \<union> ?F. data_block s1 g x \<and> x \<in> used_blocks s1"
      using p0 h(1,5,6) by (auto simp: s1(3,4))
    show "{?n} \<inter> ?F = {}" using h(2) by simp
  qed (use s1(2,5) p0 in simp_all)
  have "drain K (p # ps) (of_nat b) (of_nat c) ip s = drain K ps (of_nat ?n) 1 ?ip1 s1"
    using w gap cw s1(1) nz by (simp add: drain_Cons Let_def)
  moreover have "card (?R \<union> insert ?n ?F) = c + card (insert ?n ?F)"
    using p0 h(1) by (subst card_Un_disjoint) auto
  moreover from rest [unfolded n, OF pre1] obtain s2 where s2: "drain K ps (of_nat ?n) 1 ?ip1 s1 =
      Some (?ip1\<lparr>ei_data := zeroed ps (ei_data ?ip1), i_blocks := i_blocks ?ip1 -
        of_nat (card ({?n} \<union> ?F) * (unat (sb_blocksize s1) div 512))\<rparr>, s2)"
    "free_ready K g s2" "used_blocks s2 = used_blocks s1 - ({?n} \<union> ?F)" "sb_blocksize s2 = sb_blocksize s1"
    unfolding drained_def fb1 by (elim exE conjE) (rule that)
  moreover have "used_blocks s2 = used_blocks s - (?R \<union> insert ?n ?F)" unfolding s2(3) s1(3) by auto
  ultimately show ?thesis
    by (simp add: drained_def zeroed_def h(3) s1(5) add_mult_distrib)
qed

lemma drained_Nil:
  assumes pre: "drain_pre K g s ip [] {b..<b + c}" and c: "c \<le> 12"
  shows "drained K g s ip [] {b..<b + c} (drain K [] (of_nat b) (of_nat c) ip s)"
proof (cases "c = 0")
  case True
  with pre show ?thesis by (simp add: drained_def drain_Nil zeroed_def drain_pre_def)
next
  case False
  then have c0: "0 < c" by simp
  have w: "0 < (of_nat c :: u64)" using c0 c by (simp add: word_less_nat_alt unat_of_nat_64)
  from drain_run [OF pre c0 c, of ip] w show ?thesis
    by (auto simp: drained_def drain_Nil zeroed_def)
qed

lemma drain_result:
  assumes "drain_pre K g s ip ps {b..<b + c}" "c + length ps \<le> 12"
  shows "drained K g s ip ps ({b..<b + c} \<union> file_blocks ip (set ps)) (drain K ps (of_nat b) (of_nat c) ip s)"
  using assms
proof (induction ps arbitrary: b c ip s)
  case Nil
  then show ?case using drained_Nil by (simp add: file_blocks_def)
next
  case (Cons p ps)
  let ?nr = "ei_data ip ! p" and ?R = "{b..<b + c}"
  let ?n = "unat ?nr"
  have one: "{?n..<?n + 1} = {?n}" by auto
  note rest = Cons.IH [of _ _ ?n 1, unfolded one, simplified]
  consider (zero) "?nr = 0" | (first) "?nr \<noteq> 0" "c = 0" | (extend) "?nr \<noteq> 0" "0 < c" "?n = b + c"
    | (flush) "?nr \<noteq> 0" "0 < c" "?n \<noteq> b + c" by blast
  then show ?case
  proof cases
    case zero
    have pre: "drain_pre K g s ip ps ?R" "p < length (ei_data ip)"
      using Cons.prems(1) zero by (simp_all add: drain_pre_def file_blocks_insert)
    have "zeroed (p # ps) (ei_data ip) = zeroed ps (ei_data ip)"
      using zero pre(2) by (simp add: zeroed_def list_update_same_conv [THEN iffD2])
    moreover have "drain K (p # ps) (of_nat b) (of_nat c) ip s = drain K ps (of_nat b) (of_nat c) ip s"
      using zero by (simp add: drain_Cons Let_def)
    ultimately show ?thesis
      using Cons.IH [OF pre(1)] Cons.prems(2) zero by (simp add: drained_def file_blocks_insert)
  next
    case first
    note h = drain_pre_head [OF Cons.prems(1) first(1)]
    have "drain K (p # ps) (of_nat b) (of_nat c) ip s = drain K ps (of_nat ?n) 1 (ip\<lparr>ei_data := (ei_data ip)[p := 0]\<rparr>) s"
      using drain_words [OF first(1), of 0 0] first by (simp add: drain_Cons Let_def)
    with rest [OF h(9)] Cons.prems(2) show ?thesis by (simp add: drained_def zeroed_def h(3,4) first(2))
  next
    case extend
    note h = drain_pre_head [OF Cons.prems(1) extend(1)]
    have c: "c \<le> 12" using Cons.prems(2) by simp
    have "\<forall>x \<in> ?R. data_block s g x" using Cons.prems(1) by (auto simp: drain_pre_def)
    note w = drain_words [OF extend(1) run_valid(5) [OF extend(2) c this]]
    have ext: "{b..<b + (c + 1)} = insert ?n ?R" using extend by auto
    have "(of_nat c :: u64) \<noteq> 0" using extend c by (simp add: word_unat_eq_iff unat_of_nat_64)
    then have "drain K (p # ps) (of_nat b) (of_nat c) ip s =
        drain K ps (of_nat b) (of_nat (c + 1)) (ip\<lparr>ei_data := (ei_data ip)[p := 0]\<rparr>) s"
      using w extend by (simp add: drain_Cons Let_def add.commute)
    with Cons.IH [of _ _ b "c + 1", unfolded ext, OF h(8)] Cons.prems(2) show ?thesis
      by (simp add: drained_def zeroed_def h(3,4))
  next
    case flush
    have l: "1 + length ps \<le> 12" "c \<le> 12" using Cons.prems(2) by simp_all
    show ?thesis
      by (rule drain_flush [OF Cons.prems(1) flush(1,2) l(2) flush(3) _ refl]) (use rest l(1) in simp)
  qed
qed

end
