(* ===== verification/Inode_Disk.thy ===== *)
theory Inode_Disk
  imports Inode_Blocks
begin

text \<open>
  The slots of the inode table: where an inode's slot is, that the slots of different inodes
  do not overlap, and that an inode that is written to its slot and read again is the same.
\<close>

section \<open>Slots\<close>

definition inode_group :: "ext2_fs \<Rightarrow> u64 \<Rightarrow> nat" where
  "inode_group s ino = unat ((ino - 1) div s_inodes_per_group (sb_info s))"

definition slot_start :: "ext2_fs \<Rightarrow> u64 \<Rightarrow> u64" where
  "slot_start s ino = ((ino - 1) mod s_inodes_per_group (sb_info s)) * scast (s_inode_size (sb_info s))"

definition slot_blk :: "ext2_fs \<Rightarrow> u64 \<Rightarrow> u64" where
  "slot_blk s ino = ucast (bg_inode_table (desc_of s (inode_group s ino))) +
     drop_bit (sb_blocksize_bits s) (slot_start s ino)"

definition slot_off :: "ext2_fs \<Rightarrow> u64 \<Rightarrow> nat" where
  "slot_off s ino = unat (slot_start s ino AND (sb_blocksize s - 1))"

text \<open>The numbers the code accepts, in a group that exists.\<close>

definition ino_ok :: "ext2_fs \<Rightarrow> u64 \<Rightarrow> bool" where
  "ino_ok s ino \<longleftrightarrow> (ino = EXT2_ROOT_INO \<or> scast (s_first_ino (sb_info s)) \<le> ino) \<and>
     ino \<le> ucast (es_inodes_count (sb_es s)) \<and> s_inodes_per_group (sb_info s) \<noteq> 0 \<and>
     inode_group s ino < n_groups s"

lemma get_inode_result:
  assumes l: "descs_loaded s" and n: "n_groups s < 2 ^ 32" and ok: "ino_ok s ino" and b: "k_getblk K (slot_blk s ino)"
    "bcache s (slot_blk s ino) \<noteq> None"
  shows "ext2_get_inode K s ino = Some (Inr (slot_blk s ino, slot_off s ino),
     s\<lparr>bh_uptodate := (bh_uptodate s)(slot_blk s ino := True)\<rparr>)"
proof -
  let ?g = "(ino - 1) div s_inodes_per_group (sb_info s)"
  have g: "unat ?g < n_groups s" using ok by (simp add: ino_ok_def inode_group_def)
  then have ug: "unat (ucast ?g :: u32) = unat ?g"
    using n by (simp add: unsigned_ucast_eq take_bit_nat_eq_self)
  have desc: "ext2_get_group_desc ext2_error s (ucast ?g) = Some (Some (desc_ptr_of s (unat ?g)), s)"
    using get_group_desc_loaded [OF l, of "ucast ?g"] g ug by simp
  have d: "gd_at s (desc_ptr_of s (unat ?g)) = Some (desc_of s (unat ?g))" using gd_at_loaded [OF l g] .
  have v: "\<not> ((ino \<noteq> EXT2_ROOT_INO \<and> ino < scast (s_first_ino (sb_info s))) \<or> ucast (es_inodes_count (sb_es s)) < ino)"
    "s_inodes_per_group (sb_info s) \<noteq> 0"
    using ok by (auto simp: ino_ok_def not_less)
  have blk: "ucast (bg_inode_table (desc_of s (unat ?g))) + drop_bit (sb_blocksize_bits s) (slot_start s ino) = slot_blk s ino"
    by (simp add: slot_blk_def inode_group_def)
  have br: "sb_bread K s (slot_blk s ino) = (Some (slot_blk s ino), s\<lparr>bh_uptodate := (bh_uptodate s)(slot_blk s ino := True)\<rparr>)"
    using b by (simp add: sb_bread_def)
  show ?thesis
    unfolding ext2_get_inode_def Let_def if_not_P [OF v(1)]
    using v(2) by (simp add: desc d slot_start_def [symmetric] blk br slot_off_def)
qed

text \<open>
  Blocks of a power of two bytes that hold a whole number of slots, and no wrap-around in the
  offsets.
\<close>

definition slots_ok :: "ext2_fs \<Rightarrow> bool" where
  "slots_ok s \<longleftrightarrow> sb_blocksize_bits s < 32 \<and> sb_blocksize s = 2 ^ sb_blocksize_bits s \<and>
     (\<exists>z. unat (scast (s_inode_size (sb_info s)) :: u64) = z \<and> 128 \<le> z \<and> z dvd 2 ^ sb_blocksize_bits s \<and>
        unat (s_inodes_per_group (sb_info s)) * z < 2 ^ 60)"

definition slot_size :: "ext2_fs \<Rightarrow> nat" where
  "slot_size s = unat (scast (s_inode_size (sb_info s)) :: u64)"

lemma slot_arith:
  fixes ino :: u64
  assumes ok: "slots_ok s" and ipg: "s_inodes_per_group (sb_info s) \<noteq> 0"
  defines "i \<equiv> unat ((ino - 1) mod s_inodes_per_group (sb_info s))"
  shows "unat (slot_start s ino) = i * slot_size s"
    and "slot_off s ino = i * slot_size s mod 2 ^ sb_blocksize_bits s"
    and "unat (drop_bit (sb_blocksize_bits s) (slot_start s ino)) = i * slot_size s div 2 ^ sb_blocksize_bits s"
    and "i * slot_size s < 2 ^ 60" "i < unat (s_inodes_per_group (sb_info s))"
proof -
  let ?b = "sb_blocksize_bits s"
  have z: "unat (s_inodes_per_group (sb_info s)) * slot_size s < 2 ^ 60" "?b < 32" "sb_blocksize s = 2 ^ ?b"
    using ok by (auto simp: slots_ok_def slot_size_def)
  show lt: "i < unat (s_inodes_per_group (sb_info s))"
    unfolding i_def using ipg by (simp add: unat_mod_distrib word_unat_eq_iff)
  then have "i * slot_size s \<le> unat (s_inodes_per_group (sb_info s)) * slot_size s" by simp
  then show small: "i * slot_size s < 2 ^ 60" using z(1) by linarith
  then show st: "unat (slot_start s ino) = i * slot_size s"
    unfolding slot_start_def i_def slot_size_def by (subst unat_mult_64) simp_all
  have m: "sb_blocksize s - 1 = mask ?b" using z(3) by (simp add: mask_eq_exp_minus_1)
  have "unat (slot_start s ino AND mask ?b) = unat (slot_start s ino) mod 2 ^ ?b"
    unfolding take_bit_eq_mask [symmetric] unsigned_take_bit_eq by (simp only: take_bit_eq_mod)
  then show "slot_off s ino = i * slot_size s mod 2 ^ ?b" by (simp add: slot_off_def m st)
  show "unat (drop_bit ?b (slot_start s ino)) = i * slot_size s div 2 ^ ?b"
    unfolding unsigned_drop_bit_eq
    by (simp only: drop_bit_eq_div st) (use small in \<open>simp add: take_bit_nat_eq_self\<close>)
qed

lemma slot_fits:
  assumes "slots_ok s" "s_inodes_per_group (sb_info s) \<noteq> 0"
  shows "slot_off s ino + slot_size s \<le> unat (sb_blocksize s)"
proof -
  let ?B = "2 ^ sb_blocksize_bits s :: nat" and ?z = "slot_size s"
  have z: "?z dvd ?B" "0 < ?z" "sb_blocksize_bits s < 32" "sb_blocksize s = 2 ^ sb_blocksize_bits s"
    using assms(1) by (auto simp: slots_ok_def slot_size_def)
  have p: "(2 ^ n :: u64) = of_nat (2 ^ n)" for n by simp
  have "(2 :: nat) ^ sb_blocksize_bits s < 2 ^ 64" using z(3) by (intro power_strict_increasing) simp_all
  then have B: "unat (sb_blocksize s) = ?B" unfolding z(4) p by (rule unat_of_nat_64)
  obtain q where q: "?B = ?z * q" using z(1) by (rule dvdE)
  have "slot_off s ino = ?z * (unat ((ino - 1) mod s_inodes_per_group (sb_info s)) mod q)"
    unfolding slot_arith(2) [OF assms] by (subst q, subst mult.commute) (rule mult_mod_right [symmetric])
  moreover have "0 < q" using q by (intro gr0I) simp
  then have "unat ((ino - 1) mod s_inodes_per_group (sb_info s)) mod q + 1 \<le> q"
    by (simp add: Suc_leI)
  then have "?z * (unat ((ino - 1) mod s_inodes_per_group (sb_info s)) mod q + 1) \<le> ?z * q"
    by (rule mult_le_mono2)
  ultimately show ?thesis unfolding B by (simp only: q add_mult_distrib2)
qed

lemma slots_disjoint:
  assumes ok: "slots_ok s" and ipg: "s_inodes_per_group (sb_info s) \<noteq> 0"
    and same: "inode_group s a = inode_group s b" and ne: "a \<noteq> b"
  shows "slot_blk s a \<noteq> slot_blk s b \<or> slot_off s a + slot_size s \<le> slot_off s b \<or>
     slot_off s b + slot_size s \<le> slot_off s a"
proof (cases "slot_blk s a = slot_blk s b")
  case True
  let ?I = "s_inodes_per_group (sb_info s)" and ?B = "2 ^ sb_blocksize_bits s :: nat" and ?z = "slot_size s"
  let ?i = "unat ((a - 1) mod ?I)" and ?j = "unat ((b - 1) mod ?I)"
  have ij: "?i \<noteq> ?j"
  proof
    assume e: "?i = ?j"
    have "(a - 1) div ?I = (b - 1) div ?I" using same by (simp add: inode_group_def word_unat_eq_iff)
    moreover have "(a - 1) mod ?I = (b - 1) mod ?I" using e by (simp add: word_unat_eq_iff)
    ultimately have "a - 1 = b - 1" by (metis div_mult_mod_eq)
    with ne show False by simp
  qed
  have "drop_bit (sb_blocksize_bits s) (slot_start s a) = drop_bit (sb_blocksize_bits s) (slot_start s b)"
    using True same by (simp add: slot_blk_def)
  then have d: "?i * ?z div ?B = ?j * ?z div ?B" using slot_arith(3) [OF ok ipg] by metis
  have off: "slot_off s a + ?i * ?z div ?B * ?B = ?i * ?z" "slot_off s b + ?i * ?z div ?B * ?B = ?j * ?z"
    unfolding slot_arith(2) [OF ok ipg] using d mod_div_mult_eq [of "?i * ?z" ?B] mod_div_mult_eq [of "?j * ?z" ?B]
    by simp_all
  have "?i * ?z + ?z \<le> ?j * ?z \<or> ?j * ?z + ?z \<le> ?i * ?z"
  proof (cases "?i < ?j")
    case True
    then have "(?i + 1) * ?z \<le> ?j * ?z" by (intro mult_le_mono1) simp
    then show ?thesis by simp
  next
    case False
    then have "(?j + 1) * ?z \<le> ?i * ?z" using ij by (intro mult_le_mono1) simp
    then show ?thesis by simp
  qed
  with off show ?thesis by linarith
qed simp

section \<open>The bytes of a slot\<close>

definition put_from :: "nat \<Rightarrow> u32 list \<Rightarrow> nat \<Rightarrow> byte list \<Rightarrow> byte list" where
  "put_from m ns k bs = fold (\<lambda>(n, b). put_le32 b (k + 40 + 4 * n)) (enumerate m ns) bs"

lemma put_from_simps:
  "put_from m [] k bs = bs"
  "put_from m (v # ns) k bs = put_from (Suc m) ns k (put_le32 v (k + 40 + 4 * m) bs)"
  by (simp_all add: put_from_def)

lemma put_from_below:
  "length (put_from m ns k bs) = length bs \<and>
   (j + 1 < k + 40 + 4 * m \<longrightarrow> le16_at (put_from m ns k bs) j = le16_at bs j) \<and>
   (j + 3 < k + 40 + 4 * m \<longrightarrow> le32_at (put_from m ns k bs) j = le32_at bs j)"
  by (induction ns arbitrary: m bs) (simp_all add: put_from_simps le16_put_le32_other le32_put_other)

lemma put_from_at:
  "n < length ns \<Longrightarrow> k + 40 + 4 * (m + length ns) \<le> length bs \<Longrightarrow>
     le32_at (put_from m ns k bs) (k + 40 + 4 * (m + n)) = ns ! n"
proof (induction ns arbitrary: m n bs)
  case (Cons v ns)
  show ?case
  proof (cases n)
    case 0
    with Cons.prems show ?thesis
      using put_from_below [of "Suc m" ns k _ "k + 40 + 4 * m"] by (simp add: put_from_simps)
  next
    case (Suc i)
    with Cons.IH [of i "Suc m" "put_le32 v (k + 40 + 4 * m) bs"] Cons.prems show ?thesis
      by (simp add: put_from_simps)
  qed
qed simp

lemma put_blocks_from: "put_blocks ns k bs = put_from 0 ns k bs"
  by (simp add: put_blocks_def put_from_def)

lemma get_put_header:
  assumes "k + 128 \<le> length bs"
  shows "raw_mode (get_raw (put_header M ip k bs) k) = i_mode ip"
    "raw_uid (get_raw (put_header M ip k bs) k) = high2low M (i_uid ip)"
    "raw_gid (get_raw (put_header M ip k bs) k) = high2low M (i_gid ip)"
    "raw_links_count (get_raw (put_header M ip k bs) k) = ucast (i_nlink ip)"
    "raw_size (get_raw (put_header M ip k bs) k) = of_int (i_size ip)"
    "raw_atime (get_raw (put_header M ip k bs) k) = of_int (i_atime ip)"
    "raw_ctime (get_raw (put_header M ip k bs) k) = of_int (i_ctime ip)"
    "raw_mtime (get_raw (put_header M ip k bs) k) = of_int (i_mtime ip)"
    "raw_blocks (get_raw (put_header M ip k bs) k) = ucast (i_blocks ip)"
    "raw_dtime (get_raw (put_header M ip k bs) k) = ei_dtime ip"
    "raw_flags (get_raw (put_header M ip k bs) k) = ei_flags ip"
  using assms
  by (simp_all add: get_raw_def put_header_def le16_put_other le32_put_other le16_put_le32_other le32_put_le16_other)

lemma get_put_blocks:
  assumes "k + 128 \<le> length bs" "length ns = 15"
  shows "get_raw (put_blocks ns k bs) k = (get_raw bs k)\<lparr>raw_block := ns\<rparr>"
proof -
  have "map (\<lambda>n. le32_at (put_blocks ns k bs) (k + 40 + 4 * n)) [0..<15] = ns"
    using put_from_at [of _ ns k 0 bs] assms by (intro nth_equalityI) (simp_all add: put_blocks_from)
  then show ?thesis
    using put_from_below [of 0 ns k bs] by (simp add: get_raw_def put_blocks_from)
qed

section \<open>Writing an inode and reading it again\<close>

definition same_disk :: "inode \<Rightarrow> inode \<Rightarrow> bool" where
  "same_disk a b \<longleftrightarrow> i_mode b = i_mode a \<and> i_uid b = i_uid a \<and> i_gid b = i_gid a \<and>
     i_nlink b = i_nlink a \<and> i_size b = i_size a \<and> i_atime b = i_atime a \<and> i_ctime b = i_ctime a \<and>
     i_mtime b = i_mtime a \<and> i_blocks b = i_blocks a"

text \<open>The values that fit the fields on disk.\<close>

definition fits_disk :: "inode \<Rightarrow> bool" where
  "fits_disk ip \<longleftrightarrow> unat (i_uid ip) < 2 ^ 16 \<and> unat (i_gid ip) < 2 ^ 16 \<and> unat (i_nlink ip) < 2 ^ 16 \<and>
     0 \<le> i_size ip \<and> i_size ip < 2 ^ 32 \<and> unat (i_blocks ip) < 2 ^ 32 \<and>
     i_atime ip \<in> {- (2 ^ 31)..<2 ^ 31} \<and> i_ctime ip \<in> {- (2 ^ 31)..<2 ^ 31} \<and>
     i_mtime ip \<in> {- (2 ^ 31)..<2 ^ 31} \<and> length (ei_data ip) = EXT2_N_BLOCKS"

text \<open>
  What the code relies on of the kernel: short user and group ids go to disk unchanged, and
  the operations a regular file gets do not change its attributes.
\<close>

definition vm_ok :: "vm \<Rightarrow> bool" where
  "vm_ok M \<longleftrightarrow> (\<forall>v. unat v < 2 ^ 16 \<longrightarrow> high2low M v = ucast v) \<and>
     (\<forall>ip. same_disk ip (ext2_set_file_ops M ip))"

lemma ucast_back:
  "unat (v :: u32) < 2 ^ 16 \<Longrightarrow> ucast (ucast v :: u16) = v"
  "unat (w :: u64) < 2 ^ 32 \<Longrightarrow> ucast (ucast w :: u32) = w"
proof -
  have a: "unat (ucast (ucast v :: u16) :: u32) = unat v" if "unat v < 2 ^ 16" for v :: u32
    using that by (simp only: unat_ucast_16_32) (simp add: unsigned_ucast_eq take_bit_nat_eq_self)
  have b: "unat (ucast (ucast w :: u32) :: u64) = unat w" if "unat w < 2 ^ 32" for w :: u64
    using that by (simp only: unat_ucast_32_64) (simp add: unsigned_ucast_eq take_bit_nat_eq_self)
  show "unat v < 2 ^ 16 \<Longrightarrow> ucast (ucast v :: u16) = v" "unat w < 2 ^ 32 \<Longrightarrow> ucast (ucast w :: u32) = w"
    using a b by (simp_all only: word_unat_eq_iff)
qed

lemma sint_back: "i \<in> {- (2 ^ 31)..<2 ^ 31} \<Longrightarrow> sint (of_int i :: u32) = i"
  by (simp add: signed_of_int signed_take_bit_int_eq_self)

lemma uint_back: "0 \<le> i \<Longrightarrow> i < 2 ^ 32 \<Longrightarrow> uint (of_int i :: u32) = i"
  by (simp add: unsigned_of_int take_bit_int_eq_self)

definition plain_kind :: "inode \<Rightarrow> bool" where
  "plain_kind ip \<longleftrightarrow> S_ISREG (i_mode ip) \<or> S_ISDIR (i_mode ip) \<or> (S_ISLNK (i_mode ip) \<and> i_blocks ip \<noteq> 0)"

lemma plain_not_dev: "plain_kind ip \<Longrightarrow> \<not> (S_ISCHR (i_mode ip) \<or> S_ISBLK (i_mode ip))"
  by (auto simp: plain_kind_def S_ISREG_def S_ISDIR_def S_ISLNK_def S_ISCHR_def S_ISBLK_def)

definition slot_bytes :: "vm \<Rightarrow> ext2_fs \<Rightarrow> inode \<Rightarrow> nat \<Rightarrow> byte list \<Rightarrow> byte list" where
  "slot_bytes M s ip k bs = put_block_map M ip k (put_header M ip k
     (if ei_state ip AND EXT2_STATE_NEW \<noteq> 0
      then put_bytes (replicate (unat (s_inode_size (sb_info s))) 0) k bs else bs))"

lemma slot_bytes_raw:
  assumes len: "k + 128 \<le> length bs" "k + unat (s_inode_size (sb_info s)) \<le> length bs"
    and pk: "plain_kind ip" and data: "length (ei_data ip) = 15"
  shows "get_raw (slot_bytes M s ip k bs) k =
     (get_raw (put_header M ip k (if ei_state ip AND EXT2_STATE_NEW \<noteq> 0
        then put_bytes (replicate (unat (s_inode_size (sb_info s))) 0) k bs else bs)) k)\<lparr>raw_block := ei_data ip\<rparr>"
proof -
  have l: "length (put_header M ip k cs) = length cs" for cs by (simp add: put_header_def)
  have "length (put_bytes (replicate (unat (s_inode_size (sb_info s))) 0) k bs) = length bs"
    using len(2) by (simp add: put_bytes_def)
  then show ?thesis
    unfolding slot_bytes_def put_block_map_def if_not_P [OF plain_not_dev [OF pk]]
    using len(1) data by (intro get_put_blocks) (simp_all add: l)
qed

definition fresh_from :: "vm \<Rightarrow> ext2_fs \<Rightarrow> u64 \<Rightarrow> ext2_inode \<Rightarrow> inode \<Rightarrow> inode option" where
  "fresh_from M s ino raw ip = map_option (fill_info s ino raw) (fill_ops M s raw (fill_times raw ip))"

lemma fill_back:
  assumes M: "vm_ok M" and fits: "fits_disk ip" and pk: "plain_kind ip" and len: "k + 128 \<le> length bs"
  defines "raw \<equiv> (get_raw (put_header M ip k bs) k)\<lparr>raw_block := ei_data ip\<rparr>"
  shows "same_disk ip (fill_times raw old)"
    "\<exists>ip2. fresh_from M s ino raw old = Some ip2 \<and> same_disk ip ip2 \<and> ei_data ip2 = ei_data ip \<and>
       ei_flags ip2 = ei_flags ip"
proof -
  note r = get_put_header [OF len, of M ip]
  let ?ip = "fill_times raw old"
  show sd: "same_disk ip ?ip"
    using M fits by (simp add: same_disk_def fill_times_def raw_def r vm_ok_def fits_disk_def ucast_back sint_back uint_back
        del: of_int_eq_iff)
  have pk2: "plain_kind ?ip" using pk sd by (simp add: plain_kind_def same_disk_def)
  have "\<exists>ip1. fill_ops M s raw ?ip = Some ip1 \<and> same_disk ?ip ip1"
    using pk2 M by (auto simp: plain_kind_def fill_ops_def ext2_inode_is_fast_symlink_def same_disk_def vm_ok_def)
  then obtain ip1 where ip1: "fill_ops M s raw ?ip = Some ip1" "same_disk ?ip ip1" by blast
  have "same_disk ip ip1" using sd ip1(2) by (simp add: same_disk_def)
  then show "\<exists>ip2. fresh_from M s ino raw old = Some ip2 \<and> same_disk ip ip2 \<and> ei_data ip2 = ei_data ip \<and>
       ei_flags ip2 = ei_flags ip"
    using ip1(1) r(11)
    by (simp add: fresh_from_def fill_info_def ext2_set_inode_flags_def same_disk_def raw_def Let_def)
qed

end
