(* ===== verification/Inode_Thms.thy ===== *)
theory Inode_Thms
  imports Inode_Disk Dir_Thms
begin

text \<open>
  The properties of inodes: the mapping of a file's blocks, truncation, the slots of the
  inode table, the round trip through the disk and the path that does not complete.
\<close>

section \<open>A file system with blocks of 1024 bytes\<close>

definition exk_fs :: ext2_fs where
  "exk_fs = ex_fs\<lparr>sb_blocksize := 1024, sb_blocksize_bits := 10,
     bcache := (\<lambda>b. Some (the (ex_block b) @ replicate 896 0))\<rparr>"

lemma exk_simps [simp]:
  "sb_flags exk_fs = 0" "sb_blocksize exk_fs = 1024" "sb_blocksize_bits exk_fs = 10"
  "sb_es exk_fs = ex_super" "sb_info exk_fs = ex_info" "bh_uptodate exk_fs = (\<lambda>_. True)"
  "bcache exk_fs b = Some (the (ex_block b) @ replicate 896 0)"
  "desc_of exk_fs = desc_of ex_fs" "n_groups exk_fs = 2" "bitmap_blk exk_fs = bitmap_blk ex_fs"
  "group_first exk_fs = group_first ex_fs" "group_blocks exk_fs = group_blocks ex_fs"
  "fdb exk_fs = 1" "total_blocks exk_fs = 65" "bpg exk_fs = 32"
  by (simp_all add: exk_fs_def desc_of_def gd_at_def desc_ptr_of_def n_groups_def bitmap_blk_def fun_eq_iff
      group_first_def group_blocks_def fdb_def total_blocks_def bpg_def)

lemma exk_loaded [simp]: "descs_loaded exk_fs"
  by (simp add: descs_loaded_def)

lemma exk_bitmap [simp]:
  "bitmap_of exk_fs 0 = [0xFF, 0x1F] @ replicate 1022 0"
  "bitmap_of exk_fs (Suc 0) = [0xFF, 0x0F] @ replicate 1022 0"
  by (simp_all add: bitmap_of_def ex_block_def replicate_add [symmetric])

lemma exk_n_free:
  "n_free ([0xFF, 0x1F] @ replicate 1022 0) 32 = 19"
  "n_free ([0xFF, 0x0F] @ replicate 1022 0) 32 = 20"
  by (simp_all add: n_free_code upt_rec bm_bit_def nth_append)

lemma exk_geom [simp]: "geom_ok exk_fs"
  by (simp add: geom_ok_def)

lemma exk_inv [simp]: "balloc_inv exk_fs"
proof -
  have "group_acct exk_fs 0" "group_acct exk_fs 1"
    by (simp_all add: group_acct_def exk_n_free [simplified] ex_block_def ex_desc_def replicate_add [symmetric])
  moreover have "inj_on (bitmap_blk exk_fs) {..<2}"
    by (auto simp: inj_on_def less_2_cases_iff)
  moreover have "total_of bg_free_blocks_count exk_fs = 39"
    by (simp add: total_of_def lessThan_2 ex_desc_def)
  ultimately show ?thesis
    by (simp add: balloc_inv_def all_less_2)
qed

lemma exk_cached [simp]: "bitmaps_cached kern_ref exk_fs"
  by (simp add: bitmaps_cached_def kern_ref_def)

lemma exk_ready [simp]: "free_ready kern_ref 0 exk_fs"
  by (simp add: free_ready_def test_opt_def)

lemma exk_used_13 [simp]: "13 \<in> used_blocks exk_fs"
  using used_block_iff [OF exk_geom, of 0 12] by (simp add: bm_bit_def)

lemma ex_inode_nth: "i < 12 \<Longrightarrow> ei_data ex_inode ! i = (if i = 0 then 13 else 0)"
  by (cases i) (simp_all add: ex_inode_def)

lemma ex_inode_len: "length (ei_data ex_inode) = 15"
  by (simp add: ex_inode_def)

lemma ex_inode_blocks: "file_blocks ex_inode {..<12} = {13}" "file_blocks ex_inode {0..<12} = {13}"
  by (auto simp: file_blocks_def ex_inode_nth split: if_splits intro!: exI [of _ 0])

lemma ex_inode_file [simp]: "file_ok exk_fs ex_inode"
  by (auto simp: file_ok_def ex_inode_len ex_inode_blocks ex_inode_nth split: if_splits)

text \<open>
  C15. Mapping a block of a file. Let the uninitialised \<^verbatim>\<open>num\<close> of \<^verbatim>\<open>ext2_allocate_in_bg\<close>,
  which the allocation of a block passes through, start at 0. On a file whose blocks are in
  use and all different, \<^verbatim>\<open>ext2_get_blocks\<close> returns 1 with a non-zero block for a mapped or
  newly allocated block, 0 for a hole it is not to fill, and an error (with the inode and the
  set of used blocks as they were) past the twelve direct blocks or when no block can be
  allocated. A new block was free before, so the file's blocks
  stay different, and the allocator's accounting stays right.
\<close>

theorem ext2_get_blocks_maps:
  assumes "num_zero junk" "balloc_inv s" "bitops_ok K" "file_ok s ip" "boot_used s"
    and "unat (ei_block_group ip) < n_groups s"
    and "ext2_get_blocks K junk s ip iblock bno new create = Some ((ret, b, new'), ip', s')"
  shows "balloc_inv s' \<and> file_ok s' ip' \<and>
     (ret \<le> 0 \<longrightarrow> ip' = ip \<and> used_blocks s' = used_blocks s) \<and>
     (ret = 0 \<longleftrightarrow> unat iblock < 12 \<and> ei_data ip ! unat iblock = 0 \<and> \<not> create) \<and>
     (0 < ret \<longrightarrow> ret = 1 \<and> unat iblock < 12 \<and> ei_data ip' ! unat iblock = b \<and> b \<noteq> 0 \<and>
        (if ei_data ip ! unat iblock \<noteq> 0 then ip' = ip \<and> s' = s
         else create \<and> new' \<and> granted s (unat b) 1 s' \<and>
           ip' = ip\<lparr>ei_data := (ei_data ip)[unat iblock := b], i_blocks := i_blocks ip + sb_blocksize s' div 512\<rparr>))"
  by (rule get_blocks_result [OF assms(2-6)]) (use assms(1,7) in \<open>simp add: num_zero_eq\<close>)

lemma exk_hit: "scan_hit exk_fs 0 (bitmap_of exk_fs 0) 13"
  by (simp add: scan_hit_def bounded_all_code upt_rec bm_bit_def)

lemma exk_counter [simp]: "counter_seen kern_ref exk_fs = 39"
  by (simp add: counter_seen_def kern_ref_def)

text \<open>Block 1 of the example file is a hole; filling it takes the free block 14.\<close>

theorem ext2_get_blocks_maps_witness:
  "\<exists>ip' s'. ext2_get_blocks kern_ref (\<lambda>_. 0) exk_fs ex_inode 1 0 False True = Some ((1, 14, True), ip', s') \<and>
     balloc_inv s' \<and> file_ok s' ip'"
proof -
  obtain k cs where nb: "ext2_new_blocks kern_ref (\<lambda>_. 0) exk_fs 0 1 =
        Some ((of_nat (group_first exk_fs 0 + 13), 0, of_nat k),
              put_bitmap exk_fs 0 cs (ucast (- (of_nat k :: u64))))" "0 < k" "k \<le> 1"
    using new_blocks_cached(1) [OF exk_inv exk_cached kern_ref_ok _ _ _ exk_hit, of 1 0] by auto
  have k: "k = 1" using nb(2,3) by simp
  have b: "boot_used exk_fs" by (simp add: boot_used_def)
  define t where "t = put_bitmap exk_fs 0 cs (ucast (- (1 :: u64)))"
  have nb1: "ext2_new_blocks kern_ref (\<lambda>_. 0) exk_fs 0 1 = Some ((14, 0, 1), t)"
    using nb(1) by (simp add: t_def k)
  have bt: "sb_blocksize t = 1024" by (simp add: t_def)
  have run: "ext2_get_blocks kern_ref (\<lambda>_. 0) exk_fs ex_inode 1 0 False True = Some ((1, 14, True),
      ex_inode\<lparr>ei_data := (ei_data ex_inode)[1 := 14], i_blocks := 2\<rparr>, t)"
    using nb1 bt by (simp add: ext2_get_blocks_def ex_inode_def Let_def)
  from ext2_get_blocks_maps [OF num_zero_ref exk_inv kern_ref_ok ex_inode_file b _ run] run show ?thesis
    by (simp add: ex_inode_def)
qed

text \<open>
  C16. Truncation. When the blocks behind the new end of a file are data blocks of one group,
  \<^verbatim>\<open>ext2_truncate_blocks\<close> returns, exactly these blocks leave the used blocks, their places in
  the block map become 0 and the others stay, and \<^verbatim>\<open>i_blocks\<close> falls by their sectors.
\<close>

lemma zeroed_nth:
  "set ps \<subseteq> {..<length ds} \<Longrightarrow> length (zeroed ps ds) = length ds \<and>
     (\<forall>i < length ds. zeroed ps ds ! i = (if i \<in> set ps then 0 else ds ! i))"
  unfolding zeroed_def
proof (induction ps arbitrary: ds)
  case (Cons p ps)
  then show ?case using Cons.IH [of "ds[p := 0]"] by (auto simp: nth_list_update)
qed simp

lemma truncate_result:
  assumes k: "truncatable ip" "\<not> ext2_inode_is_fast_symlink ip" and ok: "file_ok s ip"
    and r: "free_ready K g s" "512 dvd unat (sb_blocksize s)"
    and d: "\<forall>x \<in> file_blocks ip {final_block s offset..<12}. data_block s g x"
  shows "\<exists>s' ip'. ext2_truncate_blocks K s ip offset = Some (ip', s') \<and> free_ready K g s' \<and>
     used_blocks s' = used_blocks s - file_blocks ip {final_block s offset..<12} \<and>
     ip' = ip\<lparr>ei_data := ei_data ip', i_blocks := i_blocks ip -
       of_nat (card (file_blocks ip {final_block s offset..<12}) * (unat (sb_blocksize s) div 512))\<rparr> \<and>
     (\<forall>i < 15. ei_data ip' ! i = (if final_block s offset \<le> i \<and> i < 12 then 0 else ei_data ip ! i)) \<and>
     file_ok s' ip'"
proof -
  let ?f = "final_block s offset"
  let ?ps = "[?f..<12]" and ?F = "file_blocks ip {final_block s offset..<12}"
  have len: "length (ei_data ip) = 15" and sub: "file_blocks ip {..<12} \<subseteq> used_blocks s"
    and inj: "\<forall>i < 12. \<forall>j < 12. ei_data ip ! i \<noteq> 0 \<longrightarrow> ei_data ip ! i = ei_data ip ! j \<longrightarrow> i = j"
    using ok by (simp_all add: file_ok_def)
  have F: "file_blocks ip (set ?ps) = ?F" by simp
  have Fsub: "?F \<subseteq> file_blocks ip {..<12}" by (auto simp: file_blocks_def)
  have pre: "drain_pre K g s ip ?ps {0..<0 + 0}"
    using r d sub Fsub inj len by (auto simp: drain_pre_def)
  have "drained K g s ip ?ps ({0..<0 + 0} \<union> file_blocks ip (set ?ps)) (drain K ?ps (of_nat 0) (of_nat 0) ip s)"
    by (rule drain_result [OF pre]) simp
  then obtain s' where s': "ext2_truncate_blocks K s ip offset =
       Some (ip\<lparr>ei_data := zeroed ?ps (ei_data ip),
         i_blocks := i_blocks ip - of_nat (card ?F * (unat (sb_blocksize s) div 512))\<rparr>, s')"
    "free_ready K g s'" "used_blocks s' = used_blocks s - ?F"
    using k unfolding drained_def F by (auto simp: ext2_truncate_blocks_def free_data_drain)
  have z: "length (zeroed ?ps (ei_data ip)) = 15"
    "\<forall>i < 15. zeroed ?ps (ei_data ip) ! i = (if ?f \<le> i \<and> i < 12 then 0 else ei_data ip ! i)"
    using zeroed_nth [of ?ps "ei_data ip"] len by (simp_all add: subset_iff)
  let ?ip = "ip\<lparr>ei_data := zeroed ?ps (ei_data ip),
     i_blocks := i_blocks ip - of_nat (card ?F * (unat (sb_blocksize s) div 512))\<rparr>"
  have "file_blocks ?ip {..<12} \<subseteq> used_blocks s'"
  proof
    fix x assume "x \<in> file_blocks ?ip {..<12}"
    then obtain i where i: "i < 12" "x = unat (zeroed ?ps (ei_data ip) ! i)" "zeroed ?ps (ei_data ip) ! i \<noteq> 0"
      by (auto simp: file_blocks_def)
    moreover have "zeroed ?ps (ei_data ip) ! i = (if ?f \<le> i \<and> i < 12 then 0 else ei_data ip ! i)"
      using z(2) i(1) by simp
    ultimately have i: "i < 12" "i < ?f" "x = unat (ei_data ip ! i)" "ei_data ip ! i \<noteq> 0"
      by (simp_all split: if_splits)
    then have "x \<notin> ?F" using inj by (auto simp: file_blocks_def word_unat_eq_iff)
    moreover have "x \<in> used_blocks s" using i sub by (auto simp: file_blocks_def)
    ultimately show "x \<in> used_blocks s'" by (simp add: s'(3))
  qed
  then have "file_ok s' ?ip" using z inj by (auto simp: file_ok_def)
  with s' z show ?thesis by (intro exI [of _ s'] exI [of _ ?ip]) simp
qed

theorem ext2_truncate_blocks_frees:
  assumes "truncatable ip" "\<not> ext2_inode_is_fast_symlink ip" "file_ok s ip"
    and "free_ready K g s" "512 dvd unat (sb_blocksize s)"
    and "\<forall>x \<in> file_blocks ip {final_block s offset..<12}. data_block s g x"
  shows "\<exists>s' ip'. ext2_truncate_blocks K s ip offset = Some (ip', s') \<and> free_ready K g s' \<and>
     used_blocks s' = used_blocks s - file_blocks ip {final_block s offset..<12} \<and>
     ip' = ip\<lparr>ei_data := ei_data ip', i_blocks := i_blocks ip -
       of_nat (card (file_blocks ip {final_block s offset..<12}) * (unat (sb_blocksize s) div 512))\<rparr> \<and>
     (\<forall>i < 15. ei_data ip' ! i = (if final_block s offset \<le> i \<and> i < 12 then 0 else ei_data ip ! i)) \<and>
     file_ok s' ip'"
  using assms by (rule truncate_result)

theorem ext2_truncate_blocks_frees_witness:
  "\<exists>s' ip'. ext2_truncate_blocks kern_ref exk_fs ex_inode 0 = Some (ip', s') \<and>
     used_blocks s' = used_blocks exk_fs - {13} \<and> ei_data ip' ! 0 = 0"
proof -
  have f: "final_block exk_fs 0 = 0" by (simp add: final_block_def drop_bit_eq_div)
  have d: "data_block exk_fs 0 13"
    by (simp add: data_block_def ex_desc_def in_range_def word_le_nat_alt)
  have t: "truncatable ex_inode" "\<not> ext2_inode_is_fast_symlink ex_inode"
    by (simp_all add: truncatable_def S_ISDIR_def ex_inode_def ext2_inode_is_fast_symlink_def S_ISLNK_def)
  from ext2_truncate_blocks_frees [OF t ex_inode_file exk_ready, of 0] d
  obtain s' ip' where "ext2_truncate_blocks kern_ref exk_fs ex_inode 0 = Some (ip', s')"
    "used_blocks s' = used_blocks exk_fs - {13}"
    "\<forall>i < 15. ei_data ip' ! i = (if 0 \<le> i \<and> i < 12 then 0 else ei_data ex_inode ! i)"
    unfolding f ex_inode_blocks(2) by auto
  then show ?thesis by auto
qed

section \<open>The inode table\<close>

text \<open>
  C17. The slots of the inode table. For an inode number the code accepts, \<^verbatim>\<open>ext2_get_inode\<close>
  returns a position at which a whole slot fits into the block, and the slots of two different
  inodes of one group lie in different blocks or do not overlap.
\<close>

theorem ext2_get_inode_slots:
  assumes "descs_loaded s" "n_groups s < 2 ^ 32" "slots_ok s" "ino_ok s a" "ino_ok s b"
    and "inode_group s a = inode_group s b" "a \<noteq> b"
    and "\<forall>x. k_getblk K x \<and> bcache s x \<noteq> None"
  shows "\<exists>p q m n t u. ext2_get_inode K s a = Some (Inr (p, m), t) \<and>
     ext2_get_inode K s b = Some (Inr (q, n), u) \<and>
     m + slot_size s \<le> unat (sb_blocksize s) \<and> n + slot_size s \<le> unat (sb_blocksize s) \<and>
     (p \<noteq> q \<or> m + slot_size s \<le> n \<or> n + slot_size s \<le> m)"
proof -
  have i: "s_inodes_per_group (sb_info s) \<noteq> 0" using assms(4) by (simp add: ino_ok_def)
  have r: "ext2_get_inode K s x = Some (Inr (slot_blk s x, slot_off s x),
      s\<lparr>bh_uptodate := (bh_uptodate s)(slot_blk s x := True)\<rparr>)" if "ino_ok s x" for x
    using assms(8) by (intro get_inode_result [OF assms(1,2) that]) simp_all
  show ?thesis
    using r [OF assms(4)] r [OF assms(5)] slot_fits [OF assms(3) i] slots_disjoint [OF assms(3) i assms(6,7)]
    by blast
qed

lemma ex_slots [simp]: "slots_ok exk_fs"
  by (simp add: slots_ok_def ex_info_def signed_of_int)

lemma ex_ino [simp]: "ino_ok exk_fs 2" "ino_ok exk_fs 3" "inode_group exk_fs 2 = inode_group exk_fs 3"
  by (simp_all add: ino_ok_def inode_group_def word_le_nat_alt)

theorem ext2_get_inode_slots_witness:
  "\<exists>p q m n t u. ext2_get_inode kern_ref exk_fs 2 = Some (Inr (p, m), t) \<and>
     ext2_get_inode kern_ref exk_fs 3 = Some (Inr (q, n), u) \<and>
     (p \<noteq> q \<or> m + slot_size exk_fs \<le> n \<or> n + slot_size exk_fs \<le> m)"
  using ext2_get_inode_slots [of exk_fs 2 3 kern_ref] by (fastforce simp: kern_ref_def)

text \<open>
  C18. An inode goes to disk and comes back. For a regular file, a directory or a slow symlink
  whose attributes fit the fields on disk, \<^verbatim>\<open>ext2_do_write_inode\<close> followed by \<^verbatim>\<open>ext2_iget\<close> into a
  fresh in-memory inode gives the same mode, owner, link count, size, times, block count,
  flags and block map; the write reports the I/O error of a failed synchronous write-back, and 0 otherwise.
\<close>

theorem ext2_inode_roundtrip:
  assumes "descs_loaded s" "n_groups s < 2 ^ 32" "ino_ok s (i_ino ip)"
    and "k_getblk K (slot_blk s (i_ino ip))" "bcache s (slot_blk s (i_ino ip)) = Some bs"
    and "slot_off s (i_ino ip) + 128 \<le> length bs"
      "slot_off s (i_ino ip) + unat (s_inode_size (sb_info s)) \<le> length bs"
    and "vm_ok M" "fits_disk ip" "plain_kind ip" "iget_locked M (i_ino ip) = Some (ip0, True)"
  shows "\<exists>err ip' s' ip2 s''. ext2_do_write_inode K M s ip sync = Some (err, ip', s') \<and>
     err = (if sync \<and> \<not> buffer_synced M (slot_blk s (i_ino ip)) then - EIO else 0) \<and>
     ext2_iget K M s' (i_ino ip) = Some (Inr ip2, s'') \<and>
     same_disk ip ip2 \<and> ei_data ip2 = ei_data ip \<and> ei_flags ip2 = ei_flags ip"
proof -
  let ?blk = "slot_blk s (i_ino ip)" and ?k = "slot_off s (i_ino ip)"
  let ?t = "s\<lparr>bh_uptodate := (bh_uptodate s)(?blk := True)\<rparr>"
  let ?cs = "slot_bytes M ?t ip ?k bs"
  define u where "u = ?t\<lparr>bcache := (bcache ?t)(?blk \<mapsto> ?cs)\<rparr>"
  have g: "ext2_get_inode K s (i_ino ip) = Some (Inr (?blk, ?k), ?t)"
    using assms(1-5) by (intro get_inode_result) simp_all
  have w: "ext2_do_write_inode K M s ip sync = Some (if sync \<and> \<not> buffer_synced M ?blk then - EIO else 0,
      ip\<lparr>ei_state := ei_state ip AND NOT EXT2_STATE_NEW\<rparr>, u)"
    by (simp add: ext2_do_write_inode_def g assms(5) slot_bytes_def u_def Let_def)
  have views: "descs_loaded u" "n_groups u = n_groups s" "slot_blk u = slot_blk s" "slot_off u = slot_off s"
    "ino_ok u = ino_ok s"
    using assms(1)
    by (simp_all add: u_def descs_loaded_def n_groups_def fun_eq_iff slot_blk_def slot_off_def slot_start_def
        ino_ok_def inode_group_def desc_of_def gd_at_def desc_ptr_of_def)
  have g': "ext2_get_inode K u (i_ino ip) = Some (Inr (?blk, ?k), u\<lparr>bh_uptodate := (bh_uptodate u)(?blk := True)\<rparr>)"
    using get_inode_result [of u "i_ino ip" K] views assms(2-4) by (simp add: u_def)
  let ?v = "u\<lparr>bh_uptodate := (bh_uptodate u)(?blk := True)\<rparr>"
  define bs' where "bs' = (if ei_state ip AND EXT2_STATE_NEW \<noteq> 0
     then put_bytes (replicate (unat (s_inode_size (sb_info ?t))) 0) ?k bs else bs)"
  have len': "?k + 128 \<le> length bs'"
    using assms(6,7) by (simp add: bs'_def put_bytes_def)
  have raw: "get_raw ?cs ?k = (get_raw (put_header M ip ?k bs') ?k)\<lparr>raw_block := ei_data ip\<rparr>"
    unfolding bs'_def using assms(6,7,9,10) by (intro slot_bytes_raw) (simp_all add: fits_disk_def)
  let ?raw = "get_raw ?cs ?k"
  have sd: "same_disk ip (fill_times ?raw ip0)"
    unfolding raw by (rule fill_back(1) [OF assms(8-10) len'])
  obtain ip2 where ip2: "fresh_from M ?v (i_ino ip) ?raw ip0 = Some ip2" "same_disk ip ip2"
    "ei_data ip2 = ei_data ip" "ei_flags ip2 = ei_flags ip"
    using fill_back(2) [OF assms(8-10) len', where s = ?v and ino = "i_ino ip" and old = ip0, folded raw]
    by (elim exE conjE) (rule that)
  have "\<not> i_size (fill_times ?raw ip0) < 0" using sd assms(9) by (simp add: same_disk_def fits_disk_def)
  moreover have "bcache ?v ?blk = Some ?cs" by (simp add: u_def)
  moreover obtain ip1 where "fill_ops M ?v ?raw (fill_times ?raw ip0) = Some ip1"
    "ip2 = fill_info ?v (i_ino ip) ?raw ip1"
    using ip2(1) by (auto simp: fresh_from_def)
  ultimately have "ext2_iget K M u (i_ino ip) = Some (Inr ip2, ?v)"
    by (simp add: ext2_iget_def assms(11) g' Let_def)
  with w ip2(2-4) show ?thesis by auto
qed

definition vm_ref :: vm where
  "vm_ref = \<lparr> iget_locked = (\<lambda>_. Some (ex_inode, True)), is_bad_inode = (\<lambda>_. False),
     truncate_pages_final = (\<lambda>ip. ip), truncate_pagecache = (\<lambda>_ ip. ip),
     block_truncate_page = (\<lambda>ip s n. (0, ip, s)), buffer_synced = (\<lambda>_. True),
     setattr_prepare = (\<lambda>_ _. 0), setattr_copy = (\<lambda>_ ip. ip), high2low = ucast,
     old_valid_dev = (\<lambda>_. True), old_encode_dev = (\<lambda>d. d), old_decode_dev = (\<lambda>d. d),
     new_encode_dev = (\<lambda>d. d), new_decode_dev = (\<lambda>d. d),
     init_special_inode = (\<lambda>ip m d. ip\<lparr>i_rdev := d\<rparr>), ext2_set_file_ops = (\<lambda>ip. ip),
     mount_nobh = 0, nobh_aops = Ext2_aops \<rparr>"

lemma vm_ref_ok [simp]: "vm_ok vm_ref"
  by (simp add: vm_ok_def vm_ref_def same_disk_def)

lemma ex_slot [simp]: "slot_blk exk_fs 2 = 5" "slot_off exk_fs 2 = 128"
  by (simp_all add: slot_blk_def slot_off_def slot_start_def inode_group_def ex_desc_def ex_info_def drop_bit_eq_div)

theorem ext2_inode_roundtrip_witness:
  "\<exists>ip' s' ip2 s''. ext2_do_write_inode kern_ref vm_ref exk_fs (ex_inode\<lparr>i_uid := 7\<rparr>) True = Some (0, ip', s') \<and>
     ext2_iget kern_ref vm_ref s' 2 = Some (Inr ip2, s'') \<and> i_uid ip2 = 7 \<and> ei_data ip2 = 13 # replicate 14 0"
proof -
  let ?ip = "ex_inode\<lparr>i_uid := 7\<rparr>"
  have i: "i_ino ?ip = 2" "ei_data ?ip = 13 # replicate 14 0" by (simp_all add: ex_inode_def)
  have f: "fits_disk ?ip" by (simp add: fits_disk_def ex_inode_def)
  have p: "plain_kind ?ip" by (simp add: plain_kind_def S_ISDIR_def ex_inode_def)
  have l: "iget_locked vm_ref (i_ino ?ip) = Some (ex_inode, True)" "buffer_synced vm_ref b" "k_getblk kern_ref b" for b
    by (simp_all add: vm_ref_def kern_ref_def)
  obtain ip' s' ip2 s'' where r: "ext2_do_write_inode kern_ref vm_ref exk_fs ?ip True = Some (0, ip', s')"
    "ext2_iget kern_ref vm_ref s' (i_ino ?ip) = Some (Inr ip2, s'')" "same_disk ?ip ip2" "ei_data ip2 = ei_data ?ip"
    using ext2_inode_roundtrip [OF exk_loaded _ _ _ _ _ _ vm_ref_ok f p l(1), of kern_ref _ True] l
    by (auto simp: i ex_block_def ex_info_def)
  then show ?thesis
    by (intro exI [of _ ip'] exI [of _ s'] exI [of _ ip2] exI [of _ s'']) (simp add: i same_disk_def)
qed

text \<open>
  Reading a fast symlink does not complete: for a symlink without blocks \<^verbatim>\<open>ext2_iget\<close> goes
  through the pointer \<^verbatim>\<open>ei\<close> before it is set.
\<close>

theorem ext2_iget_fast_symlink:
  assumes "iget_locked M ino = Some (ip0, True)" "ext2_get_inode K s ino = Some (Inr (bh, k), t)"
    and "bcache t bh = Some bs" "S_ISLNK (raw_mode (get_raw bs k))" "raw_blocks (get_raw bs k) = 0"
  shows "ext2_iget K M s ino = None"
proof -
  let ?raw = "get_raw bs k"
  have m: "i_mode (fill_times ?raw ip0) = raw_mode ?raw" "i_blocks (fill_times ?raw ip0) = 0"
    "\<not> i_size (fill_times ?raw ip0) < 0"
    by (simp_all add: fill_times_def assms(5))
  have k: "\<not> S_ISREG (raw_mode ?raw)" "\<not> S_ISDIR (raw_mode ?raw)"
    using assms(4) by (auto simp: S_ISREG_def S_ISDIR_def S_ISLNK_def)
  have "fill_ops M t ?raw (fill_times ?raw ip0) = None"
    using assms(4) k by (simp add: fill_ops_def m ext2_inode_is_fast_symlink_def)
  then show ?thesis by (simp add: ext2_iget_def assms(1-3) m(3) Let_def)
qed

definition exl_fs :: ext2_fs where
  "exl_fs = exk_fs\<lparr>bcache := (\<lambda>b. Some (replicate 128 0 @ [0xFF, 0xA1] @ replicate 894 0))\<rparr>"

theorem ext2_iget_fast_symlink_witness:
  "ext2_iget kern_ref vm_ref exl_fs 2 = None"
proof -
  let ?u = "exl_fs\<lparr>bh_uptodate := (bh_uptodate exl_fs)(5 := True)\<rparr>"
  have v: "slot_blk exl_fs 2 = slot_blk exk_fs 2" "slot_off exl_fs 2 = slot_off exk_fs 2"
    "descs_loaded exl_fs = descs_loaded exk_fs" "ino_ok exl_fs 2 = ino_ok exk_fs 2" "n_groups exl_fs = n_groups exk_fs"
    by (simp_all add: exl_fs_def descs_loaded_def n_groups_def slot_blk_def slot_off_def slot_start_def
        ino_ok_def inode_group_def desc_of_def gd_at_def desc_ptr_of_def del: exk_simps)
  let ?bs = "replicate 128 0 @ [0xFF, 0xA1] @ replicate 894 0 :: byte list"
  have g: "ext2_get_inode kern_ref exl_fs 2 = Some (Inr (5, 128), ?u)"
    using get_inode_result [of exl_fs 2 kern_ref] by (simp add: v kern_ref_def) (simp add: exl_fs_def)
  have n: "(replicate 128 (0::byte) @ [0xFF, 0xA1] @ replicate 894 0) ! (128 + i) =
      (if i = 0 then 0xFF else if i = 1 then 0xA1 else 0)" if "i < 896" for i
    using that by (simp add: nth_append nth_Cons split: nat.splits)
  have "raw_mode (get_raw ?bs 128) = 0xA1FF" "raw_blocks (get_raw ?bs 128) = 0"
    using n [of 0] n [of 1] n [of 28] n [of 29] n [of 30] n [of 31]
    by (simp_all add: get_raw_def le16_at_def le32_at_def)
  then show ?thesis
    using ext2_iget_fast_symlink [OF _ g, of vm_ref ex_inode ?bs]
    by (simp add: vm_ref_def exl_fs_def S_ISLNK_def)
qed

end
