(* ===== verification/Namei.thy ===== *)
theory Namei
  imports Inode
begin

text \<open>
  The operations on names (\<^verbatim>\<open>namei.c\<close>). They work on several inodes at once, and two of their
  arguments may be the same inode (both directories of a rename), so the state holds the
  in-memory inodes by number: \<open>n_ic\<close>. A dentry is its name and the number of its inode.

  \<open>nm\<close> holds what these operations call besides the parts modelled already:
  \<^verbatim>\<open>discard_new_inode\<close>, which drops the last reference to an inode, and \<^verbatim>\<open>page_symlink\<close>.
  \<open>npage\<close> is the undeclared variable of \<^verbatim>\<open>ext2_find_entry\<close>.
\<close>

record nstate =
  n_fs :: ext2_fs
  n_ic :: "u64 \<Rightarrow> inode"

record dentry =
  d_name_of :: "byte list"
  d_inode :: "u64 option"

record nm =
  nm_kern :: kern
  nm_vfs :: vfs
  nm_vm :: vm
  nm_pages :: pgcache
  npage :: "nat \<Rightarrow> nat"
  discard_new_inode :: "ext2_fs \<Rightarrow> inode \<Rightarrow> (inode \<times> ext2_fs) option"
  page_symlink :: "ext2_fs \<Rightarrow> inode \<Rightarrow> byte list \<Rightarrow> int \<times> inode \<times> ext2_fs"

definition on_inode ::
  "u64 \<Rightarrow> (inode \<Rightarrow> ext2_fs \<Rightarrow> ('a \<times> inode \<times> ext2_fs) option) \<Rightarrow> nstate \<Rightarrow> ('a \<times> nstate) option" where
  "on_inode i f st = do {
     (r, ip, s) \<leftarrow> f (n_ic st i) (n_fs st);
     Some (r, st\<lparr>n_ic := (n_ic st)(i := ip), n_fs := s\<rparr>) }"

definition upd_inode :: "u64 \<Rightarrow> (inode \<Rightarrow> inode) \<Rightarrow> nstate \<Rightarrow> nstate" where
  "upd_inode i f st = st\<lparr>n_ic := (n_ic st)(i := f (n_ic st i))\<rparr>"

text \<open>\<^verbatim>\<open>inode_inc_link_count\<close>, \<^verbatim>\<open>inode_dec_link_count\<close> and \<^verbatim>\<open>drop_nlink\<close> of the kernel.\<close>

definition inc_nlink :: "inode \<Rightarrow> inode" where
  "inc_nlink ip = ip\<lparr>i_nlink := i_nlink ip + 1\<rparr>"

definition drop_nlink :: "inode \<Rightarrow> inode" where
  "drop_nlink ip = ip\<lparr>i_nlink := i_nlink ip - 1\<rparr>"

definition set_ctime :: "ext2_fs \<Rightarrow> inode \<Rightarrow> inode" where
  "set_ctime s ip = ip\<lparr>i_ctime := uint (clock s)\<rparr>"

definition discard :: "nm \<Rightarrow> u64 \<Rightarrow> nstate \<Rightarrow> nstate option" where
  "discard N i st = do {
     (ip, s) \<leftarrow> discard_new_inode N (n_fs st) (n_ic st i);
     Some (st\<lparr>n_ic := (n_ic st)(i := ip), n_fs := s\<rparr>) }"

text \<open>A new inode enters the table of in-memory inodes under its number.\<close>

definition make_inode :: "nm \<Rightarrow> u64 \<Rightarrow> u16 \<Rightarrow> nstate \<Rightarrow> ((int + u64) \<times> nstate) option" where
  "make_inode N dir mode st = do {
     (r, s) \<leftarrow> ext2_new_inode (nm_kern N) (nm_vfs N) (n_fs st) (n_ic st dir) mode;
     Some (case r of Inl e \<Rightarrow> (Inl e, st\<lparr>n_fs := s\<rparr>)
       | Inr ip \<Rightarrow> (Inr (i_ino ip), st\<lparr>n_fs := s, n_ic := (n_ic st)(i_ino ip := ip)\<rparr>)) }"

definition add_link :: "nm \<Rightarrow> u64 \<Rightarrow> byte list \<Rightarrow> u64 \<Rightarrow> nstate \<Rightarrow> (int \<times> nstate) option" where
  "add_link N dir name ino st =
     on_inode dir (\<lambda>d s. ext2_add_link (nm_pages N) s d name (i_ino (n_ic st ino))) st"

definition find_entry ::
  "nm \<Rightarrow> u64 \<Rightarrow> byte list \<Rightarrow> nstate \<Rightarrow> ((int + nat \<times> nat) \<times> nstate) option" where
  "find_entry N dir name st = on_inode dir (\<lambda>d s. ext2_find_entry (npage N) s d name) st"

definition delete_entry :: "nm \<Rightarrow> u64 \<Rightarrow> nat \<times> nat \<Rightarrow> nstate \<Rightarrow> (int \<times> nstate) option" where
  "delete_entry N dir de st = on_inode dir (\<lambda>d s. ext2_delete_entry (nm_pages N) s d de) st"

definition set_link :: "nm \<Rightarrow> u64 \<Rightarrow> nat \<times> nat \<Rightarrow> u64 \<Rightarrow> bool \<Rightarrow> nstate \<Rightarrow> (unit \<times> nstate) option" where
  "set_link N dir de ino stamp st =
     on_inode dir (\<lambda>d s. do {
       (d, s) \<leftarrow> ext2_set_link (nm_pages N) s d de (i_ino (n_ic st ino)) stamp;
       Some ((), d, s) }) st"

definition empty_dir :: "u64 \<Rightarrow> nstate \<Rightarrow> (bool \<times> nstate) option" where
  "empty_dir dir st = on_inode dir (\<lambda>d s. ext2_empty_dir s d) st"

section \<open>Operations\<close>

definition ext2_add_nondir ::
  "nm \<Rightarrow> u64 \<Rightarrow> dentry \<Rightarrow> u64 \<Rightarrow> nstate \<Rightarrow> (int \<times> dentry \<times> nstate) option" where
  "ext2_add_nondir N dir dentry ino st = do {
     (err, st) \<leftarrow> add_link N dir (d_name_of dentry) ino st;
     if err \<noteq> 0
     then do {
       st \<leftarrow> discard N ino (upd_inode ino drop_nlink st);
       Some (err, dentry, st) }
     else Some (0, dentry\<lparr>d_inode := Some ino\<rparr>, st) }"

definition ext2_create ::
  "nm \<Rightarrow> u64 \<Rightarrow> dentry \<Rightarrow> u16 \<Rightarrow> nstate \<Rightarrow> (int \<times> dentry \<times> nstate) option" where
  "ext2_create N dir dentry mode st = do {
     (r, st) \<leftarrow> make_inode N dir mode st;
     (case r of Inl e \<Rightarrow> Some (e, dentry, st)
      | Inr ino \<Rightarrow>
          ext2_add_nondir N dir dentry ino
            (upd_inode ino (\<lambda>ip. ip\<lparr>i_op := Ext2_file_inode_ops, i_fop := Ext2_file_ops,
               a_ops := Ext2_aops\<rparr>) st)) }"

text \<open>
  The result of a lookup is what \<^verbatim>\<open>d_splice_alias\<close> gets: an error, no inode, or an inode, which
  enters the table.
\<close>

definition ext2_lookup ::
  "nm \<Rightarrow> u64 \<Rightarrow> dentry \<Rightarrow> nstate \<Rightarrow> ((int + u64 option) \<times> nstate) option" where
  "ext2_lookup N dir dentry st =
     (if EXT2_NAME_LEN < length (d_name_of dentry) then Some (Inl (- ENAMETOOLONG), st)
      else do {
        (r, st) \<leftarrow> on_inode dir (\<lambda>d s. ext2_inode_by_name (npage N) s d (d_name_of dentry)) st;
        (case r of
           Inl res \<Rightarrow> if res \<noteq> - ENOENT then Some (Inl res, st) else Some (Inr None, st)
         | Inr ino \<Rightarrow> do {
             (r, s) \<leftarrow> ext2_iget (nm_kern N) (nm_vm N) (n_fs st) (ucast ino);
             let st = st\<lparr>n_fs := s\<rparr>;
             (case r of
                Inl e \<Rightarrow> if e = - ESTALE
                   then do { s \<leftarrow> ext2_error (n_fs st); Some (Inl (- EIO), st\<lparr>n_fs := s\<rparr>) }
                   else Some (Inl e, st)
              | Inr ip \<Rightarrow> Some (Inr (Some (ucast ino)), st\<lparr>n_ic := (n_ic st)(ucast ino := ip)\<rparr>)) }) })"

definition ext2_link ::
  "nm \<Rightarrow> u64 \<Rightarrow> u64 \<Rightarrow> dentry \<Rightarrow> nstate \<Rightarrow> (int \<times> dentry \<times> nstate) option" where
  "ext2_link N ino dir dentry st = do {
     let st = upd_inode ino (\<lambda>ip. inc_nlink (set_ctime (n_fs st) ip)) st;
     (err, st) \<leftarrow> add_link N dir (d_name_of dentry) ino st;
     if err \<noteq> 0 then Some (err, dentry, upd_inode ino drop_nlink st)
     else Some (0, dentry\<lparr>d_inode := Some ino\<rparr>, st) }"

definition ext2_unlink :: "nm \<Rightarrow> u64 \<Rightarrow> byte list \<Rightarrow> u64 \<Rightarrow> nstate \<Rightarrow> (int \<times> nstate) option" where
  "ext2_unlink N dir name ino st = do {
     (r, st) \<leftarrow> find_entry N dir name st;
     (case r of Inl err \<Rightarrow> Some (err, st)
      | Inr de \<Rightarrow> do {
          (err, st) \<leftarrow> delete_entry N dir de st;
          if err \<noteq> 0 then Some (err, st)
          else Some (0, upd_inode ino (\<lambda>ip. drop_nlink (ip\<lparr>i_ctime := i_ctime (n_ic st dir)\<rparr>)) st) }) }"

text \<open>The words of \<^verbatim>\<open>i_data\<close> as bytes; \<^verbatim>\<open>memcpy\<close> of a short symlink's target writes to them.\<close>

definition data_bytes :: "u32 list \<Rightarrow> byte list" where
  "data_bytes ds = concat (map (\<lambda>d. [ucast d, ucast (drop_bit 8 d), ucast (drop_bit 16 d), ucast (drop_bit 24 d)]) ds)"

definition bytes_data :: "byte list \<Rightarrow> u32 list" where
  "bytes_data bs = map (\<lambda>n. le32_at bs (4 * n)) [0..<EXT2_N_BLOCKS]"

definition symlink_target :: "byte list \<Rightarrow> inode \<Rightarrow> inode" where
  "symlink_target symname ip = ip\<lparr>i_op := Simple_symlink_ops,
     ei_data := bytes_data (put_bytes (symname @ [0]) 0 (data_bytes (ei_data ip))),
     i_size := int (length symname)\<rparr>"

abbreviation (input) S_IRWXUGO :: u16 where "S_IRWXUGO \<equiv> 0x1FF"

definition ext2_symlink ::
  "nm \<Rightarrow> u64 \<Rightarrow> dentry \<Rightarrow> byte list \<Rightarrow> nstate \<Rightarrow> (int \<times> dentry \<times> nstate) option" where
  "ext2_symlink N dir dentry symname st =
     (let l = length symname + 1 in
      if unat (sb_blocksize (n_fs st)) < l then Some (- ENAMETOOLONG, dentry, st)
      else do {
        (r, st) \<leftarrow> make_inode N dir (S_IFLNK OR S_IRWXUGO) st;
        (case r of Inl err \<Rightarrow> Some (err, dentry, st)
         | Inr ino \<Rightarrow>
             if 4 * EXT2_N_BLOCKS < l
             then do {
               let st = upd_inode ino (\<lambda>ip. ip\<lparr>i_op := Page_symlink_ops, a_ops := Ext2_aops\<rparr>) st;
               (err, st) \<leftarrow> on_inode ino (\<lambda>ip s. Some (page_symlink N s ip (symname @ [0]))) st;
               if err \<noteq> 0
               then do {
                 st \<leftarrow> discard N ino (upd_inode ino drop_nlink st);
                 Some (err, dentry, st) }
               else ext2_add_nondir N dir dentry ino st }
             else ext2_add_nondir N dir dentry ino (upd_inode ino (symlink_target symname) st)) })"

definition ext2_mkdir ::
  "nm \<Rightarrow> u64 \<Rightarrow> dentry \<Rightarrow> u16 \<Rightarrow> nstate \<Rightarrow> (int \<times> dentry \<times> nstate) option" where
  "ext2_mkdir N dir dentry mode st = do {
     let st = upd_inode dir inc_nlink st;
     (r, st) \<leftarrow> make_inode N dir (S_IFDIR OR mode) st;
     (case r of Inl err \<Rightarrow> Some (err, dentry, upd_inode dir drop_nlink st)
      | Inr ino \<Rightarrow> do {
          let st = upd_inode ino (\<lambda>ip. inc_nlink (ip\<lparr>i_op := Ext2_dir_inode_ops,
            i_fop := Ext2_dir_ops, a_ops := Ext2_aops\<rparr>)) st;
          (err, st) \<leftarrow> on_inode ino (\<lambda>ip s. Some (ext2_make_empty (nm_pages N) s ip (i_ino (n_ic st dir)))) st;
          (err, st) \<leftarrow> (if err \<noteq> 0 then Some (err, st) else add_link N dir (d_name_of dentry) ino st);
          if err \<noteq> 0
          then do {
            st \<leftarrow> discard N ino (upd_inode ino drop_nlink (upd_inode ino drop_nlink st));
            Some (err, dentry, upd_inode dir drop_nlink st) }
          else Some (0, dentry\<lparr>d_inode := Some ino\<rparr>, st) }) }"

definition ext2_rmdir :: "nm \<Rightarrow> u64 \<Rightarrow> byte list \<Rightarrow> u64 \<Rightarrow> nstate \<Rightarrow> (int \<times> nstate) option" where
  "ext2_rmdir N dir name ino st = do {
     (empty, st) \<leftarrow> empty_dir ino st;
     if \<not> empty then Some (- ENOTEMPTY, st)
     else do {
       (err, st) \<leftarrow> ext2_unlink N dir name ino st;
       if err \<noteq> 0 then Some (err, st)
       else Some (0, upd_inode dir drop_nlink
              (upd_inode ino (\<lambda>ip. drop_nlink (ip\<lparr>i_size := 0\<rparr>)) st)) } }"

definition ext2_mknod ::
  "nm \<Rightarrow> u64 \<Rightarrow> dentry \<Rightarrow> u16 \<Rightarrow> u32 \<Rightarrow> nstate \<Rightarrow> (int \<times> dentry \<times> nstate) option" where
  "ext2_mknod N dir dentry mode rdev st = do {
     (r, st) \<leftarrow> make_inode N dir mode st;
     (case r of Inl err \<Rightarrow> Some (err, dentry, st)
      | Inr ino \<Rightarrow>
          ext2_add_nondir N dir dentry ino
            (upd_inode ino (\<lambda>ip. (init_special_inode (nm_vm N) ip (i_mode ip) rdev)
               \<lparr>i_op := Ext2_special_inode_ops\<rparr>) st)) }"

section \<open>Rename\<close>

abbreviation (input) RENAME_NOREPLACE :: u32 where "RENAME_NOREPLACE \<equiv> 1"

text \<open>The name \<open>new_name\<close> comes to stand for the old inode: over an inode that has it, or new.\<close>

definition rename_target ::
  "nm \<Rightarrow> u64 \<Rightarrow> byte list \<Rightarrow> u64 option \<Rightarrow> u64 \<Rightarrow> bool \<Rightarrow> nstate \<Rightarrow> (int \<times> nstate) option" where
  "rename_target N new_dir new_name target old_inode is_dir st =
     (case target of
        Some new \<Rightarrow> do {
          (empty, st) \<leftarrow> (if is_dir then empty_dir new st else Some (True, st));
          if \<not> empty then Some (- ENOTEMPTY, st)
          else do {
            (r, st) \<leftarrow> find_entry N new_dir new_name st;
            (case r of Inl err \<Rightarrow> Some (err, st)
             | Inr new_de \<Rightarrow> do {
                 (_, st) \<leftarrow> set_link N new_dir new_de old_inode True st;
                 let st = upd_inode new (set_ctime (n_fs st)) st;
                 let st = (if is_dir then upd_inode new drop_nlink st else st);
                 Some (0, upd_inode new drop_nlink st) }) } }
      | None \<Rightarrow> do {
          (err, st) \<leftarrow> add_link N new_dir new_name old_inode st;
          if err \<noteq> 0 then Some (err, st)
          else Some (0, if is_dir then upd_inode new_dir inc_nlink st else st) })"

definition ext2_rename ::
  "nm \<Rightarrow> u64 \<Rightarrow> byte list \<Rightarrow> u64 \<Rightarrow> u64 \<Rightarrow> byte list \<Rightarrow> u64 option \<Rightarrow> u32 \<Rightarrow> nstate
     \<Rightarrow> (int \<times> nstate) option" where
  "ext2_rename N old_dir old_name old_inode new_dir new_name target flags st =
     (if flags AND NOT RENAME_NOREPLACE \<noteq> 0 then Some (- EINVAL, st)
      else do {
        (r, st) \<leftarrow> find_entry N old_dir old_name st;
        (case r of Inl err \<Rightarrow> Some (err, st)
         | Inr old_de \<Rightarrow> do {
             let is_dir = S_ISDIR (i_mode (n_ic st old_inode));
             (dir_de, st) \<leftarrow> (if is_dir then on_inode old_inode (\<lambda>d s. ext2_dotdot s d) st
                             else Some (None, st));
             if is_dir \<and> dir_de = None then Some (- EIO, st)
             else do {
               (err, st) \<leftarrow> rename_target N new_dir new_name target old_inode is_dir st;
               if err \<noteq> 0 then Some (err, st)
               else do {
                 let st = upd_inode old_inode (set_ctime (n_fs st)) st;
                 (_, st) \<leftarrow> delete_entry N old_dir old_de st;
                 (case dir_de of None \<Rightarrow> Some (0, st)
                  | Some de \<Rightarrow> do {
                      (_, st) \<leftarrow> (if old_dir \<noteq> new_dir then set_link N old_inode de new_dir False st
                                else Some ((), st));
                      Some (0, upd_inode old_dir drop_nlink st) }) } } }) })"

end
