(* ===== verification/Dir_Set_Link.thy ===== *)
theory Dir_Set_Link
  imports Dir_Map
begin

text \<open>
  \<^verbatim>\<open>ext2_set_link\<close> over the map a directory holds: the name of the entry it is given comes to
  stand for another inode, and every other name stays.
\<close>

lemma nth_set_type: "i \<noteq> a + 7 \<Longrightarrow> set_file_type a bs ! i = bs ! i"
  by (simp add: set_file_type_def)

lemma dent_set_type:
  "dent_at (set_file_type a bs) a = dent_at bs a" "de_name_len (set_file_type a bs) a = de_name_len bs a"
proof -
  note nm = de_name_cong [of a "set_file_type a bs" bs, OF _ length_set(3)]
  show "de_name_len (set_file_type a bs) a = de_name_len bs a" by (rule nm) (simp add: nth_set_type)
  moreover have "de_name (set_file_type a bs) a = de_name bs a" by (rule nm) (simp add: nth_set_type)
  moreover have "de_inode (set_file_type a bs) a = de_inode bs a"
    "de_rec_len (set_file_type a bs) a = de_rec_len bs a"
    by (simp_all add: de_inode_def de_rec_len_def le32_at_def le16_at_def nth_set_type)
  ultimately show "dent_at (set_file_type a bs) a = dent_at bs a" by (simp add: dent_at_def)
qed

lemma set_link_chain:
  assumes c: "chain ch mx bs 0 (xs @ e # ys) lim" and lim: "lim \<le> length bs" and w: "unat w \<le> mx"
  shows "chain ch mx (set_file_type (recs xs) (set_inode_no w (recs xs) bs)) 0
           (xs @ e\<lparr>d_ino := w\<rparr> # ys) lim"
proof -
  let ?cs = "set_file_type (recs xs) (set_inode_no w (recs xs) bs)"
  have ce: "chain ch mx bs (recs xs) (e # ys) lim" using c by (simp add: chain_append)
  note h = chain_head [OF ce]
  have room: "recs xs + 8 \<le> length bs" using h(5,8) lim by simp
  have "chain ch mx ?cs 0 (xs @ [e\<lparr>d_ino := w\<rparr>] @ ys) lim"
  proof (rule chain_replace [where ms = "[e]"])
    show "chain ch mx bs 0 (xs @ [e] @ ys) lim" using c by simp
    show "\<forall>i < recs xs. ?cs ! i = bs ! i" "\<forall>i \<ge> recs xs + recs [e]. ?cs ! i = bs ! i"
      using h(5) by (auto simp: nth_set_inode nth_set_type)
    have "dent_at ?cs (recs xs) = e\<lparr>d_ino := w\<rparr>" "de_name_len ?cs (recs xs) = length (d_name e)"
      using dent_set_inode [OF room, of w] h(4) ce by (simp_all add: dent_set_type)
    then show "chain ch mx ?cs (recs xs) [e\<lparr>d_ino := w\<rparr>] (recs xs + recs [e])"
      using h(10) w by (simp add: entry_ok_def)
  qed simp
  then show ?thesis by simp
qed

lemma entries_relink:
  assumes n: "n < dir_pages dir" and E: "E n = xs @ e # ys" and lv: "is_live e" and w: "w \<noteq> 0"
  shows "add_mset (d_name e, d_ino e) (entries dir (E(n := xs @ e\<lparr>d_ino := w\<rparr> # ys))) =
     add_mset (d_name e, w) (entries dir E)"
proof -
  have "is_live (e\<lparr>d_ino := w\<rparr>)" using w by (simp add: is_live_def)
  then show ?thesis
    using entries_upd [OF n, of E "xs @ e\<lparr>d_ino := w\<rparr> # ys"] lv by (simp add: E)
qed

lemma graph_update:
  assumes "finite (dom m)" "m k = Some v" "add_mset (k, v) M = add_mset (k, w) (mset_set (Map.graph m))"
  shows "M = mset_set (Map.graph (m(k \<mapsto> w)))"
proof -
  have "(m(k := None))(k \<mapsto> w) = m(k \<mapsto> w)" by simp
  then show ?thesis
    using assms(3) graph_remove [OF assms(1,2)] graph_insert [of "m(k := None)" k w] assms(1)
    by (simp add: add_mset_commute [of "(k, v)"])
qed

lemma set_link_map:
  assumes v: "dir_view s dir E" and M: "entries dir E = mset_set (Map.graph m)" "finite (dom m)"
    and n: "n < dir_pages dir" and E: "E n = xs @ e # ys" and lv: "is_live e"
    and m: "m (d_name e) = Some (d_ino e)" and P: "writes_ok P"
    and w: "(ucast ino :: u32) \<noteq> 0" "unat (ucast ino :: u32) \<le> max_ino s"
  shows "\<exists>dir' s'. ext2_set_link P s dir (n, recs xs) ino stamp = Some (dir', s') \<and> same_geom s s' \<and>
     i_ino dir' = i_ino dir \<and> holds_map s' dir' (m(d_name e \<mapsto> ucast ino))"
proof -
  let ?w = "ucast ino :: u32" and ?lim = "ext2_last_byte dir n"
  let ?f = "\<lambda>bs. set_file_type (recs xs) (set_inode_no ?w (recs xs) bs)"
  let ?E = "E(n := xs @ e\<lparr>d_ino := ?w\<rparr> # ys)"
  define pos where "pos = int (n * PAGE_SIZE + recs xs)"
  note b = entry_bytes [OF v n E]
  obtain err d1 s1 where pr: "write_begin P dir s pos (d_rec e) = (err, d1, s1)" by (metis prod_cases3)
  have "recs xs + d_rec e \<le> ?lim" using chain_end [OF b(3)] by simp
  from below_size [OF v n this] have in_size: "pos + int (d_rec e) \<le> i_size dir" by (simp add: pos_def)
  note wd = writes_okD [OF P pr]
  define d2 where "d2 = with_page_bytes n ?f d1"
  obtain r d3 where cm: "ext2_commit_chunk P s1 d2 pos (d_rec e) = (r, d3)" "i_pages d3 = i_pages d2"
    "i_ino d3 = i_ino d2" "i_size d3 = max (i_size d2) (pos + int (d_rec e))"
    using commit_result [OF P, of s1 d2 pos "d_rec e"] by blast
  define d4 where "d4 = (if stamp then touch_dir s1 d3 else d3)"
  have run: "ext2_set_link P s dir (n, recs xs) ino stamp = Some (d4, s1)"
    using wd(2) [OF in_size]
    unfolding ext2_set_link_def prod.case Let_def ext2_prepare_chunk_def b(2) pos_def [symmetric] pr
      d2_def [symmetric] cm(1) d4_def
    by simp
  have sz: "i_size d2 = i_size dir" "i_ino d2 = i_ino dir"
    using wd(3) by (simp_all add: d2_def same_data_def)
  have "names_ok (xs @ e # ys)" using v n E by (auto simp: dir_view_def dir_page_ok_def)
  then have nm: "names_ok (xs @ e\<lparr>d_ino := ?w\<rparr> # ys)" using lv by (auto simp: names_ok_def)
  have lim: "?lim \<le> length (page_bytes dir n)" using last_byte_bounds(2) [OF v n] b(4) by simp
  have v1: "dir_view s1 d1 E" using dir_view_cong [OF wd(3,4)] v by simp
  have v2: "dir_view s1 d2 ?E"
    unfolding d2_def
    by (rule view_page_upd [OF v1 _ nm])
      (use set_link_chain [OF b(3) lim w(2)] b(4) in \<open>simp_all add: same_dataD [OF wd(3)] same_geomD [OF wd(4)]\<close>)
  have sd: "same_data d2 d4"
    using cm(2-4) in_size sz by (simp add: same_data_def touch_dir_def d4_def)
  have v4: "dir_view s1 d4 ?E" using v2 dir_view_cong [OF sd, of s1 s1] by simp
  have p: "dir_pages d4 = dir_pages dir" using same_dataD(1) [OF sd] sz by (simp add: dir_pages_def)
  have "entries d4 ?E = entries dir ?E" by (simp add: entries_def p)
  then have "entries d4 ?E = mset_set (Map.graph (m(d_name e \<mapsto> ?w)))"
    using entries_relink [of n dir E xs e ys, OF n E lv w(1)] graph_update [OF M(2) m, of _ ?w] by (simp add: M(1))
  with v4 have "holds_map s1 d4 (m(d_name e \<mapsto> ?w))" using M(2) unfolding holds_map_def by auto
  moreover have "i_ino d4 = i_ino dir" using sd sz by (simp add: same_data_def)
  ultimately show ?thesis using run wd(4) by blast
qed

end
