(* ===== verification/Namei_Correct.thy ===== *)
theory Namei_Correct
  imports Namei Dir_Thms Dir_Set_Link
begin

text \<open>
  The parts of the operations on names over the maps the directories hold. The lemmas say what
  each step does to the directory it works on, and that every other in-memory inode and the
  geometry of the file system stay.
\<close>

lemma holds_geom: "same_geom s t \<Longrightarrow> holds_map t dir m = holds_map s dir m"
  unfolding holds_map_def by (simp add: dir_view_cong [of dir dir s t] same_data_def)

lemma holds_data: "same_data a b \<Longrightarrow> holds_map s b m = holds_map s a m"
  unfolding holds_map_def by (simp add: dir_view_cong [of a b s s] same_dataD)

lemma same_geom_trans: "same_geom s t \<Longrightarrow> same_geom t u \<Longrightarrow> same_geom s u"
  by (simp add: same_geom_def)

lemma same_geom_static: "static_eq s t \<Longrightarrow> same_geom s t"
  by (simp add: static_eq_def same_geom_def total_inodes_def word_unat_eq_iff)

text \<open>Only the inodes in \<open>A\<close> change.\<close>

definition others_same :: "u64 set \<Rightarrow> nstate \<Rightarrow> nstate \<Rightarrow> bool" where
  "others_same A st st' \<longleftrightarrow> (\<forall>x. x \<notin> A \<longrightarrow> n_ic st' x = n_ic st x) \<and> same_geom (n_fs st) (n_fs st')"

lemma others_sameD:
  assumes "others_same A st st'"
  shows "x \<notin> A \<Longrightarrow> n_ic st' x = n_ic st x" "same_geom (n_fs st) (n_fs st')"
  using assms by (simp_all add: others_same_def)

lemma others_trans: "others_same A a b \<Longrightarrow> others_same B b c \<Longrightarrow> A \<subseteq> C \<Longrightarrow> B \<subseteq> C \<Longrightarrow> others_same C a c"
  unfolding others_same_def using same_geom_trans by (metis subset_iff)

lemma others_upd [simp]: "others_same A st (upd_inode i f st) \<longleftrightarrow> i \<in> A \<or> f (n_ic st i) = n_ic st i"
  by (auto simp: others_same_def upd_inode_def)

lemma upd_inode_sel [simp]:
  "n_fs (upd_inode i f st) = n_fs st" "n_ic (upd_inode i f st) x = (if x = i then f (n_ic st i) else n_ic st x)"
  by (simp_all add: upd_inode_def)

definition dir_at :: "nstate \<Rightarrow> u64 \<Rightarrow> dirmap \<Rightarrow> bool" where
  "dir_at st d m \<longleftrightarrow> holds_map (n_fs st) (n_ic st d) m"

lemma dir_at_others: "others_same A st st' \<Longrightarrow> d \<notin> A \<Longrightarrow> dir_at st' d m = dir_at st d m"
  by (simp add: dir_at_def others_sameD holds_geom)

lemma dir_at_upd: "same_data (n_ic st i) (f (n_ic st i)) \<Longrightarrow> dir_at (upd_inode i f st) d m = dir_at st d m"
  by (simp add: dir_at_def holds_data)

lemma same_data_upds [simp]:
  "same_data ip (inc_nlink ip)" "same_data ip (drop_nlink ip)" "same_data ip (set_ctime s ip)"
  "same_data ip (inc_nlink (set_ctime s ip))" "same_data ip (drop_nlink (ip\<lparr>i_ctime := c\<rparr>))"
  by (simp_all add: same_data_def inc_nlink_def drop_nlink_def set_ctime_def)

section \<open>Link counts\<close>

text \<open>The page cache changes no link count, and neither do the directory operations.\<close>

definition links_kept :: "pgcache \<Rightarrow> bool" where
  "links_kept P \<longleftrightarrow> (\<forall>dir s pos len err dir' s'.
     write_begin P dir s pos len = (err, dir', s') \<longrightarrow> i_nlink dir' = i_nlink dir)"

lemma links_keptD:
  "write_begin P dir s pos len = (err, dir', s') \<Longrightarrow> links_kept P \<Longrightarrow> i_nlink dir' = i_nlink dir"
  unfolding links_kept_def by blast

lemma nlink_simps [simp]:
  "i_nlink (with_page_bytes n f ip) = i_nlink ip" "i_nlink (touch_dir s ip) = i_nlink ip"
  "i_nlink (set_page n pg ip) = i_nlink ip" "i_nlink (inc_nlink ip) = i_nlink ip + 1"
  "i_nlink (drop_nlink ip) = i_nlink ip - 1" "i_nlink (set_ctime s ip) = i_nlink ip"
  by (simp_all add: with_page_bytes_def touch_dir_def set_page_def inc_nlink_def drop_nlink_def set_ctime_def)

lemma commit_nlink: "ext2_commit_chunk P s dir pos len = (r, dir') \<Longrightarrow> i_nlink dir' = i_nlink dir"
  by (auto simp: ext2_commit_chunk_def Let_def split: if_splits)

lemma get_page_nlink: "ext2_get_page s dir n q = Some (pg, dir', s') \<Longrightarrow> i_nlink dir' = i_nlink dir"
  by (auto simp: ext2_get_page_def bind_Some_iff split: option.splits if_splits)

lemma add_got_it_nlink:
  assumes "links_kept P" "add_got_it P s dir n name ino o' nl rl = (r, dir', s')"
  shows "i_nlink dir' = i_nlink dir"
proof -
  obtain err d1 s1 where w: "write_begin P dir s (int (n * PAGE_SIZE + o')) rl = (err, d1, s1)"
    by (metis prod_cases3)
  have "i_nlink d1 = i_nlink dir" using w assms(1) by (rule links_keptD)
  then show ?thesis
    using assms(2) unfolding add_got_it_def ext2_prepare_chunk_def Let_def w prod.case
    by (auto split: if_splits prod.splits dest!: commit_nlink)
qed

lemma add_pages_nlink:
  assumes "links_kept P"
  shows "add_pages P name ino ns dir s = Some (r, dir', s') \<Longrightarrow> i_nlink dir' = i_nlink dir"
proof (induction ns arbitrary: dir s)
  case (Cons n ns)
  from Cons.prems obtain pg d1 s1 where g: "ext2_get_page s dir n False = Some (pg, d1, s1)"
    by (auto simp: bind_Some_iff)
  note l = get_page_nlink [OF g]
  show ?case
  proof (cases pg)
    case (Inl e)
    with Cons.prems g l show ?thesis by simp
  next
    case (Inr p)
    with Cons.prems Cons.IH [of d1 s1] g l add_got_it_nlink [OF assms] show ?thesis
      by (auto simp: bind_Some_iff Let_def split: add_scan.splits)
  qed
qed simp

lemma add_link_nlink:
  "links_kept P \<Longrightarrow> ext2_add_link P s dir name ino = Some (r, dir', s') \<Longrightarrow> i_nlink dir' = i_nlink dir"
  unfolding ext2_add_link_def by (rule add_pages_nlink)

lemma delete_entry_nlink:
  assumes "links_kept P" "ext2_delete_entry P s dir de = Some (r, dir', s')"
  shows "i_nlink dir' = i_nlink dir"
  using assms
  by (cases de)
    (auto simp: ext2_delete_entry_def ext2_prepare_chunk_def Let_def bind_Some_iff
      split: option.splits if_splits prod.splits dest!: commit_nlink links_keptD)

lemma set_link_nlink:
  assumes "links_kept P" "ext2_set_link P s dir de ino stamp = Some (dir', s')"
  shows "i_nlink dir' = i_nlink dir"
  using assms
  by (cases de)
    (auto simp: ext2_set_link_def ext2_prepare_chunk_def Let_def
      split: if_splits prod.splits dest!: commit_nlink links_keptD)

lemma make_empty_nlink:
  assumes "links_kept P" "ext2_make_empty P s ip parent = (r, ip', s')"
  shows "i_nlink ip' = i_nlink ip"
  using assms
  by (auto simp: ext2_make_empty_def ext2_prepare_chunk_def Let_def
      split: option.splits if_splits prod.splits dest!: commit_nlink links_keptD)

lemma same_dir_nlink: "same_dir dir dir' \<Longrightarrow> i_nlink dir' = i_nlink dir"
  by (auto simp: same_dir_def)

section \<open>The steps\<close>

text \<open>
  What the theorems ask of the page cache: a write may fail, but not on a range inside the
  file, whose blocks are all there; it changes neither the cached bytes nor a link count; and
  the undeclared \<open>npage\<close> of \<^verbatim>\<open>ext2_find_entry\<close> is the number of the round of its loop.
\<close>

definition nm_ok :: "nm \<Rightarrow> bool" where
  "nm_ok N \<longleftrightarrow> writes_ok (nm_pages N) \<and> links_kept (nm_pages N) \<and> npage N = (\<lambda>i. i)"

text \<open>No write, write-back or allocation of a page fails. Only conclusions rest on it.\<close>

definition writes_succeed :: "nm \<Rightarrow> bool" where
  "writes_succeed N \<longleftrightarrow> (\<forall>d. sync_page (nm_pages N) d = 0) \<and>
     (\<forall>d s pos len. fst (write_begin (nm_pages N) d s pos len) = 0) \<and>
     (\<forall>ip. grab_page (nm_pages N) ip 0 \<noteq> None)"

text \<open>A name that can be added to a directory.\<close>

definition can_add :: "nstate \<Rightarrow> u64 \<Rightarrow> byte list \<Rightarrow> u64 \<Rightarrow> bool" where
  "can_add st d name ino \<longleftrightarrow> name_ok name \<and> (ucast ino :: u32) \<noteq> 0 \<and> unat (ucast ino :: u32) \<le> max_ino (n_fs st) \<and>
     i_size (n_ic st d) + int (ext2_chunk_size (n_fs st)) < 2 ^ 32 \<and> next_page_ok (n_ic st d)"

text \<open>
  Adding a name: the directory holds it when the call returns 0; when it returns an error the
  name is there or not, since the write-back that failed comes after the entry was written.
\<close>

lemma add_link_step:
  assumes N: "nm_ok N" and h: "dir_at st d m" and a: "m name = None"
    and c: "can_add st d name (i_ino (n_ic st i))"
  shows "\<exists>r st'. add_link N d name i st = Some (r, st') \<and> r \<le> 0 \<and> others_same {d} st st' \<and>
     i_ino (n_ic st' d) = i_ino (n_ic st d) \<and> i_nlink (n_ic st' d) = i_nlink (n_ic st d) \<and>
     (dir_at st' d (m(name \<mapsto> ucast (i_ino (n_ic st i)))) \<or> r \<noteq> 0 \<and> dir_at st' d m) \<and>
     (writes_succeed N \<longrightarrow> r = 0)"
proof -
  obtain r dir' s' where r: "ext2_add_link (nm_pages N) (n_fs st) (n_ic st d) name (i_ino (n_ic st i)) = Some (r, dir', s')"
    "r \<le> 0" "same_geom (n_fs st) s'" "i_ino dir' = i_ino (n_ic st d)"
    "holds_map s' dir' (m(name \<mapsto> ucast (i_ino (n_ic st i)))) \<or> r \<noteq> 0 \<and> holds_map s' dir' m"
    "(\<forall>d. sync_page (nm_pages N) d = 0) \<and> (\<forall>d s pos len. fst (write_begin (nm_pages N) d s pos len) = 0) \<longrightarrow> r = 0"
    using add_link_map [OF h [unfolded dir_at_def] a, where ino = "i_ino (n_ic st i)" and P = "nm_pages N"] c N
    unfolding can_add_def nm_ok_def by blast
  have "writes_succeed N \<longrightarrow> r = 0" using r(6) by (simp add: writes_succeed_def)
  with r add_link_nlink [OF _ r(1)] N show ?thesis
    by (simp add: nm_ok_def add_link_def on_inode_def others_same_def dir_at_def)
qed

lemma find_step:
  assumes N: "nm_ok N" and h: "dir_at st d m"
  shows "\<exists>r st'. find_entry N d name st = Some (r, st') \<and> others_same {d} st st' \<and>
     n_fs st' = n_fs st \<and> same_dir (n_ic st d) (n_ic st' d) \<and> dir_at st' d m \<and>
     (m name = None \<longrightarrow> r = Inl (- ENOENT)) \<and>
     (\<forall>ino. m name = Some ino \<longrightarrow> (\<exists>de E n xs e ys. r = Inr de \<and> de = (n, recs xs) \<and> dir_view (n_fs st) (n_ic st' d) E \<and>
          entries (n_ic st' d) E = mset_set (Map.graph m) \<and> n < dir_pages (n_ic st' d) \<and> E n = xs @ e # ys \<and>
          is_live e \<and> d_name e = name \<and> d_ino e = ino))"
proof -
  obtain r dir' where r: "ext2_find_entry (\<lambda>i. i) (n_fs st) (n_ic st d) name = Some (r, dir', n_fs st)"
    "same_dir (n_ic st d) dir'"
    "(case r of Inl e \<Rightarrow> e = - ENOENT \<and> m name = None
      | Inr de \<Rightarrow> \<exists>E n xs e ys ino. de = (n, recs xs) \<and> dir_view (n_fs st) dir' E \<and>
          entries dir' E = mset_set (Map.graph m) \<and> n < dir_pages dir' \<and> E n = xs @ e # ys \<and>
          is_live e \<and> d_name e = name \<and> d_ino e = ino \<and> m name = Some ino)"
    using find_entry_map [OF h [unfolded dir_at_def], of name] by (elim exE conjE) (rule that)
  define st' where "st' = st\<lparr>n_ic := (n_ic st)(d := dir'), n_fs := n_fs st\<rparr>"
  have run: "find_entry N d name st = Some (r, st')"
    using N r(1) by (simp add: find_entry_def on_inode_def nm_ok_def st'_def)
  have sel: "n_fs st' = n_fs st" "n_ic st' d = dir'" "others_same {d} st st'"
    by (simp_all add: st'_def others_same_def)
  have fin: "dir_at st' d m" using h by (simp add: dir_at_def sel holds_same [OF r(2)])
  show ?thesis
  proof (intro exI [of _ r] exI [of _ st'] conjI run sel(1,3) fin)
    show "same_dir (n_ic st d) (n_ic st' d)" using r(2) sel by simp
    show "m name = None \<longrightarrow> r = Inl (- ENOENT)" using r(3) by (cases r) auto
    show "\<forall>ino. m name = Some ino \<longrightarrow> (\<exists>de E n xs e ys. r = Inr de \<and> de = (n, recs xs) \<and> dir_view (n_fs st) (n_ic st' d) E \<and>
          entries (n_ic st' d) E = mset_set (Map.graph m) \<and> n < dir_pages (n_ic st' d) \<and> E n = xs @ e # ys \<and>
          is_live e \<and> d_name e = name \<and> d_ino e = ino)"
    proof (cases r)
      case (Inl e)
      with r(3) show ?thesis by simp
    next
      case (Inr de)
      with r(3) obtain E n xs e ys ino where "de = (n, recs xs)" "dir_view (n_fs st) dir' E"
          "entries dir' E = mset_set (Map.graph m)" "n < dir_pages dir'" "E n = xs @ e # ys"
          "is_live e" "d_name e = name" "d_ino e = ino" "m name = Some ino" by auto
      with Inr sel(2) show ?thesis by auto
    qed
  qed
qed

lemma delete_step:
  assumes N: "nm_ok N" and fin: "finite (dom m)" and m: "m name = Some ino"
    and E: "dir_view (n_fs st) (n_ic st d) E" "entries (n_ic st d) E = mset_set (Map.graph m)"
      "n < dir_pages (n_ic st d)" "E n = xs @ e # ys" "is_live e" "d_name e = name" "d_ino e = ino"
  shows "\<exists>r st'. delete_entry N d (n, recs xs) st = Some (r, st') \<and> r \<le> 0 \<and> others_same {d} st st' \<and>
     i_ino (n_ic st' d) = i_ino (n_ic st d) \<and> i_nlink (n_ic st' d) = i_nlink (n_ic st d) \<and>
     dir_at st' d (m(name := None)) \<and> (writes_succeed N \<longrightarrow> r = 0)"
proof -
  obtain q dir' s' E' where q: "ext2_delete_entry (nm_pages N) (n_fs st) (n_ic st d) (n, recs xs) = Some (q, dir', s')"
    "q \<le> 0" "same_geom (n_fs st) s'" "i_ino dir' = i_ino (n_ic st d)" "dir_view s' dir' E'"
    "entries (n_ic st d) E = add_mset (d_name e, d_ino e) (entries dir' E')"
    "(\<forall>d. sync_page (nm_pages N) d = 0) \<longrightarrow> q = 0"
    using delete_entry_result [OF E(1,3,4,5), of "nm_pages N"] N unfolding nm_ok_def by blast
  have "entries dir' E' = mset_set (Map.graph (m(name := None)))"
    using q(6) graph_remove [OF fin m] by (simp add: E(2,6,7))
  then have "holds_map s' dir' (m(name := None))" using fin q(5) unfolding holds_map_def by auto
  moreover have "writes_succeed N \<longrightarrow> q = 0" using q(7) by (simp add: writes_succeed_def)
  ultimately show ?thesis
    using q(1-4) delete_entry_nlink [OF _ q(1)] N by (simp add: nm_ok_def delete_entry_def on_inode_def others_same_def dir_at_def)
qed

text \<open>An entry that stands for another inode from now on.\<close>

lemma set_link_step:
  assumes N: "nm_ok N" and fin: "finite (dom m)" and m: "m name = Some ino"
    and E: "dir_view (n_fs st) (n_ic st d) E" "entries (n_ic st d) E = mset_set (Map.graph m)"
      "n < dir_pages (n_ic st d)" "E n = xs @ e # ys" "is_live e" "d_name e = name" "d_ino e = ino"
    and i: "(ucast (i_ino (n_ic st i)) :: u32) \<noteq> 0" "unat (ucast (i_ino (n_ic st i)) :: u32) \<le> max_ino (n_fs st)"
  shows "\<exists>st'. set_link N d (n, recs xs) i stamp st = Some ((), st') \<and> others_same {d} st st' \<and>
     i_nlink (n_ic st' d) = i_nlink (n_ic st d) \<and>
     dir_at st' d (m(name \<mapsto> ucast (i_ino (n_ic st i))))"
proof -
  obtain dir' s' where q: "ext2_set_link (nm_pages N) (n_fs st) (n_ic st d) (n, recs xs) (i_ino (n_ic st i)) stamp =
      Some (dir', s')" "same_geom (n_fs st) s'" "holds_map s' dir' (m(name \<mapsto> ucast (i_ino (n_ic st i))))"
    using set_link_map [OF E(1,2) fin E(3-5), of "nm_pages N" "i_ino (n_ic st i)" stamp] m i N
    unfolding nm_ok_def E(6,7) by blast
  with set_link_nlink [OF _ q(1)] N show ?thesis
    by (simp add: nm_ok_def set_link_def on_inode_def others_same_def dir_at_def)
qed

lemma unlink_step:
  assumes N: "nm_ok N" and h: "dir_at st d m" and m: "m name = Some e" and i: "i \<noteq> d"
  shows "\<exists>r st'. ext2_unlink N d name i st = Some (r, st') \<and> r \<le> 0 \<and> others_same {d, i} st st' \<and>
     dir_at st' d (m(name := None)) \<and>
     (\<exists>c. n_ic st' i = (if r = 0 then drop_nlink ((n_ic st i)\<lparr>i_ctime := c\<rparr>) else n_ic st i)) \<and>
     i_nlink (n_ic st' d) = i_nlink (n_ic st d) \<and> (writes_succeed N \<longrightarrow> r = 0)"
proof -
  obtain r st1 where f: "find_entry N d name st = Some (r, st1)" "others_same {d} st st1" "n_fs st1 = n_fs st"
    "same_dir (n_ic st d) (n_ic st1 d)"
    "\<forall>ino. m name = Some ino \<longrightarrow> (\<exists>de E n xs e ys. r = Inr de \<and> de = (n, recs xs) \<and> dir_view (n_fs st) (n_ic st1 d) E \<and>
          entries (n_ic st1 d) E = mset_set (Map.graph m) \<and> n < dir_pages (n_ic st1 d) \<and> E n = xs @ e # ys \<and>
          is_live e \<and> d_name e = name \<and> d_ino e = ino)"
    using find_step [OF N h, of name] by (elim exE conjE) (rule that)
  from f(5) m obtain n E xs x ys where x: "r = Inr (n, recs xs)" "dir_view (n_fs st) (n_ic st1 d) E"
    "entries (n_ic st1 d) E = mset_set (Map.graph m)" "n < dir_pages (n_ic st1 d)" "E n = xs @ x # ys"
    "is_live x" "d_name x = name" "d_ino x = e" by auto
  have fin: "finite (dom m)" using h by (simp add: dir_at_def holds_map_def)
  obtain q st2 where g: "delete_entry N d (n, recs xs) st1 = Some (q, st2)" "q \<le> 0" "others_same {d} st1 st2"
    "i_nlink (n_ic st2 d) = i_nlink (n_ic st1 d)" "dir_at st2 d (m(name := None))" "writes_succeed N \<longrightarrow> q = 0"
    using delete_step [OF N fin m _ x(3-8)] x(2) f(3) by auto
  let ?st = "if q = 0 then upd_inode i (\<lambda>ip. drop_nlink (ip\<lparr>i_ctime := i_ctime (n_ic st2 d)\<rparr>)) st2 else st2"
  have run: "ext2_unlink N d name i st = Some (q, ?st)"
    by (simp add: ext2_unlink_def f(1) x(1) g(1))
  have o2: "others_same {d, i} st st2" by (rule others_trans [OF f(2) g(3)]) auto
  have o: "others_same {d, i} st ?st"
    using others_trans [OF o2, of "{i}" "upd_inode i F st2" "{d, i}" for F] o2 by auto
  have n: "n_ic st2 i = n_ic st i" using others_sameD(1) [OF f(2)] others_sameD(1) [OF g(3)] i by simp
  have "dir_at ?st d (m(name := None))" using g(5) by (simp add: dir_at_upd)
  moreover have "i_nlink (n_ic ?st d) = i_nlink (n_ic st d)"
    using g(4) same_dir_nlink [OF f(4)] i by simp
  moreover have "\<exists>c. n_ic ?st i = (if q = 0 then drop_nlink ((n_ic st i)\<lparr>i_ctime := c\<rparr>) else n_ic st i)"
    using n by auto
  ultimately show ?thesis using run o g(2,6) by blast
qed

end
