(* ===== verification/Namei_Steps.thy ===== *)
theory Namei_Steps
  imports Namei_Correct
begin

text \<open>
  The operations on names step by step, with every way they can end: creating a file or a
  directory, removing a directory and renaming a file, over the maps the directories hold and
  the link counts of the inodes.
\<close>

section \<open>The steps that make an inode\<close>

lemma ino_range:
  assumes "1 \<le> unat (ino :: u64)" "unat ino \<le> max_ino s"
  shows "(ucast ino :: u32) \<noteq> 0" "unat (ucast ino :: u32) \<le> max_ino s" "unat (ucast ino :: u32) = unat ino"
proof -
  have "max_ino s < 2 ^ 32" using unat_less_32 by (simp add: max_ino_def)
  then show "unat (ucast ino :: u32) = unat ino"
    using assms(2) by (simp add: unsigned_ucast_eq take_bit_nat_eq_self)
  then show "unat (ucast ino :: u32) \<le> max_ino s" "(ucast ino :: u32) \<noteq> 0" using assms by auto
qed

text \<open>What creation relies on: both allocators' invariants, and a parent whose inode is in use.\<close>

definition make_ready :: "nm \<Rightarrow> nstate \<Rightarrow> u64 \<Rightarrow> bool" where
  "make_ready N st d \<longleftrightarrow> ialloc_inv (n_fs st) \<and> balloc_inv (n_fs st) \<and> bitops_ok (nm_kern N) \<and>
     unat (ei_block_group (n_ic st d)) < n_groups (n_fs st) \<and> unat d \<in> used_inodes (n_fs st)"

lemma make_step:
  assumes r: "make_ready N st d"
    and new: "ext2_new_inode (nm_kern N) (nm_vfs N) (n_fs st) (n_ic st d) mode = Some (Inr ip, s1)"
  shows "make_inode N d mode st = Some (Inr (i_ino ip), st\<lparr>n_fs := s1, n_ic := (n_ic st)(i_ino ip := ip)\<rparr>)"
    "others_same {i_ino ip} st (st\<lparr>n_fs := s1, n_ic := (n_ic st)(i_ino ip := ip)\<rparr>)"
    "inode_claimed (n_fs st) (S_ISDIR mode) (unat (i_ino ip)) s1" "i_ino ip \<noteq> d"
    "1 \<le> unat (i_ino ip)" "unat (i_ino ip) \<le> max_ino (n_fs st)"
proof -
  note res = new_inode_result [OF _ _ _ _ new] 
  have c: "inode_claimed (n_fs st) (S_ISDIR mode) (unat (i_ino ip)) s1" "first_ino (n_fs st) \<le> unat (i_ino ip)"
    "unat (i_ino ip) \<le> total_inodes (n_fs st)"
    using res r by (simp_all add: make_ready_def)
  show "make_inode N d mode st = Some (Inr (i_ino ip), st\<lparr>n_fs := s1, n_ic := (n_ic st)(i_ino ip := ip)\<rparr>)"
    using new by (simp add: make_inode_def)
  show "others_same {i_ino ip} st (st\<lparr>n_fs := s1, n_ic := (n_ic st)(i_ino ip := ip)\<rparr>)"
    using c(1) same_geom_static by (simp add: others_same_def inode_claimed_def)
  show "inode_claimed (n_fs st) (S_ISDIR mode) (unat (i_ino ip)) s1" by (rule c(1))
  show "i_ino ip \<noteq> d" using c(1) r by (auto simp: inode_claimed_def make_ready_def)
  show "1 \<le> unat (i_ino ip)" using c(2) r ialloc_invD(7) [of "n_fs st"] by (simp add: make_ready_def)
  show "unat (i_ino ip) \<le> max_ino (n_fs st)" using c(3) by (simp add: max_ino_def total_inodes_def)
qed

text \<open>Room for one more name in a directory.\<close>

definition link_room :: "nstate \<Rightarrow> u64 \<Rightarrow> bool" where
  "link_room st d \<longleftrightarrow> i_size (n_ic st d) + int (ext2_chunk_size (n_fs st)) < 2 ^ 32 \<and> next_page_ok (n_ic st d)"

lemma can_add_others:
  assumes "link_room st d" "others_same A st st'" "d \<notin> A" "name_ok name"
    and "1 \<le> unat ino" "unat ino \<le> max_ino (n_fs st)"
  shows "can_add st' d name ino"
  using assms others_sameD(1) [OF assms(2,3)] same_geomD [OF others_sameD(2) [OF assms(2)]]
    ino_range [OF assms(5,6)]
  by (simp add: can_add_def link_room_def)

text \<open>
  What the error paths ask of \<^verbatim>\<open>discard_new_inode\<close>: it completes and leaves the geometry of the
  file system. \<open>discarded\<close> says that an inode has been through it.
\<close>

definition discards_ok :: "nm \<Rightarrow> bool" where
  "discards_ok N \<longleftrightarrow> (\<forall>s ip. \<exists>ip' s'. discard_new_inode N s ip = Some (ip', s') \<and> same_geom s s')"

definition discarded :: "nm \<Rightarrow> inode \<Rightarrow> inode \<Rightarrow> bool" where
  "discarded N ip ip' \<longleftrightarrow> (\<exists>s t. discard_new_inode N s ip = Some (ip', t))"

lemma discard_step:
  assumes "discards_ok N"
  shows "\<exists>st'. discard N i st = Some st' \<and> others_same {i} st st' \<and> discarded N (n_ic st i) (n_ic st' i)"
proof -
  obtain ip s where d: "discard_new_inode N (n_fs st) (n_ic st i) = Some (ip, s)" "same_geom (n_fs st) s"
    using assms unfolding discards_ok_def by blast
  then have "discarded N (n_ic st i) ip" unfolding discarded_def by blast
  with d show ?thesis by (simp add: discard_def others_same_def)
qed

lemma add_nondir_step:
  assumes N: "nm_ok N" "discards_ok N" and h: "dir_at st d m" and a: "m (d_name_of dentry) = None" and i: "i \<noteq> d"
    and c: "can_add st d (d_name_of dentry) (i_ino (n_ic st i))"
  defines "m' \<equiv> m(d_name_of dentry \<mapsto> ucast (i_ino (n_ic st i)))"
  shows "\<exists>r st'. ext2_add_nondir N d dentry i st =
       Some (r, if r = 0 then dentry\<lparr>d_inode := Some i\<rparr> else dentry, st') \<and> r \<le> 0 \<and>
     others_same {d, i} st st' \<and> (dir_at st' d m' \<or> r \<noteq> 0 \<and> dir_at st' d m) \<and>
     i_nlink (n_ic st' d) = i_nlink (n_ic st d) \<and>
     (if r = 0 then n_ic st' i = n_ic st i else discarded N (drop_nlink (n_ic st i)) (n_ic st' i)) \<and>
     (writes_succeed N \<longrightarrow> r = 0)"
proof -
  obtain r st1 where r: "add_link N d (d_name_of dentry) i st = Some (r, st1)" "r \<le> 0" "others_same {d} st st1"
    "i_nlink (n_ic st1 d) = i_nlink (n_ic st d)" "dir_at st1 d m' \<or> r \<noteq> 0 \<and> dir_at st1 d m"
    "writes_succeed N \<longrightarrow> r = 0"
    using add_link_step [OF N(1) h a c] unfolding m'_def by blast
  have n: "n_ic st1 i = n_ic st i" using others_sameD(1) [OF r(3)] i by simp
  show ?thesis
  proof (cases "r = 0")
    case True
    have "others_same {d, i} st st1" using r(3) by (auto simp: others_same_def)
    with True r n show ?thesis by (intro exI [of _ r] exI [of _ st1]) (simp add: ext2_add_nondir_def)
  next
    case False
    let ?st = "upd_inode i drop_nlink st1"
    obtain st2 where d: "discard N i ?st = Some st2" "others_same {i} ?st st2"
      "discarded N (n_ic ?st i) (n_ic st2 i)"
      using discard_step [OF N(2)] by blast
    have o: "others_same {i} st1 st2" by (rule others_trans [OF _ d(2), of "{i}"]) auto
    have "others_same {d, i} st st2" by (rule others_trans [OF r(3) o]) auto
    moreover have "n_ic st2 d = n_ic st1 d" using others_sameD(1) [OF o] i by simp
    moreover have "dir_at st2 d m' \<or> dir_at st2 d m" using r(5) dir_at_others [OF o] i by auto
    moreover have "ext2_add_nondir N d dentry i st = Some (r, dentry, st2)"
      using False by (simp add: ext2_add_nondir_def r(1) d(1))
    ultimately show ?thesis
      using False r(2,4,6) d(3) n by (intro exI [of _ r] exI [of _ st2]) simp
  qed
qed

lemma create_step:
  assumes N: "nm_ok N" "discards_ok N" and r: "make_ready N st d" and h: "dir_at st d m"
    and a: "m (d_name_of dentry) = None" "name_ok (d_name_of dentry)" and sp: "link_room st d"
    and new: "ext2_new_inode (nm_kern N) (nm_vfs N) (n_fs st) (n_ic st d) mode = Some (Inr ip, s1)"
    and F: "\<And>ip. i_ino (F ip) = i_ino ip"
  defines "m' \<equiv> m(d_name_of dentry \<mapsto> ucast (i_ino ip))"
  shows "\<exists>r st'. (do {
       (r, st) \<leftarrow> make_inode N d mode st;
       (case r of Inl e \<Rightarrow> Some (e, dentry, st)
        | Inr ino \<Rightarrow> ext2_add_nondir N d dentry ino (upd_inode ino F st)) })
       = Some (r, if r = 0 then dentry\<lparr>d_inode := Some (i_ino ip)\<rparr> else dentry, st') \<and> r \<le> 0 \<and>
     others_same {d, i_ino ip} st st' \<and> (dir_at st' d m' \<or> r \<noteq> 0 \<and> dir_at st' d m) \<and>
     i_nlink (n_ic st' d) = i_nlink (n_ic st d) \<and>
     (if r = 0 then n_ic st' (i_ino ip) = F ip else discarded N (drop_nlink (F ip)) (n_ic st' (i_ino ip))) \<and>
     (writes_succeed N \<longrightarrow> r = 0)"
proof -
  note mk = make_step [OF r new]
  define st1 where "st1 = st\<lparr>n_fs := s1, n_ic := (n_ic st)(i_ino ip := ip)\<rparr>"
  define st2 where "st2 = upd_inode (i_ino ip) F st1"
  have i1: "n_ic st2 (i_ino ip) = F ip" "n_ic st2 d = n_ic st d"
    using mk(4) by (simp_all add: st2_def st1_def)
  have o: "others_same {i_ino ip} st st2"
    unfolding st2_def
    by (rule others_trans [OF mk(2) [folded st1_def], of "{i_ino ip}"]) auto
  have d2: "dir_at st2 d m" using dir_at_others [OF o] h mk(4) by auto
  have c: "can_add st2 d (d_name_of dentry) (i_ino (n_ic st2 (i_ino ip)))"
    unfolding i1 F using can_add_others [OF sp o _ a(2) mk(5,6)] mk(4) by auto
  obtain r st' where st': "ext2_add_nondir N d dentry (i_ino ip) st2 =
      Some (r, if r = 0 then dentry\<lparr>d_inode := Some (i_ino ip)\<rparr> else dentry, st')" "r \<le> 0"
    "others_same {d, i_ino ip} st2 st'" "dir_at st' d m' \<or> r \<noteq> 0 \<and> dir_at st' d m"
    "i_nlink (n_ic st' d) = i_nlink (n_ic st d)" "writes_succeed N \<longrightarrow> r = 0"
    "if r = 0 then n_ic st' (i_ino ip) = F ip else discarded N (drop_nlink (F ip)) (n_ic st' (i_ino ip))"
    using add_nondir_step [OF N d2 a(1) mk(4) c] unfolding m'_def i1 F by blast
  have "others_same {d, i_ino ip} st st'" by (rule others_trans [OF o st'(3)]) auto
  with st' mk(1) show ?thesis
    by (intro exI [of _ r] exI [of _ st']) (simp add: st2_def st1_def)
qed

section \<open>A new directory\<close>

text \<open>
  The documented behaviour of \<^verbatim>\<open>new_inode\<close>, \<^verbatim>\<open>inode_init_owner\<close> and \<^verbatim>\<open>grab_cache_page\<close>, which
  gives a page or none.
\<close>

definition vfs_ok :: "vfs \<Rightarrow> bool" where
  "vfs_ok V \<longleftrightarrow> (\<forall>ip. new_inode V = Some ip \<longrightarrow> i_size ip = 0 \<and> i_nlink ip = 1) \<and>
     (\<forall>ip dir m. i_size (inode_init_owner V ip dir m) = i_size ip \<and>
        i_nlink (inode_init_owner V ip dir m) = i_nlink ip)"

definition grabs_ok :: "pgcache \<Rightarrow> bool" where
  "grabs_ok P \<longleftrightarrow> (\<forall>ip pg. grab_page P ip 0 = Some pg \<longrightarrow> \<not> pg_error pg \<and> length (pg_data pg) = PAGE_SIZE)"

lemma fill_new_sel:
  "i_size (fill_new_inode V now ip dir mode ino g) = i_size (inode_init_owner V ip dir mode)"
  "i_nlink (fill_new_inode V now ip dir mode ino g) = i_nlink (inode_init_owner V ip dir mode)"
  by (simp_all add: fill_new_inode_def ext2_set_inode_flags_def)

lemma make_empty_zero:
  assumes "writes_succeed N" "ext2_make_empty (nm_pages N) s ip parent = (r, ip', s')"
  shows "r = 0"
proof -
  obtain pg where pg: "grab_page (nm_pages N) ip 0 = Some pg"
    using assms(1) unfolding writes_succeed_def by blast
  have w: "fst (write_begin (nm_pages N) d s pos len) = 0" "sync_page (nm_pages N) d = 0" for d s pos len
    using assms(1) by (simp_all add: writes_succeed_def)
  show ?thesis
    using assms(2) w(1) [of "set_page 0 pg ip" s 0 "ext2_chunk_size s"]
    by (auto simp: ext2_make_empty_def pg ext2_prepare_chunk_def ext2_commit_chunk_def Let_def w(2)
        split: prod.splits if_splits)
qed

lemma make_dots_step:
  assumes N: "nm_ok N" "grabs_ok (nm_pages N)" and ck: "chunks_ok s" and sz: "i_size ip = 0"
    and i: "1 \<le> unat (i_ino ip)" "unat (i_ino ip) \<le> max_ino s" "1 \<le> unat p" "unat p \<le> max_ino s"
  shows "\<exists>r ip' s'. ext2_make_empty (nm_pages N) s ip p = (r, ip', s') \<and> r \<le> 0 \<and> same_geom s s' \<and>
     i_ino ip' = i_ino ip \<and> i_nlink ip' = i_nlink ip \<and>
     (r = 0 \<longrightarrow> holds_map s' ip' (dots (ucast (i_ino ip)) (ucast p))) \<and> (writes_succeed N \<longrightarrow> r = 0)"
proof -
  have W: "writes_ok (nm_pages N)" "links_kept (nm_pages N)" using N(1) by (simp_all add: nm_ok_def)
  have "\<exists>r ip' s'. ext2_make_empty (nm_pages N) s ip p = (r, ip', s') \<and> r \<le> 0 \<and> same_geom s s' \<and>
     i_ino ip' = i_ino ip \<and> (r = 0 \<longrightarrow> holds_map s' ip' (dots (ucast (i_ino ip)) (ucast p)))"
  proof (cases "grab_page (nm_pages N) ip 0")
    case None
    then show ?thesis by (simp add: ext2_make_empty_def)
  next
    case (Some pg)
    then have "\<not> pg_error pg" "length (pg_data pg) = PAGE_SIZE" using N(2) by (simp_all add: grabs_ok_def)
    from make_empty_map [OF ck sz W(1) Some this ino_range(1) [OF i(1,2)] ino_range(1) [OF i(3,4)]
      ino_range(2) [OF i(1,2)] ino_range(2) [OF i(3,4)]] show ?thesis by blast
  qed
  then obtain r ip' s' where r: "ext2_make_empty (nm_pages N) s ip p = (r, ip', s')" "r \<le> 0" "same_geom s s'"
    "i_ino ip' = i_ino ip" "r = 0 \<longrightarrow> holds_map s' ip' (dots (ucast (i_ino ip)) (ucast p))" by blast
  with make_empty_zero [OF _ r(1)] make_empty_nlink [OF W(2) r(1)] show ?thesis by blast
qed

lemma used_range:
  assumes "ialloc_inv s" "n \<in> used_inodes s"
  shows "1 \<le> n" "n \<le> max_ino s"
proof -
  obtain g i where n: "g < n_groups s" "i < ipg s" "n = g * ipg s + i + 1"
    using assms(2) by (auto simp: used_inodes_def)
  have "Suc g * ipg s \<le> n_groups s * ipg s" using n(1) by (intro mult_le_mono1) simp
  then show "n \<le> max_ino s"
    using n(2,3) ialloc_invD(6) [OF assms(1)] by (simp add: max_ino_def total_inodes_def)
  show "1 \<le> n" using n(3) by simp
qed

lemma fresh_inode:
  assumes N: "vfs_ok (nm_vfs N)" and r: "make_ready N st d"
    and new: "ext2_new_inode (nm_kern N) (nm_vfs N) (n_fs st) (n_ic st d) mode = Some (Inr ip, s1)"
  shows "i_size ip = 0" and "i_nlink ip = 1"
proof -
  have "\<exists>ip0 now g. new_inode (nm_vfs N) = Some ip0 \<and>
      ip = fill_new_inode (nm_vfs N) now ip0 (n_ic st d) mode (i_ino ip) g"
    using new_inode_result [OF _ _ _ _ new] r by (simp add: make_ready_def)
  then obtain ip0 now g where ip0: "new_inode (nm_vfs N) = Some ip0"
      "ip = fill_new_inode (nm_vfs N) now ip0 (n_ic st d) mode (i_ino ip) g" by blast
  show "i_size ip = 0" "i_nlink ip = 1"
    using N ip0(1) unfolding vfs_ok_def by (subst ip0(2), simp add: fill_new_sel)+
qed

text \<open>The last part of \<^verbatim>\<open>ext2_mkdir\<close>, after the new directory has got its first block or not.\<close>

lemma mkdir_link_step:
  assumes N: "nm_ok N" and h: "dir_at st d m" and a: "m name = None" and c: "can_add st d name (i_ino (n_ic st i))"
    and e: "e \<le> 0"
  shows "\<exists>r st'. (if e \<noteq> 0 then Some (e, st) else add_link N d name i st) = Some (r, st') \<and> r \<le> 0 \<and>
     others_same {d} st st' \<and> i_nlink (n_ic st' d) = i_nlink (n_ic st d) \<and>
     (dir_at st' d (m(name \<mapsto> ucast (i_ino (n_ic st i)))) \<or> r \<noteq> 0 \<and> dir_at st' d m) \<and>
     (r = 0 \<longrightarrow> e = 0) \<and> (writes_succeed N \<and> e = 0 \<longrightarrow> r = 0)"
proof (cases "e = 0")
  case True
  with add_link_step [OF N h a c] show ?thesis by auto
next
  case False
  with h e show ?thesis by (simp add: others_same_def)
qed

lemma drop_inc_nlink [simp]: "drop_nlink (inc_nlink ip) = ip"
  by (simp add: drop_nlink_def inc_nlink_def)

lemma mkdir_undo_step:
  assumes D: "discards_ok N" and i: "i \<noteq> d"
  shows "\<exists>st'. discard N i (upd_inode i drop_nlink (upd_inode i drop_nlink st)) = Some st' \<and>
     others_same {i} st st' \<and> (\<exists>ip. i_nlink ip = i_nlink (n_ic st i) - 2 \<and> discarded N ip (n_ic st' i))"
proof -
  let ?st = "upd_inode i drop_nlink (upd_inode i drop_nlink st)"
  obtain st' where d: "discard N i ?st = Some st'" "others_same {i} ?st st'" "discarded N (n_ic ?st i) (n_ic st' i)"
    using discard_step [OF D] by blast
  have "others_same {i} st ?st" by (simp add: others_same_def)
  then have "others_same {i} st st'" by (rule others_trans [OF _ d(2)]) auto
  moreover have "i_nlink (n_ic ?st i) = i_nlink (n_ic st i) - 2" by simp
  ultimately show ?thesis using d(1,3) by blast
qed

lemma mkdir_step:
  assumes N: "nm_ok N" "discards_ok N" "grabs_ok (nm_pages N)" "vfs_ok (nm_vfs N)"
    and r: "make_ready N st d" and h: "dir_at st d m" and self: "i_ino (n_ic st d) = d"
    and a: "m (d_name_of dentry) = None" "name_ok (d_name_of dentry)" and sp: "link_room st d"
    and new: "ext2_new_inode (nm_kern N) (nm_vfs N) (n_fs st) (inc_nlink (n_ic st d)) (S_IFDIR OR mode) =
      Some (Inr ip, s1)"
  defines "m' \<equiv> m(d_name_of dentry \<mapsto> ucast (i_ino ip))"
  shows "\<exists>r st'. ext2_mkdir N d dentry mode st =
       Some (r, if r = 0 then dentry\<lparr>d_inode := Some (i_ino ip)\<rparr> else dentry, st') \<and> r \<le> 0 \<and>
     others_same {d, i_ino ip} st st' \<and> (dir_at st' d m' \<or> r \<noteq> 0 \<and> dir_at st' d m) \<and>
     i_nlink (n_ic st' d) = i_nlink (n_ic st d) + (if r = 0 then 1 else 0) \<and>
     (if r = 0 then dir_at st' (i_ino ip) (dots (ucast (i_ino ip)) (ucast d)) \<and> i_nlink (n_ic st' (i_ino ip)) = 2
      else \<exists>ip'. i_nlink ip' = 0 \<and> discarded N ip' (n_ic st' (i_ino ip))) \<and>
     (writes_succeed N \<longrightarrow> r = 0)"
proof -
  let ?i = "i_ino ip"
  define st0 where "st0 = upd_inode d inc_nlink st"
  have o0: "others_same {d} st st0" and f0: "n_fs st0 = n_fs st" "n_ic st0 d = inc_nlink (n_ic st d)"
    by (simp_all add: st0_def)
  have r0: "make_ready N st0 d" using r by (simp add: make_ready_def f0 inc_nlink_def)
  have h0: "dir_at st0 d m" using h by (simp add: st0_def dir_at_upd)
  have sp0: "link_room st0 d" using sp by (simp add: link_room_def f0 inc_nlink_def next_page_ok_def dir_pages_def)
  note new0 = new [folded f0]
  note mk = make_step [OF r0 new0]
  define st1 where "st1 = st0\<lparr>n_fs := s1, n_ic := (n_ic st0)(?i := ip)\<rparr>"
  let ?F = "\<lambda>ip. inc_nlink (ip\<lparr>i_op := Ext2_dir_inode_ops, i_fop := Ext2_dir_ops, a_ops := Ext2_aops\<rparr>)"
  define st2 where "st2 = upd_inode ?i ?F st1"
  have o2: "others_same {?i} st0 st2"
    unfolding st2_def by (rule others_trans [OF mk(2) [folded st1_def], of "{?i}"]) auto
  have n2: "n_ic st2 ?i = ?F ip" "n_ic st2 d = inc_nlink (n_ic st d)"
    using mk(4) f0 by (simp_all add: st2_def st1_def)
  note v = fresh_inode [OF N(4) r0 new0]
  have ck: "chunks_ok (n_fs st2)"
    using h0 same_geomD(3) [OF others_sameD(2) [OF o2]] by (auto simp: dir_at_def holds_map_def dir_view_def)
  have mx: "max_ino (n_fs st2) = max_ino (n_fs st)"
    using same_geomD(2) [OF others_sameD(2) [OF o2]] f0 by simp
  have dr: "1 \<le> unat d" "unat d \<le> max_ino (n_fs st2)"
    using used_range [of "n_fs st" "unat d"] r mx by (simp_all add: make_ready_def)
  have "unat (i_ino ip) \<le> max_ino (n_fs st2)" using mk(6) mx f0 by simp
  then obtain e ip' s' where e: "ext2_make_empty (nm_pages N) (n_fs st2) (n_ic st2 ?i) d = (e, ip', s')" "e \<le> 0"
      "same_geom (n_fs st2) s'" "i_ino ip' = ?i" "i_nlink ip' = 2"
      "e = 0 \<longrightarrow> holds_map s' ip' (dots (ucast ?i) (ucast d))" "writes_succeed N \<longrightarrow> e = 0"
    using make_dots_step [OF N(1,3) ck, of "?F ip" d] v mk(5) dr unfolding n2 by (auto simp: inc_nlink_def)
  define st3 where "st3 = st2\<lparr>n_ic := (n_ic st2)(?i := ip'), n_fs := s'\<rparr>"
  have run3: "on_inode ?i (\<lambda>ip s. Some (ext2_make_empty (nm_pages N) s ip (i_ino (n_ic st2 d)))) st2 = Some (e, st3)"
    using e(1) self by (simp add: on_inode_def st3_def n2 inc_nlink_def)
  have o3: "others_same {?i} st0 st3"
    by (rule others_trans [OF o2, of "{?i}"]) (auto simp: others_same_def st3_def e(3))
  have n3: "n_ic st3 ?i = ip'" "n_ic st3 d = inc_nlink (n_ic st d)" using mk(4) n2 by (simp_all add: st3_def)
  have h3: "dir_at st3 d m" using dir_at_others [OF o3] h0 mk(4) by auto
  have c3: "can_add st3 d (d_name_of dentry) (i_ino (n_ic st3 ?i))"
    unfolding n3 e(4) using can_add_others [OF sp0 o3 _ a(2) mk(5,6)] mk(4) by auto
  obtain q st4 where st4: "(if e \<noteq> 0 then Some (e, st3) else add_link N d (d_name_of dentry) ?i st3) = Some (q, st4)"
      "q \<le> 0" "others_same {d} st3 st4" "i_nlink (n_ic st4 d) = i_nlink (n_ic st3 d)"
      "dir_at st4 d m' \<or> q \<noteq> 0 \<and> dir_at st4 d m" "q = 0 \<longrightarrow> e = 0" "writes_succeed N \<and> e = 0 \<longrightarrow> q = 0"
    using mkdir_link_step [OF N(1) h3 a(1) c3 e(2)] unfolding n3 e(4) m'_def by blast
  note run = ext2_mkdir_def Let_def st0_def [symmetric] mk(1) [folded st1_def] bind.bind_lunit prod.case
      sum.case st2_def [symmetric] run3 st4(1)
  have n4: "n_ic st4 ?i = ip'" using others_sameD(1) [OF st4(3)] mk(4) n3 by auto
  have o4: "others_same {d, ?i} st st4"
    using others_sameD [OF o0] others_sameD [OF o3] others_sameD [OF st4(3)]
    by (auto simp: others_same_def intro: same_geom_trans)
  show ?thesis
  proof (cases "q = 0")
    case True
    then have "dir_at st3 ?i (dots (ucast ?i) (ucast d))" using e(6) st4(6) by (simp add: dir_at_def st3_def)
    then have "dir_at st4 ?i (dots (ucast ?i) (ucast d))" using dir_at_others [OF st4(3)] mk(4) by auto
    moreover have "ext2_mkdir N d dentry mode st = Some (0, dentry\<lparr>d_inode := Some ?i\<rparr>, st4)"
      unfolding run by (simp add: True)
    ultimately show ?thesis
      using True o4 st4(4,5) e(5) n4 by (intro exI [of _ 0] exI [of _ st4]) (simp add: n3)
  next
    case False
    obtain st5 where u: "discard N ?i (upd_inode ?i drop_nlink (upd_inode ?i drop_nlink st4)) = Some st5"
      "others_same {?i} st4 st5" "\<exists>ip'. i_nlink ip' = i_nlink (n_ic st4 ?i) - 2 \<and> discarded N ip' (n_ic st5 ?i)"
      using mkdir_undo_step [OF N(2) mk(4)] by blast
    let ?st = "upd_inode d drop_nlink st5"
    have n5: "n_ic st5 d = n_ic st4 d" using others_sameD(1) [OF u(2)] mk(4) by auto
    have "others_same {d, ?i} st st5" by (rule others_trans [OF o4 u(2)]) auto
    then have o5: "others_same {d, ?i} st ?st" by (simp add: others_same_def)
    have "dir_at st5 d m' \<or> dir_at st5 d m" using st4(5) dir_at_others [OF u(2), of d] mk(4) by auto
    then have h5: "dir_at ?st d m' \<or> dir_at ?st d m" by (simp add: dir_at_upd)
    have "ext2_mkdir N d dentry mode st = Some (q, dentry, ?st)"
      unfolding run by (simp add: False u(1))
    moreover have "i_nlink (n_ic ?st d) = i_nlink (n_ic st d)" using n5 st4(4) by (simp add: n3)
    moreover have "\<exists>ip'. i_nlink ip' = 0 \<and> discarded N ip' (n_ic ?st ?i)" using u(3) n4 e(5) mk(4) by simp
    ultimately show ?thesis
      using False o5 h5 st4(2,7) e(7) by (intro exI [of _ q] exI [of _ ?st]) simp
  qed
qed

section \<open>Removing a directory\<close>

lemma rmdir_step:
  assumes N: "nm_ok N" and h: "dir_at st d m" "dir_at st i mi" and m: "m name = Some e" and i: "i \<noteq> d"
  shows "\<exists>r st'. ext2_rmdir N d name i st = Some (r, st') \<and> r \<le> 0 \<and> others_same {d, i} st st' \<and>
     (if \<forall>n ino. mi n = Some ino \<longrightarrow> n = [DOT] \<and> ino = ucast (i_ino (n_ic st i)) \<or> n = [DOT, DOT]
      then dir_at st' d (m(name := None)) \<and> (writes_succeed N \<longrightarrow> r = 0) \<and>
        i_size (n_ic st' i) = (if r = 0 then 0 else i_size (n_ic st i)) \<and>
        i_nlink (n_ic st' d) = i_nlink (n_ic st d) - (if r = 0 then 1 else 0) \<and>
        i_nlink (n_ic st' i) = i_nlink (n_ic st i) - (if r = 0 then 2 else 0)
      else r = - ENOTEMPTY \<and> dir_at st' d m \<and> dir_at st' i mi \<and> n_ic st' d = n_ic st d \<and>
        i_nlink (n_ic st' i) = i_nlink (n_ic st i))"
proof -
  let ?E = "\<forall>n ino. mi n = Some ino \<longrightarrow> n = [DOT] \<and> ino = ucast (i_ino (n_ic st i)) \<or> n = [DOT, DOT]"
  obtain ip where ip: "ext2_empty_dir (n_fs st) (n_ic st i) = Some (?E, ip, n_fs st)" "same_dir (n_ic st i) ip"
    using empty_dir_map [OF h(2) [unfolded dir_at_def]] by blast
  define st1 where "st1 = st\<lparr>n_ic := (n_ic st)(i := ip), n_fs := n_fs st\<rparr>"
  have run: "empty_dir i st = Some (?E, st1)" by (simp add: empty_dir_def on_inode_def ip(1) st1_def)
  have o: "others_same {i} st st1" by (simp add: others_same_def st1_def)
  have n1: "n_ic st1 i = ip" "n_ic st1 d = n_ic st d" using i by (simp_all add: st1_def)
  have h1: "dir_at st1 d m" "dir_at st1 i mi"
    using dir_at_others [OF o] h i holds_same [OF ip(2)] by (auto simp: dir_at_def st1_def)
  note nl = same_dir_nlink [OF ip(2)] same_dir_views(1) [OF ip(2)]
  show ?thesis
  proof (cases ?E)
    case False
    have "ext2_rmdir N d name i st = Some (- ENOTEMPTY, st1)"
      using False run by (simp add: ext2_rmdir_def)
    moreover have "others_same {d, i} st st1" by (rule others_trans [OF o, of "{i}"]) (auto simp: others_same_def)
    ultimately show ?thesis
      unfolding if_not_P [OF False] using h1 n1 nl by (intro exI [of _ "- ENOTEMPTY"] exI [of _ st1]) simp
  next
    case True
    obtain r st2 c where u: "ext2_unlink N d name i st1 = Some (r, st2)" "r \<le> 0" "others_same {d, i} st1 st2"
      "dir_at st2 d (m(name := None))"
      "n_ic st2 i = (if r = 0 then drop_nlink ((n_ic st1 i)\<lparr>i_ctime := c\<rparr>) else n_ic st1 i)"
      "i_nlink (n_ic st2 d) = i_nlink (n_ic st1 d)" "writes_succeed N \<longrightarrow> r = 0"
      using unlink_step [OF N h1(1) m i] by blast
    have o2: "others_same {d, i} st st2"
      using o u(3) by (auto simp: others_same_def intro: same_geom_trans)
    show ?thesis
    proof (cases "r = 0")
      case False
      then have "ext2_rmdir N d name i st = Some (r, st2)" using True run u(1) by (simp add: ext2_rmdir_def)
      with True False o2 u n1 nl show ?thesis by (intro exI [of _ r] exI [of _ st2]) simp
    next
      case r: True
      let ?st = "upd_inode d drop_nlink (upd_inode i (\<lambda>ip. drop_nlink (ip\<lparr>i_size := 0\<rparr>)) st2)"
      have "ext2_rmdir N d name i st = Some (0, ?st)" using True r run u(1) by (simp add: ext2_rmdir_def)
      moreover have "others_same {d, i} st ?st" using o2 by (auto simp: others_same_def)
      moreover have "dir_at ?st d (m(name := None))"
        using u(4) i by (simp add: dir_at_def holds_data [of "n_ic st2 d" "drop_nlink (n_ic st2 d)"])
      moreover have "i_size (n_ic ?st i) = 0" "i_nlink (n_ic ?st d) = i_nlink (n_ic st d) - 1"
        "i_nlink (n_ic ?st i) = i_nlink (n_ic st i) - 2"
        using i r u(5,6) n1 nl by (simp_all add: drop_nlink_def)
      ultimately show ?thesis using True by (intro exI [of _ 0] exI [of _ ?st]) simp
    qed
  qed
qed

section \<open>Renaming a file\<close>

text \<open>What a rename asks of the new name: free, with room for it, or another inode's name.\<close>

definition target_ok :: "nstate \<Rightarrow> u64 set \<Rightarrow> u64 \<Rightarrow> dirmap \<Rightarrow> byte list \<Rightarrow> u64 option \<Rightarrow> bool" where
  "target_ok st A nd m name target = (case target of
     None \<Rightarrow> m name = None \<and> name_ok name \<and> link_room st nd
   | Some new \<Rightarrow> name \<in> dom m \<and> new \<notin> A)"

lemma rename_over_step:
  assumes N: "nm_ok N" and h: "dir_at st nd m" and m: "m nn = Some e" and ne: "new \<noteq> nd" "oi \<noteq> nd"
    and i: "1 \<le> unat (i_ino (n_ic st oi))" "unat (i_ino (n_ic st oi)) \<le> max_ino (n_fs st)"
  shows "\<exists>st'. rename_target N nd nn (Some new) oi False st = Some (0, st') \<and> others_same {nd, new} st st' \<and>
     dir_at st' nd (m(nn \<mapsto> ucast (i_ino (n_ic st oi)))) \<and> i_nlink (n_ic st' nd) = i_nlink (n_ic st nd) \<and>
     i_nlink (n_ic st' new) = i_nlink (n_ic st new) - 1"
proof -
  obtain r st1 where f: "find_entry N nd nn st = Some (r, st1)" "others_same {nd} st st1" "n_fs st1 = n_fs st"
    "same_dir (n_ic st nd) (n_ic st1 nd)"
    "\<forall>ino. m nn = Some ino \<longrightarrow> (\<exists>de E n xs e ys. r = Inr de \<and> de = (n, recs xs) \<and> dir_view (n_fs st) (n_ic st1 nd) E \<and>
          entries (n_ic st1 nd) E = mset_set (Map.graph m) \<and> n < dir_pages (n_ic st1 nd) \<and> E n = xs @ e # ys \<and>
          is_live e \<and> d_name e = nn \<and> d_ino e = ino)"
    using find_step [OF N h, of nn] by (elim exE conjE) (rule that)
  from f(5) m obtain n E xs x ys where x: "r = Inr (n, recs xs)" "dir_view (n_fs st) (n_ic st1 nd) E"
    "entries (n_ic st1 nd) E = mset_set (Map.graph m)" "n < dir_pages (n_ic st1 nd)" "E n = xs @ x # ys"
    "is_live x" "d_name x = nn" "d_ino x = e" by auto
  have fin: "finite (dom m)" using h by (simp add: dir_at_def holds_map_def)
  have n1: "n_ic st1 oi = n_ic st oi" "n_ic st1 new = n_ic st new"
    using others_sameD(1) [OF f(2)] ne by auto
  obtain st2 where g: "set_link N nd (n, recs xs) oi True st1 = Some ((), st2)" "others_same {nd} st1 st2"
    "i_nlink (n_ic st2 nd) = i_nlink (n_ic st1 nd)" "dir_at st2 nd (m(nn \<mapsto> ucast (i_ino (n_ic st1 oi))))"
    using set_link_step [OF N fin m _ x(3-8), of oi True] x(2) f(3) ino_range [OF i] n1 by auto
  let ?st = "upd_inode new drop_nlink (upd_inode new (set_ctime (n_fs st2)) st2)"
  have run: "rename_target N nd nn (Some new) oi False st = Some (0, ?st)"
    by (simp add: rename_target_def f(1) x(1) g(1) Let_def)
  have o2: "others_same {nd, new} st st2" by (rule others_trans [OF f(2) g(2)]) auto
  have o: "others_same {nd, new} st ?st" using o2 by (auto simp: others_same_def)
  have "n_ic st2 new = n_ic st new" using others_sameD(1) [OF g(2)] ne n1 by simp
  then have "i_nlink (n_ic ?st new) = i_nlink (n_ic st new) - 1" by simp
  moreover have "dir_at ?st nd (m(nn \<mapsto> ucast (i_ino (n_ic st oi))))"
    using g(4) n1 by (simp add: dir_at_upd)
  moreover have "i_nlink (n_ic ?st nd) = i_nlink (n_ic st nd)"
    using g(3) ne same_dir_nlink [OF f(4)] by simp
  ultimately show ?thesis using run o by blast
qed

lemma rename_target_step:
  assumes N: "nm_ok N" and h: "dir_at st nd m" and t: "target_ok st A nd m nn target" "nd \<in> A" "oi \<noteq> nd"
    and i: "1 \<le> unat (i_ino (n_ic st oi))" "unat (i_ino (n_ic st oi)) \<le> max_ino (n_fs st)"
  defines "m' \<equiv> m(nn \<mapsto> ucast (i_ino (n_ic st oi)))"
  shows "\<exists>r st'. rename_target N nd nn target oi False st = Some (r, st') \<and> r \<le> 0 \<and>
     others_same (insert nd (set_option target)) st st' \<and> (dir_at st' nd m' \<or> r \<noteq> 0 \<and> dir_at st' nd m) \<and>
     (target \<noteq> None \<or> writes_succeed N \<longrightarrow> r = 0) \<and> i_nlink (n_ic st' nd) = i_nlink (n_ic st nd) \<and>
     (\<forall>new. target = Some new \<longrightarrow> i_nlink (n_ic st' new) = i_nlink (n_ic st new) - 1)"
proof (cases target)
  case None
  have c: "can_add st nd nn (i_ino (n_ic st oi))"
    using t ino_range [OF i] by (simp add: target_ok_def None can_add_def link_room_def)
  have "m nn = None" using t by (simp add: target_ok_def None)
  from add_link_step [OF N h this c] obtain r st' where "add_link N nd nn oi st = Some (r, st')" "r \<le> 0"
    "others_same {nd} st st'" "dir_at st' nd m' \<or> r \<noteq> 0 \<and> dir_at st' nd m"
    "i_nlink (n_ic st' nd) = i_nlink (n_ic st nd)" "writes_succeed N \<longrightarrow> r = 0"
    unfolding m'_def by blast
  then show ?thesis
    by (intro exI [of _ r] exI [of _ st']) (simp add: rename_target_def None)
next
  case (Some new)
  then obtain e where "m nn = Some e" "new \<noteq> nd" using t by (auto simp: target_ok_def)
  from rename_over_step [OF N h this t(3) i] show ?thesis
    unfolding m'_def Some by (elim exE conjE) (rule exI [of _ 0], simp)
qed

lemma rename_step:
  assumes N: "nm_ok N" and fl: "flags AND NOT RENAME_NOREPLACE = 0" and ne: "od \<noteq> nd" "oi \<noteq> od" "oi \<noteq> nd"
    and nodir: "\<not> S_ISDIR (i_mode (n_ic st oi))"
    and h: "dir_at st od m1" "dir_at st nd m2" and m: "m1 on = Some e"
    and t: "target_ok st {od, nd, oi} nd m2 nn target"
    and i: "1 \<le> unat (i_ino (n_ic st oi))" "unat (i_ino (n_ic st oi)) \<le> max_ino (n_fs st)"
  defines "m2' \<equiv> m2(nn \<mapsto> ucast (i_ino (n_ic st oi)))"
  shows "\<exists>r st'. ext2_rename N od on oi nd nn target flags st = Some (r, st') \<and> r \<le> 0 \<and>
     others_same ({od, nd, oi} \<union> set_option target) st st' \<and>
     (if r = 0 then dir_at st' od (m1(on := None)) \<and> dir_at st' nd m2'
      else dir_at st' od m1 \<and> (dir_at st' nd m2 \<or> dir_at st' nd m2')) \<and>
     (target \<noteq> None \<or> writes_succeed N \<longrightarrow> r = 0) \<and>
     (\<forall>x \<in> {od, nd, oi}. i_nlink (n_ic st' x) = i_nlink (n_ic st x)) \<and>
     (\<forall>new. target = Some new \<longrightarrow> i_nlink (n_ic st' new) = i_nlink (n_ic st new) - 1)"
proof -
  obtain r st1 where f: "find_entry N od on st = Some (r, st1)" "others_same {od} st st1" "n_fs st1 = n_fs st"
    "same_dir (n_ic st od) (n_ic st1 od)" "dir_at st1 od m1"
    "\<forall>ino. m1 on = Some ino \<longrightarrow> (\<exists>de E n xs e ys. r = Inr de \<and> de = (n, recs xs) \<and> dir_view (n_fs st) (n_ic st1 od) E \<and>
          entries (n_ic st1 od) E = mset_set (Map.graph m1) \<and> n < dir_pages (n_ic st1 od) \<and> E n = xs @ e # ys \<and>
          is_live e \<and> d_name e = on \<and> d_ino e = ino)"
    using find_step [OF N h(1), of on] by (elim exE conjE) (rule that)
  from f(6) m obtain n E xs x ys where x: "r = Inr (n, recs xs)" "dir_view (n_fs st) (n_ic st1 od) E"
    "entries (n_ic st1 od) E = mset_set (Map.graph m1)" "n < dir_pages (n_ic st1 od)" "E n = xs @ x # ys"
    "is_live x" "d_name x = on" "d_ino x = e" by auto
  have n1: "n_ic st1 nd = n_ic st nd" "n_ic st1 oi = n_ic st oi"
    using others_sameD(1) [OF f(2)] ne by auto
  have h2: "dir_at st1 nd m2" using dir_at_others [OF f(2)] h(2) ne(1) by auto
  have t1: "target_ok st1 {od, nd, oi} nd m2 nn target"
    using t by (simp add: target_ok_def link_room_def n1 f(3) split: option.splits)
  obtain r2 st2 where a: "rename_target N nd nn target oi False st1 = Some (r2, st2)" "r2 \<le> 0"
      "others_same (insert nd (set_option target)) st1 st2" "dir_at st2 nd m2' \<or> r2 \<noteq> 0 \<and> dir_at st2 nd m2"
      "target \<noteq> None \<or> writes_succeed N \<longrightarrow> r2 = 0" "i_nlink (n_ic st2 nd) = i_nlink (n_ic st1 nd)"
      "\<forall>new. target = Some new \<longrightarrow> i_nlink (n_ic st2 new) = i_nlink (n_ic st1 new) - 1"
    using rename_target_step [OF N h2 t1 _ ne(3)] i unfolding m2'_def n1 f(3) by blast
  have tn: "\<forall>new. target = Some new \<longrightarrow> new \<notin> {od, nd, oi}" using t by (auto simp: target_ok_def)
  then have nt: "\<forall>new. target = Some new \<longrightarrow> n_ic st1 new = n_ic st new"
    using others_sameD(1) [OF f(2)] by auto
  have out: "od \<notin> insert nd (set_option target)" "oi \<notin> insert nd (set_option target)"
    using tn ne by auto
  have n2: "n_ic st2 od = n_ic st1 od" "n_ic st2 oi = n_ic st oi"
    using others_sameD(1) [OF a(3) out(1)] others_sameD(1) [OF a(3) out(2)] n1 by simp_all
  have o2: "others_same ({od, nd, oi} \<union> set_option target) st st2" by (rule others_trans [OF f(2) a(3)]) auto
  note links = a(6,7) n1 n2 nt same_dir_nlink [OF f(4)]
  show ?thesis
  proof (cases "r2 = 0")
    case False
    have "ext2_rename N od on oi nd nn target flags st = Some (r2, st2)"
      using fl f(1) x(1) nodir n1(2) a(1) False by (simp add: ext2_rename_def Let_def)
    moreover have "dir_at st2 od m1"
      using f(5) dir_at_others [OF a(3) out(1)] by simp
    ultimately show ?thesis
      using False a(2,4,5) o2 links by (intro exI [of _ r2] exI [of _ st2]) auto
  next
    case True
    define st3 where "st3 = upd_inode oi (set_ctime (n_fs st2)) st2"
    have o3: "others_same {oi} st2 st3" by (simp add: st3_def)
    have n3: "n_ic st3 od = n_ic st1 od" "n_fs st3 = n_fs st2" "i_nlink (n_ic st3 x) = i_nlink (n_ic st2 x)" for x
      using ne n2 by (simp_all add: st3_def)
    have fin: "finite (dom m1)" using h(1) by (simp add: dir_at_def holds_map_def)
    have v: "dir_view (n_fs st3) (n_ic st3 od) E"
      using x(2) dir_view_cong [of "n_ic st1 od" "n_ic st1 od" "n_fs st" "n_fs st3" E] others_sameD(2) [OF a(3)]
      by (simp add: n3 same_data_def f(3))
    obtain q st4 where d: "delete_entry N od (n, recs xs) st3 = Some (q, st4)" "others_same {od} st3 st4"
        "i_nlink (n_ic st4 od) = i_nlink (n_ic st3 od)" "dir_at st4 od (m1(on := None))"
      using delete_step [OF N fin m(1) v x(3-8) [folded n3(1)]] by blast
    have n4: "n_ic st4 y = n_ic st3 y" if "y \<noteq> od" for y using others_sameD(1) [OF d(2)] that by simp
    have "ext2_rename N od on oi nd nn target flags st = Some (0, st4)"
      using fl f(1) x(1) nodir n1(2) a(1) d(1) True
      by (simp add: ext2_rename_def st3_def [symmetric] Let_def)
    moreover have "others_same ({od, nd, oi} \<union> set_option target) st st4"
      using others_sameD [OF o2] others_sameD [OF o3] others_sameD [OF d(2)]
      by (auto simp: others_same_def intro: same_geom_trans)
    moreover have "dir_at st4 nd m2'"
      using a(4) True dir_at_others [OF o3, of nd] dir_at_others [OF d(2), of nd] ne by auto
    moreover have "i_nlink (n_ic st4 y) = i_nlink (n_ic st2 y)" for y
      using n4 [of y] n3 n2(1) d(3) by (cases "y = od") auto
    ultimately show ?thesis
      using d(4) links by (intro exI [of _ 0] exI [of _ st4]) auto
  qed
qed

end
