(* ===== verification/Namei_Thms.thy ===== *)
theory Namei_Thms
  imports Namei_Steps Inode_Thms
begin

text \<open>
  The properties of the operations on names: creating and removing files and directories and
  renaming, over the maps the directories hold and the link counts of the inodes. They hold
  whether writes, write-backs and allocations of pages fail or not, and say what each failure
  leaves behind.
\<close>

section \<open>A state for the witnesses\<close>

text \<open>Directory 2 is the root, directory 12 is below it, every other inode is a file.\<close>

definition exn_dir :: "u32 \<Rightarrow> u32 \<Rightarrow> inode" where
  "exn_dir self parent = ex_inode\<lparr>i_ino := ucast self, i_size := 1024, i_pages := (\<lambda>n. if n = 0
     then Some (zero_page\<lparr>pg_data := empty_chunk self parent 1024 (replicate 4096 0)\<rparr>)
     else if n = 1 then Some zero_page else None)\<rparr>"

definition exn_nm :: nm where
  "exn_nm = \<lparr> nm_kern = kern_ref,
     nm_vfs = vfs_ref\<lparr>new_inode := Some (ex_inode\<lparr>i_size := 0, i_nlink := 1\<rparr>)\<rparr>, nm_vm = vm_ref,
     nm_pages = pgcache_ref, npage = (\<lambda>i. i), discard_new_inode = (\<lambda>s ip. Some (ip, s)),
     page_symlink = (\<lambda>s ip _. (0, ip, s)) \<rparr>"

definition exn :: nstate where
  "exn = \<lparr> n_fs = exk_fs, n_ic = (\<lambda>i. if i = 2 then exn_dir 2 2 else if i = 12 then exn_dir 12 2
     else ex_inode\<lparr>i_ino := i, i_mode := 0x81A4\<rparr>) \<rparr>"

lemma exn_geom [simp]: "ext2_chunk_size exk_fs = 1024" "max_ino exk_fs = 16" "chunks_ok exk_fs"
  by (simp_all add: ext2_chunk_size_def max_ino_def chunks_ok_def)

lemma exn_sel [simp]:
  "n_fs exn = exk_fs" "n_ic exn 2 = exn_dir 2 2" "n_ic exn 12 = exn_dir 12 2"
  "i_ino (n_ic exn 13) = 13" "i_mode (n_ic exn 13) = 0x81A4"
  by (simp_all add: exn_def)

lemma exn_dir_sel [simp]:
  "i_ino (exn_dir a b) = ucast a" "i_size (exn_dir a b) = 1024" "i_nlink (exn_dir a b) = 2"
  "ei_block_group (exn_dir a b) = 0"
  by (simp_all add: exn_dir_def ex_inode_def)

lemma exn_nm_sel [simp]: "nm_kern exn_nm = kern_ref" "nm_pages exn_nm = pgcache_ref"
  by (simp_all add: exn_nm_def)

lemma exn_nm_ok [simp]:
  "nm_ok exn_nm" "discards_ok exn_nm" "grabs_ok (nm_pages exn_nm)" "vfs_ok (nm_vfs exn_nm)"
proof -
  have "links_kept pgcache_ref" by (simp add: links_kept_def pgcache_ref_def)
  then show "nm_ok exn_nm" by (simp add: nm_ok_def) (simp add: exn_nm_def)
qed (simp_all add: discards_ok_def grabs_ok_def vfs_ok_def exn_nm_def pgcache_ref_def zero_page_def vfs_ref_def)

lemma exn_writes [simp]: "writes_succeed exn_nm"
  by (simp add: writes_succeed_def exn_nm_def pgcache_ref_def)

lemma exn_holds [simp]: "dir_at exn 2 (dots 2 2)" "dir_at exn 12 (dots 12 2)"
proof -
  have "holds_map exk_fs (exn_dir a b) (dots a b)"
    if "a \<noteq> 0" "b \<noteq> 0" "unat a \<le> 16" "unat b \<le> 16" for a b
    by (rule make_chunk_view [where bs = "replicate 4096 0" and pg = "zero_page\<lparr>pg_data :=
        empty_chunk a b 1024 (replicate 4096 0)\<rparr>"])
      (use that in \<open>simp_all, simp_all add: exn_dir_def zero_page_def\<close>)
  then show "dir_at exn 2 (dots 2 2)" "dir_at exn 12 (dots 12 2)" by (simp_all add: dir_at_def)
qed

lemma exn_room [simp]: "link_room exn 2" "link_room exn 12"
  by (simp_all add: link_room_def next_page_ok_def dir_pages_def)
    (simp_all add: exn_dir_def zero_page_def)

lemma exk_inode_views [simp]:
  "ipg exk_fs = 8" "total_inodes exk_fs = 16" "first_ino exk_fs = 3"
  "ibitmap_blk exk_fs 0 = 4" "ibitmap_blk exk_fs (Suc 0) = 36"
  "ibitmap_of exk_fs 0 = [0x03] @ replicate 1023 0" "ibitmap_of exk_fs (Suc 0) = replicate 1024 0"
  by (simp_all add: ipg_def total_inodes_def first_ino_def ibitmap_blk_def ibitmap_of_def
      ex_desc_def ex_block_def replicate_add [symmetric])

lemma exk_ialloc_inv [simp]: "ialloc_inv exk_fs"
proof -
  have "n_free ([0x03] @ replicate 1023 0) 8 = 6" "n_free (replicate 1024 0) 8 = 8"
    by (simp_all add: n_free_code upt_rec bm_bit_def nth_append)
  then have "inode_acct exk_fs 0" "inode_acct exk_fs 1"
    by (simp_all add: inode_acct_def ex_block_def ex_desc_def replicate_add [symmetric])
  moreover have "inj_on (ibitmap_blk exk_fs) {..<2}"
    by (auto simp: inj_on_def less_2_cases_iff)
  moreover have "ibitmap_blk exk_fs ` {..<2} \<inter> bitmap_blk exk_fs ` {..<2} = {}"
    by (simp add: lessThan_2)
  moreover have "total_of bg_free_inodes_count exk_fs = 14"
    by (simp add: total_of_def lessThan_2 ex_desc_def)
  ultimately show ?thesis
    by (simp add: ialloc_inv_def all_less_2)
qed

lemma exn_ready [simp]: "make_ready exn_nm exn 2"
proof -
  have e: "0 * ipg exk_fs + 1 + 1 = 2" by simp
  have "2 \<in> used_inodes exk_fs"
    using used_inode_iff [of 0 exk_fs 1, unfolded e] by (simp add: bm_bit_def)
  then show ?thesis by (simp add: make_ready_def)
qed

lemma exn_claim:
  assumes d: "ei_block_group dir = 0"
  shows "\<exists>ip s'. ext2_new_inode kern_ref (nm_vfs exn_nm) exk_fs dir mode = Some (Inr ip, s') \<and> i_ino ip = 3"
proof -
  have "find_group exk_fs dir = Some (0, exk_fs)"
    by (simp add: find_group_def group_fits_loaded has_room_def ex_desc_def d Let_def)
  moreover have "find_next_zero_bit_le kern_ref ([0x03] @ replicate 1023 0) 8 0 = 2"
    by (simp add: kern_ref_def ref_find_zero_def upt_rec bm_bit_def)
  moreover have "read_inode_bitmap kern_ref exk_fs 0 = Some (Some 4, exk_fs)"
    by (simp add: read_inode_bitmap_def get_group_desc_loaded gd_at_loaded sb_bread_def ex_desc_def
        kern_ref_def ex_block_def) (simp add: exk_fs_def ex_fs_def fun_eq_iff)
  ultimately show ?thesis
    by (simp add: ext2_new_inode_def exn_nm_def vfs_ref_def upt_rec get_group_desc_loaded ex_block_def Let_def
        set_bitD [OF kern_ref_ok] bm_size_def bm_bit_def fill_new_inode_def ext2_set_inode_flags_def replicate_add [symmetric])
qed

lemma exn_linked:
  assumes "i \<in> {12, 13}"
  shows "\<exists>st. add_link exn_nm 2 [97] i exn = Some (0, st) \<and> others_same {2} exn st \<and>
     dir_at st 2 ((dots 2 2)([97] \<mapsto> ucast i))"
proof -
  have "can_add exn 2 [97] (i_ino (n_ic exn i))"
    using assms exn_room by (auto simp: can_add_def link_room_def name_ok_def)
  moreover have "i_ino (n_ic exn i) = i" using assms by auto
  ultimately show ?thesis
    using add_link_step [OF exn_nm_ok(1) exn_holds(1), of "[97]" i] by (auto simp: dots_def)
qed

section \<open>Properties\<close>

abbreviation (input) file_inode :: "inode \<Rightarrow> inode" where
  "file_inode ip \<equiv> ip\<lparr>i_op := Ext2_file_inode_ops, i_fop := Ext2_file_ops, a_ops := Ext2_aops\<rparr>"

text \<open>
  C19. Creating a file under a free name of the parent, with room for it in the parent. The
  page cache may fail, but not to write inside a file (\<open>nm_ok\<close>, which also takes the undeclared
  \<open>npage\<close> of \<^verbatim>\<open>ext2_find_entry\<close> as the loop's round), and \<^verbatim>\<open>discard_new_inode\<close> completes. When
  the inode allocator fails, its error is returned and no inode in memory changes. When it
  yields an inode, its number was free, and: if \<^verbatim>\<open>ext2_create\<close> returns 0, the dentry gets the
  inode, which has the file operations, and the parent holds its map and the new name with that
  number; if it returns an error, the dentry stays, the inode has lost its link and has been
  discarded, and the parent holds its map with the new name (the write-back failed after the
  entry was written) or without. No other inode changes, the parent's link count stays, and
  the result is 0 when no write or write-back fails.
\<close>

theorem ext2_create_adds:
  assumes "nm_ok N" "discards_ok N" "make_ready N st d" "dir_at st d m" "m (d_name_of dentry) = None"
    and "name_ok (d_name_of dentry)" "link_room st d"
    and "ext2_new_inode (nm_kern N) (nm_vfs N) (n_fs st) (n_ic st d) mode = Some (res, s1)"
  shows "case res of
      Inl e \<Rightarrow> ext2_create N d dentry mode st = Some (e, dentry, st\<lparr>n_fs := s1\<rparr>)
    | Inr ip \<Rightarrow> let m' = m(d_name_of dentry \<mapsto> ucast (i_ino ip)) in
        inode_claimed (n_fs st) (S_ISDIR mode) (unat (i_ino ip)) s1 \<and>
        (\<exists>r st'. ext2_create N d dentry mode st =
            Some (r, if r = 0 then dentry\<lparr>d_inode := Some (i_ino ip)\<rparr> else dentry, st') \<and> r \<le> 0 \<and>
          others_same {d, i_ino ip} st st' \<and> i_nlink (n_ic st' d) = i_nlink (n_ic st d) \<and>
          (if r = 0 then dir_at st' d m' \<and> n_ic st' (i_ino ip) = file_inode ip
           else (dir_at st' d m \<or> dir_at st' d m') \<and>
             discarded N (drop_nlink (file_inode ip)) (n_ic st' (i_ino ip))) \<and>
          (writes_succeed N \<longrightarrow> r = 0))"
proof (cases res)
  case (Inl e)
  with assms(8) show ?thesis by (simp add: ext2_create_def make_inode_def)
next
  case (Inr ip)
  note new = assms(8) [unfolded Inr]
  have F: "i_ino (file_inode ip) = i_ino ip" for ip by simp
  obtain r st' where "ext2_create N d dentry mode st =
      Some (r, if r = 0 then dentry\<lparr>d_inode := Some (i_ino ip)\<rparr> else dentry, st')" "r \<le> 0"
    "others_same {d, i_ino ip} st st'" "i_nlink (n_ic st' d) = i_nlink (n_ic st d)"
    "dir_at st' d (m(d_name_of dentry \<mapsto> ucast (i_ino ip))) \<or> r \<noteq> 0 \<and> dir_at st' d m"
    "if r = 0 then n_ic st' (i_ino ip) = file_inode ip
     else discarded N (drop_nlink (file_inode ip)) (n_ic st' (i_ino ip))" "writes_succeed N \<longrightarrow> r = 0"
    using create_step [OF assms(1-7) new F] unfolding ext2_create_def by blast
  then show ?thesis
    using make_step(3) [OF assms(3) new] unfolding Inr sum.case Let_def
    by (intro conjI exI [of _ r] exI [of _ st']) auto
qed

theorem ext2_create_adds_witness:
  "\<exists>ip st'. ext2_create exn_nm 2 \<lparr>d_name_of = [97], d_inode = None\<rparr> 0x81A4 exn =
       Some (0, \<lparr>d_name_of = [97], d_inode = Some 3\<rparr>, st') \<and>
     dir_at st' 2 ((dots 2 2)([97] \<mapsto> 3)) \<and> n_ic st' 3 = file_inode ip"
proof -
  obtain ip s1 where new: "ext2_new_inode (nm_kern exn_nm) (nm_vfs exn_nm) (n_fs exn) (n_ic exn 2) 0x81A4 =
      Some (Inr ip, s1)" "i_ino ip = 3"
    using exn_claim [of "exn_dir 2 2" "0x81A4"] by auto
  have "dots 2 2 (d_name_of \<lparr>d_name_of = [97], d_inode = None\<rparr>) = None"
    "name_ok (d_name_of \<lparr>d_name_of = [97], d_inode = None\<rparr>)" by (simp_all add: dots_def name_ok_def)
  from ext2_create_adds [OF exn_nm_ok(1,2) exn_ready exn_holds(1) this exn_room(1) new(1)] new(2)
  show ?thesis by auto
qed

text \<open>
  C20. Making a directory under a free name of the parent, with room for it in the parent,
  under the conditions of the creation of a file and with a new inode of size 0 with one link
  (\<open>vfs_ok\<close>) and a first page that can be had or not but is sound (\<open>grabs_ok\<close>). When the inode
  allocator fails, its error is returned and no inode in memory changes, the parent's link
  count included. When it yields an inode, and \<^verbatim>\<open>ext2_mkdir\<close> returns 0, the dentry gets the
  inode, the parent holds its map and the new name and has one link more, the new directory
  holds \<^verbatim>\<open>.\<close> and \<^verbatim>\<open>..\<close> with its own and its parent's number and has two links. If it returns an
  error, since no page was to be had or a write failed, the dentry and the parent's link count
  stay, the parent holds its map with the new name or without, and the new inode has been
  discarded with no link left. The result is 0 when no page, write or write-back fails.
\<close>

theorem ext2_mkdir_makes:
  assumes "nm_ok N" "discards_ok N" "grabs_ok (nm_pages N)" "vfs_ok (nm_vfs N)" "make_ready N st d"
    and "dir_at st d m" "i_ino (n_ic st d) = d" "m (d_name_of dentry) = None" "name_ok (d_name_of dentry)"
    and "link_room st d"
    and "ext2_new_inode (nm_kern N) (nm_vfs N) (n_fs st) (inc_nlink (n_ic st d)) (S_IFDIR OR mode) =
      Some (res, s1)"
  shows "case res of
      Inl e \<Rightarrow> ext2_mkdir N d dentry mode st = Some (e, dentry, st\<lparr>n_fs := s1\<rparr>)
    | Inr ip \<Rightarrow> let m' = m(d_name_of dentry \<mapsto> ucast (i_ino ip)) in
        \<exists>r st'. ext2_mkdir N d dentry mode st =
            Some (r, if r = 0 then dentry\<lparr>d_inode := Some (i_ino ip)\<rparr> else dentry, st') \<and> r \<le> 0 \<and>
          others_same {d, i_ino ip} st st' \<and>
          (if r = 0 then dir_at st' d m' \<and> i_nlink (n_ic st' d) = i_nlink (n_ic st d) + 1 \<and>
             dir_at st' (i_ino ip) (dots (ucast (i_ino ip)) (ucast d)) \<and> i_nlink (n_ic st' (i_ino ip)) = 2
           else (dir_at st' d m \<or> dir_at st' d m') \<and> i_nlink (n_ic st' d) = i_nlink (n_ic st d) \<and>
             (\<exists>ip'. i_nlink ip' = 0 \<and> discarded N ip' (n_ic st' (i_ino ip)))) \<and>
          (writes_succeed N \<longrightarrow> r = 0)"
proof (cases res)
  case (Inl e)
  with assms(11) show ?thesis by (simp add: ext2_mkdir_def make_inode_def upd_inode_def)
next
  case (Inr ip)
  obtain r st' where "ext2_mkdir N d dentry mode st =
      Some (r, if r = 0 then dentry\<lparr>d_inode := Some (i_ino ip)\<rparr> else dentry, st')" "r \<le> 0"
    "others_same {d, i_ino ip} st st'"
    "dir_at st' d (m(d_name_of dentry \<mapsto> ucast (i_ino ip))) \<or> r \<noteq> 0 \<and> dir_at st' d m"
    "i_nlink (n_ic st' d) = i_nlink (n_ic st d) + (if r = 0 then 1 else 0)"
    "if r = 0 then dir_at st' (i_ino ip) (dots (ucast (i_ino ip)) (ucast d)) \<and> i_nlink (n_ic st' (i_ino ip)) = 2
      else \<exists>ip'. i_nlink ip' = 0 \<and> discarded N ip' (n_ic st' (i_ino ip))" "writes_succeed N \<longrightarrow> r = 0"
    using mkdir_step [OF assms(1-10) assms(11) [unfolded Inr]] by blast
  then show ?thesis
    unfolding Inr sum.case Let_def by (intro exI [of _ r] exI [of _ st']) auto
qed

theorem ext2_mkdir_makes_witness:
  "\<exists>st'. ext2_mkdir exn_nm 2 \<lparr>d_name_of = [97], d_inode = None\<rparr> 0x1ED exn =
       Some (0, \<lparr>d_name_of = [97], d_inode = Some 3\<rparr>, st') \<and>
     dir_at st' 2 ((dots 2 2)([97] \<mapsto> 3)) \<and> dir_at st' 3 (dots 3 2) \<and> i_nlink (n_ic st' 2) = 3"
proof -
  obtain ip s1 where new: "ext2_new_inode (nm_kern exn_nm) (nm_vfs exn_nm) (n_fs exn) (inc_nlink (n_ic exn 2))
      (S_IFDIR OR 0x1ED) = Some (Inr ip, s1)" "i_ino ip = 3"
    using exn_claim [of "inc_nlink (exn_dir 2 2)" "S_IFDIR OR 0x1ED"] by (auto simp: inc_nlink_def)
  have "dots 2 2 (d_name_of \<lparr>d_name_of = [97], d_inode = None\<rparr>) = None"
    "name_ok (d_name_of \<lparr>d_name_of = [97], d_inode = None\<rparr>)" by (simp_all add: dots_def name_ok_def)
  from ext2_mkdir_makes [OF exn_nm_ok exn_ready exn_holds(1) _ this exn_room(1) new(1)] new(2)
  show ?thesis by auto
qed

text \<open>
  C21. Removing a name of a directory that stands for another inode than the directory. The
  write inside the directory does not fail, its write-back may (\<open>nm_ok\<close>, which also takes the
  undeclared \<open>npage\<close> of \<^verbatim>\<open>ext2_find_entry\<close> as the loop's round). \<^verbatim>\<open>ext2_unlink\<close> of an absent name
  gives \<^verbatim>\<open>-ENOENT\<close> and changes nothing. Of a name of the directory it returns 0, and the inode
  behind the name loses one link, or the error of the write-back, and the inode is as it was;
  in both cases the directory holds its map without that name, so after an error the name is
  gone and the link is kept. The directory's own count stays and no other inode changes.
\<close>

theorem ext2_unlink_removes:
  assumes "nm_ok N" "dir_at st d m" "i \<noteq> d"
  shows "\<exists>r st'. ext2_unlink N d name i st = Some (r, st') \<and> r \<le> 0 \<and> others_same {d, i} st st' \<and>
     dir_at st' d (m(name := None)) \<and> i_nlink (n_ic st' d) = i_nlink (n_ic st d) \<and>
     (m name = None \<longrightarrow> r = - ENOENT) \<and> (m name \<noteq> None \<and> writes_succeed N \<longrightarrow> r = 0) \<and>
     (if r = 0 then i_nlink (n_ic st' i) = i_nlink (n_ic st i) - 1 else n_ic st' i = n_ic st i)"
proof (cases "m name")
  case (Some e)
  with unlink_step [OF assms(1,2) Some assms(3)] obtain r st' c where
    "ext2_unlink N d name i st = Some (r, st')" "r \<le> 0" "others_same {d, i} st st'"
    "dir_at st' d (m(name := None))" "i_nlink (n_ic st' d) = i_nlink (n_ic st d)" "writes_succeed N \<longrightarrow> r = 0"
    "n_ic st' i = (if r = 0 then drop_nlink ((n_ic st i)\<lparr>i_ctime := c\<rparr>) else n_ic st i)"
    by blast
  with Some show ?thesis by (intro exI [of _ r] exI [of _ st']) (simp add: drop_nlink_def)
next
  case None
  obtain r st' where f: "find_entry N d name st = Some (r, st')" "others_same {d} st st'"
    "same_dir (n_ic st d) (n_ic st' d)" "dir_at st' d m" "r = Inl (- ENOENT)"
    using find_step [OF assms(1,2), of name] None by (elim exE conjE) (rule that, simp_all)
  have "m(name := None) = m" using None by (simp add: fun_upd_idem)
  moreover have "others_same {d, i} st st'" using f(2) by (auto simp: others_same_def)
  moreover have "n_ic st' i = n_ic st i" using others_sameD(1) [OF f(2)] assms(3) by simp
  ultimately show ?thesis
    using f None same_dir_nlink [OF f(3)]
    by (intro exI [of _ "- ENOENT"] exI [of _ st']) (simp add: ext2_unlink_def)
qed

theorem ext2_unlink_removes_witness:
  "\<exists>st st'. add_link exn_nm 2 [97] 13 exn = Some (0, st) \<and> ext2_unlink exn_nm 2 [97] 13 st = Some (0, st') \<and>
     dir_at st' 2 (dots 2 2)"
proof -
  obtain st where st: "add_link exn_nm 2 [97] 13 exn = Some (0, st)" "dir_at st 2 ((dots 2 2)([97] \<mapsto> 13))"
    using exn_linked [of 13] by auto
  have "((dots 2 2)([97] \<mapsto> 13))([97] := None) = dots 2 2" by (auto simp: dots_def fun_eq_iff)
  with ext2_unlink_removes [OF exn_nm_ok(1) st(2), of 13 "[97]"] st(1) show ?thesis by auto
qed

text \<open>
  C22. Removing a directory under a name its parent has, with the write inside the parent not
  failing and its write-back failing or not (\<open>nm_ok\<close>, with \<open>npage\<close> as the round). \<^verbatim>\<open>ext2_rmdir\<close>
  refuses with \<^verbatim>\<open>-ENOTEMPTY\<close>, changing no map and no link count, exactly when the directory has
  a name besides its dots. Otherwise the parent loses the name, and the call returns 0, the
  parent losing one link and the directory two and all of its size, or the error of the
  write-back, and the counts and the size are as they were.
\<close>

theorem ext2_rmdir_removes:
  assumes "nm_ok N" "dir_at st d m" "dir_at st i mi" "m name = Some e" "i \<noteq> d"
  shows "\<exists>r st'. ext2_rmdir N d name i st = Some (r, st') \<and> r \<le> 0 \<and> others_same {d, i} st st' \<and>
     (if \<forall>n ino. mi n = Some ino \<longrightarrow> n = [DOT] \<and> ino = ucast (i_ino (n_ic st i)) \<or> n = [DOT, DOT]
      then dir_at st' d (m(name := None)) \<and> (writes_succeed N \<longrightarrow> r = 0) \<and>
        i_size (n_ic st' i) = (if r = 0 then 0 else i_size (n_ic st i)) \<and>
        i_nlink (n_ic st' d) = i_nlink (n_ic st d) - (if r = 0 then 1 else 0) \<and>
        i_nlink (n_ic st' i) = i_nlink (n_ic st i) - (if r = 0 then 2 else 0)
      else r = - ENOTEMPTY \<and> dir_at st' d m \<and> dir_at st' i mi \<and> n_ic st' d = n_ic st d \<and>
        i_nlink (n_ic st' i) = i_nlink (n_ic st i))"
  using assms by (rule rmdir_step)

theorem ext2_rmdir_removes_witness:
  "\<exists>st st'. add_link exn_nm 2 [97] 12 exn = Some (0, st) \<and> ext2_rmdir exn_nm 2 [97] 12 st = Some (0, st') \<and>
     dir_at st' 2 (dots 2 2)"
proof -
  obtain st where st: "add_link exn_nm 2 [97] 12 exn = Some (0, st)" "others_same {2} exn st"
    "dir_at st 2 ((dots 2 2)([97] \<mapsto> 12))"
    using exn_linked [of 12] by auto
  have i: "dir_at st 12 (dots 12 2)" "n_ic st 12 = exn_dir 12 2"
    using dir_at_others [OF st(2), of 12] others_sameD(1) [OF st(2), of 12] by auto
  have e: "\<forall>n ino. dots 12 2 n = Some ino \<longrightarrow> n = [DOT] \<and> ino = ucast (i_ino (n_ic st 12)) \<or> n = [DOT, DOT]"
    by (auto simp: dots_def i(2) split: if_splits)
  have "((dots 2 2)([97] \<mapsto> 12))([97] := None) = dots 2 2" by (auto simp: dots_def fun_eq_iff)
  with ext2_rmdir_removes [OF exn_nm_ok(1) st(3) i(1), of "[97]" 12] st(1) show ?thesis
    unfolding if_P [OF e] by auto
qed

text \<open>
  C23. Renaming a file, not a directory, to another directory, with no flag but
  \<^verbatim>\<open>RENAME_NOREPLACE\<close>, under the conditions on the page cache of the other properties (\<open>nm_ok\<close>).
  The new name is free and there is room for it, or it is the name of another inode than the
  file and the two directories (\<open>target_ok\<close>). When \<^verbatim>\<open>ext2_rename\<close> returns 0, the old directory
  holds its map without the old name, even when the removal's write-back failed, whose result
  the code ignores, and the new directory holds its map with the new name standing for the
  file. It always returns 0 over an existing name, whose inode loses one link. For a free name
  it may return the error of the write, and the file keeps its old name and may have the new
  one too. The link counts of the file and the directories stay, and no other inode changes.
\<close>

theorem ext2_rename_moves:
  assumes "nm_ok N" "flags AND NOT RENAME_NOREPLACE = 0" "od \<noteq> nd" "oi \<noteq> od" "oi \<noteq> nd"
    and "\<not> S_ISDIR (i_mode (n_ic st oi))" "dir_at st od m1" "dir_at st nd m2" "m1 on = Some e"
    and "target_ok st {od, nd, oi} nd m2 nn target"
    and "1 \<le> unat (i_ino (n_ic st oi))" "unat (i_ino (n_ic st oi)) \<le> max_ino (n_fs st)"
  shows "\<exists>r st'. ext2_rename N od on oi nd nn target flags st = Some (r, st') \<and> r \<le> 0 \<and>
     others_same ({od, nd, oi} \<union> set_option target) st st' \<and>
     (let m2' = m2(nn \<mapsto> ucast (i_ino (n_ic st oi))) in
      if r = 0 then dir_at st' od (m1(on := None)) \<and> dir_at st' nd m2'
      else dir_at st' od m1 \<and> (dir_at st' nd m2 \<or> dir_at st' nd m2')) \<and>
     (target \<noteq> None \<or> writes_succeed N \<longrightarrow> r = 0) \<and>
     (\<forall>x \<in> {od, nd, oi}. i_nlink (n_ic st' x) = i_nlink (n_ic st x)) \<and>
     (\<forall>new. target = Some new \<longrightarrow> i_nlink (n_ic st' new) = i_nlink (n_ic st new) - 1)"
  unfolding Let_def by (rule rename_step [OF assms])

lemma exn_linked_both:
  assumes "others_same {2} exn st"
  shows "\<exists>st1. add_link exn_nm 12 [98] 14 st = Some (0, st1) \<and> others_same {12} st st1 \<and>
     dir_at st1 12 ((dots 12 2)([98] \<mapsto> 14))"
proof -
  note o = others_sameD(1) [OF assms] same_geomD [OF others_sameD(2) [OF assms]]
  have i: "dir_at st 12 (dots 12 2)" "n_ic st 12 = exn_dir 12 2" "n_ic st 14 = n_ic exn 14"
    using dir_at_others [OF assms, of 12] o(1) by auto
  have "i_ino (n_ic st 14) = 14" by (simp add: i(3) exn_def)
  moreover from this have "can_add st 12 [98] (i_ino (n_ic st 14))"
    using exn_room(2) by (simp add: can_add_def link_room_def name_ok_def i(2) o)
  ultimately show ?thesis
    using add_link_step [OF exn_nm_ok(1) i(1), of "[98]" 14] by (auto simp: dots_def)
qed

text \<open>The file 13 moves from the root to directory 12, to a new name or over that of file 14.\<close>

theorem ext2_rename_moves_witness:
  "\<exists>st st1 st' st2. add_link exn_nm 2 [97] 13 exn = Some (0, st) \<and>
     ext2_rename exn_nm 2 [97] 13 12 [98] None 0 st = Some (0, st') \<and>
     dir_at st' 2 (dots 2 2) \<and> dir_at st' 12 ((dots 12 2)([98] \<mapsto> 13)) \<and>
     add_link exn_nm 12 [98] 14 st = Some (0, st1) \<and>
     ext2_rename exn_nm 2 [97] 13 12 [98] (Some 14) 0 st1 = Some (0, st2) \<and>
     dir_at st2 2 (dots 2 2) \<and> dir_at st2 12 ((dots 12 2)([98] \<mapsto> 13)) \<and>
     i_nlink (n_ic st2 14) = i_nlink (n_ic st1 14) - 1"
proof -
  obtain st where st: "add_link exn_nm 2 [97] 13 exn = Some (0, st)" "others_same {2} exn st"
    "dir_at st 2 ((dots 2 2)([97] \<mapsto> 13))"
    using exn_linked [of 13] by auto
  note o = others_sameD(1) [OF st(2)] same_geomD [OF others_sameD(2) [OF st(2)]]
  obtain st1 where st1: "add_link exn_nm 12 [98] 14 st = Some (0, st1)" "others_same {12} st st1"
    "dir_at st1 12 ((dots 12 2)([98] \<mapsto> 14))"
    using exn_linked_both [OF st(2)] by blast
  note o1 = others_sameD(1) [OF st1(2)] same_geomD [OF others_sameD(2) [OF st1(2)]]
  have i: "dir_at st 12 (dots 12 2)" "n_ic st 12 = exn_dir 12 2" "n_ic st 13 = n_ic exn 13" "n_ic st1 13 = n_ic exn 13"
    "dir_at st1 2 ((dots 2 2)([97] \<mapsto> 13))"
    using dir_at_others [OF st(2), of 12] dir_at_others [OF st1(2), of 2] o(1) o1(1) st(3) by auto
  have t: "target_ok st {2, 12, 13} 12 (dots 12 2) [98] None"
    "target_ok st1 {2, 12, 13} 12 ((dots 12 2)([98] \<mapsto> 14)) [98] (Some 14)"
    using exn_room(2) by (simp_all add: target_ok_def link_room_def o i(2) dots_def name_ok_def)
  have undo: "(dots 2 2)([97] := None) = dots 2 2" by (auto simp: dots_def fun_eq_iff)
  have m: "((dots 2 2)([97] \<mapsto> 13)) [97] = Some 13" by simp
  obtain st' where "ext2_rename exn_nm 2 [97] 13 12 [98] None 0 st = Some (0, st')"
    "dir_at st' 2 (dots 2 2)" "dir_at st' 12 ((dots 12 2)([98] \<mapsto> 13))"
    using ext2_rename_moves [OF exn_nm_ok(1) _ _ _ _ _ st(3) i(1) m t(1), of 0]
    by (auto simp: i(3) o S_ISDIR_def undo)
  moreover obtain st2 where "ext2_rename exn_nm 2 [97] 13 12 [98] (Some 14) 0 st1 = Some (0, st2)"
    "dir_at st2 2 (dots 2 2)" "dir_at st2 12 ((dots 12 2)([98] \<mapsto> 13))"
    "i_nlink (n_ic st2 14) = i_nlink (n_ic st1 14) - 1"
    using ext2_rename_moves [OF exn_nm_ok(1) _ _ _ _ _ i(5) st1(3) m t(2), of 0]
    by (auto simp: i(4) o o1 S_ISDIR_def undo)
  ultimately show ?thesis using st(1) st1(1) by blast
qed

end
