(* ===== verification/Super.thy ===== *)
theory Super
  imports Inode
begin

text \<open>
  The superblock operations (\<^verbatim>\<open>super.c\<close>): options, mounting, remounting, synchronising,
  unmounting, statistics and the module's entry points. The superblock and the group
  descriptors are parsed from their blocks on the device once, at mount time; from then on the
  buffers that hold them are the fields \<open>sb_es\<close> and \<open>s_group_desc\<close>.

  \<open>dev\<close> holds what mounting calls of the block layer and the memory allocator:
  \<open>min_blocksize\<close> and \<open>set_blocksize\<close> (0 and false on failure), \<open>dev_block size n\<close> for block
  number \<open>n\<close> at that block size, \<open>mem_ok\<close> for the three allocations in their order,
  \<open>percpu_err\<close> for the three counters, and \<open>make_root\<close> for \<^verbatim>\<open>d_make_root\<close>.
\<close>

record dev =
  min_blocksize :: "u64 \<Rightarrow> u64"
  set_blocksize :: "u64 \<Rightarrow> bool"
  dev_block :: "u64 \<Rightarrow> u64 \<Rightarrow> byte list option"
  mem_ok :: "nat \<Rightarrow> bool"
  percpu_err :: "nat \<Rightarrow> int"
  make_root :: "inode \<Rightarrow> bool"

section \<open>Mount options\<close>

datatype opt_token = Opt_err_cont | Opt_err_panic | Opt_err_ro | Opt_debug

definition tokens :: "(opt_token \<times> string) list" where
  "tokens = [(Opt_err_cont, ''errors=continue''), (Opt_err_panic, ''errors=panic''),
     (Opt_err_ro, ''errors=remount-ro''), (Opt_debug, ''debug'')]"

text \<open>\<^verbatim>\<open>match_token\<close> on patterns without wildcards: it walks the table until a pattern matches or is
  a null pointer. The table \<open>tokens\<close> has no entry with a null pointer, so a word that is none of its
  patterns makes the walk read past the array, an access without a result. \<^verbatim>\<open>strsep\<close> cuts at the first
  comma.\<close>

fun match_token :: "string \<Rightarrow> (opt_token \<times> string) list \<Rightarrow> opt_token option" where
  "match_token p [] = None"
| "match_token p ((t, pat) # ts) = (if p = pat then Some t else match_token p ts)"

fun strsep :: "string \<Rightarrow> string list" where
  "strsep [] = [[]]"
| "strsep (c # cs) = (if c = CHR '','' then [] # strsep cs
     else (case strsep cs of [] \<Rightarrow> [[c]] | w # ws \<Rightarrow> (c # w) # ws))"

definition apply_token :: "opt_token \<Rightarrow> u64 \<Rightarrow> u64" where
  "apply_token t opt = (case t of
       Opt_err_panic \<Rightarrow> set_opt (clear_opt (clear_opt opt EXT2_MOUNT_ERRORS_CONT) EXT2_MOUNT_ERRORS_RO)
                          EXT2_MOUNT_ERRORS_PANIC
     | Opt_err_ro \<Rightarrow> set_opt (clear_opt (clear_opt opt EXT2_MOUNT_ERRORS_CONT) EXT2_MOUNT_ERRORS_PANIC)
                          EXT2_MOUNT_ERRORS_RO
     | Opt_err_cont \<Rightarrow> set_opt (clear_opt (clear_opt opt EXT2_MOUNT_ERRORS_RO) EXT2_MOUNT_ERRORS_PANIC)
                          EXT2_MOUNT_ERRORS_CONT
     | Opt_debug \<Rightarrow> set_opt opt EXT2_MOUNT_DEBUG)"

text \<open>The Boolean is the value the code returns. Its \<^verbatim>\<open>return 0\<close> stands for a token outside of the
  table, which \<^verbatim>\<open>match_token\<close> never returns.\<close>

fun parse_words :: "string list \<Rightarrow> u64 \<Rightarrow> (bool \<times> u64) option" where
  "parse_words [] opt = Some (True, opt)"
| "parse_words (p # ps) opt =
     (if p = [] then parse_words ps opt
      else (case match_token p tokens of
              None \<Rightarrow> None
            | Some t \<Rightarrow> parse_words ps (apply_token t opt)))"

definition parse_options :: "string option \<Rightarrow> u64 \<Rightarrow> (bool \<times> u64) option" where
  "parse_options options opt =
     (case options of None \<Rightarrow> Some (True, opt) | Some cs \<Rightarrow> parse_words (strsep cs) opt)"

definition shown :: "ext2_fs \<Rightarrow> string" where
  "shown s =
     (if test_opt s EXT2_MOUNT_ERRORS_RO \<and>
         (es_errors (sb_es s) = EXT2_ERRORS_PANIC \<or> es_errors (sb_es s) = EXT2_ERRORS_CONTINUE)
      then '',errors=remount-ro'' else []) @
     (if test_opt s EXT2_MOUNT_ERRORS_CONT then '',errors=continue'' else []) @
     (if test_opt s EXT2_MOUNT_ERRORS_PANIC then '',errors=panic'' else []) @
     (if test_opt s EXT2_MOUNT_DEBUG then '',debug'' else [])"

definition ext2_show_options :: "ext2_fs \<Rightarrow> (string \<times> ext2_fs) option" where
  "ext2_show_options s = do {
     s \<leftarrow> lock_sb s;
     Some (shown s, unlock_sb s) }"

section \<open>Checks\<close>

text \<open>The warnings of \<^verbatim>\<open>ext2_check_super\<close>.\<close>

datatype notice = Rev_too_high | Unchecked | With_errors | Check_time

definition ext2_check_super :: "bool \<Rightarrow> ext2_fs \<Rightarrow> u64 \<times> notice list \<times> ext2_fs" where
  "ext2_check_super read_only s =
     (let es = sb_es s;
          (res, msgs) = (if EXT2_MAX_SUPP_REV < es_rev_level es then (SB_RDONLY, [Rev_too_high]) else (0, []))
      in if read_only then (res, msgs, s)
         else let msgs = msgs @
                (if s_mount_state (sb_info s) AND EXT2_VALID_FS = 0 then [Unchecked]
                 else if s_mount_state (sb_info s) AND EXT2_ERROR_FS \<noteq> 0 then [With_errors]
                 else if es_checkinterval es \<noteq> 0 \<and>
                    ucast (es_lastcheck es + es_checkinterval es) \<le> clock s then [Check_time]
                 else [])
              in (res, msgs, s\<lparr>sb_es := es\<lparr>es_mnt_count := es_mnt_count es + 1\<rparr>\<rparr>))"

text \<open>The check of one group's descriptor: its bitmaps, the first block of its inode table and the
  last one, which the code computes in 32 bits, against the blocks of the group.\<close>

definition desc_in_group :: "ext2_fs \<Rightarrow> nat \<Rightarrow> ext2_group_desc \<Rightarrow> bool" where
  "desc_in_group s g d =
     (let first_block = ext2_group_first_block_no s (of_nat g);
          last_block = ext2_group_last_block_no s (of_nat g);
          within = (\<lambda>b. first_block \<le> ucast b \<and> ucast b \<le> last_block);
          table_last = ucast (ucast (bg_inode_table d) + s_itb_per_group (sb_info s) - 1 :: u64) :: u32
      in within (bg_block_bitmap d) \<and> within (bg_inode_bitmap d) \<and>
         first_block \<le> ucast (bg_inode_table d) \<and> ucast table_last \<le> last_block)"

fun check_descs :: "nat list \<Rightarrow> ext2_fs \<Rightarrow> (bool \<times> ext2_fs) option" where
  "check_descs [] s = Some (True, s)"
| "check_descs (g # gs) s = do {
     (desc, s) \<leftarrow> ext2_get_group_desc ext2_error s (of_nat g);
     p \<leftarrow> desc;
     d \<leftarrow> gd_at s p;
     if desc_in_group s g d then check_descs gs s
     else do { s \<leftarrow> ext2_error s; Some (False, s) } }"

definition ext2_check_descriptors :: "ext2_fs \<Rightarrow> (bool \<times> ext2_fs) option" where
  "ext2_check_descriptors s = check_descs [0..<unat (s_groups_count (sb_info s))] s"

definition descriptor_loc :: "ext2_fs \<Rightarrow> u64 \<Rightarrow> nat \<Rightarrow> u64" where
  "descriptor_loc s logic_sb_block nr =
     (if of_nat nr < (ucast (es_first_meta_bg (sb_es s)) :: u64) then logic_sb_block + of_nat nr + 1
      else let bg = s_desc_per_block (sb_info s) * of_nat nr
           in ext2_group_first_block_no s bg + of_nat (ext2_bg_has_super (unat bg)))"

section \<open>Synchronising and unmounting\<close>

definition ext2_sync_fs :: "ext2_fs \<Rightarrow> ext2_fs option" where
  "ext2_sync_fs s = do {
     s \<leftarrow> lock_sb s;
     let s = (if es_state (sb_es s) AND EXT2_VALID_FS \<noteq> 0
              then s\<lparr>sb_es := (sb_es s)\<lparr>es_state := es_state (sb_es s) AND NOT EXT2_VALID_FS\<rparr>\<rparr> else s);
     ext2_sync_super ext2_error (unlock_sb s) }"

definition ext2_write_super :: "ext2_fs \<Rightarrow> ext2_fs option" where
  "ext2_write_super s = (if \<not> sb_rdonly s then ext2_sync_fs s else Some s)"

text \<open>What unmounting leaves in the superblock's buffer.\<close>

definition ext2_put_super :: "ext2_fs \<Rightarrow> ext2_super_block option" where
  "ext2_put_super s = do {
     s \<leftarrow> (if \<not> sb_rdonly s
          then do {
            s \<leftarrow> lock_sb s;
            ext2_sync_super ext2_error
              (unlock_sb (s\<lparr>sb_es := (sb_es s)\<lparr>es_state := s_mount_state (sb_info s)\<rparr>\<rparr>)) }
          else Some s);
     Some (sb_es s) }"

section \<open>Statistics\<close>

record kstatfs =
  f_type :: u64
  f_bsize :: u64
  f_blocks :: u64
  f_bfree :: u64
  f_bavail :: u64
  f_files :: u64
  f_ffree :: u64
  f_namelen :: nat
  f_fsid :: u64

definition le64_at :: "byte list \<Rightarrow> nat \<Rightarrow> u64" where
  "le64_at bs k = push_bit 32 (ucast (le32_at bs (k + 4))) OR ucast (le32_at bs k)"

definition fs_overhead :: "ext2_fs \<Rightarrow> u64" where
  "fs_overhead s =
     fold (\<lambda>i ov. ov + (of_nat (ext2_bg_has_super i) + ext2_bg_num_gdb s i))
       [0..<unat (s_groups_count (sb_info s))] (ucast (es_first_data_block (sb_es s))) +
     s_groups_count (sb_info s) * (2 + s_itb_per_group (sb_info s))"

definition cache_overhead :: "ext2_fs \<Rightarrow> ext2_fs" where
  "cache_overhead s =
     (if s_blocks_last (sb_info s) \<noteq> ucast (es_blocks_count (sb_es s))
      then s\<lparr>sb_info := (sb_info s)\<lparr>s_overhead_last := fs_overhead s,
                s_blocks_last := ucast (es_blocks_count (sb_es s))\<rparr>\<rparr>
      else s)"

definition ext2_statfs :: "ext2_fs \<Rightarrow> (kstatfs \<times> ext2_fs) option" where
  "ext2_statfs s = do {
     s \<leftarrow> lock_sb s;
     let s = cache_overhead s;
     (bfree, s) \<leftarrow> ext2_count_free_blocks ext2_error s;
     let s = s\<lparr>sb_es := (sb_es s)\<lparr>es_free_blocks_count := ucast bfree\<rparr>\<rparr>;
     (ffree, s) \<leftarrow> ext2_count_free_inodes ext2_error s;
     let s = s\<lparr>sb_es := (sb_es s)\<lparr>es_free_inodes_count := ucast ffree\<rparr>\<rparr>;
     Some (\<lparr> f_type = ucast EXT2_SUPER_MAGIC, f_bsize = sb_blocksize s,
        f_blocks = ucast (es_blocks_count (sb_es s)) - s_overhead_last (sb_info s),
        f_bfree = bfree, f_bavail = bfree, f_files = ucast (es_inodes_count (sb_es s)),
        f_ffree = ffree, f_namelen = EXT2_NAME_LEN,
        f_fsid = le64_at (es_uuid (sb_es s)) 0 XOR le64_at (es_uuid (sb_es s)) 8 \<rparr>, unlock_sb s) }"

section \<open>Remounting\<close>

definition set_mount_opt :: "u64 \<Rightarrow> ext2_fs \<Rightarrow> ext2_fs" where
  "set_mount_opt opt s = s\<lparr>sb_info := (sb_info s)\<lparr>s_mount_opt := opt\<rparr>\<rparr>"

text \<open>\<open>syncfs\<close> is \<^verbatim>\<open>sync_filesystem\<close> of the VFS.\<close>

definition ext2_remount :: "(ext2_fs \<Rightarrow> ext2_fs option) \<Rightarrow> u64 \<Rightarrow> string option \<Rightarrow> ext2_fs \<Rightarrow> (int \<times> ext2_fs) option" where
  "ext2_remount syncfs flags data s = do {
     s \<leftarrow> syncfs s;
     s \<leftarrow> lock_sb s;
     let new_opt = s_mount_opt (sb_info s);
     let s = unlock_sb s;
     (ok, new_opt) \<leftarrow> parse_options data new_opt;
     if \<not> ok then Some (- EINVAL, s)
     else do {
       s \<leftarrow> lock_sb s;
       let want_ro = (flags AND SB_RDONLY \<noteq> 0);
       let es = sb_es s;
       if want_ro = sb_rdonly s then Some (0, unlock_sb (set_mount_opt new_opt s))
       else if want_ro then
         (if es_state es AND EXT2_VALID_FS \<noteq> 0 \<or> s_mount_state (sb_info s) AND EXT2_VALID_FS = 0
          then Some (0, unlock_sb (set_mount_opt new_opt s))
          else do {
            let s = unlock_sb (s\<lparr>sb_es := es\<lparr>es_state := s_mount_state (sb_info s), es_mtime := ucast (clock s)\<rparr>\<rparr>);
            s \<leftarrow> ext2_sync_super ext2_error s;
            s \<leftarrow> lock_sb s;
            Some (0, unlock_sb (set_mount_opt new_opt s)) })
       else do {
         let s = s\<lparr>sb_info := (sb_info s)\<lparr>s_mount_state := es_state es\<rparr>\<rparr>;
         let (res, _, s) = ext2_check_super False s;
         let s = (if res = 0 then s\<lparr>sb_flags := sb_flags s AND NOT SB_RDONLY\<rparr> else s);
         s \<leftarrow> ext2_write_super (unlock_sb s);
         s \<leftarrow> lock_sb s;
         Some (0, unlock_sb (set_mount_opt new_opt s)) } } }"

section \<open>The layout of the disk structures\<close>

definition parse_super :: "byte list \<Rightarrow> nat \<Rightarrow> ext2_super_block option" where
  "parse_super bs k = (if length bs < k + 1000 then None else Some
     \<lparr> es_inodes_count = le32_at bs k, es_blocks_count = le32_at bs (k + 4),
       es_r_blocks_count = le32_at bs (k + 8), es_free_blocks_count = le32_at bs (k + 12),
       es_free_inodes_count = le32_at bs (k + 16), es_first_data_block = le32_at bs (k + 20),
       es_log_block_size = le32_at bs (k + 24), es_blocks_per_group = le32_at bs (k + 32),
       es_inodes_per_group = le32_at bs (k + 40), es_mtime = le32_at bs (k + 44),
       es_wtime = le32_at bs (k + 48), es_mnt_count = le16_at bs (k + 52),
       es_magic = le16_at bs (k + 56), es_state = le16_at bs (k + 58), es_errors = le16_at bs (k + 60),
       es_minor_rev_level = le16_at bs (k + 62), es_lastcheck = le32_at bs (k + 64),
       es_checkinterval = le32_at bs (k + 68), es_creator_os = le32_at bs (k + 72),
       es_rev_level = le32_at bs (k + 76), es_def_resuid = le16_at bs (k + 80),
       es_def_resgid = le16_at bs (k + 82), es_first_ino = le32_at bs (k + 84),
       es_inode_size = le16_at bs (k + 88), es_block_group_nr = le16_at bs (k + 90),
       es_feature_compat = le32_at bs (k + 92), es_feature_incompat = le32_at bs (k + 96),
       es_feature_ro_compat = le32_at bs (k + 100), es_uuid = take 16 (drop (k + 104) bs),
       es_volume_name = map (\<lambda>b. char_of (unat b)) (take 16 (drop (k + 120) bs)),
       es_last_mounted = map (\<lambda>b. char_of (unat b)) (take 64 (drop (k + 136) bs)),
       es_default_mount_opts = le32_at bs (k + 232), es_first_meta_bg = le32_at bs (k + 236) \<rparr>)"

definition parse_desc :: "byte list \<Rightarrow> nat \<Rightarrow> ext2_group_desc" where
  "parse_desc bs k =
     \<lparr> bg_block_bitmap = le32_at bs k, bg_inode_bitmap = le32_at bs (k + 4),
       bg_inode_table = le32_at bs (k + 8), bg_free_blocks_count = le16_at bs (k + 12),
       bg_free_inodes_count = le16_at bs (k + 14), bg_used_dirs_count = le16_at bs (k + 16),
       bg_pad = le16_at bs (k + 18),
       bg_reserved = [le32_at bs (k + 20), le32_at bs (k + 24), le32_at bs (k + 28)] \<rparr>"

section \<open>Mounting\<close>

abbreviation (input) BLOCK_SIZE :: u64 where "BLOCK_SIZE \<equiv> 1024"

text \<open>
  Reading the superblock: the block size, the number of the superblock's block, the mount
  options, the superblock and the size of its buffer. \<open>None\<close>: the structure reaches past the
  buffer, or the shift that computes the block size overflows an \<^verbatim>\<open>int\<close>.
\<close>

definition default_opts :: "ext2_super_block \<Rightarrow> u64" where
  "default_opts es =
     (if es_errors es = EXT2_ERRORS_PANIC then set_opt 0 EXT2_MOUNT_ERRORS_PANIC
      else if es_errors es = EXT2_ERRORS_CONTINUE then set_opt 0 EXT2_MOUNT_ERRORS_CONT
      else set_opt 0 EXT2_MOUNT_ERRORS_RO)"

definition reread_super ::
  "dev \<Rightarrow> u64 \<Rightarrow> u64 \<Rightarrow> (int + u64 \<times> ext2_super_block \<times> nat) option" where
  "reread_super D sb_block blocksize =
     (if \<not> set_blocksize D blocksize then Some (Inl (- EINVAL))
      else (case dev_block D blocksize (sb_block * BLOCK_SIZE div blocksize) of
          None \<Rightarrow> Some (Inl (- EINVAL))
        | Some bh \<Rightarrow> do {
            es \<leftarrow> parse_super bh (unat (sb_block * BLOCK_SIZE mod blocksize));
            if es_magic es \<noteq> EXT2_SUPER_MAGIC then Some (Inl (- EINVAL))
            else Some (Inr (sb_block * BLOCK_SIZE div blocksize, es, length bh)) }))"

definition load_super ::
  "dev \<Rightarrow> string option \<Rightarrow> (int + u64 \<times> u64 \<times> u64 \<times> ext2_super_block \<times> nat) option" where
  "load_super D data =
     (let sb_block = 1; blocksize = min_blocksize D BLOCK_SIZE in
      if blocksize = 0 then Some (Inl (- EINVAL))
      else
        let logic = (if blocksize \<noteq> BLOCK_SIZE then sb_block * BLOCK_SIZE div blocksize else sb_block);
            offset = (if blocksize \<noteq> BLOCK_SIZE then sb_block * BLOCK_SIZE mod blocksize else 0)
        in (case dev_block D blocksize logic of None \<Rightarrow> Some (Inl (- EINVAL))
            | Some bh \<Rightarrow> do {
                es \<leftarrow> parse_super bh (unat offset);
                if es_magic es \<noteq> EXT2_SUPER_MAGIC then Some (Inl (- EINVAL))
                else do {
                  (ok, opt) \<leftarrow> parse_options data (default_opts es);
                  if \<not> ok \<or> es_feature_ro_compat es \<noteq> 0 \<or> es_feature_compat es \<noteq> 0 \<or>
                     es_feature_incompat es \<noteq> 0
                  then Some (Inl (- EINVAL))
                  else if 21 \<le> unat (es_log_block_size es) then None
                  else let size = push_bit (unat (es_log_block_size es)) BLOCK_SIZE in
                    if blocksize = size then Some (Inr (size, logic, opt, es, length bh))
                    else do {
                      r \<leftarrow> reread_super D sb_block size;
                      Some (case r of Inl e \<Rightarrow> Inl e
                        | Inr (logic, es, n) \<Rightarrow> Inr (size, logic, opt, es, n)) } } }))"

function ilog2 :: "nat \<Rightarrow> nat" where
  "ilog2 n = (if n < 2 then 0 else Suc (ilog2 (n div 2)))"
  by pat_completeness auto
termination by (relation "measure id") auto

declare ilog2.simps [simp del]

definition is_power_of_2 :: "u64 \<Rightarrow> bool" where
  "is_power_of_2 n \<longleftrightarrow> n \<noteq> 0 \<and> n AND (n - 1) = 0"

text \<open>The geometry from the superblock; \<open>None\<close> when the code refuses it.\<close>

definition inode_geometry :: "u64 \<Rightarrow> ext2_super_block \<Rightarrow> (s32 \<times> s32) option" where
  "inode_geometry blocksize es =
     (if es_rev_level es = EXT2_GOOD_OLD_REV
      then Some (EXT2_GOOD_OLD_INODE_SIZE, EXT2_GOOD_OLD_FIRST_INO)
      else let inode_size = (ucast (es_inode_size es) :: s32) in
        if unat inode_size < 128 \<or> \<not> is_power_of_2 (ucast inode_size) \<or> unat blocksize < unat inode_size
        then None else Some (inode_size, es_first_ino es))"

definition super_geometry ::
  "u64 \<Rightarrow> u64 \<Rightarrow> ext2_super_block \<Rightarrow> nat \<Rightarrow> ext2_sb_info option" where
  "super_geometry blocksize mount_opt es b_len = do {
     (inode_size, first_ino) \<leftarrow> inode_geometry blocksize es;
     let inodes_per_block = blocksize div scast inode_size;
     let inodes_per_group = (ucast (es_inodes_per_group es) :: u64);
     let blocks_per_group = (ucast (es_blocks_per_group es) :: u64);
     if inodes_per_block = 0 \<or> inodes_per_group = 0 \<or> unat blocksize \<noteq> b_len \<or>
        blocksize * 8 < blocks_per_group \<or> blocksize * 8 < inodes_per_group \<or> blocks_per_group = 0
     then None
     else Some \<lparr> s_inodes_per_block = inodes_per_block, s_blocks_per_group = blocks_per_group,
       s_inodes_per_group = inodes_per_group, s_itb_per_group = inodes_per_group div inodes_per_block,
       s_gdb_count = 0, s_desc_per_block = blocksize div 32,
       s_groups_count = ucast (es_blocks_count es - es_first_data_block es - 1) div blocks_per_group + 1,
       s_overhead_last = 0, s_blocks_last = 0, s_group_desc = [], s_mount_opt = mount_opt, s_sb_block = 1,
       s_mount_state = es_state es, s_addr_per_block_bits = ilog2 (unat (blocksize div 4)),
       s_desc_per_block_bits = ilog2 (unat (blocksize div 32)), s_inode_size = inode_size,
       s_first_ino = first_ino, s_freeblocks_counter = 0, s_freeinodes_counter = 0, s_dirs_counter = 0,
       s_lock = False \<rparr> }"

definition desc_blocks :: "ext2_sb_info \<Rightarrow> nat" where
  "desc_blocks sbi =
     unat ((s_groups_count sbi + s_desc_per_block sbi - 1) div s_desc_per_block sbi)"

fun read_descs :: "kern \<Rightarrow> u64 \<Rightarrow> nat list \<Rightarrow> ext2_fs \<Rightarrow> (bool \<times> ext2_fs) option" where
  "read_descs K logic [] s = Some (True, s)"
| "read_descs K logic (i # is) s =
     (case sb_bread K s (descriptor_loc s logic i) of
        (None, s) \<Rightarrow> Some (False, s)
      | (Some b, s) \<Rightarrow> do {
          bs \<leftarrow> bcache s b;
          let ds = map (\<lambda>j. parse_desc bs (32 * j)) [0..<length bs div 32];
          read_descs K logic is
            (s\<lparr>sb_info := (sb_info s)\<lparr>s_group_desc := s_group_desc (sb_info s) @ [Some ds]\<rparr>\<rparr>) })"

text \<open>The three counters; the first error ends the chain.\<close>

definition init_counters :: "dev \<Rightarrow> ext2_fs \<Rightarrow> (int \<times> ext2_fs) option" where
  "init_counters D s = do {
     (nb, s) \<leftarrow> ext2_count_free_blocks ext2_error s;
     if percpu_err D 0 \<noteq> 0 then Some (percpu_err D 0, s)
     else do {
       let s = s\<lparr>sb_info := (sb_info s)\<lparr>s_freeblocks_counter := sint nb\<rparr>\<rparr>;
       (ni, s) \<leftarrow> ext2_count_free_inodes ext2_error s;
       if percpu_err D 1 \<noteq> 0 then Some (percpu_err D 1, s)
       else do {
         let s = s\<lparr>sb_info := (sb_info s)\<lparr>s_freeinodes_counter := sint ni\<rparr>\<rparr>;
         (nd, s) \<leftarrow> ext2_count_dirs ext2_error s;
         if percpu_err D 2 \<noteq> 0 then Some (percpu_err D 2, s)
         else Some (0, s\<lparr>sb_info := (sb_info s)\<lparr>s_dirs_counter := sint nd\<rparr>\<rparr>) } } }"

definition mount_root :: "dev \<Rightarrow> kern \<Rightarrow> vm \<Rightarrow> ext2_fs \<Rightarrow> (int \<times> ext2_fs) option" where
  "mount_root D K M s = do {
     (r, s) \<leftarrow> ext2_iget K M s EXT2_ROOT_INO;
     (case r of Inl e \<Rightarrow> Some (e, s)
      | Inr root \<Rightarrow>
          if \<not> S_ISDIR (i_mode root) \<or> i_blocks root = 0 \<or> i_size root = 0 then Some (- EINVAL, s)
          else if \<not> make_root D root then Some (- ENOMEM, s)
          else do {
            let (res, _, s) = ext2_check_super (sb_rdonly s) s;
            s \<leftarrow> ext2_write_super (if res \<noteq> 0 then s\<lparr>sb_flags := sb_flags s OR SB_RDONLY\<rparr> else s);
            Some (0, s) }) }"

text \<open>
  \<^verbatim>\<open>ext2_fill_super\<close>: an error leaves nothing mounted, success is the file system. The flags
  of the superblock and the time are the kernel's.
\<close>

definition ext2_fill_super ::
  "dev \<Rightarrow> kern \<Rightarrow> vm \<Rightarrow> u64 \<Rightarrow> u64 \<Rightarrow> string option \<Rightarrow> (int + ext2_fs) option" where
  "ext2_fill_super D K M flags now data =
     (if \<not> mem_ok D 0 \<or> \<not> mem_ok D 1 then Some (Inl (- ENOMEM))
      else do {
        r \<leftarrow> load_super D data;
        (case r of Inl e \<Rightarrow> Some (Inl e)
         | Inr (blocksize, logic, opt, es, n) \<Rightarrow>
             (case super_geometry blocksize opt es n of None \<Rightarrow> Some (Inl (- EINVAL))
              | Some sbi \<Rightarrow>
                  if \<not> mem_ok D 2 then Some (Inl (- ENOMEM))
                  else do {
                    let s = \<lparr> sb_flags = flags, sb_blocksize = blocksize,
                      sb_blocksize_bits = ilog2 (unat blocksize), sb_es = es, sb_info = sbi,
                      bcache = dev_block D blocksize, bh_uptodate = (\<lambda>_. False), clock = now \<rparr>;
                    (ok, s) \<leftarrow> read_descs K logic [0..<desc_blocks sbi] s;
                    if \<not> ok then Some (Inl (- EINVAL))
                    else do {
                      (ok, s) \<leftarrow> ext2_check_descriptors s;
                      if \<not> ok then Some (Inl (- EINVAL))
                      else do {
                        let s = s\<lparr>sb_info := (sb_info s)\<lparr>s_gdb_count := of_nat (desc_blocks sbi)\<rparr>\<rparr>;
                        (err, s) \<leftarrow> init_counters D s;
                        if err \<noteq> 0 then Some (Inl err)
                        else do {
                          (err, s) \<leftarrow> mount_root D K M s;
                          Some (if err \<noteq> 0 then Inl err else Inr s) } } } })) })"

section \<open>Inodes of the cache and the module\<close>

text \<open>The argument is what the inode cache's allocator returns.\<close>

definition ext2_alloc_inode :: "inode option \<Rightarrow> inode option" where
  "ext2_alloc_inode ei = (case ei of None \<Rightarrow> None | Some ip \<Rightarrow> Some (ip\<lparr>i_version := 1\<rparr>))"

record ext2_module =
  inode_cache :: bool
  fs_registered :: bool

definition init_inodecache :: "bool \<Rightarrow> ext2_module \<Rightarrow> int \<times> ext2_module" where
  "init_inodecache created m = (if created then (0, m\<lparr>inode_cache := True\<rparr>) else (- ENOMEM, m))"

definition destroy_inodecache :: "ext2_module \<Rightarrow> ext2_module" where
  "destroy_inodecache m = m\<lparr>inode_cache := False\<rparr>"

text \<open>\<open>created\<close> and \<open>reg\<close> are the results of \<^verbatim>\<open>kmem_cache_create_usercopy\<close> and \<^verbatim>\<open>register_filesystem\<close>.\<close>

definition init_ext2_fs :: "bool \<Rightarrow> int \<Rightarrow> ext2_module \<Rightarrow> int \<times> ext2_module" where
  "init_ext2_fs created reg m =
     (let (err, m) = init_inodecache created m in
      if err \<noteq> 0 then (err, m)
      else if reg \<noteq> 0 then (reg, destroy_inodecache m)
      else (0, m\<lparr>fs_registered := True\<rparr>))"

definition exit_ext2_fs :: "ext2_module \<Rightarrow> ext2_module" where
  "exit_ext2_fs m = destroy_inodecache (m\<lparr>fs_registered := False\<rparr>)"

end
