(* ===== verification/Super_Correct.thy ===== *)
theory Super_Correct
  imports Super Ext2_Geometry
begin

text \<open>
  What mounting establishes, step by step: the superblock that was read, the geometry computed
  from it, the loaded descriptors, the counters and the mark of use.
\<close>

section \<open>Options\<close>

text \<open>The option words the code makes: one behaviour on errors, perhaps debugging.\<close>

definition opt_ok :: "u64 \<Rightarrow> bool" where
  "opt_ok opt \<longleftrightarrow> opt \<in> {0x10, 0x20, 0x40, 0x18, 0x28, 0x48}"

lemma apply_token_ok: "opt_ok opt \<Longrightarrow> opt_ok (apply_token t opt)"
  by (cases t) (auto simp: opt_ok_def apply_token_def set_opt_def clear_opt_def)

lemma parse_words_ok: "parse_words ws opt = Some (ok, opt') \<Longrightarrow> opt_ok opt \<Longrightarrow> opt_ok opt'"
  by (induction ws arbitrary: opt) (auto simp: apply_token_ok split: if_splits option.splits)

lemma parse_options_ok: "parse_options data opt = Some (ok, opt') \<Longrightarrow> opt_ok opt \<Longrightarrow> opt_ok opt'"
  by (auto simp: parse_options_def parse_words_ok split: option.splits)

lemma default_opts_ok: "opt_ok (default_opts es)"
  by (simp add: opt_ok_def default_opts_def set_opt_def)

lemma shown_parses:
  assumes "opt_ok (s_mount_opt (sb_info s))"
  shows "parse_options (Some (shown s)) (default_opts (sb_es s)) = Some (True, s_mount_opt (sb_info s))"
proof -
  have s: "strsep '''' = [[]]" "strsep '',errors=remount-ro'' = [[], ''errors=remount-ro'']"
    "strsep '',errors=continue'' = [[], ''errors=continue'']" "strsep '',errors=panic'' = [[], ''errors=panic'']"
    "strsep '',debug'' = [[], ''debug'']" "strsep '',errors=remount-ro,debug'' = [[], ''errors=remount-ro'', ''debug'']"
    "strsep '',errors=continue,debug'' = [[], ''errors=continue'', ''debug'']"
    "strsep '',errors=panic,debug'' = [[], ''errors=panic'', ''debug'']"
    by simp_all
  have w: "parse_words (w # ws) opt = (if w = [] then parse_words ws opt
      else (case match_token w tokens of None \<Rightarrow> None | Some t \<Rightarrow> parse_words ws (apply_token t opt)))" for w ws opt
    by simp
  from assms show ?thesis
    unfolding opt_ok_def
    by (elim insertE; simp add: shown_def test_opt_def parse_options_def s w tokens_def default_opts_def
        apply_token_def set_opt_def clear_opt_def del: strsep.simps(2) parse_words.simps(2))
qed

section \<open>Reading the superblock\<close>

text \<open>The block layer knows no block size above a page and reads whole blocks.\<close>

definition dev_ok :: "dev \<Rightarrow> bool" where
  "dev_ok D \<longleftrightarrow> unat (min_blocksize D BLOCK_SIZE) \<le> PAGE_SIZE \<and>
     (\<forall>b. set_blocksize D b \<longrightarrow> unat b \<le> PAGE_SIZE) \<and>
     (\<forall>bsz n bs. dev_block D bsz n = Some bs \<longrightarrow> length bs = unat bsz)"

lemma block_sizes:
  assumes "k < 21" "unat (push_bit k (1024 :: u64)) \<le> 4096"
  shows "push_bit k (1024 :: u64) \<in> {1024, 2048, 4096}"
proof -
  have "unat (push_bit k (1024 :: u64)) = 2 ^ k * 1024 mod 2 ^ 64"
    by (simp only: unsigned_push_bit_eq) (simp add: take_bit_eq_mod push_bit_eq_mult mult.commute)
  moreover have "(2 :: nat) ^ k * 1024 < 2 ^ 64"
  proof -
    have "(2 :: nat) ^ k \<le> 2 ^ 20" using assms(1) by (intro power_increasing) simp_all
    then show ?thesis by simp
  qed
  ultimately have "2 ^ k * 1024 \<le> (4096 :: nat)" using assms(2) by simp
  then have "(2 :: nat) ^ k \<le> 2 ^ 2" by simp
  then have "k \<le> 2" by (rule power_le_imp_le_exp [rotated]) simp
  then consider "k = 0" | "k = 1" | "k = 2" by linarith
  then show ?thesis by cases simp_all
qed

lemma load_super_result:
  assumes D: "dev_ok D" and r: "load_super D data = Some (Inr (bsz, logic, opt, es, n))"
  shows "bsz \<in> {1024, 2048, 4096} \<and> opt_ok opt"
proof -
  let ?b = "min_blocksize D BLOCK_SIZE"
  define lg where "lg = (if ?b \<noteq> 1024 then 1 * 1024 div ?b else 1)"
  define off where "off = (if ?b \<noteq> 1024 then 1 * 1024 mod ?b else 0)"
  from r obtain bh es0 where bh: "dev_block D ?b lg = Some bh" "parse_super bh (unat off) = Some es0"
    by (auto simp: load_super_def Let_def lg_def off_def bind_Some_iff split: if_splits option.splits)
  obtain ok o' where po: "parse_options data (default_opts es0) = Some (ok, o')"
    using r bh by (auto simp: load_super_def Let_def lg_def off_def bind_Some_iff split: if_splits)
  let ?bsz = "push_bit (unat (es_log_block_size es0)) (1024 :: u64)"
  from r bh po have x: "unat (es_log_block_size es0) < 21" "bsz = ?bsz" "opt = o'"
      "?b = ?bsz \<or> set_blocksize D ?bsz"
    unfolding load_super_def Let_def lg_def [symmetric] off_def [symmetric]
    by (auto simp: reread_super_def bind_Some_iff split: if_splits option.splits sum.splits)
  have "unat ?bsz \<le> 4096" using x(4) D by (auto simp: dev_ok_def)
  with block_sizes [OF x(1)] x(2,3) parse_options_ok [OF po default_opts_ok] show ?thesis by simp
qed

section \<open>The geometry\<close>

lemma ilog2_sizes: "ilog2 32 = 5" "ilog2 64 = 6" "ilog2 128 = 7"
  by (simp_all add: ilog2.simps)

lemma geometry_result:
  assumes "super_geometry bsz opt es n = Some sbi" "bsz \<in> {1024, 2048, 4096}"
  shows "s_mount_opt sbi = opt \<and> \<not> s_lock sbi \<and> s_group_desc sbi = [] \<and> s_mount_state sbi = es_state es \<and>
     0 < s_blocks_per_group sbi \<and> s_blocks_per_group sbi \<le> bsz * 8 \<and>
     0 < s_inodes_per_group sbi \<and> s_inodes_per_group sbi \<le> bsz * 8 \<and>
     s_groups_count sbi = ucast (es_blocks_count es - es_first_data_block es - 1) div s_blocks_per_group sbi + 1 \<and>
     s_desc_per_block sbi = bsz div 32 \<and> unat (s_desc_per_block sbi) = 2 ^ s_desc_per_block_bits sbi \<and>
     s_desc_per_block_bits sbi < 32 \<and> unat bsz = n"
proof -
  obtain isz fi where i: "inode_geometry bsz es = Some (isz, fi)"
    using assms(1) by (auto simp: super_geometry_def bind_Some_iff)
  note g = assms(1) [unfolded super_geometry_def i bind.bind_lunit prod.case Let_def]
  have "unat (bsz div 32) = 2 ^ ilog2 (unat (bsz div 32)) \<and> ilog2 (unat (bsz div 32)) < 32"
    using assms(2) by (auto simp: ilog2_sizes)
  with g show ?thesis by (auto simp: word_neq_0_conv not_less split: if_splits)
qed

section \<open>Descriptors and counters\<close>

lemma read_descs_result:
  assumes "read_descs K logic is s = Some (True, s')" "\<And>b bs. bcache s b = Some bs \<Longrightarrow> length bs = n"
  shows "\<exists>L u. s' = s\<lparr>sb_info := (sb_info s)\<lparr>s_group_desc := s_group_desc (sb_info s) @ L\<rparr>, bh_uptodate := u\<rparr> \<and>
     length L = length is \<and> (\<forall>x \<in> set L. \<exists>ds. x = Some ds \<and> length ds = n div 32)"
  using assms
proof (induction "is" arbitrary: s)
  case Nil
  then show ?case by (intro exI [of _ "[]"] exI [of _ "bh_uptodate s"]) simp
next
  case (Cons i "is")
  let ?b = "descriptor_loc s logic i"
  from Cons.prems(1) obtain bs where bs: "bcache s ?b = Some bs"
    and rest: "read_descs K logic is (s\<lparr>bh_uptodate := (bh_uptodate s)(?b := True),
        sb_info := (sb_info s)\<lparr>s_group_desc := s_group_desc (sb_info s) @
          [Some (map (\<lambda>j. parse_desc bs (32 * j)) [0..<length bs div 32])]\<rparr>\<rparr>) = Some (True, s')"
    by (auto simp: sb_bread_def Let_def split: if_splits)
  let ?ds = "map (\<lambda>j. parse_desc bs (32 * j)) [0..<length bs div 32]"
  from Cons.IH [OF rest] Cons.prems(2) obtain L u where "s' = s\<lparr>sb_info := (sb_info s)\<lparr>s_group_desc :=
        (s_group_desc (sb_info s) @ [Some ?ds]) @ L\<rparr>, bh_uptodate := u\<rparr>" "length L = length is"
      "\<forall>x \<in> set L. \<exists>ds. x = Some ds \<and> length ds = n div 32"
    by auto
  with Cons.prems(2) [OF bs] show ?case by (intro exI [of _ "Some ?ds # L"] exI [of _ u]) simp
qed

lemma check_descs_result:
  assumes l: "descs_loaded s" and g: "\<forall>g \<in> set gs. g < n_groups s" and r: "check_descs gs s = Some (True, s')"
  shows "s' = s \<and> (\<forall>g \<in> set gs. desc_in_group s g (desc_of s g))"
  using g r
proof (induction gs)
  case (Cons g gs)
  have "g < 2 ^ 31" using Cons.prems(1) descs_loadedD(4) [OF l] by auto
  then have u: "unat (of_nat g :: u32) = g" by (simp add: unat_of_nat take_bit_nat_eq_self)
  have d: "ext2_get_group_desc ext2_error s (of_nat g) = Some (Some (desc_ptr_of s g), s)"
    using get_group_desc_loaded [OF l, of "of_nat g" ext2_error] Cons.prems(1) u by simp
  have "gd_at s (desc_ptr_of s g) = Some (desc_of s g)" using gd_at_loaded [OF l] Cons.prems(1) by simp
  with Cons d show ?case by (auto simp: bind_Some_iff split: if_splits)
qed simp

definition counters_exact :: "ext2_fs \<Rightarrow> bool" where
  "counters_exact s \<longleftrightarrow> s_freeblocks_counter (sb_info s) = int (total_of bg_free_blocks_count s) \<and>
     s_freeinodes_counter (sb_info s) = int (total_of bg_free_inodes_count s) \<and>
     s_dirs_counter (sb_info s) = int (total_of bg_used_dirs_count s)"

lemma total_sum_cong: "sb_info s = sb_info t \<Longrightarrow> total_of fld s = total_of fld t"
  using gd_at_cong [of s t] by (simp add: total_of_def desc_of_def desc_ptr_of_def n_groups_def)

lemma sint_total: "descs_loaded s \<Longrightarrow> sint (of_nat (total_of fld s) :: u64) = int (total_of fld s)"
  using total_of_bound [of s fld] by (simp add: signed_of_nat signed_take_bit_int_eq_self_iff)

lemma info_frame [simp]:
  "total_of fld (s\<lparr>sb_info := (sb_info s)\<lparr>s_freeblocks_counter := n\<rparr>\<rparr>) = total_of fld s"
  "total_of fld (s\<lparr>sb_info := (sb_info s)\<lparr>s_freeinodes_counter := n\<rparr>\<rparr>) = total_of fld s"
  "total_of fld (s\<lparr>sb_info := (sb_info s)\<lparr>s_dirs_counter := n\<rparr>\<rparr>) = total_of fld s"
  by (simp_all add: total_of_def)

lemma init_counters_result:
  assumes l: "descs_loaded s" and r: "init_counters D s = Some (0, s')"
  shows "s' = s\<lparr>sb_info := (sb_info s)\<lparr>s_freeblocks_counter := int (total_of bg_free_blocks_count s),
     s_freeinodes_counter := int (total_of bg_free_inodes_count s),
     s_dirs_counter := int (total_of bg_used_dirs_count s)\<rparr>\<rparr> \<and> counters_exact s'"
proof -
  define s1 where "s1 = s\<lparr>sb_info := (sb_info s)\<lparr>s_freeblocks_counter := int (total_of bg_free_blocks_count s)\<rparr>\<rparr>"
  define s2 where "s2 = s1\<lparr>sb_info := (sb_info s1)\<lparr>s_freeinodes_counter := int (total_of bg_free_inodes_count s)\<rparr>\<rparr>"
  have f1: "descs_loaded s1" "total_of fld s1 = total_of fld s" for fld using l by (simp_all add: s1_def)
  have f: "descs_loaded s1" "descs_loaded s2" "total_of fld s1 = total_of fld s" "total_of fld s2 = total_of fld s" for fld
    using f1 by (simp_all add: s2_def)
  have e: "s' = s2\<lparr>sb_info := (sb_info s2)\<lparr>s_dirs_counter := int (total_of bg_used_dirs_count s)\<rparr>\<rparr>"
    using r count_free_blocks_loaded [OF l, of ext2_error] count_free_inodes_loaded [OF f(1), of ext2_error]
      count_dirs_loaded [OF f(2), of ext2_error]
    by (simp add: init_counters_def sint_total [OF l] Let_def s1_def [symmetric] f s2_def [symmetric] split: if_splits)
  then have "counters_exact s'" by (simp add: counters_exact_def f) (simp add: s2_def s1_def)
  with e show ?thesis by (simp add: s2_def s1_def)
qed

section \<open>The root directory\<close>

lemma get_desc_same: "ext2_get_group_desc err s g = Some (Some p, s') \<Longrightarrow> s' = s"
  by (auto simp: ext2_get_group_desc_def Let_def bind_Some_iff split: if_splits option.splits)

lemma no_report: "report (Inl e) s \<noteq> Some (Inr x, s')"
  by (auto simp: report_def)

lemma iget_frame:
  assumes "ext2_iget K M s ino = Some (Inr ip, s')"
  shows "\<exists>u. s' = s\<lparr>bh_uptodate := u\<rparr>"
proof (cases "iget_locked M ino")
  case None
  with assms show ?thesis by (simp add: ext2_iget_def)
next
  case (Some x)
  obtain ip0 is_new where x: "x = (ip0, is_new)" by (cases x)
  show ?thesis
  proof (cases is_new)
    case False
    with assms Some x show ?thesis by (auto simp: ext2_iget_def intro!: exI [of _ "bh_uptodate s"])
  next
    case True
    with assms Some x obtain r t where r: "ext2_get_inode K s ino = Some (r, t)"
      by (auto simp: ext2_iget_def bind_Some_iff)
    obtain bh off where "r = Inr (bh, off)"
      using assms Some x True r by (cases r) (auto simp: ext2_iget_def)
    with assms Some x True r have g: "ext2_get_inode K s ino = Some (Inr (bh, off), s')"
      by (auto simp: ext2_iget_def bind_Some_iff Let_def split: if_splits)
    then show ?thesis
      by (auto simp: ext2_get_inode_def Let_def bind_Some_iff no_report sb_bread_def
          dest!: get_desc_same split: if_splits option.splits)
  qed
qed

definition mark_in_use :: "ext2_fs \<Rightarrow> ext2_fs" where
  "mark_in_use s = s\<lparr>sb_es := (sb_es s)\<lparr>es_state := es_state (sb_es s) AND NOT EXT2_VALID_FS\<rparr>\<rparr>"

lemma valid_clear: "(x :: u16) AND 1 = 0 \<Longrightarrow> x AND NOT 1 = x" "(x AND NOT 1) AND 1 = (0 :: u16)"
proof -
  show "(x AND NOT 1) AND 1 = (0 :: u16)" by (rule bit_word_eqI) (auto simp: bit_simps)
  assume z: "x AND 1 = 0"
  have "bit (x AND 1) n = bit (0 :: u16) n" for n by (simp only: z)
  then show "x AND NOT 1 = x" by (intro bit_word_eqI) (auto simp: bit_simps)
qed

lemma mark_frame [simp]:
  "descs_loaded (mark_in_use s) = descs_loaded s" "sb_info (mark_in_use s) = sb_info s"
  by (simp_all add: mark_in_use_def)

lemma sync_fs_loaded:
  assumes "descs_loaded s" "\<not> s_lock (sb_info s)"
  shows "ext2_sync_fs s = Some (sync_result (mark_in_use s))"
proof -
  let ?l = "s\<lparr>sb_info := (sb_info s)\<lparr>s_lock := True\<rparr>\<rparr>"
  have "unlock_sb (if es_state (sb_es ?l) AND EXT2_VALID_FS \<noteq> 0
              then ?l\<lparr>sb_es := (sb_es ?l)\<lparr>es_state := es_state (sb_es ?l) AND NOT EXT2_VALID_FS\<rparr>\<rparr> else ?l) =
      mark_in_use s"
    using assms(2) valid_clear(1) [of "es_state (sb_es s)"]
    by (cases s; cases "sb_info s"; cases "sb_es s") (simp add: unlock_sb_def mark_in_use_def)
  then show ?thesis
    using assms sync_super_loaded [of "mark_in_use s" ext2_error]
    unfolding ext2_sync_fs_def lock_sb_def Let_def by simp
qed

text \<open>What later steps of mounting leave as it is.\<close>

definition same_layout :: "ext2_fs \<Rightarrow> ext2_fs \<Rightarrow> bool" where
  "same_layout s t \<longleftrightarrow> sb_info t = sb_info s \<and> sb_blocksize t = sb_blocksize s \<and>
     es_blocks_count (sb_es t) = es_blocks_count (sb_es s) \<and>
     es_first_data_block (sb_es t) = es_first_data_block (sb_es s)"

lemma mount_root_result:
  assumes l: "descs_loaded s" and u: "\<not> s_lock (sb_info s)" and r: "mount_root D K M s = Some (0, s')"
  shows "same_layout s s' \<and> (\<not> sb_rdonly s' \<longrightarrow> es_state (sb_es s') = es_state (sb_es s) AND NOT EXT2_VALID_FS)"
proof -
  obtain q t where g: "ext2_iget K M s EXT2_ROOT_INO = Some (q, t)" using r by (auto simp: mount_root_def bind_Some_iff)
  have "q \<noteq> Inl 0"
  proof
    assume "q = Inl 0"
    with g have "ext2_iget K M s EXT2_ROOT_INO = Some (Inl 0, t)" by simp
    then show False
      by (auto simp: ext2_iget_def ext2_get_inode_def Let_def bind_Some_iff report_def sb_bread_def
          split: option.splits if_splits sum.splits)
  qed
  then obtain root where q: "q = Inr root" using r g by (cases q) (auto simp: mount_root_def)
  obtain up where t: "t = s\<lparr>bh_uptodate := up\<rparr>" using iget_frame [OF g [unfolded q]] by blast
  obtain res ms v where c: "ext2_check_super (sb_rdonly t) t = (res, ms, v)" by (metis prod_cases3)
  define w where "w = (if res \<noteq> 0 then v\<lparr>sb_flags := sb_flags v OR SB_RDONLY\<rparr> else v)"
  have wr: "ext2_write_super w = Some s'"
    using r g c unfolding mount_root_def q by (auto simp: w_def [symmetric] Let_def bind_Some_iff split: if_splits)
  have v: "v = t \<or> v = t\<lparr>sb_es := (sb_es t)\<lparr>es_mnt_count := es_mnt_count (sb_es t) + 1\<rparr>\<rparr>"
    using c by (auto simp: ext2_check_super_def Let_def split: if_splits)
  then have w: "same_layout s w" "es_state (sb_es w) = es_state (sb_es s)" "descs_loaded w" "\<not> s_lock (sb_info w)"
    using l u by (auto simp: w_def t same_layout_def)
  show ?thesis
  proof (cases "sb_rdonly w")
    case True
    with wr w show ?thesis by (simp add: ext2_write_super_def)
  next
    case False
    with wr sync_fs_loaded [OF w(3,4)] have s': "s' = sync_result (mark_in_use w)"
      by (simp add: ext2_write_super_def)
    show ?thesis using w(1,2) unfolding s' by (simp add: same_layout_def sync_result_def mark_in_use_def)
  qed
qed

lemma put_super_loaded:
  assumes "descs_loaded s" "\<not> s_lock (sb_info s)"
  shows "\<exists>es. ext2_put_super s = Some es \<and>
     es_state es = (if sb_rdonly s then es_state (sb_es s) else s_mount_state (sb_info s))"
proof (cases "sb_rdonly s")
  case True
  then show ?thesis by (simp add: ext2_put_super_def)
next
  case False
  let ?t = "s\<lparr>sb_es := (sb_es s)\<lparr>es_state := s_mount_state (sb_info s)\<rparr>\<rparr>"
  have "unlock_sb (s\<lparr>sb_info := (sb_info s)\<lparr>s_lock := True\<rparr>, sb_es := (sb_es s)\<lparr>es_state := s_mount_state (sb_info s)\<rparr>\<rparr>) = ?t"
    using assms(2) by (cases s; cases "sb_info s") (simp add: unlock_sb_def)
  with False assms sync_super_loaded [of ?t ext2_error] show ?thesis
    by (simp add: ext2_put_super_def lock_sb_def sync_result_def)
qed

section \<open>Mounting\<close>

lemma enough_blocks:
  assumes "unat (d :: u64) = 2 ^ b" "unat (g :: u64) \<le> 2 ^ 33" "b < 32"
  shows "unat g \<le> 2 ^ b * unat ((g + d - 1) div d)"
proof -
  have d: "0 < unat d" "unat d \<le> 2 ^ 32" using assms(1,3) power_increasing [of b 32 "2 :: nat"] by simp_all
  have nz: "g + d \<noteq> 0"
  proof
    assume "g + d = 0"
    moreover have "unat (g + d) = unat g + unat d" using assms(2) d(2) by (intro unat_add_64) simp
    ultimately show False using d(1) by simp
  qed
  have "unat (g + d - 1) = unat g + unat d - 1"
    using nz assms(2) d(2) by (simp add: unat_minus_one unat_add_64)
  then have "unat ((g + d - 1) div d) = (unat g + unat d - 1) div unat d" by (simp add: unat_div)
  moreover have "unat g \<le> unat d * ((unat g + unat d - 1) div unat d)"
  proof -
    have "unat g + unat d - 1 < unat d * ((unat g + unat d - 1) div unat d) + unat d"
      using d(1) mod_less_divisor [OF d(1), of "unat g + unat d - 1"]
        mult_div_mod_eq [of "unat d" "unat g + unat d - 1"] by linarith
    then show ?thesis by simp
  qed
  ultimately show ?thesis using assms(1) by simp
qed

definition groups_checked :: "ext2_fs \<Rightarrow> bool" where
  "groups_checked s \<longleftrightarrow> (\<forall>g < n_groups s. desc_in_group s g (desc_of s g))"

text \<open>
  The layout of the groups in plain numbers: the bitmaps of a group and the start of its inode
  table are blocks of the group, and so is the whole table if its last block number fits 32 bits.
\<close>

definition groups_laid_out :: "ext2_fs \<Rightarrow> bool" where
  "groups_laid_out s \<longleftrightarrow> (\<forall>g < n_groups s.
     let blocks = {group_first s g..<group_first s g + group_blocks s g};
         table = unat (bg_inode_table (desc_of s g));
         len = unat (s_itb_per_group (sb_info s))
     in unat (bg_block_bitmap (desc_of s g)) \<in> blocks \<and> unat (bg_inode_bitmap (desc_of s g)) \<in> blocks \<and>
        group_first s g \<le> table \<and>
        (table + len \<le> 2 ^ 32 \<longrightarrow> table + len \<le> group_first s g + group_blocks s g))"

lemma table_last_32:
  fixes t :: u32 and n :: u64
  assumes "0 < unat t + unat n" "unat t + unat n \<le> 2 ^ 32"
  shows "unat (ucast (ucast t + n - 1 :: u64) :: u32) = unat t + unat n - 1"
proof -
  have a: "unat (ucast t + n :: u64) = unat t + unat n"
    using assms(2) by (subst unat_add_64) simp_all
  have "unat (ucast t + n - 1 :: u64) = unat t + unat n - 1"
    using assms(1) a by (subst unat_sub_64) (simp_all add: Suc_le_eq)
  then show ?thesis using assms(2) by (simp add: unsigned_ucast_eq take_bit_nat_eq_self)
qed

lemma groups_checked_laid_out:
  assumes geom: "geom_ok s" and chk: "groups_checked s"
  shows "groups_laid_out s"
  unfolding groups_laid_out_def Let_def
proof (intro allI impI conjI)
  fix g assume g: "g < n_groups s"
  let ?d = "desc_of s g" and ?n = "s_itb_per_group (sb_info s)" and ?g = "of_nat g :: u64"
  let ?e = "group_first s g + group_blocks s g"
  have "g < 2 ^ 64" using g unat_less_64 [of "s_groups_count (sb_info s)"] by (simp add: n_groups_def)
  then have u: "unat ?g = g" by (rule unat_of_nat_64)
  have b: "unat (ext2_group_first_block_no s ?g) = group_first s g"
    "unat (ext2_group_last_block_no s ?g) = ?e - 1"
    using unat_first_block_no [OF geom, of ?g] unat_last_block_no [OF geom, of ?g] g u by simp_all
  have pos: "0 < group_blocks s g" by (rule group_blocks_pos [OF geom g])
  have c: "desc_in_group s g ?d" using chk g by (simp add: groups_checked_def)
  note c = c [unfolded desc_in_group_def Let_def word_le_nat_alt b unat_ucast_32_64]
  show "unat (bg_block_bitmap ?d) \<in> {group_first s g..<?e}"
    "unat (bg_inode_bitmap ?d) \<in> {group_first s g..<?e}" "group_first s g \<le> unat (bg_inode_table ?d)"
    using c pos by auto
  assume small: "unat (bg_inode_table ?d) + unat ?n \<le> 2 ^ 32"
  show "unat (bg_inode_table ?d) + unat ?n \<le> ?e"
  proof (cases "unat (bg_inode_table ?d) + unat ?n = 0")
    case False
    with table_last_32 [OF _ small] c pos show ?thesis by auto
  qed simp
qed

text \<open>The state between \<^verbatim>\<open>super_geometry\<close> and the descriptors' check.\<close>

lemma descs_ready:
  assumes bsz: "bsz \<in> {1024, 2048, 4096}" and geo: "super_geometry bsz opt es n = Some sbi"
    and L: "length L = desc_blocks sbi" "\<forall>x \<in> set L. \<exists>ds. x = Some ds \<and> length ds = unat bsz div 32"
    and inf: "sb_info s = sbi\<lparr>s_group_desc := L\<rparr>" and few: "n_groups s < 2 ^ 31"
  shows "descs_loaded s"
proof -
  note g = geometry_result [OF geo bsz]
  let ?b = "s_desc_per_block_bits sbi"
  have gc: "unat (s_groups_count sbi) = n_groups s" by (simp add: n_groups_def inf)
  have b32: "unat bsz div 32 = 2 ^ ?b"
  proof -
    have "s_desc_per_block sbi = bsz div 32" "unat (s_desc_per_block sbi) = 2 ^ ?b" using g by blast+
    then show ?thesis by (simp only: unat_div) simp
  qed
  have pos: "0 < n_groups s"
  proof (rule ccontr)
    let ?q = "ucast (es_blocks_count es - es_first_data_block es - 1) div s_blocks_per_group sbi :: u64"
    assume "\<not> 0 < n_groups s"
    then have "unat (?q + 1) = 0" using g gc by simp
    moreover have "unat ?q < 2 ^ 32"
    proof -
      have "unat ?q \<le> unat (ucast (es_blocks_count es - es_first_data_block es - 1) :: u64)"
        by (simp add: unat_div div_le_dividend)
      also have "... < 2 ^ 32" using unat_less_32 by (simp add: unsigned_ucast_eq take_bit_nat_eq_self)
      finally show ?thesis .
    qed
    then have "unat (?q + 1) = unat ?q + 1" by (simp add: unat_add_64)
    ultimately show False by simp
  qed
  have e: "unat (s_desc_per_block sbi) = 2 ^ ?b" "?b < 32" using g by blast+
  have "unat (s_groups_count sbi) \<le> 2 ^ 33" using few gc by simp
  from enough_blocks [OF e(1) this e(2)] have "n_groups s \<le> 2 ^ ?b * length L"
    by (simp only: L(1) desc_blocks_def gc)
  with pos few e L(2) b32 show ?thesis by (simp add: descs_loaded_def inf Let_def)
qed

text \<open>What the code does not check: that there are blocks behind the first one, and fewer than
  \<open>2 ^ 31\<close> groups.\<close>

definition super_sane :: "ext2_super_block \<Rightarrow> bool" where
  "super_sane es \<longleftrightarrow> es_first_data_block es < es_blocks_count es \<and>
     (unat (es_blocks_count es) - unat (es_first_data_block es) - 1) div unat (es_blocks_per_group es) + 1 < 2 ^ 31"

lemma group_count:
  assumes "super_geometry bsz opt es n = Some sbi" "bsz \<in> {1024, 2048, 4096}" "super_sane es"
  shows "unat (s_groups_count sbi) =
      (unat (es_blocks_count es) - unat (es_first_data_block es) - 1) div unat (s_blocks_per_group sbi) + 1"
    "unat (s_groups_count sbi) < 2 ^ 31"
proof -
  note g = geometry_result [OF assms(1,2)]
  let ?d = "es_blocks_count es - es_first_data_block es - 1"
  have lt: "es_first_data_block es < es_blocks_count es" using assms(3) by (simp add: super_sane_def)
  then have "es_blocks_count es - es_first_data_block es \<noteq> 0" by auto
  then have d: "unat ?d = unat (es_blocks_count es) - unat (es_first_data_block es) - 1"
    by (simp add: unat_minus_one unat_sub [OF less_imp_le [OF lt]])
  have bp: "s_blocks_per_group sbi = ucast (es_blocks_per_group es)"
    using assms(1) by (auto simp: super_geometry_def bind_Some_iff Let_def split: if_splits)
  have ub: "unat (s_blocks_per_group sbi) = unat (es_blocks_per_group es)"
    using unat_less_32 [of "es_blocks_per_group es"] by (simp add: bp unsigned_ucast_eq take_bit_nat_eq_self)
  have ud: "unat (ucast ?d :: u64) = unat ?d"
    using unat_less_32 [of ?d] by (simp add: unsigned_ucast_eq take_bit_nat_eq_self)
  have q: "unat (ucast ?d div s_blocks_per_group sbi) = unat ?d div unat (s_blocks_per_group sbi)"
    by (simp only: unat_div ud)
  moreover have "unat ?d div unat (s_blocks_per_group sbi) < 4294967296"
    by (rule le_less_trans [OF div_le_dividend unat_less_32])
  ultimately have "unat (ucast ?d div s_blocks_per_group sbi + 1) = unat ?d div unat (s_blocks_per_group sbi) + 1"
    by (subst unat_add_64) simp_all
  then show e: "unat (s_groups_count sbi) =
      (unat (es_blocks_count es) - unat (es_first_data_block es) - 1) div unat (s_blocks_per_group sbi) + 1"
    using g d by simp
  show "unat (s_groups_count sbi) < 2 ^ 31" using assms(3) by (simp add: e ub super_sane_def)
qed

definition super_start :: "dev \<Rightarrow> u64 \<Rightarrow> u64 \<Rightarrow> u64 \<Rightarrow> ext2_super_block \<Rightarrow> ext2_sb_info \<Rightarrow> ext2_fs" where
  "super_start D flags now bsz es sbi = \<lparr> sb_flags = flags, sb_blocksize = bsz, sb_blocksize_bits = ilog2 (unat bsz),
     sb_es = es, sb_info = sbi, bcache = dev_block D bsz, bh_uptodate = (\<lambda>_. False), clock = now \<rparr>"

text \<open>A successful mount has gone through all its phases.\<close>

lemma fill_super_phases:
  assumes r: "ext2_fill_super D K M flags now data = Some (Inr s)"
    and ld: "load_super D data = Some (Inr (bsz, logic, opt, es, n))" and geo: "super_geometry bsz opt es n = Some sbi"
  shows "\<exists>s1 s1' s3. read_descs K logic [0..<desc_blocks sbi] (super_start D flags now bsz es sbi) = Some (True, s1) \<and>
    ext2_check_descriptors s1 = Some (True, s1') \<and>
    init_counters D (s1'\<lparr>sb_info := (sb_info s1')\<lparr>s_gdb_count := of_nat (desc_blocks sbi)\<rparr>\<rparr>) = Some (0, s3) \<and>
    mount_root D K M s3 = Some (0, s)"
proof -
  from r have rest: "do {
      (ok, s) \<leftarrow> read_descs K logic [0..<desc_blocks sbi] (super_start D flags now bsz es sbi);
      if \<not> ok then Some (Inl (- EINVAL))
      else do {
        (ok, s) \<leftarrow> ext2_check_descriptors s;
        if \<not> ok then Some (Inl (- EINVAL))
        else do {
          let s = s\<lparr>sb_info := (sb_info s)\<lparr>s_gdb_count := of_nat (desc_blocks sbi)\<rparr>\<rparr>;
          (err, s) \<leftarrow> init_counters D s;
          if err \<noteq> 0 then Some (Inl err)
          else do {
            (err, s) \<leftarrow> mount_root D K M s;
            Some (if err \<noteq> 0 then Inl err else Inr s) } } } } = Some (Inr s)"
    unfolding ext2_fill_super_def ld bind.bind_lunit sum.case prod.case geo option.case Let_def super_start_def
    by (simp split: if_splits)
  then obtain s1 where rd: "read_descs K logic [0..<desc_blocks sbi] (super_start D flags now bsz es sbi) = Some (True, s1)"
    by (auto simp: bind_Some_iff split: if_splits)
  from rest rd obtain s1' where cd: "ext2_check_descriptors s1 = Some (True, s1')"
    by (auto simp: bind_Some_iff split: if_splits)
  define s2 where "s2 = s1'\<lparr>sb_info := (sb_info s1')\<lparr>s_gdb_count := of_nat (desc_blocks sbi)\<rparr>\<rparr>"
  from rest rd cd obtain s3 where ic: "init_counters D s2 = Some (0, s3)"
    by (auto simp: bind_Some_iff s2_def Let_def split: if_splits)
  from rest rd cd ic have "mount_root D K M s3 = Some (0, s)"
    by (auto simp: bind_Some_iff s2_def [symmetric] Let_def split: if_splits)
  with rd cd ic show ?thesis unfolding s2_def by blast
qed

lemma mounted_geom:
  assumes geo: "super_geometry bsz opt es n = Some sbi" and bsz: "bsz \<in> {1024, 2048, 4096}"
    and sane: "super_sane es" and l: "descs_loaded s" "\<not> s_lock (sb_info s)"
    and same: "sb_blocksize s = bsz" "es_blocks_count (sb_es s) = es_blocks_count es"
      "es_first_data_block (sb_es s) = es_first_data_block es"
      "s_blocks_per_group (sb_info s) = s_blocks_per_group sbi" "n_groups s = unat (s_groups_count sbi)"
  shows "geom_ok s"
proof -
  have "unat (bsz * 8) = 8 * unat bsz" "unat bsz \<le> 4096" using bsz by auto
  then show ?thesis
    using geometry_result [OF geo bsz] group_count(1) [OF geo bsz sane] sane l
    by (simp add: geom_ok_def bpg_def fdb_def total_blocks_def same super_sane_def word_less_nat_alt
        word_le_nat_alt)
qed

lemma fill_super_result:
  assumes D: "dev_ok D" and r: "ext2_fill_super D K M flags now data = Some (Inr s)"
    and ld: "load_super D data = Some (Inr (bsz, logic, opt, es, n))" and sane: "super_sane es"
  shows "geom_ok s \<and> groups_checked s \<and> counters_exact s \<and> opt_ok (s_mount_opt (sb_info s)) \<and>
     (\<not> sb_rdonly s \<longrightarrow> es_state (sb_es s) = s_mount_state (sb_info s) AND NOT EXT2_VALID_FS)"
proof -
  note lr = load_super_result [OF D ld]
  from r ld obtain sbi where geo: "super_geometry bsz opt es n = Some sbi"
    by (auto simp: ext2_fill_super_def split: if_splits option.splits)
  note g = geometry_result [OF geo conjunct1 [OF lr]]
  define s0 where "s0 = super_start D flags now bsz es sbi"
  note s0_def = s0_def [unfolded super_start_def]
  obtain s1 s1' s3 where rd: "read_descs K logic [0..<desc_blocks sbi] s0 = Some (True, s1)"
    and cd: "ext2_check_descriptors s1 = Some (True, s1')"
    and ic': "init_counters D (s1'\<lparr>sb_info := (sb_info s1')\<lparr>s_gdb_count := of_nat (desc_blocks sbi)\<rparr>\<rparr>) = Some (0, s3)"
    and mr: "mount_root D K M s3 = Some (0, s)"
    using fill_super_phases [OF r ld geo] unfolding s0_def super_start_def by blast
  define s2 where "s2 = s1'\<lparr>sb_info := (sb_info s1')\<lparr>s_gdb_count := of_nat (desc_blocks sbi)\<rparr>\<rparr>"
  have ic: "init_counters D s2 = Some (0, s3)" using ic' by (simp only: s2_def)
  have len: "length bs = unat bsz" if "bcache s0 b = Some bs" for b bs
    using that D by (auto simp: s0_def dev_ok_def)
  obtain L u where s1: "s1 = s0\<lparr>sb_info := (sb_info s0)\<lparr>s_group_desc := s_group_desc (sb_info s0) @ L\<rparr>, bh_uptodate := u\<rparr>"
      and L: "length L = desc_blocks sbi" "\<forall>x \<in> set L. \<exists>ds. x = Some ds \<and> length ds = unat bsz div 32"
    using read_descs_result [OF rd, of "unat bsz"] len by auto
  have i1: "sb_info s1 = sbi\<lparr>s_group_desc := L\<rparr>" using g by (simp add: s1 s0_def)
  note gc = group_count [OF geo conjunct1 [OF lr] sane]
  have n1: "n_groups s1 = unat (s_groups_count sbi)" by (simp add: n_groups_def i1)
  have l1: "descs_loaded s1"
    by (rule descs_ready [OF conjunct1 [OF lr] geo L i1]) (use gc(2) in \<open>simp add: n1\<close>)
  have c: "s1' = s1" "groups_checked s1"
    using check_descs_result [OF l1 _ cd [unfolded ext2_check_descriptors_def]]
    by (auto simp: groups_checked_def n_groups_def)
  have f2: "descs_loaded s2" "\<not> s_lock (sb_info s2)" using l1 c g by (simp_all add: s2_def descs_loaded_def n_groups_def i1 Let_def)
  note ir = init_counters_result [OF f2(1) ic]
  have f3: "descs_loaded s3" "\<not> s_lock (sb_info s3)" using f2 ir by (simp_all add: descs_loaded_def n_groups_def Let_def)
  note m = mount_root_result [OF f3 mr]
  have e3: "sb_es s3 = es" "sb_blocksize s3 = bsz" using ir c by (simp_all add: s2_def s1 s0_def)
  have i: "sb_info s = sb_info s3" "sb_blocksize s = bsz" "es_blocks_count (sb_es s) = es_blocks_count es"
    "es_first_data_block (sb_es s) = es_first_data_block es" "es_state es = s_mount_state (sb_info s)"
    using m ir c g by (simp_all add: same_layout_def s2_def s1 s0_def)
  have same: "s_blocks_per_group (sb_info s) = s_blocks_per_group sbi" "n_groups s = unat (s_groups_count sbi)"
    "s_mount_opt (sb_info s) = opt" "s_itb_per_group (sb_info s) = s_itb_per_group (sb_info s1)"
    "s_groups_count (sb_info s) = s_groups_count (sb_info s1)" "desc_of s = desc_of s1"
    using ir c g by (simp_all add: i n_groups_def s2_def i1 desc_of_def gd_at_def desc_ptr_of_def fun_eq_iff)
  have "descs_loaded s" "\<not> s_lock (sb_info s)"
    using f3 by (simp_all add: descs_loaded_def n_groups_def i Let_def)
  then have "geom_ok s"
    using same by (intro mounted_geom [OF geo conjunct1 [OF lr] sane _ _ i(2-4)]) (simp_all add: i)
  moreover have "groups_checked s"
  proof -
    have "desc_in_group s h d = desc_in_group s1 h d" for h d
      using i same e3 by (simp add: desc_in_group_def ext2_group_first_block_no_def ext2_group_last_block_no_def s1 s0_def)
    then show ?thesis using c(2) by (simp add: groups_checked_def same n1)
  qed
  moreover have "counters_exact s"
    using conjunct2 [OF ir] total_sum_cong [OF i(1)] by (simp add: counters_exact_def i(1))
  ultimately show ?thesis using m lr i(5) e3 by (simp add: same)
qed

end
