(* ===== verification/Super_Thms.thy ===== *)
theory Super_Thms
  imports Super_Correct Inode_Thms
begin

text \<open>
  The properties of the superblock operations: what a successful mount establishes, options
  shown and parsed again, statistics, and the marks on the disk over remounting and unmounting.
\<close>

section \<open>Statistics and remounting\<close>

lemma overhead_loop: "fold (\<lambda>i ov. ov + c) [0..<n] a = a + of_nat n * (c :: u64)"
  by (induction n) (simp_all add: algebra_simps)

lemma fs_overhead_eq:
  "fs_overhead s = ucast (es_first_data_block (sb_es s)) +
     s_groups_count (sb_info s) * (3 + s_gdb_count (sb_info s) + s_itb_per_group (sb_info s))"
  by (simp add: fs_overhead_def ext2_bg_has_super_def ext2_bg_num_gdb_def overhead_loop algebra_simps)

definition overhead_ok :: "ext2_fs \<Rightarrow> bool" where
  "overhead_ok s \<longleftrightarrow> (s_blocks_last (sb_info s) = ucast (es_blocks_count (sb_es s)) \<longrightarrow>
     s_overhead_last (sb_info s) = fs_overhead s)"

lemma statfs_loaded:
  assumes l: "descs_loaded s" and u: "\<not> s_lock (sb_info s)" and ov: "overhead_ok s"
  shows "\<exists>buf s'. ext2_statfs s = Some (buf, s') \<and>
     f_bfree buf = of_nat (total_of bg_free_blocks_count s) \<and> f_bavail buf = f_bfree buf \<and>
     f_ffree buf = of_nat (total_of bg_free_inodes_count s) \<and>
     f_blocks buf = ucast (es_blocks_count (sb_es s)) - fs_overhead s \<and>
     f_files buf = ucast (es_inodes_count (sb_es s)) \<and> f_bsize buf = sb_blocksize s \<and>
     overhead_ok s' \<and> descs_loaded s' \<and> \<not> s_lock (sb_info s') \<and>
     es_free_blocks_count (sb_es s') = of_nat (total_of bg_free_blocks_count s) \<and>
     es_free_inodes_count (sb_es s') = of_nat (total_of bg_free_inodes_count s) \<and>
     total_of bg_free_blocks_count s' = total_of bg_free_blocks_count s"
proof -
  define s1 where "s1 = s\<lparr>sb_info := (sb_info s)\<lparr>s_lock := True\<rparr>\<rparr>"
  define s2 where "s2 = cache_overhead s1"
  have gd: "s_group_desc (sb_info s2) = s_group_desc (sb_info s)" "s_groups_count (sb_info s2) = s_groups_count (sb_info s)"
    "s_desc_per_block (sb_info s2) = s_desc_per_block (sb_info s)"
    "s_desc_per_block_bits (sb_info s2) = s_desc_per_block_bits (sb_info s)" "sb_es s2 = sb_es s"
    "s_gdb_count (sb_info s2) = s_gdb_count (sb_info s)" "s_itb_per_group (sb_info s2) = s_itb_per_group (sb_info s)"
    "sb_blocksize s2 = sb_blocksize s" "sb_flags s2 = sb_flags s"
    by (simp_all add: s2_def s1_def cache_overhead_def)
  have ov2: "s_overhead_last (sb_info s2) = fs_overhead s" "s_blocks_last (sb_info s2) = ucast (es_blocks_count (sb_es s))"
    using ov by (auto simp: s2_def s1_def cache_overhead_def overhead_ok_def fs_overhead_eq)
  have tot: "total_of fld t = total_of fld s" "descs_loaded t" if "s_group_desc (sb_info t) = s_group_desc (sb_info s)"
    "s_groups_count (sb_info t) = s_groups_count (sb_info s)" "s_desc_per_block (sb_info t) = s_desc_per_block (sb_info s)"
    "s_desc_per_block_bits (sb_info t) = s_desc_per_block_bits (sb_info s)" for t fld
    using that l gd_at_cong [of t s]
    by (simp_all add: total_of_def desc_of_def desc_ptr_of_def n_groups_def descs_loaded_def Let_def)
  define s3 where "s3 = s2\<lparr>sb_es := (sb_es s2)\<lparr>es_free_blocks_count := of_nat (total_of bg_free_blocks_count s)\<rparr>\<rparr>"
  define s4 where "s4 = s3\<lparr>sb_es := (sb_es s3)\<lparr>es_free_inodes_count := of_nat (total_of bg_free_inodes_count s)\<rparr>\<rparr>"
  have l2: "descs_loaded s2" "descs_loaded s3" "total_of fld s2 = total_of fld s" "total_of fld s3 = total_of fld s" for fld
    by (rule tot, simp_all add: gd s3_def)+
  have n: "ext2_count_free_blocks ext2_error s2 = Some (of_nat (total_of bg_free_blocks_count s), s2)"
    "ext2_count_free_inodes ext2_error s3 = Some (of_nat (total_of bg_free_inodes_count s), s3)"
    using count_free_blocks_loaded [OF l2(1)] count_free_inodes_loaded [OF l2(2)] by (simp_all add: l2)
  have run: "ext2_statfs s = Some (\<lparr> f_type = ucast EXT2_SUPER_MAGIC, f_bsize = sb_blocksize s4,
        f_blocks = ucast (es_blocks_count (sb_es s4)) - s_overhead_last (sb_info s4),
        f_bfree = of_nat (total_of bg_free_blocks_count s), f_bavail = of_nat (total_of bg_free_blocks_count s),
        f_files = ucast (es_inodes_count (sb_es s4)), f_ffree = of_nat (total_of bg_free_inodes_count s),
        f_namelen = EXT2_NAME_LEN,
        f_fsid = le64_at (es_uuid (sb_es s4)) 0 XOR le64_at (es_uuid (sb_es s4)) 8 \<rparr>, unlock_sb s4)"
    using u unfolding ext2_statfs_def lock_sb_def Let_def
    by (simp add: s1_def [symmetric] s2_def [symmetric] n ucast_of_nat_32 s3_def [symmetric] s4_def [symmetric])
      (simp add: s4_def)
  have e4: "sb_info s4 = sb_info s2" "sb_blocksize s4 = sb_blocksize s2" "es_blocks_count (sb_es s4) = es_blocks_count (sb_es s)"
    "es_inodes_count (sb_es s4) = es_inodes_count (sb_es s)" "es_first_data_block (sb_es s4) = es_first_data_block (sb_es s)"
    "es_free_blocks_count (sb_es s4) = of_nat (total_of bg_free_blocks_count s)"
    "es_free_inodes_count (sb_es s4) = of_nat (total_of bg_free_inodes_count s)"
    by (simp_all add: s4_def s3_def gd)
  have l4: "descs_loaded (unlock_sb s4)" "total_of fld (unlock_sb s4) = total_of fld s" for fld
    by (rule tot, simp_all add: unlock_sb_def e4 gd)+
  show ?thesis
    unfolding run
    by (intro exI conjI, rule refl) (use l4 in \<open>simp_all add: e4 gd ov2 overhead_ok_def unlock_sb_def fs_overhead_eq\<close>)
qed

definition syncs_ok :: "(ext2_fs \<Rightarrow> ext2_fs option) \<Rightarrow> bool" where
  "syncs_ok f \<longleftrightarrow> (\<forall>s. f s = (if sb_rdonly s then Some s else ext2_sync_fs s))"

lemma sync_result_loaded [simp]: "descs_loaded (sync_result s) = descs_loaded s"
  by (simp add: sync_result_def)

lemma unlock_locked: "\<not> s_lock (sb_info s) \<Longrightarrow>
    unlock_sb (set_mount_opt opt (s\<lparr>sb_info := (sb_info s)\<lparr>s_lock := True\<rparr>\<rparr>)) = set_mount_opt opt s"
  "\<not> s_lock (sb_info s) \<Longrightarrow> unlock_sb (s\<lparr>sb_info := (sb_info s)\<lparr>s_lock := True\<rparr>\<rparr>) = s"
  by (cases s; cases "sb_info s"; simp add: unlock_sb_def set_mount_opt_def)+

lemma remount_ro:
  assumes l: "descs_loaded s" "\<not> s_lock (sb_info s)" "\<not> sb_rdonly s" and f: "syncs_ok f"
    and p: "parse_options data (s_mount_opt (sb_info s)) = Some (True, opt)" and fl: "flags AND SB_RDONLY \<noteq> 0"
  shows "\<exists>s'. ext2_remount f flags data s = Some (0, s') \<and> s_mount_opt (sb_info s') = opt \<and>
     descs_loaded s' \<and> \<not> s_lock (sb_info s') \<and> sb_flags s' = sb_flags s \<and>
     es_rev_level (sb_es s') = es_rev_level (sb_es s) \<and>
     s_mount_state (sb_info s') = s_mount_state (sb_info s) \<and>
     es_state (sb_es s') = (if s_mount_state (sb_info s) AND EXT2_VALID_FS \<noteq> 0 then s_mount_state (sb_info s)
       else es_state (sb_es s) AND NOT EXT2_VALID_FS)"
proof -
  define t where "t = sync_result (mark_in_use s)"
  have t: "f s = Some t" using f l sync_fs_loaded [OF l(1,2)] by (simp add: syncs_ok_def t_def)
  have tf: "descs_loaded t" "sb_info t = sb_info s" "sb_flags t = sb_flags s" "sb_rdonly t = sb_rdonly s"
    "es_state (sb_es t) = es_state (sb_es s) AND NOT EXT2_VALID_FS" "es_rev_level (sb_es t) = es_rev_level (sb_es s)"
    using l by (simp_all add: t_def sb_rdonly_def mark_in_use_def) (simp_all add: sync_result_def)
  define L where "L = t\<lparr>sb_info := (sb_info t)\<lparr>s_lock := True\<rparr>\<rparr>"
  have lk: "lock_sb t = Some L" "unlock_sb L = t" "unlock_sb (set_mount_opt opt L) = set_mount_opt opt t"
    using l(2) tf(2) unlock_locked [of t] by (simp_all add: lock_sb_def L_def)
  have Lf: "sb_es L = sb_es t" "sb_rdonly L = sb_rdonly t" "s_mount_state (sb_info L) = s_mount_state (sb_info t)"
    "s_mount_opt (sb_info L) = s_mount_opt (sb_info t)"
    by (simp_all add: L_def sb_rdonly_def)
  have v0: "es_state (sb_es t) AND EXT2_VALID_FS = 0" using valid_clear(2) tf(5) by simp
  show ?thesis
  proof (cases "s_mount_state (sb_info s) AND EXT2_VALID_FS = 0")
    case True
    have "ext2_remount f flags data s = Some (0, set_mount_opt opt t)"
      using True fl l(3) p
      by (simp add: ext2_remount_def t lk Lf tf Let_def)
    then show ?thesis
      using True l tf by (auto simp: set_mount_opt_def descs_loaded_def n_groups_def Let_def)
  next
    case False
    let ?L = "L\<lparr>sb_es := (sb_es t)\<lparr>es_state := s_mount_state (sb_info t), es_mtime := ucast (clock L)\<rparr>\<rparr>"
    define u where "u = unlock_sb ?L"
    have u: "sb_info u = sb_info t" "sb_flags u = sb_flags t" "es_state (sb_es u) = s_mount_state (sb_info t)" "descs_loaded u"
      "es_rev_level (sb_es u) = es_rev_level (sb_es t)"
      using l(2) tf(1,2) unlock_locked(2) [of t]
      by (auto simp: u_def L_def unlock_sb_def descs_loaded_def n_groups_def Let_def)
    have y: "ext2_sync_super ext2_error u = Some (sync_result u)" using u l(2) tf(2) by (intro sync_super_loaded) simp_all
    define v where "v = sync_result u"
    have v: "sb_info v = sb_info s" "sb_flags v = sb_flags s" "es_state (sb_es v) = s_mount_state (sb_info s)" "descs_loaded v"
      "es_rev_level (sb_es v) = es_rev_level (sb_es s)"
      using u tf by (simp_all add: v_def) (simp_all add: sync_result_def)
    have lv: "lock_sb v = Some (v\<lparr>sb_info := (sb_info v)\<lparr>s_lock := True\<rparr>\<rparr>)" using l(2) v(1) by (simp add: lock_sb_def)
    have w: "unlock_sb (set_mount_opt opt (v\<lparr>sb_info := (sb_info v)\<lparr>s_lock := True\<rparr>\<rparr>)) = set_mount_opt opt v"
      using unlock_locked(1) [of v opt] l(2) v(1) by simp
    have "ext2_remount f flags data s = Some (0, set_mount_opt opt v)"
      using False fl l(3) p v0 tf(4)
      unfolding ext2_remount_def t bind.bind_lunit lk Let_def tf(2) Lf
      by (simp add: u_def [symmetric, unfolded tf(2) Lf] y [folded v_def] lv w)
    then show ?thesis
      using False l v by (auto simp: set_mount_opt_def descs_loaded_def n_groups_def Let_def)
  qed
qed

lemma rdonly_cleared: "(x AND - 2) AND 1 = (0 :: u64)"
proof -
  have "(x AND NOT 1) AND 1 = (0 :: u64)" by (rule bit_word_eqI) (auto simp: bit_simps)
  then show ?thesis by simp
qed

lemma remount_rw:
  assumes l: "descs_loaded s" "\<not> s_lock (sb_info s)" "sb_rdonly s" and f: "syncs_ok f"
    and p: "parse_options data (s_mount_opt (sb_info s)) = Some (True, opt)" and fl: "flags AND SB_RDONLY = 0"
    and rev: "es_rev_level (sb_es s) \<le> EXT2_MAX_SUPP_REV"
  shows "\<exists>s'. ext2_remount f flags data s = Some (0, s') \<and> s_mount_opt (sb_info s') = opt \<and>
     \<not> sb_rdonly s' \<and> descs_loaded s' \<and> \<not> s_lock (sb_info s') \<and>
     es_mnt_count (sb_es s') = es_mnt_count (sb_es s) + 1 \<and>
     es_state (sb_es s') = es_state (sb_es s) AND NOT EXT2_VALID_FS \<and>
     s_mount_state (sb_info s') = es_state (sb_es s)"
proof -
  define L where "L = s\<lparr>sb_info := (sb_info s)\<lparr>s_lock := True\<rparr>\<rparr>"
  have lk: "lock_sb s = Some L" "unlock_sb L = s"
    using l(2) unlock_locked(2) [of s] by (simp_all add: lock_sb_def L_def)
  have Lf: "sb_es L = sb_es s" "sb_rdonly L = sb_rdonly s" "s_mount_opt (sb_info L) = s_mount_opt (sb_info s)"
    by (simp_all add: L_def sb_rdonly_def)
  define L1 where "L1 = L\<lparr>sb_info := (sb_info L)\<lparr>s_mount_state := es_state (sb_es s)\<rparr>\<rparr>"
  have nr: "\<not> EXT2_MAX_SUPP_REV < es_rev_level (sb_es s)" using rev by simp
  obtain ms where c: "ext2_check_super False L1 = (0, ms, L1\<lparr>sb_es := (sb_es s)\<lparr>es_mnt_count := es_mnt_count (sb_es s) + 1\<rparr>\<rparr>)"
    using nr that by (simp add: ext2_check_super_def Let_def L1_def Lf)
  define u where "u = unlock_sb (L1\<lparr>sb_es := (sb_es s)\<lparr>es_mnt_count := es_mnt_count (sb_es s) + 1\<rparr>,
      sb_flags := sb_flags s AND - 2\<rparr>)"
  have u: "sb_info u = (sb_info s)\<lparr>s_mount_state := es_state (sb_es s)\<rparr>" "\<not> sb_rdonly u"
    "sb_es u = (sb_es s)\<lparr>es_mnt_count := es_mnt_count (sb_es s) + 1\<rparr>"
    using l(2) by (auto simp: u_def L1_def L_def unlock_sb_def sb_rdonly_def rdonly_cleared)
  have lu: "descs_loaded u" "\<not> s_lock (sb_info u)" using l by (simp_all add: u descs_loaded_def n_groups_def Let_def)
  define v where "v = sync_result (mark_in_use u)"
  have wr: "ext2_write_super u = Some v" using u(2) sync_fs_loaded [OF lu] by (simp add: ext2_write_super_def v_def)
  have v: "sb_info v = sb_info u" "\<not> sb_rdonly v" "descs_loaded v" "\<not> s_lock (sb_info v)"
    "es_state (sb_es v) = es_state (sb_es s) AND NOT EXT2_VALID_FS" "es_mnt_count (sb_es v) = es_mnt_count (sb_es s) + 1"
    using u lu by (simp_all add: v_def sb_rdonly_def mark_in_use_def) (simp_all add: sync_result_def)
  have lv: "lock_sb v = Some (v\<lparr>sb_info := (sb_info v)\<lparr>s_lock := True\<rparr>\<rparr>)" using v(4) by (simp add: lock_sb_def)
  have fs: "f s = Some s" using f l(3) by (simp add: syncs_ok_def)
  have Lfl: "sb_flags L1 = sb_flags s" by (simp add: L1_def L_def)
  have "ext2_remount f flags data s = Some (0, set_mount_opt opt v)"
    using fl l(3) p
    unfolding ext2_remount_def fs bind.bind_lunit lk Let_def Lf L1_def [symmetric] c
    by (simp add: Lfl u_def [symmetric] wr lv unlock_locked(1) [OF v(4)])
  then show ?thesis
    using v u by (auto simp: set_mount_opt_def descs_loaded_def n_groups_def Let_def sb_rdonly_def)
qed

section \<open>A device for the witnesses\<close>

text \<open>
  A device with blocks of 1024 bytes: block 1 holds a superblock for one group of 64 blocks
  with 16 inodes, block 2 its descriptor. The root inode is in the inode cache already.
\<close>

definition exm_byte :: "u64 \<Rightarrow> nat \<Rightarrow> byte" where
  "exm_byte b k =
     (if b = 1 then (case map_of [(0, 16), (4, 65), (20, 1), (32, 64), (40, 16), (56, 0x53), (57, 0xEF), (58, 1),
          (60, 1), (76, 1), (84, 11), (88, 128)] k of Some v \<Rightarrow> v | None \<Rightarrow> 0)
      else if b = 2 then (case map_of [(0, 3), (4, 4), (8, 5), (12, 50), (14, 5), (16, 1)] k of Some v \<Rightarrow> v | None \<Rightarrow> 0)
      else 0)"

definition exm_dev :: dev where
  "exm_dev = \<lparr> min_blocksize = (\<lambda>b. b), set_blocksize = (\<lambda>b. unat b \<le> 4096),
     dev_block = (\<lambda>bsz n. Some (map (exm_byte n) [0..<unat bsz])), mem_ok = (\<lambda>_. True),
     percpu_err = (\<lambda>_. 0), make_root = (\<lambda>_. True) \<rparr>"

definition exm_vm :: vm where
  "exm_vm = vm_ref\<lparr>iget_locked := (\<lambda>_. Some (ex_inode\<lparr>i_blocks := 2\<rparr>, False))\<rparr>"

lemma exm_dev_ok [simp]: "dev_ok exm_dev"
  by (simp add: dev_ok_def exm_dev_def)

definition exm_super :: ext2_super_block where
  "exm_super = the (parse_super (map (exm_byte 1) [0..<1024]) 0)"

lemma exm_parse: "parse_super (map (exm_byte 1) [0..<1024]) 0 = Some exm_super"
  by (simp add: parse_super_def exm_super_def)

lemma exm_byte_at: "k < 1024 \<Longrightarrow> map (exm_byte b) [0..<1024] ! k = exm_byte b k"
  by simp

lemma exm_super_sel [simp]:
  "es_magic exm_super = EXT2_SUPER_MAGIC" "es_feature_ro_compat exm_super = 0" "es_feature_compat exm_super = 0"
  "es_feature_incompat exm_super = 0" "es_log_block_size exm_super = 0" "es_errors exm_super = 1"
  "es_rev_level exm_super = 1" "es_inode_size exm_super = 128" "es_first_ino exm_super = 11"
  "es_inodes_per_group exm_super = 16" "es_blocks_per_group exm_super = 64" "es_blocks_count exm_super = 65"
  "es_first_data_block exm_super = 1" "es_state exm_super = 1" "es_first_meta_bg exm_super = 0"
  by (simp_all add: exm_super_def parse_super_def le32_at_def le16_at_def exm_byte_def push_bit_eq_mult)

lemma exm_load: "load_super exm_dev None = Some (Inr (1024, 1, 0x10, exm_super, 1024))"
  by (simp add: load_super_def exm_dev_def exm_parse parse_options_def default_opts_def set_opt_def Let_def)

definition exm_info :: ext2_sb_info where
  "exm_info = the (super_geometry 1024 0x10 exm_super 1024)"

lemma exm_geometry: "super_geometry 1024 0x10 exm_super 1024 = Some exm_info"
  by (simp add: exm_info_def super_geometry_def inode_geometry_def is_power_of_2_def Let_def)

lemma exm_info_sel:
  "s_groups_count exm_info = 1" "s_desc_per_block exm_info = 32" "s_desc_per_block_bits exm_info = 5"
  "s_blocks_per_group exm_info = 64" "s_itb_per_group exm_info = 2" "s_group_desc exm_info = []" "s_lock exm_info = False"
  "s_mount_state exm_info = 1" "s_mount_opt exm_info = 0x10"
  by (simp_all add: exm_info_def super_geometry_def inode_geometry_def is_power_of_2_def Let_def ilog2.simps)

lemma init_counters_loaded:
  assumes l: "descs_loaded s" and mem: "\<And>n. percpu_err D n = 0"
  obtains s' where "init_counters D s = Some (0, s')" "descs_loaded s'"
proof -
  define A where "A = s\<lparr>sb_info := (sb_info s)\<lparr>s_freeblocks_counter := int (total_of bg_free_blocks_count s)\<rparr>\<rparr>"
  define B where "B = A\<lparr>sb_info := (sb_info A)\<lparr>s_freeinodes_counter := int (total_of bg_free_inodes_count A)\<rparr>\<rparr>"
  define C where "C = B\<lparr>sb_info := (sb_info B)\<lparr>s_dirs_counter := int (total_of bg_used_dirs_count B)\<rparr>\<rparr>"
  have lA: "descs_loaded A" using l by (simp add: A_def)
  have lB: "descs_loaded B" using lA by (simp add: B_def)
  have "init_counters D s = Some (0, C)"
    using count_free_blocks_loaded [OF l, of ext2_error] count_free_inodes_loaded [OF lA, of ext2_error]
      count_dirs_loaded [OF lB, of ext2_error]
    by (simp add: init_counters_def mem sint_total [OF l] sint_total [OF lA] sint_total [OF lB]
        A_def [symmetric] B_def [symmetric] C_def [symmetric] Let_def)
  moreover have "descs_loaded C" using lB by (simp add: C_def)
  ultimately show thesis by (rule that)
qed

lemma exm_mounts: "\<exists>s. ext2_fill_super exm_dev kern_ref exm_vm 0 0 None = Some (Inr s) \<and> sb_flags s = 0"
proof -
  define s0 where "s0 = \<lparr> sb_flags = 0, sb_blocksize = 1024, sb_blocksize_bits = ilog2 1024, sb_es = exm_super,
      sb_info = exm_info, bcache = dev_block exm_dev 1024, bh_uptodate = (\<lambda>_. False), clock = 0 \<rparr>"
  let ?ds = "map (\<lambda>j. parse_desc (map (exm_byte 2) [0..<1024]) (32 * j)) [0..<32]"
  have db: "desc_blocks exm_info = 1" by (simp add: desc_blocks_def exm_info_sel)
  have loc: "descriptor_loc s0 1 0 = 2"
    by (simp add: descriptor_loc_def s0_def exm_info_sel ext2_group_first_block_no_def ext2_bg_has_super_def)
  define s1 where "s1 = s0\<lparr>bh_uptodate := (bh_uptodate s0)(2 := True),
      sb_info := exm_info\<lparr>s_group_desc := [Some ?ds]\<rparr>\<rparr>"
  have "bcache s0 2 = Some (map (exm_byte 2) [0..<1024])" by (simp add: s0_def exm_dev_def)
  then have "sb_bread kern_ref s0 2 = (Some 2, s0\<lparr>bh_uptodate := (bh_uptodate s0)(2 := True)\<rparr>)"
    "bcache (s0\<lparr>bh_uptodate := (bh_uptodate s0)(2 := True)\<rparr>) 2 = Some (map (exm_byte 2) [0..<1024])"
    by (simp_all add: sb_bread_def kern_ref_def)
  moreover have "[0..<desc_blocks exm_info] = [0]" "sb_info s0 = exm_info" by (simp_all add: db s0_def)
  ultimately have rd: "read_descs kern_ref 1 [0..<desc_blocks exm_info] s0 = Some (True, s1)"
    by (simp add: loc Let_def s1_def exm_info_sel del: upt_Suc)
  have l1: "descs_loaded s1" "n_groups s1 = 1"
    by (simp_all add: descs_loaded_def n_groups_def s1_def exm_info_sel Let_def)
  have d: "desc_of s1 0 = parse_desc (map (exm_byte 2) [0..<1024]) 0"
    by (simp add: desc_of_def gd_at_def desc_ptr_of_def s1_def exm_info_sel del: upt_Suc)
  have dd: "bg_block_bitmap (desc_of s1 0) = 3" "bg_inode_bitmap (desc_of s1 0) = 4" "bg_inode_table (desc_of s1 0) = 5"
    by (simp_all add: d parse_desc_def le32_at_def le16_at_def exm_byte_def push_bit_eq_mult)
  have "sb_es s1 = exm_super" "s_blocks_per_group (sb_info s1) = 64" "s_groups_count (sb_info s1) = 1"
    "s_itb_per_group (sb_info s1) = 2" by (simp_all add: s1_def s0_def exm_info_sel)
  then have "desc_in_group s1 0 (desc_of s1 0)"
    by (simp add: desc_in_group_def dd ext2_group_first_block_no_def ext2_group_last_block_no_def Let_def)
  then have cd: "ext2_check_descriptors s1 = Some (True, s1)"
    using get_group_desc_loaded [OF l1(1), of 0 ext2_error] gd_at_loaded [OF l1(1), of 0] l1(2)
    by (simp add: ext2_check_descriptors_def n_groups_def)
  have mem: "mem_ok exm_dev n" for n by (simp add: exm_dev_def)
  define s2 where "s2 = s1\<lparr>sb_info := (sb_info s1)\<lparr>s_gdb_count := of_nat (desc_blocks exm_info)\<rparr>\<rparr>"
  have l2: "descs_loaded s2" using l1(1) by (simp add: s2_def descs_loaded_def n_groups_def Let_def)
  obtain s3 where ic: "init_counters exm_dev s2 = Some (0, s3)" and l3: "descs_loaded s3"
    using init_counters_loaded [OF l2, of exm_dev] by (auto simp: exm_dev_def)
  have i3: "\<not> s_lock (sb_info s3)" "sb_flags s3 = 0" "es_rev_level (sb_es s3) = 1"
    using init_counters_result [OF l2 ic] by (simp_all add: s2_def s1_def s0_def exm_info_sel)
  define s4 where "s4 = s3\<lparr>sb_es := (sb_es s3)\<lparr>es_mnt_count := es_mnt_count (sb_es s3) + 1\<rparr>\<rparr>"
  obtain ms where ck: "ext2_check_super False s3 = (0, ms, s4)"
    using that i3 by (simp add: ext2_check_super_def Let_def s4_def)
  have w: "ext2_write_super s4 = Some (sync_result (mark_in_use s4))"
    using sync_fs_loaded [of s4] l3 i3 by (simp add: ext2_write_super_def sb_rdonly_def s4_def)
  have "mount_root exm_dev kern_ref exm_vm s3 = Some (0, sync_result (mark_in_use s4))"
    using i3 ck w by (simp add: mount_root_def ext2_iget_def exm_vm_def ex_inode_def S_ISDIR_def exm_dev_def sb_rdonly_def)
  then have "ext2_fill_super exm_dev kern_ref exm_vm 0 0 None = Some (Inr (sync_result (mark_in_use s4)))"
    unfolding ext2_fill_super_def exm_load bind.bind_lunit sum.case prod.case exm_geometry option.case Let_def
    using rd cd ic by (simp add: mem s0_def [symmetric] s2_def [symmetric])
  then show ?thesis using i3(2) by (simp add: s4_def mark_in_use_def)
qed

lemma exk_flags [simp]: "\<not> s_lock (sb_info exk_fs)" "sb_rdonly exk_fs = False" "s_mount_state (sb_info exk_fs) = 1"
  "s_mount_opt (sb_info exk_fs) = 0x10" "es_rev_level (sb_es exk_fs) = 1"
  by (simp_all add: sb_rdonly_def) (simp_all add: ex_info_def ex_super_def)

definition sync_ref :: "ext2_fs \<Rightarrow> ext2_fs option" where
  "sync_ref s = (if sb_rdonly s then Some s else ext2_sync_fs s)"

lemma sync_ref_ok [simp]: "syncs_ok sync_ref"
  by (simp add: syncs_ok_def sync_ref_def)

section \<open>Properties\<close>

text \<open>
  C24. Mounting establishes what every other operation relies on. When \<^verbatim>\<open>ext2_fill_super\<close>
  succeeds on a device that reads whole blocks of at most a page and whose superblock counts more
  blocks than its first data block and fewer than \<open>2 ^ 31\<close> groups, the group geometry is right,
  every group's two bitmaps and the start of its inode table are blocks of the group, the whole
  table is inside the group too unless its end does not fit 32 bits (the code computes it in 32
  bits, so such a table passes the check), the three counters are the sums over the groups, exactly
  one behaviour on errors is chosen, and a writable file system is marked as in use on the disk.
\<close>

theorem ext2_fill_super_mounts:
  assumes "dev_ok D" "ext2_fill_super D K M flags now data = Some (Inr s)"
    and "load_super D data = Some (Inr (bsz, logic, opt, es, n))" "super_sane es"
  shows "geom_ok s \<and> groups_laid_out s \<and> counters_exact s \<and> opt_ok (s_mount_opt (sb_info s)) \<and>
     (\<not> sb_rdonly s \<longrightarrow> es_state (sb_es s) = s_mount_state (sb_info s) AND NOT EXT2_VALID_FS)"
  using fill_super_result [OF assms] groups_checked_laid_out by blast

theorem ext2_fill_super_mounts_witness:
  "\<exists>s. ext2_fill_super exm_dev kern_ref exm_vm 0 0 None = Some (Inr s) \<and> geom_ok s \<and> groups_laid_out s \<and>
     es_state (sb_es s) = s_mount_state (sb_info s) AND NOT EXT2_VALID_FS"
proof -
  obtain s where s: "ext2_fill_super exm_dev kern_ref exm_vm 0 0 None = Some (Inr s)" "sb_flags s = 0"
    using exm_mounts by blast
  have "super_sane exm_super" by (simp add: super_sane_def)
  from ext2_fill_super_mounts [OF exm_dev_ok s(1) exm_load this] s show ?thesis
    by (auto simp: sb_rdonly_def)
qed

text \<open>
  C25. The options \<^verbatim>\<open>ext2_show_options\<close> prints, parsed over the defaults of the superblock, give
  back the mount options: mounting again with what \<^verbatim>\<open>/proc/mounts\<close> shows changes nothing.
\<close>

theorem ext2_options_roundtrip:
  assumes "opt_ok (s_mount_opt (sb_info s))" "\<not> s_lock (sb_info s)"
  shows "\<exists>str. ext2_show_options s = Some (str, s) \<and>
     parse_options (Some str) (default_opts (sb_es s)) = Some (True, s_mount_opt (sb_info s))"
proof -
  have "test_opt (s\<lparr>sb_info := (sb_info s)\<lparr>s_lock := True\<rparr>\<rparr>) = test_opt s" by (simp add: test_opt_def fun_eq_iff)
  then have "ext2_show_options s = Some (shown s, s)"
    using assms(2) unlock_locked(2) [of s] by (simp add: ext2_show_options_def lock_sb_def shown_def)
  with shown_parses [OF assms(1)] show ?thesis by blast
qed

theorem ext2_options_roundtrip_witness:
  "\<exists>str. ext2_show_options exk_fs = Some (str, exk_fs) \<and>
     parse_options (Some str) (default_opts (sb_es exk_fs)) = Some (True, 0x10)"
  using ext2_options_roundtrip [of exk_fs] by (simp add: opt_ok_def)

text \<open>
  C26. Statistics. On a file system with loaded descriptors \<^verbatim>\<open>ext2_statfs\<close> returns the sums of
  the groups' free blocks and inodes and the blocks behind the overhead of the metadata, stores
  both sums in the superblock and keeps the cached overhead right.
\<close>

theorem ext2_statfs_reports:
  assumes "descs_loaded s" "\<not> s_lock (sb_info s)" "overhead_ok s"
  shows "\<exists>buf s'. ext2_statfs s = Some (buf, s') \<and>
     f_bfree buf = of_nat (total_of bg_free_blocks_count s) \<and> f_bavail buf = f_bfree buf \<and>
     f_ffree buf = of_nat (total_of bg_free_inodes_count s) \<and>
     f_blocks buf = ucast (es_blocks_count (sb_es s)) - fs_overhead s \<and>
     f_files buf = ucast (es_inodes_count (sb_es s)) \<and> f_bsize buf = sb_blocksize s \<and>
     overhead_ok s' \<and> descs_loaded s' \<and> \<not> s_lock (sb_info s') \<and>
     es_free_blocks_count (sb_es s') = of_nat (total_of bg_free_blocks_count s) \<and>
     es_free_inodes_count (sb_es s') = of_nat (total_of bg_free_inodes_count s) \<and>
     total_of bg_free_blocks_count s' = total_of bg_free_blocks_count s"
  using assms by (rule statfs_loaded)

theorem ext2_statfs_reports_witness:
  "\<exists>buf s'. ext2_statfs exk_fs = Some (buf, s') \<and> f_bfree buf = 39 \<and> f_blocks buf = 65 - 1 - 2 * (3 + 1 + 8)"
proof -
  have "total_of bg_free_blocks_count exk_fs = 39" by (simp add: total_of_def lessThan_2 ex_desc_def)
  moreover have "fs_overhead exk_fs = 25" by (simp add: fs_overhead_eq) (simp add: ex_info_def ex_super_def)
  moreover have "overhead_ok exk_fs" by (simp add: overhead_ok_def) (simp add: ex_info_def)
  ultimately show ?thesis using ext2_statfs_reports [of exk_fs] by fastforce
qed

text \<open>
  C27. The mark of a clean file system over a life cycle. A writable file system that was clean
  when it was mounted is marked clean by remounting it read-only, marked in use by remounting
  it writable, and marked clean again by unmounting it.
\<close>

theorem ext2_remount_cycle:
  assumes "descs_loaded s" "\<not> s_lock (sb_info s)" "\<not> sb_rdonly s" "syncs_ok f"
    and "s_mount_state (sb_info s) AND EXT2_VALID_FS \<noteq> 0" "es_rev_level (sb_es s) \<le> EXT2_MAX_SUPP_REV"
  shows "\<exists>s1 s2 es. ext2_remount f SB_RDONLY None s = Some (0, s1) \<and>
     es_state (sb_es s1) = s_mount_state (sb_info s) \<and>
     ext2_remount f 0 None (s1\<lparr>sb_flags := sb_flags s1 OR SB_RDONLY\<rparr>) = Some (0, s2) \<and> \<not> sb_rdonly s2 \<and>
     es_state (sb_es s2) = s_mount_state (sb_info s) AND NOT EXT2_VALID_FS \<and>
     ext2_put_super s2 = Some es \<and> es_state es = s_mount_state (sb_info s) \<and>
     s_mount_opt (sb_info s2) = s_mount_opt (sb_info s)"
proof -
  have p: "parse_options None opt = Some (True, opt)" for opt by (simp add: parse_options_def)
  obtain s1 where s1: "ext2_remount f SB_RDONLY None s = Some (0, s1)" "s_mount_opt (sb_info s1) = s_mount_opt (sb_info s)"
    "descs_loaded s1" "\<not> s_lock (sb_info s1)" "es_rev_level (sb_es s1) = es_rev_level (sb_es s)"
    "es_state (sb_es s1) = s_mount_state (sb_info s)"
    using remount_ro [OF assms(1-4) p, of SB_RDONLY] assms(5) by auto
  let ?t = "s1\<lparr>sb_flags := sb_flags s1 OR SB_RDONLY\<rparr>"
  have ro: "sb_rdonly ?t"
  proof -
    have "bit ((sb_flags s1 OR SB_RDONLY) AND SB_RDONLY) 0" by (simp add: bit_simps)
    then show ?thesis by (auto simp: sb_rdonly_def)
  qed
  obtain s2 where s2: "ext2_remount f 0 None ?t = Some (0, s2)" "s_mount_opt (sb_info s2) = s_mount_opt (sb_info s1)"
    "\<not> sb_rdonly s2" "descs_loaded s2" "\<not> s_lock (sb_info s2)"
    "es_state (sb_es s2) = es_state (sb_es s1) AND NOT EXT2_VALID_FS" "s_mount_state (sb_info s2) = es_state (sb_es s1)"
    using remount_rw [OF _ _ ro assms(4) p, of 0] s1 assms(6) by auto
  with put_super_loaded [OF s2(4,5)] s1 show ?thesis by auto
qed

theorem ext2_remount_cycle_witness:
  "\<exists>s1 s2 es. ext2_remount sync_ref SB_RDONLY None exk_fs = Some (0, s1) \<and> es_state (sb_es s1) = 1 \<and>
     ext2_remount sync_ref 0 None (s1\<lparr>sb_flags := sb_flags s1 OR SB_RDONLY\<rparr>) = Some (0, s2) \<and>
     es_state (sb_es s2) = 0 \<and> ext2_put_super s2 = Some es \<and> es_state es = 1"
proof -
  have "s_mount_state (sb_info exk_fs) AND EXT2_VALID_FS \<noteq> 0" "es_rev_level (sb_es exk_fs) \<le> EXT2_MAX_SUPP_REV"
    by (simp_all del: exk_simps)
  from ext2_remount_cycle [OF exk_loaded exk_flags(1) _ sync_ref_ok this] show ?thesis
    by (simp del: exk_simps) blast
qed

end
