(* ===== verification/Lunix_Sensors.thy ===== *)
theory Lunix_Sensors
  imports Prelude
begin

text \<open>
  The sensor buffers of Lunix:TNG (\<^verbatim>\<open>lunix.h\<close>, \<^verbatim>\<open>lunix-sensors.c\<close>). A sensor has a page for each
  kind of measurement (\<open>None\<close> is a null pointer) and a queue of sleeping processes. The time is
  what \<^verbatim>\<open>get_seconds\<close> returns. \<open>alloc\<close> says which of the page allocations succeed, and a freed
  page leaves the pointer as it is.
\<close>

datatype lunix_msr = BATT | TEMP | LIGHT

abbreviation (input) LUNIX_MSR_MAGIC :: u32 where "LUNIX_MSR_MAGIC \<equiv> 0xF00DF00D"

record lunix_msr_data =
  magic :: u32
  last_update :: u32
  msr_value :: u32

record lunix_sensor =
  msr_data :: "lunix_msr \<Rightarrow> lunix_msr_data option"
  sleepers :: "nat set"

definition zero_msr :: lunix_msr_data where
  "zero_msr = \<lparr> magic = LUNIX_MSR_MAGIC, last_update = 0, msr_value = 0 \<rparr>"

fun init_pages :: "(lunix_msr \<Rightarrow> bool) \<Rightarrow> lunix_msr list \<Rightarrow> lunix_sensor \<Rightarrow> int \<times> lunix_sensor" where
  "init_pages alloc [] s = (0, s)"
| "init_pages alloc (m # ms) s =
     (if \<not> alloc m then (- ENOMEM, s)
      else init_pages alloc ms (s\<lparr>msr_data := (msr_data s)(m \<mapsto> zero_msr)\<rparr>))"

definition lunix_sensor_init :: "(lunix_msr \<Rightarrow> bool) \<Rightarrow> int \<times> lunix_sensor" where
  "lunix_sensor_init alloc =
     init_pages alloc [BATT, TEMP, LIGHT] \<lparr> msr_data = (\<lambda>_. None), sleepers = {} \<rparr>"

text \<open>The pages a sensor's destruction frees.\<close>

definition lunix_sensor_destroy :: "lunix_sensor \<Rightarrow> lunix_msr set" where
  "lunix_sensor_destroy s = {m \<in> {BATT, TEMP, LIGHT}. msr_data s m \<noteq> None}"

definition put_msr :: "u32 \<Rightarrow> u16 \<Rightarrow> lunix_msr \<Rightarrow> lunix_sensor \<Rightarrow> lunix_sensor option" where
  "put_msr now v m s = do {
     d \<leftarrow> msr_data s m;
     Some (s\<lparr>msr_data := (msr_data s)(m \<mapsto>
       d\<lparr>msr_value := ucast v, magic := LUNIX_MSR_MAGIC, last_update := now\<rparr>)\<rparr>) }"

definition lunix_sensor_update ::
  "u32 \<Rightarrow> u16 \<Rightarrow> u16 \<Rightarrow> u16 \<Rightarrow> lunix_sensor \<Rightarrow> lunix_sensor option" where
  "lunix_sensor_update now batt temp light s = do {
     s \<leftarrow> put_msr now batt BATT s;
     s \<leftarrow> put_msr now temp TEMP s;
     s \<leftarrow> put_msr now light LIGHT s;
     Some (s\<lparr>sleepers := {}\<rparr>) }"

section \<open>The update store by store\<close>

text \<open>
  What another processor can see of \<^verbatim>\<open>lunix_sensor_update\<close>: the spinlock, each store to a page
  (in a chain of assignments the last target is stored first), and the wake-up after the lock
  has been given back. \<open>perform\<close> is one such action on the sensor; the lock itself is kept by
  the model of the running module.
\<close>

datatype action = Spin_lock | Put_value lunix_msr u32 | Put_magic lunix_msr | Put_time lunix_msr u32
  | Spin_unlock | Wake_up

definition update_actions :: "u32 \<Rightarrow> u16 \<Rightarrow> u16 \<Rightarrow> u16 \<Rightarrow> action list" where
  "update_actions now batt temp light =
     [Spin_lock,
      Put_value BATT (ucast batt), Put_value TEMP (ucast temp), Put_value LIGHT (ucast light),
      Put_magic LIGHT, Put_magic TEMP, Put_magic BATT,
      Put_time LIGHT now, Put_time TEMP now, Put_time BATT now,
      Spin_unlock, Wake_up]"

definition store_msr ::
  "lunix_msr \<Rightarrow> (lunix_msr_data \<Rightarrow> lunix_msr_data) \<Rightarrow> lunix_sensor \<Rightarrow> lunix_sensor option" where
  "store_msr m f s = do {
     d \<leftarrow> msr_data s m;
     Some (s\<lparr>msr_data := (msr_data s)(m \<mapsto> f d)\<rparr>) }"

fun perform :: "action \<Rightarrow> lunix_sensor \<Rightarrow> lunix_sensor option" where
  "perform (Put_value m v) s = store_msr m (\<lambda>d. d\<lparr>msr_value := v\<rparr>) s"
| "perform (Put_magic m) s = store_msr m (\<lambda>d. d\<lparr>magic := LUNIX_MSR_MAGIC\<rparr>) s"
| "perform (Put_time m t) s = store_msr m (\<lambda>d. d\<lparr>last_update := t\<rparr>) s"
| "perform Wake_up s = Some (s\<lparr>sleepers := {}\<rparr>)"
| "perform _ s = Some s"

fun perform_all :: "action list \<Rightarrow> lunix_sensor \<Rightarrow> lunix_sensor option" where
  "perform_all [] s = Some s"
| "perform_all (a # as) s = do { s \<leftarrow> perform a s; perform_all as s }"

text \<open>All of them in a row are the update.\<close>

lemma update_perform_all:
  "perform_all (update_actions now batt temp light) s = lunix_sensor_update now batt temp light s"
  by (cases s; cases "msr_data s BATT"; cases "msr_data s TEMP"; cases "msr_data s LIGHT")
    (auto simp: update_actions_def lunix_sensor_update_def put_msr_def store_msr_def fun_eq_iff)

section \<open>Initialised sensors\<close>

definition sensor_ready :: "lunix_sensor \<Rightarrow> bool" where
  "sensor_ready s \<longleftrightarrow> (\<forall>m. \<exists>d. msr_data s m = Some d)"

lemma sensor_init_ready: "lunix_sensor_init alloc = (0, s) \<Longrightarrow> sensor_ready s"
  unfolding sensor_ready_def
proof
  fix m assume "lunix_sensor_init alloc = (0, s)"
  then show "\<exists>d. msr_data s m = Some d"
    by (cases m) (auto simp: lunix_sensor_init_def split: if_splits)
qed

lemma sensor_update_ready:
  assumes "sensor_ready s"
  shows "\<exists>s'. lunix_sensor_update now batt temp light s = Some s' \<and> sensor_ready s' \<and> sleepers s' = {} \<and>
     (\<forall>m. map_option msr_value (msr_data s' m) =
        Some (ucast (case m of BATT \<Rightarrow> batt | TEMP \<Rightarrow> temp | LIGHT \<Rightarrow> light)) \<and>
        map_option last_update (msr_data s' m) = Some now)"
proof -
  obtain b t l where d: "msr_data s BATT = Some b" "msr_data s TEMP = Some t" "msr_data s LIGHT = Some l"
    using assms unfolding sensor_ready_def by metis
  obtain s' where s': "lunix_sensor_update now batt temp light s = Some s'"
    using d by (simp add: lunix_sensor_update_def put_msr_def)
  have "msr_data s' m = Some \<lparr>magic = LUNIX_MSR_MAGIC, last_update = now,
      msr_value = ucast (case m of BATT \<Rightarrow> batt | TEMP \<Rightarrow> temp | LIGHT \<Rightarrow> light)\<rparr>" for m
    using s' d by (cases b; cases t; cases l; cases m) (auto simp: lunix_sensor_update_def put_msr_def)
  moreover have "sleepers s' = {}" using s' d by (auto simp: lunix_sensor_update_def put_msr_def)
  ultimately show ?thesis using s' by (simp add: sensor_ready_def)
qed

end
