(* ===== verification/Lunix_Protocol.thy ===== *)
theory Lunix_Protocol
  imports Lunix_Sensors
begin

text \<open>
  The protocol of the sensor network (\<^verbatim>\<open>lunix-protocol.h\<close>, \<^verbatim>\<open>lunix-protocol.c\<close>): a state machine
  that collects a packet byte by byte over any number of buffers. The counters of the state are
  never negative. \<open>dbg\<close> is \<^verbatim>\<open>LUNIX_DEBUG\<close>, which limits the rounds of one call of the parser.
\<close>

datatype phase = SEEKING_START_BYTE | SEEKING_PACKET_TYPE | SEEKING_DESTINATION_ADDRESS
  | SEEKING_AM_TYPE | SEEKING_AM_GROUP | SEEKING_PAYLOAD_LENGTH | SEEKING_PAYLOAD | SEEKING_CRC
  | SEEKING_END_BYTE

abbreviation (input) MAX_PACKET_LEN :: nat where "MAX_PACKET_LEN \<equiv> 300"
abbreviation (input) PACKET_SIGNATURE_OFFSET :: nat where "PACKET_SIGNATURE_OFFSET \<equiv> 4"
abbreviation (input) NODE_OFFSET :: nat where "NODE_OFFSET \<equiv> 9"
abbreviation (input) VREF_OFFSET :: nat where "VREF_OFFSET \<equiv> 18"
abbreviation (input) TEMPERATURE_OFFSET :: nat where "TEMPERATURE_OFFSET \<equiv> 20"
abbreviation (input) LIGHT_OFFSET :: nat where "LIGHT_OFFSET \<equiv> 22"

record proto =
  pr_state :: phase
  bytes_read :: nat
  bytes_to_read :: nat
  pr_pos :: nat
  next_is_special :: byte
  packet :: "byte list"

definition uint16_from_packet :: "byte list \<Rightarrow> nat \<Rightarrow> u16" where
  "uint16_from_packet p k = le16_at p k"

text \<open>The sensors are an array of \<^verbatim>\<open>lunix_sensor_cnt\<close> elements.\<close>

definition lunix_protocol_update_sensors ::
  "u32 \<Rightarrow> byte list \<Rightarrow> lunix_sensor list \<Rightarrow> lunix_sensor list option" where
  "lunix_protocol_update_sensors now p sensors =
     (if p ! PACKET_SIGNATURE_OFFSET = 0x0B then
        let nodeid = unat (uint16_from_packet p NODE_OFFSET);
            batt = uint16_from_packet p VREF_OFFSET;
            temp = uint16_from_packet p TEMPERATURE_OFFSET;
            light = uint16_from_packet p LIGHT_OFFSET
        in if 0 < nodeid \<and> nodeid \<le> length sensors
           then do {
             s \<leftarrow> lunix_sensor_update now batt temp light (sensors ! (nodeid - 1));
             Some (sensors[nodeid - 1 := s]) }
           else Some sensors
      else Some sensors)"

definition set_state :: "phase \<Rightarrow> nat \<Rightarrow> nat \<Rightarrow> proto \<Rightarrow> proto" where
  "set_state ph btr br st = st\<lparr>pr_state := ph, bytes_to_read := btr, bytes_read := br\<rparr>"

definition lunix_protocol_init :: "proto \<Rightarrow> proto" where
  "lunix_protocol_init st = set_state SEEKING_START_BYTE 1 0 (st\<lparr>pr_pos := 0, next_is_special := 0\<rparr>)"

text \<open>One byte goes into the packet.\<close>

definition put_byte :: "byte \<Rightarrow> proto \<Rightarrow> proto" where
  "put_byte c st = st\<lparr>packet := (packet st)[pr_pos st := c], pr_pos := pr_pos st + 1,
     bytes_read := bytes_read st + 1\<rparr>"

definition parse_byte :: "bool \<Rightarrow> byte \<Rightarrow> proto \<Rightarrow> proto" where
  "parse_byte use_specials c st =
     (if use_specials then
        if next_is_special st \<noteq> 0 then
          (let p1 = (if next_is_special st = 0x7E then (packet st)[pr_pos st := c] else packet st);
               p2 = (if next_is_special st = 0x7D then p1[pr_pos st := c XOR 0x20] else p1)
           in st\<lparr>packet := p2, pr_pos := pr_pos st + 1, bytes_read := bytes_read st + 1, next_is_special := 0\<rparr>)
        else if c = 0x7E \<or> c = 0x7D then st\<lparr>next_is_special := c\<rparr>
        else put_byte c st
      else put_byte c st)"

fun parse_loop :: "bool \<Rightarrow> bool \<Rightarrow> nat \<Rightarrow> proto \<Rightarrow> byte list \<Rightarrow> int \<times> proto \<times> byte list" where
  "parse_loop dbg sp iter st [] = (if bytes_read st = bytes_to_read st then 1 else 0, st, [])"
| "parse_loop dbg sp iter st (c # cs) =
     (if bytes_read st < bytes_to_read st then
        if dbg \<and> iter + 1 = 50 then (-1, st, c # cs)
        else if pr_pos st = MAX_PACKET_LEN then (-1, st\<lparr>pr_pos := 0\<rparr>, c # cs)
        else parse_loop dbg sp (iter + 1) (parse_byte sp c st) cs
      else (if bytes_read st = bytes_to_read st then 1 else 0, st, c # cs))"

definition lunix_protocol_parse_state ::
  "bool \<Rightarrow> proto \<Rightarrow> byte list \<Rightarrow> bool \<Rightarrow> int \<times> proto \<times> byte list" where
  "lunix_protocol_parse_state dbg st data use_specials = parse_loop dbg use_specials 0 st data"

definition stage ::
  "bool \<Rightarrow> phase \<Rightarrow> bool \<Rightarrow> (proto \<Rightarrow> proto) \<Rightarrow> proto \<times> byte list \<Rightarrow> proto \<times> byte list" where
  "stage dbg ph sp next x = (case x of (st, bs) \<Rightarrow>
     if pr_state st = ph
     then (case lunix_protocol_parse_state dbg st bs sp of (r, st, bs) \<Rightarrow> (if r = 1 then next st else st, bs))
     else (st, bs))"

definition head_stages :: "bool \<Rightarrow> proto \<times> byte list \<Rightarrow> proto \<times> byte list" where
  "head_stages dbg x =
     stage dbg SEEKING_PAYLOAD_LENGTH True
       (\<lambda>st. set_state SEEKING_PAYLOAD (unat (packet st ! (pr_pos st - 1))) 0 st)
    (stage dbg SEEKING_AM_GROUP True (set_state SEEKING_PAYLOAD_LENGTH 1 0)
    (stage dbg SEEKING_AM_TYPE True (set_state SEEKING_AM_GROUP 1 0)
    (stage dbg SEEKING_DESTINATION_ADDRESS True (set_state SEEKING_AM_TYPE 1 0)
    (stage dbg SEEKING_PACKET_TYPE False (set_state SEEKING_DESTINATION_ADDRESS 2 0)
    (stage dbg SEEKING_START_BYTE False (set_state SEEKING_PACKET_TYPE 1 0) x)))))"

definition body_stages :: "bool \<Rightarrow> proto \<times> byte list \<Rightarrow> proto \<times> byte list" where
  "body_stages dbg x =
     stage dbg SEEKING_CRC True (set_state SEEKING_END_BYTE 1 0)
    (stage dbg SEEKING_PAYLOAD True (set_state SEEKING_CRC 2 0) x)"

definition lunix_protocol_received_buf ::
  "bool \<Rightarrow> u32 \<Rightarrow> proto \<Rightarrow> lunix_sensor list \<Rightarrow> byte list \<Rightarrow> (proto \<times> lunix_sensor list) option" where
  "lunix_protocol_received_buf dbg now st sensors buf =
     (case body_stages dbg (head_stages dbg (st, buf)) of (st, bs) \<Rightarrow>
        if pr_state st = SEEKING_END_BYTE then
          (case lunix_protocol_parse_state dbg st bs False of (r, st, bs) \<Rightarrow>
             if r = 1 then do {
               sensors \<leftarrow> lunix_protocol_update_sensors now (packet st) sensors;
               Some (set_state SEEKING_START_BYTE 1 0 (st\<lparr>pr_pos := 0, next_is_special := 0\<rparr>), sensors) }
             else Some (st, sensors))
        else Some (st, sensors))"

section \<open>The update apart from the parse\<close>

text \<open>
  The call in two parts: the parse, which works on the protocol's own state and yields a complete
  packet or none, and what the packet does to the sensors, as the sensor and the actions on it.
\<close>

definition received_packet :: "bool \<Rightarrow> proto \<Rightarrow> byte list \<Rightarrow> proto \<times> byte list option" where
  "received_packet dbg st buf =
     (case body_stages dbg (head_stages dbg (st, buf)) of (st, bs) \<Rightarrow>
        if pr_state st = SEEKING_END_BYTE then
          (case lunix_protocol_parse_state dbg st bs False of (r, st, bs) \<Rightarrow>
             if r = 1
             then (set_state SEEKING_START_BYTE 1 0 (st\<lparr>pr_pos := 0, next_is_special := 0\<rparr>), Some (packet st))
             else (st, None))
        else (st, None))"

definition packet_actions :: "u32 \<Rightarrow> byte list \<Rightarrow> nat \<Rightarrow> nat \<times> action list" where
  "packet_actions now p sensor_cnt =
     (let nodeid = unat (uint16_from_packet p NODE_OFFSET);
          batt = uint16_from_packet p VREF_OFFSET;
          temp = uint16_from_packet p TEMPERATURE_OFFSET;
          light = uint16_from_packet p LIGHT_OFFSET
      in if p ! PACKET_SIGNATURE_OFFSET = 0x0B \<and> 0 < nodeid \<and> nodeid \<le> sensor_cnt
         then (nodeid - 1, update_actions now batt temp light)
         else (0, []))"

lemma packet_actions_update:
  "lunix_protocol_update_sensors now p ss =
     (case packet_actions now p (length ss) of (k, as) \<Rightarrow>
        if as = [] then Some ss else map_option (\<lambda>s. ss[k := s]) (perform_all as (ss ! k)))"
proof -
  have ne: "update_actions now b t l \<noteq> []" for b t l by (simp add: update_actions_def)
  show ?thesis
    by (simp add: lunix_protocol_update_sensors_def packet_actions_def Let_def ne update_perform_all
        map_option_case split: option.splits)
qed

lemma received_packet_buf:
  "lunix_protocol_received_buf dbg now st ss buf =
     (case received_packet dbg st buf of (st', pk) \<Rightarrow>
        map_option (Pair st') (case pk of None \<Rightarrow> Some ss | Some p \<Rightarrow> lunix_protocol_update_sensors now p ss))"
  by (auto simp: lunix_protocol_received_buf_def received_packet_def map_option_case bind_eq_Some_conv
      split: prod.splits option.splits)

end
