(* ===== verification/Lunix_Refine.thy ===== *)
theory Lunix_Refine
  imports Lunix_Protocol
begin

text \<open>
  The protocol against an abstract receiver. The receiver's state is the packet collected so
  far, without escapes, and an escape byte that waits for its successor; \<open>feed\<close> gives it the
  bytes of a buffer until the packet is complete. \<open>holds\<close> relates the states, and the main
  lemma says that a call of the protocol feeds its buffer to the receiver.
\<close>

section \<open>The abstract receiver\<close>

definition payload_len :: "byte list \<Rightarrow> nat" where
  "payload_len d = unat (d ! 6)"

definition full_packet :: "byte list \<Rightarrow> bool" where
  "full_packet d \<longleftrightarrow> 7 \<le> length d \<and> length d = 10 + payload_len d"

text \<open>The start byte, the packet type and the end byte are taken as they are.\<close>

definition escaped :: "byte list \<Rightarrow> bool" where
  "escaped d \<longleftrightarrow> 2 \<le> length d \<and> (7 \<le> length d \<longrightarrow> length d < 9 + payload_len d)"

fun receive :: "byte list \<times> byte option \<Rightarrow> byte \<Rightarrow> byte list \<times> byte option" where
  "receive (d, e) c =
     (if escaped d then
        (case e of Some x \<Rightarrow> (d @ [if x = 0x7E then c else c XOR 0x20], None)
         | None \<Rightarrow> if c = 0x7E \<or> c = 0x7D then (d, Some c) else (d @ [c], None))
      else (d @ [c], e))"

fun feed :: "byte list \<times> byte option \<Rightarrow> byte list \<Rightarrow> byte list \<times> byte option" where
  "feed x [] = x"
| "feed x (c # cs) = (if full_packet (fst (receive x c)) then receive x c else feed (receive x c) cs)"

section \<open>Relating the states\<close>

fun offset :: "phase \<Rightarrow> byte list \<Rightarrow> nat" where
  "offset SEEKING_START_BYTE d = 0"
| "offset SEEKING_PACKET_TYPE d = 1"
| "offset SEEKING_DESTINATION_ADDRESS d = 2"
| "offset SEEKING_AM_TYPE d = 4"
| "offset SEEKING_AM_GROUP d = 5"
| "offset SEEKING_PAYLOAD_LENGTH d = 6"
| "offset SEEKING_PAYLOAD d = 7"
| "offset SEEKING_CRC d = 7 + payload_len d"
| "offset SEEKING_END_BYTE d = 9 + payload_len d"

fun width :: "phase \<Rightarrow> byte list \<Rightarrow> nat" where
  "width SEEKING_DESTINATION_ADDRESS d = 2"
| "width SEEKING_CRC d = 2"
| "width SEEKING_PAYLOAD d = payload_len d"
| "width ph d = 1"

fun idx :: "phase \<Rightarrow> nat" where
  "idx SEEKING_START_BYTE = 0"
| "idx SEEKING_PACKET_TYPE = 1"
| "idx SEEKING_DESTINATION_ADDRESS = 2"
| "idx SEEKING_AM_TYPE = 3"
| "idx SEEKING_AM_GROUP = 4"
| "idx SEEKING_PAYLOAD_LENGTH = 5"
| "idx SEEKING_PAYLOAD = 6"
| "idx SEEKING_CRC = 7"
| "idx SEEKING_END_BYTE = 8"

definition specials :: "phase \<Rightarrow> bool" where
  "specials ph \<longleftrightarrow> 2 \<le> idx ph \<and> idx ph < 8"

text \<open>\<open>m\<close> is what the packet held when it was started.\<close>

definition holds :: "byte list \<Rightarrow> proto \<Rightarrow> byte list \<Rightarrow> byte option \<Rightarrow> bool" where
  "holds m st d e \<longleftrightarrow> length m = MAX_PACKET_LEN \<and> packet st = d @ drop (length d) m \<and> pr_pos st = length d \<and>
     next_is_special st = (case e of None \<Rightarrow> 0 | Some x \<Rightarrow> x) \<and>
     (\<forall>x. e = Some x \<longrightarrow> (x = 0x7E \<or> x = 0x7D) \<and> specials (pr_state st) \<and>
        length d < offset (pr_state st) d + width (pr_state st) d) \<and>
     offset (pr_state st) d \<le> length d \<and> length d \<le> offset (pr_state st) d + width (pr_state st) d \<and>
     bytes_read st = length d - offset (pr_state st) d \<and> bytes_to_read st = width (pr_state st) d"

lemma payload_len_less: "payload_len d < 256"
  by (simp add: payload_len_def unat_less_8)

lemma holdsD:
  assumes "holds m st d e"
  shows "length (packet st) = 300" "pr_pos st = length d" "packet st = d @ drop (length d) m"
    "offset (pr_state st) d \<le> length d" "length d \<le> offset (pr_state st) d + width (pr_state st) d"
    "bytes_read st = length d - offset (pr_state st) d" "bytes_to_read st = width (pr_state st) d"
    "length d \<le> 10 + 255"
proof -
  show p: "pr_pos st = length d" "packet st = d @ drop (length d) m"
    "offset (pr_state st) d \<le> length d" and l: "length d \<le> offset (pr_state st) d + width (pr_state st) d"
    and "bytes_read st = length d - offset (pr_state st) d" "bytes_to_read st = width (pr_state st) d"
    using assms by (simp_all add: holds_def)
  show m: "length d \<le> 10 + 255" using l payload_len_less [of d] by (cases "pr_state st") simp_all
  show "length (packet st) = 300" using assms m by (simp add: holds_def)
qed

lemma payload_len_app [simp]: "7 \<le> length d \<Longrightarrow> payload_len (d @ xs) = payload_len d"
  by (simp add: payload_len_def nth_append)

lemma phase_app:
  assumes "offset ph d \<le> length d" "ph \<noteq> SEEKING_END_BYTE" "length d < offset ph d + width ph d"
  shows "offset ph (d @ [c]) = offset ph d" "width ph (d @ [c]) = width ph d"
    "escaped d = specials ph" "\<not> full_packet (d @ [c])"
  using assms by (cases ph; simp add: escaped_def specials_def full_packet_def)+

lemma not_complete:
  assumes "holds m st d e" "pr_state st \<noteq> SEEKING_END_BYTE"
  shows "\<not> full_packet d"
  using holdsD(4,5) [OF assms(1)] assms(2) by (cases "pr_state st") (auto simp: full_packet_def)

lemma put_next:
  "length d < length m \<Longrightarrow> (d @ drop (length d) m)[length d := c] = (d @ [c]) @ drop (length (d @ [c])) m"
  by (simp add: list_update_append Cons_nth_drop_Suc [symmetric] del: Cons_nth_drop_Suc)

lemma parse_byte_holds:
  assumes h: "holds m st d e" and ph: "pr_state st \<noteq> SEEKING_END_BYTE"
    and lt: "length d < offset (pr_state st) d + width (pr_state st) d"
  shows "holds m (parse_byte (specials (pr_state st)) c st) (fst (receive (d, e) c)) (snd (receive (d, e) c))"
    "pr_state (parse_byte (specials (pr_state st)) c st) = pr_state st"
    "\<not> full_packet (fst (receive (d, e) c))"
proof -
  let ?ph = "pr_state st"
  note hd = holdsD [OF h]
  note pa = phase_app [OF hd(4) ph lt]
  have lm: "length m = 300" using h by (simp add: holds_def)
  have pos: "length d < length m" using lm hd(8) by simp
  have put: "(packet st)[length d := v] = (d @ [v]) @ drop (length (d @ [v])) m" for v
    unfolding hd(3) by (rule put_next [OF pos])
  have spec: "next_is_special st = (case e of None \<Rightarrow> 0 | Some x \<Rightarrow> x)" "\<forall>x. e = Some x \<longrightarrow> x = 0x7E \<or> x = 0x7D"
    using h by (simp_all add: holds_def)
  show "pr_state (parse_byte (specials ?ph) c st) = ?ph" by (simp add: parse_byte_def put_byte_def Let_def)
  show "\<not> full_packet (fst (receive (d, e) c))"
    using pa(4) not_complete [OF h ph] by (auto split: option.splits)
  show "holds m (parse_byte (specials ?ph) c st) (fst (receive (d, e) c)) (snd (receive (d, e) c))"
  proof (cases "specials ?ph")
    case False
    have "e = None" using False h by (cases e) (simp_all add: holds_def)
    with False pa hd lt spec put lm show ?thesis
      by (simp add: parse_byte_def put_byte_def holds_def Suc_diff_le)
  next
    case True
    show ?thesis
    proof (cases e)
      case None
      with True pa hd lt spec put lm show ?thesis
        by (simp add: parse_byte_def put_byte_def holds_def Suc_diff_le)
    next
      case (Some x)
      with True pa hd lt spec put lm show ?thesis
        by (auto simp: parse_byte_def holds_def Suc_diff_le Let_def)
    qed
  qed
qed

lemma parse_loop_holds:
  assumes "holds m st d e" "pr_state st \<noteq> SEEKING_END_BYTE"
  shows "\<exists>r st' rest d' e'. parse_loop dbg (specials (pr_state st)) iter st bs = (r, st', rest) \<and>
     holds m st' d' e' \<and> pr_state st' = pr_state st \<and> feed (d, e) bs = feed (d', e') rest \<and>
     length rest \<le> length bs \<and>
     (if length d' = offset (pr_state st) d' + width (pr_state st) d' then r = 1
      else r \<noteq> 1 \<and> ((dbg \<longrightarrow> iter + length bs < 50) \<longrightarrow> rest = []))"
  using assms
proof (induction bs arbitrary: st d e iter)
  case Nil
  note hd = holdsD [OF Nil.prems(1)]
  have "bytes_read st = bytes_to_read st \<longleftrightarrow> length d = offset (pr_state st) d + width (pr_state st) d"
    using hd(4-7) by auto
  with Nil.prems(1) show ?case by fastforce
next
  case (Cons c cs)
  note hd = holdsD [OF Cons.prems(1)]
  have full: "bytes_read st < bytes_to_read st \<longleftrightarrow> length d < offset (pr_state st) d + width (pr_state st) d"
    using hd(4-7) by auto
  show ?case
  proof (cases "length d < offset (pr_state st) d + width (pr_state st) d")
    case False
    then have "parse_loop dbg (specials (pr_state st)) iter st (c # cs) = (1, st, c # cs)"
      "length d = offset (pr_state st) d + width (pr_state st) d"
      using full hd(4-7) by auto
    with Cons.prems(1) show ?thesis
      by (intro exI [of _ 1] exI [of _ st] exI [of _ "c # cs"] exI [of _ d] exI [of _ e]) simp
  next
    case True
    let ?st = "parse_byte (specials (pr_state st)) c st"
    obtain d1 e1 where r: "receive (d, e) c = (d1, e1)" by (cases "receive (d, e) c")
    note pb = parse_byte_holds [OF Cons.prems(1,2) True, of c, unfolded r fst_conv snd_conv]
    have pos: "pr_pos st \<noteq> 300" using hd(2,8) by simp
    show ?thesis
    proof (cases "dbg \<and> iter + 1 = 50")
      case limit: True
      then have "parse_loop dbg (specials (pr_state st)) iter st (c # cs) = (-1, st, c # cs)"
        using True full by simp
      with Cons.prems(1) True limit show ?thesis
        by (intro exI [of _ "-1"] exI [of _ st] exI [of _ "c # cs"] exI [of _ d] exI [of _ e]) simp
    next
      case False
      have run: "parse_loop dbg (specials (pr_state st)) iter st (c # cs) =
          parse_loop dbg (specials (pr_state ?st)) (iter + 1) ?st cs"
        using True full pos False pb(2) by auto
      have fd: "feed (d, e) (c # cs) = feed (d1, e1) cs" using pb(3) r by simp
      show ?thesis
        unfolding run fd using Cons.IH [OF pb(1), of "iter + 1"] Cons.prems(2) pb(2) by fastforce
    qed
  qed
qed

section \<open>The stages\<close>

text \<open>The state before the stage of phase number \<open>k\<close>. \<open>g\<close> says that the buffer is short enough for
  the limit of the debugging build.\<close>

definition before :: "bool \<Rightarrow> byte list \<Rightarrow> nat \<Rightarrow> proto \<times> byte list \<Rightarrow> byte list \<Rightarrow> byte option \<Rightarrow> bool" where
  "before g m k x d e \<longleftrightarrow> holds m (fst x) d e \<and> \<not> full_packet d \<and> (g \<longrightarrow> k \<le> idx (pr_state (fst x)) \<or> snd x = [])"

lemma idx_inj: "idx a = idx b \<longleftrightarrow> a = b"
  by (cases a; cases b; simp)

lemma stage_holds:
  assumes b: "before g m (idx ph) x d e" and ph: "ph \<noteq> SEEKING_END_BYTE" and dbg: "g \<longrightarrow> dbg \<longrightarrow> length (snd x) < 50"
    and nxt: "\<And>st d. holds m st d None \<Longrightarrow> pr_state st = ph \<Longrightarrow> length d = offset ph d + width ph d \<Longrightarrow>
      holds m (nxt st) d None \<and> idx (pr_state (nxt st)) = Suc (idx ph)"
  shows "\<exists>d' e'. before g m (Suc (idx ph)) (stage dbg ph (specials ph) nxt x) d' e' \<and>
     feed (d, e) (snd x) = feed (d', e') (snd (stage dbg ph (specials ph) nxt x)) \<and>
     length (snd (stage dbg ph (specials ph) nxt x)) \<le> length (snd x)"
proof -
  obtain st bs where x: "x = (st, bs)" by (cases x)
  show ?thesis
  proof (cases "pr_state st = ph")
    case False
    then have s: "stage dbg ph (specials ph) nxt x = x" by (simp add: stage_def x)
    have "idx (pr_state st) \<noteq> idx ph" using False by (simp add: idx_inj)
    then have "before g m (Suc (idx ph)) x d e" using b by (auto simp: before_def x)
    with s show ?thesis by auto
  next
    case True
    have h: "holds m st d e" using b by (simp add: before_def x)
    obtain r st' rest d' e' where r: "parse_loop dbg (specials ph) 0 st bs = (r, st', rest)" "holds m st' d' e'"
      "pr_state st' = ph" "feed (d, e) bs = feed (d', e') rest" "length rest \<le> length bs"
      "if length d' = offset ph d' + width ph d' then r = 1 else r \<noteq> 1 \<and> (g \<longrightarrow> rest = [])"
      using parse_loop_holds [OF h, of dbg 0 bs] True ph dbg by (auto simp: x split: if_splits)
    have nc: "\<not> full_packet d'" using not_complete [OF r(2)] r(3) ph by simp
    have s: "stage dbg ph (specials ph) nxt x = (if r = 1 then nxt st' else st', rest)"
      using True r(1) by (simp add: stage_def x lunix_protocol_parse_state_def)
    show ?thesis
    proof (cases "length d' = offset ph d' + width ph d'")
      case True
      then have "e' = None" using r(2,3) by (cases e') (auto simp: holds_def)
      with True nxt [of st' d'] r nc show ?thesis
        unfolding s by (intro exI [of _ d'] exI [of _ e']) (simp add: before_def x)
    next
      case False
      with r nc show ?thesis
        unfolding s by (intro exI [of _ d'] exI [of _ e']) (simp add: before_def x)
    qed
  qed
qed

lemma next_phase:
  assumes "holds m st d None" "pr_state st = a" "length d = offset a d + width a d"
    and "offset b d = length d" "width b d = n"
  shows "holds m (set_state b n 0 st) d None"
  using assms by (simp add: holds_def set_state_def)

text \<open>A chain of stages up to phase number \<open>k\<close> feeds the bytes it uses to the receiver.\<close>

definition feeds :: "bool \<Rightarrow> nat \<Rightarrow> nat \<Rightarrow> bool \<Rightarrow> (proto \<times> byte list \<Rightarrow> proto \<times> byte list) \<Rightarrow> bool" where
  "feeds g j k dbg f \<longleftrightarrow> (\<forall>m x d e. before g m j x d e \<longrightarrow> (g \<longrightarrow> dbg \<longrightarrow> length (snd x) < 50) \<longrightarrow>
     (\<exists>d' e'. before g m k (f x) d' e' \<and> feed (d, e) (snd x) = feed (d', e') (snd (f x)) \<and>
        length (snd (f x)) \<le> length (snd x)))"

lemma feedsD:
  assumes "feeds g j k dbg f" "before g m j x d e" "g \<longrightarrow> dbg \<longrightarrow> length (snd x) < 50"
  obtains d' e' where "before g m k (f x) d' e'" "feed (d, e) (snd x) = feed (d', e') (snd (f x))"
    "length (snd (f x)) \<le> length (snd x)"
proof -
  have "\<exists>d' e'. before g m k (f x) d' e' \<and> feed (d, e) (snd x) = feed (d', e') (snd (f x)) \<and>
        length (snd (f x)) \<le> length (snd x)"
    by (rule assms(1) [unfolded feeds_def, rule_format, OF assms(2)]) (use assms(3) in simp)
  then show thesis by (elim exE conjE) (rule that)
qed

lemma feeds_comp:
  assumes "feeds g i j dbg f" "feeds g j k dbg h"
  shows "feeds g i k dbg (\<lambda>x. h (f x))"
  unfolding feeds_def
proof (intro allI impI)
  fix m x d e assume a: "before g m i x d e" "g \<longrightarrow> dbg \<longrightarrow> length (snd x) < 50"
  show "\<exists>d' e'. before g m k (h (f x)) d' e' \<and> feed (d, e) (snd x) = feed (d', e') (snd (h (f x))) \<and>
      length (snd (h (f x))) \<le> length (snd x)"
  proof (rule feedsD [OF assms(1) a])
    fix d1 e1 assume b: "before g m j (f x) d1 e1" "feed (d, e) (snd x) = feed (d1, e1) (snd (f x))"
      "length (snd (f x)) \<le> length (snd x)"
    have l: "g \<longrightarrow> dbg \<longrightarrow> length (snd (f x)) < 50" using a(2) b(3) by linarith
    show ?thesis
    proof (rule feedsD [OF assms(2) b(1) l])
      fix d2 e2 assume "before g m k (h (f x)) d2 e2" "feed (d1, e1) (snd (f x)) = feed (d2, e2) (snd (h (f x)))"
        "length (snd (h (f x))) \<le> length (snd (f x))"
      then show ?thesis
        by (intro exI [of _ d2] exI [of _ e2] conjI) (simp_all only: b(2) le_trans [OF _ b(3)])
    qed
  qed
qed

lemma stage_feeds:
  assumes "ph \<noteq> SEEKING_END_BYTE" "sp = specials ph" "k = Suc (idx ph)"
    and "\<And>m st d. holds m st d None \<Longrightarrow> pr_state st = ph \<Longrightarrow> length d = offset ph d + width ph d \<Longrightarrow>
      holds m (nxt st) d None \<and> idx (pr_state (nxt st)) = Suc (idx ph)"
  shows "feeds g (idx ph) k dbg (stage dbg ph sp nxt)"
  unfolding feeds_def assms(2,3)
proof (intro allI impI)
  fix m x d e assume "before g m (idx ph) x d e" "g \<longrightarrow> dbg \<longrightarrow> length (snd x) < 50"
  then show "\<exists>d' e'. before g m (Suc (idx ph)) (stage dbg ph (specials ph) nxt x) d' e' \<and>
      feed (d, e) (snd x) = feed (d', e') (snd (stage dbg ph (specials ph) nxt x)) \<and>
      length (snd (stage dbg ph (specials ph) nxt x)) \<le> length (snd x)"
    by (rule stage_holds [OF _ assms(1) _ assms(4)])
qed

lemma set_state_phase [simp]: "pr_state (set_state ph a b st) = ph"
  by (simp add: set_state_def)

lemma plain_stage:
  assumes "ph \<noteq> SEEKING_END_BYTE" "sp = specials ph" "idx b = Suc (idx ph)"
    and "\<And>d. length d = offset ph d + width ph d \<Longrightarrow> offset b d = length d \<and> width b d = n"
  shows "feeds g (idx ph) (idx b) dbg (stage dbg ph sp (set_state b n 0))"
proof (rule stage_feeds [OF assms(1,2,3)])
  fix m st d assume h: "holds m st d None" "pr_state st = ph" "length d = offset ph d + width ph d"
  show "holds m (set_state b n 0 st) d None \<and> idx (pr_state (set_state b n 0 st)) = Suc (idx ph)"
    using next_phase [OF h] assms(4) [OF h(3)] assms(3) by simp
qed

lemma length_stage:
  "feeds g 5 6 dbg (stage dbg SEEKING_PAYLOAD_LENGTH True
     (\<lambda>st. set_state SEEKING_PAYLOAD (unat (packet st ! (pr_pos st - 1))) 0 st))"
proof -
  let ?n = "\<lambda>st. set_state SEEKING_PAYLOAD (unat (packet st ! (pr_pos st - 1))) 0 st"
  have n: "holds m (?n st) d None \<and> idx (pr_state (?n st)) = Suc (idx SEEKING_PAYLOAD_LENGTH)"
    if h: "holds m st d None" "pr_state st = SEEKING_PAYLOAD_LENGTH"
      "length d = offset SEEKING_PAYLOAD_LENGTH d + width SEEKING_PAYLOAD_LENGTH d" for m st d
  proof -
    note hd = holdsD [OF h(1)]
    have l: "length d = 7" using h(3) by simp
    have "packet st ! 6 = d ! 6" using hd(3) l by (simp add: nth_append)
    then have "unat (packet st ! (pr_pos st - 1)) = payload_len d"
      using hd(2) l by (simp add: payload_len_def)
    with next_phase [OF h, of SEEKING_PAYLOAD "payload_len d"] l show ?thesis by simp
  qed
  have "feeds g (idx SEEKING_PAYLOAD_LENGTH) 6 dbg (stage dbg SEEKING_PAYLOAD_LENGTH True ?n)"
    by (rule stage_feeds [OF _ _ _ n]) (simp_all add: specials_def)
  then show ?thesis by (simp only: idx.simps)
qed

lemma head_feeds: "feeds g 0 6 dbg (head_stages dbg)"
proof -
  have s0: "feeds g 0 1 dbg (stage dbg SEEKING_START_BYTE False (set_state SEEKING_PACKET_TYPE 1 0))"
    by (rule plain_stage [where ph = SEEKING_START_BYTE and b = SEEKING_PACKET_TYPE, unfolded idx.simps])
      (simp_all add: specials_def)
  have s1: "feeds g 1 2 dbg (stage dbg SEEKING_PACKET_TYPE False (set_state SEEKING_DESTINATION_ADDRESS 2 0))"
    by (rule plain_stage [where ph = SEEKING_PACKET_TYPE and b = SEEKING_DESTINATION_ADDRESS, unfolded idx.simps])
      (simp_all add: specials_def)
  have s2: "feeds g 2 3 dbg (stage dbg SEEKING_DESTINATION_ADDRESS True (set_state SEEKING_AM_TYPE 1 0))"
    by (rule plain_stage [where ph = SEEKING_DESTINATION_ADDRESS and b = SEEKING_AM_TYPE, unfolded idx.simps])
      (simp_all add: specials_def)
  have s3: "feeds g 3 4 dbg (stage dbg SEEKING_AM_TYPE True (set_state SEEKING_AM_GROUP 1 0))"
    by (rule plain_stage [where ph = SEEKING_AM_TYPE and b = SEEKING_AM_GROUP, unfolded idx.simps])
      (simp_all add: specials_def)
  have s4: "feeds g 4 5 dbg (stage dbg SEEKING_AM_GROUP True (set_state SEEKING_PAYLOAD_LENGTH 1 0))"
    by (rule plain_stage [where ph = SEEKING_AM_GROUP and b = SEEKING_PAYLOAD_LENGTH, unfolded idx.simps])
      (simp_all add: specials_def)
  from feeds_comp [OF feeds_comp [OF feeds_comp [OF feeds_comp [OF feeds_comp [OF s0 s1] s2] s3] s4]
      length_stage]
  show ?thesis unfolding head_stages_def [abs_def] .
qed

lemma body_feeds: "feeds g 6 8 dbg (body_stages dbg)"
proof -
  have s6: "feeds g 6 7 dbg (stage dbg SEEKING_PAYLOAD True (set_state SEEKING_CRC 2 0))"
    by (rule plain_stage [where ph = SEEKING_PAYLOAD and b = SEEKING_CRC, unfolded idx.simps])
      (simp_all add: specials_def)
  have s7: "feeds g 7 8 dbg (stage dbg SEEKING_CRC True (set_state SEEKING_END_BYTE 1 0))"
    by (rule plain_stage [where ph = SEEKING_CRC and b = SEEKING_END_BYTE, unfolded idx.simps])
      (simp_all add: specials_def)
  from feeds_comp [OF s6 s7] show ?thesis unfolding body_stages_def [abs_def] .
qed

section \<open>A whole buffer\<close>

text \<open>The last byte of a packet: it fills the buffer and brings the machine back to its start.\<close>

lemma final_byte:
  assumes h: "holds m st d e" "\<not> full_packet d" and ph: "pr_state st = SEEKING_END_BYTE"
  shows "receive (d, e) c = (d @ [c], None)" and "full_packet (d @ [c])"
    and "parse_loop dbg False 0 st (c # cs) = (1, put_byte c st, cs)"
    and "packet (put_byte c st) = (d @ [c]) @ drop (length (d @ [c])) m"
    and "holds ((d @ [c]) @ drop (length (d @ [c])) m)
      (set_state SEEKING_START_BYTE 1 0 ((put_byte c st)\<lparr>pr_pos := 0, next_is_special := 0\<rparr>)) [] None"
    and "bytes_read st = 0" and "bytes_to_read st = 1"
proof -
  note hd = holdsD [OF h(1)]
  have ld: "length d = 9 + payload_len d" using hd(4,5) h(2) ph by (auto simp: full_packet_def)
  have rd: "bytes_read st = 0" "bytes_to_read st = 1" "pr_pos st = length d" "length d \<noteq> 300"
    using hd(2,6,7) ph ld payload_len_less [of d] by simp_all
  then show "bytes_read st = 0" "bytes_to_read st = 1" by simp_all
  have en: "e = None" using h(1) ph by (cases e) (auto simp: holds_def specials_def)
  show "receive (d, e) c = (d @ [c], None)" using ld en by (simp add: escaped_def)
  show "full_packet (d @ [c])" using ld by (simp add: full_packet_def)
  show "parse_loop dbg False 0 st (c # cs) = (1, put_byte c st, cs)"
    using rd by (cases cs) (simp_all add: parse_byte_def put_byte_def)
  have lm: "length m = 300" using h(1) by (simp add: holds_def)
  have pos: "length d < length m" using lm ld payload_len_less [of d] by simp
  show pk: "packet (put_byte c st) = (d @ [c]) @ drop (length (d @ [c])) m"
    using rd put_next [OF pos, of c] by (simp add: put_byte_def hd(3))
  then show "holds ((d @ [c]) @ drop (length (d @ [c])) m)
      (set_state SEEKING_START_BYTE 1 0 ((put_byte c st)\<lparr>pr_pos := 0, next_is_special := 0\<rparr>)) [] None"
    using lm pos by (simp add: holds_def set_state_def)
qed

lemma received_buf_cases:
  assumes h: "holds m st d e" "\<not> full_packet d"
  obtains st1 d1 e1 bs1 where "lunix_protocol_received_buf dbg now st sensors bs = Some (st1, sensors)"
      "holds m st1 d1 e1" "\<not> full_packet d1" "feed (d, e) bs = feed (d1, e1) bs1"
      "(dbg \<longrightarrow> length bs < 50) \<longrightarrow> bs1 = []"
  | d' st' where "feed (d, e) bs = (d', None)" "full_packet d'" "holds (d' @ drop (length d') m) st' [] None"
      "lunix_protocol_received_buf dbg now st sensors bs =
        map_option (\<lambda>ss. (st', ss)) (lunix_protocol_update_sensors now (d' @ drop (length d') m) sensors)"
proof -
  let ?g = "dbg \<longrightarrow> length bs < 50"
  have b0: "before ?g m 0 (st, bs) d e" using h by (simp add: before_def)
  have l: "?g \<longrightarrow> dbg \<longrightarrow> length (snd (st, bs)) < 50" by simp
  obtain d1 e1 where a: "before ?g m 8 (body_stages dbg (head_stages dbg (st, bs))) d1 e1"
    "feed (d, e) bs = feed (d1, e1) (snd (body_stages dbg (head_stages dbg (st, bs))))"
    by (rule feedsD [OF feeds_comp [OF head_feeds body_feeds] b0 l]) (simp only: snd_conv)
  obtain st1 bs1 where x: "body_stages dbg (head_stages dbg (st, bs)) = (st1, bs1)" by (metis surj_pair)
  have h1: "holds m st1 d1 e1" "\<not> full_packet d1" "pr_state st1 = SEEKING_END_BYTE \<or> (?g \<longrightarrow> bs1 = [])"
    using a(1) idx_inj [of "pr_state st1" SEEKING_END_BYTE] by (cases "pr_state st1"; auto simp: before_def x)+
  have f1: "feed (d, e) bs = feed (d1, e1) bs1" using a(2) by (simp add: x)
  note hd = holdsD [OF h1(1)]
  show thesis
  proof (cases "pr_state st1 = SEEKING_END_BYTE")
    case False
    then have "lunix_protocol_received_buf dbg now st sensors bs = Some (st1, sensors)"
      by (simp add: lunix_protocol_received_buf_def x)
    then show thesis by (rule that(1) [OF _ h1(1,2) f1]) (use False h1(3) in simp)
  next
    case ph: True
    show thesis
    proof (cases bs1)
      case Nil
      moreover note final_byte(6,7) [OF h1(1,2) ph]
      ultimately have "lunix_protocol_received_buf dbg now st sensors bs = Some (st1, sensors)"
        using ph by (simp add: lunix_protocol_received_buf_def x lunix_protocol_parse_state_def)
      then show thesis by (rule that(1) [OF _ h1(1,2) f1]) (use Nil in simp)
    next
      case c: (Cons c cs)
      note fin = final_byte [OF h1(1,2) ph]
      show thesis
      proof (rule that(2))
        show "feed (d, e) bs = (d1 @ [c], None)" using f1 fin(1,2) by (simp add: c del: receive.simps)
        show "full_packet (d1 @ [c])" by (rule fin(2))
        show "holds ((d1 @ [c]) @ drop (length (d1 @ [c])) m)
            (set_state SEEKING_START_BYTE 1 0 ((put_byte c st1)\<lparr>pr_pos := 0, next_is_special := 0\<rparr>)) [] None"
          by (rule fin(5))
        show "lunix_protocol_received_buf dbg now st sensors bs =
            map_option (\<lambda>ss. (set_state SEEKING_START_BYTE 1 0
                ((put_byte c st1)\<lparr>pr_pos := 0, next_is_special := 0\<rparr>), ss))
              (lunix_protocol_update_sensors now ((d1 @ [c]) @ drop (length (d1 @ [c])) m) sensors)"
          using ph fin(3) [of dbg c cs] fin(4) [of c] c
          by (cases "lunix_protocol_update_sensors now ((d1 @ [c]) @ drop (length (d1 @ [c])) m) sensors")
            (simp_all add: lunix_protocol_received_buf_def x lunix_protocol_parse_state_def)
      qed
    qed
  qed
qed

lemma received_buf_result:
  assumes h: "holds m st d e" "\<not> full_packet d" and dbg: "dbg \<longrightarrow> length bs < 50" and r: "feed (d, e) bs = (d', e')"
  shows "if full_packet d'
     then \<exists>st'. holds (d' @ drop (length d') m) st' [] None \<and>
       lunix_protocol_received_buf dbg now st sensors bs =
         map_option (\<lambda>ss. (st', ss)) (lunix_protocol_update_sensors now (d' @ drop (length d') m) sensors)
     else \<exists>st'. lunix_protocol_received_buf dbg now st sensors bs = Some (st', sensors) \<and> holds m st' d' e'"
proof (rule received_buf_cases [OF h, of dbg now sensors bs])
  fix st1 d1 e1 bs1
  assume c: "lunix_protocol_received_buf dbg now st sensors bs = Some (st1, sensors)" "holds m st1 d1 e1"
    "\<not> full_packet d1" "feed (d, e) bs = feed (d1, e1) bs1" "(dbg \<longrightarrow> length bs < 50) \<longrightarrow> bs1 = []"
  have "d' = d1" "e' = e1" using c(4,5) dbg r by simp_all
  with c(1-3) show ?thesis by simp
next
  fix d1 st' assume c: "feed (d, e) bs = (d1, None)" "full_packet d1" "holds (d1 @ drop (length d1) m) st' [] None"
    "lunix_protocol_received_buf dbg now st sensors bs =
      map_option (\<lambda>ss. (st', ss)) (lunix_protocol_update_sensors now (d1 @ drop (length d1) m) sensors)"
  have "d' = d1" using c(1) r by simp
  with c(2-4) show ?thesis by auto
qed

end
