(* ===== verification/Simulation.thy ===== *)
theory Simulation
  imports Main
begin

text \<open>
  Runs of a component over a list of inputs, and the interface of a component that implements an
  abstract one: every step of the one matches a step of the other, so the runs do.
\<close>

fun runs :: "('i \<Rightarrow> 'c \<Rightarrow> 'c option) \<Rightarrow> 'i list \<Rightarrow> 'c \<Rightarrow> 'c option" where
  "runs step [] c = Some c"
| "runs step (i # is) c = (case step i c of None \<Rightarrow> None | Some c' \<Rightarrow> runs step is c')"

lemma runs_append: "runs step (is @ js) c = (case runs step is c of None \<Rightarrow> None | Some c' \<Rightarrow> runs step js c')"
  by (induction "is" arbitrary: c) (auto split: option.splits)

locale simulation =
  fixes step :: "'i \<Rightarrow> 'c \<Rightarrow> 'c option"
    and astep :: "'i \<Rightarrow> 'a \<Rightarrow> 'a option"
    and rel :: "'c \<Rightarrow> 'a \<Rightarrow> bool"
    and ok :: "'i \<Rightarrow> bool"
  assumes step_sim: "rel c a \<Longrightarrow> ok i \<Longrightarrow> rel_option rel (step i c) (astep i a)"
begin

lemma runs_sim: "rel c a \<Longrightarrow> list_all ok is \<Longrightarrow> rel_option rel (runs step is c) (runs astep is a)"
proof (induction "is" arbitrary: c a)
  case (Cons i "is")
  have "rel_option rel (step i c) (astep i a)" using step_sim Cons.prems by simp
  then show ?case
    using Cons.IH Cons.prems(2) by (cases "step i c"; cases "astep i a") simp_all
qed simp

lemma runs_some:
  assumes "rel c a" "list_all ok is" "runs astep is a = Some a'"
  shows "\<exists>c'. runs step is c = Some c' \<and> rel c' a'"
  using runs_sim [OF assms(1,2)] assms(3) by (simp add: option_rel_Some2)

end

end
