(* ===== verification/Lunix_Ldisc.thy ===== *)
theory Lunix_Ldisc
  imports Lunix_Refine Simulation
begin

text \<open>
  The line discipline (\<^verbatim>\<open>lunix-ldisc.c\<close>): the operations of a TTY that is attached to it, and the
  stream of buffers the TTY layer hands over. \<open>lunix_disc_available\<close> is the atomic counter; the
  registration with the TTY layer is a parameter, \<open>reg\<close> its return value.
\<close>

section \<open>Operations\<close>

definition atomic_add_unless :: "int \<Rightarrow> int \<Rightarrow> int \<Rightarrow> bool \<times> int" where
  "atomic_add_unless v a u = (if v \<noteq> u then (True, v + a) else (False, v))"

text \<open>The last component is the \<^verbatim>\<open>receive_room\<close> of the TTY.\<close>

definition lunix_ldisc_open :: "bool \<Rightarrow> int \<Rightarrow> nat \<Rightarrow> int \<times> int \<times> nat" where
  "lunix_ldisc_open capable avail room =
     (if \<not> capable then (- EPERM, avail, room)
      else case atomic_add_unless avail (-1) 0 of
        (False, avail) \<Rightarrow> (- EBUSY, avail, room)
      | (True, avail) \<Rightarrow> (0, avail, 65536))"

definition lunix_ldisc_close :: "int \<Rightarrow> int" where
  "lunix_ldisc_close avail = avail + 1"

definition lunix_ldisc_receive_buf ::
  "bool \<Rightarrow> u32 \<times> byte list \<Rightarrow> proto \<times> lunix_sensor list \<Rightarrow> (proto \<times> lunix_sensor list) option" where
  "lunix_ldisc_receive_buf dbg i c =
     (case i of (now, cp) \<Rightarrow> case c of (st, sensors) \<Rightarrow> lunix_protocol_received_buf dbg now st sensors cp)"

definition lunix_ldisc_read :: "nat \<Rightarrow> int" where
  "lunix_ldisc_read cnt = - EIO"

definition lunix_ldisc_write :: "byte list \<Rightarrow> int" where
  "lunix_ldisc_write buf = - EIO"

text \<open>Registered or not, and the counter.\<close>

definition lunix_ldisc_init :: "int \<Rightarrow> int \<times> bool \<times> int" where
  "lunix_ldisc_init reg = (reg, reg = 0, 1)"

definition lunix_ldisc_destroy :: "bool \<Rightarrow> bool" where
  "lunix_ldisc_destroy registered = False"

section \<open>The stream of buffers\<close>

text \<open>The abstract line discipline: the receiver with what is left of earlier packets, and the
  sensors, which take every complete packet.\<close>

type_synonym astate = "(byte list \<times> byte list \<times> byte option) \<times> lunix_sensor list"

definition deliver :: "u32 \<times> byte list \<Rightarrow> astate \<Rightarrow> astate option" where
  "deliver i a = (case i of (now, bs) \<Rightarrow> case a of ((m, d, e), ss) \<Rightarrow>
     (case feed (d, e) bs of (d', e') \<Rightarrow>
        if full_packet d' then
          map_option (\<lambda>ss. ((d' @ drop (length d') m, [], None), ss))
            (lunix_protocol_update_sensors now (d' @ drop (length d') m) ss)
        else Some ((m, d', e'), ss)))"

definition linked :: "proto \<times> lunix_sensor list \<Rightarrow> astate \<Rightarrow> bool" where
  "linked c a \<longleftrightarrow> (case a of ((m, d, e), ss) \<Rightarrow> holds m (fst c) d e \<and> \<not> full_packet d \<and> ss = snd c)"

definition fits :: "bool \<Rightarrow> u32 \<times> byte list \<Rightarrow> bool" where
  "fits dbg i \<longleftrightarrow> (dbg \<longrightarrow> length (snd i) < 50)"

lemma complete_Nil [simp]: "\<not> full_packet []"
  by (simp add: full_packet_def)

lemma receive_sim:
  assumes "linked c a" "fits dbg i"
  shows "rel_option linked (lunix_ldisc_receive_buf dbg i c) (deliver i a)"
proof -
  obtain st ss where c: "c = (st, ss)" by (cases c)
  obtain now bs where i: "i = (now, bs)" by (cases i)
  obtain m d e where a: "a = ((m, d, e), ss)" and h: "holds m st d e" "\<not> full_packet d"
    using assms(1) by (cases a) (auto simp: linked_def c)
  obtain d' e' where f: "feed (d, e) bs = (d', e')" by (cases "feed (d, e) bs")
  have dbg: "dbg \<longrightarrow> length bs < 50" using assms(2) by (simp add: fits_def i)
  note res = received_buf_result [OF h dbg f, of now ss]
  let ?p = "d' @ drop (length d') m"
  show ?thesis
  proof (cases "full_packet d'")
    case False
    then obtain st' where "lunix_protocol_received_buf dbg now st ss bs = Some (st', ss)" "holds m st' d' e'"
      using res by auto
    with False f show ?thesis
      by (simp add: lunix_ldisc_receive_buf_def deliver_def linked_def a c i)
  next
    case True
    then obtain st' where r: "holds ?p st' [] None" "lunix_protocol_received_buf dbg now st ss bs =
        map_option (\<lambda>ss. (st', ss)) (lunix_protocol_update_sensors now ?p ss)"
      using res by auto
    with True f show ?thesis
      by (cases "lunix_protocol_update_sensors now ?p ss")
        (simp_all add: lunix_ldisc_receive_buf_def deliver_def linked_def a c i)
  qed
qed

interpretation ldisc: simulation "lunix_ldisc_receive_buf dbg" deliver linked "fits dbg"
  by unfold_locales (rule receive_sim)

section \<open>Sensors that are set up\<close>

definition sensors_ready :: "lunix_sensor list \<Rightarrow> bool" where
  "sensors_ready ss \<longleftrightarrow> list_all sensor_ready ss"

lemma update_sensors_ready:
  assumes "sensors_ready ss"
  shows "\<exists>ss'. lunix_protocol_update_sensors now p ss = Some ss' \<and> sensors_ready ss' \<and> length ss' = length ss"
proof -
  let ?n = "unat (uint16_from_packet p NODE_OFFSET)"
  show ?thesis
  proof (cases "p ! PACKET_SIGNATURE_OFFSET = 0x0B \<and> 0 < ?n \<and> ?n \<le> length ss")
    case True
    then have "?n - 1 < length ss" by linarith
    then have "sensor_ready (ss ! (?n - 1))" using assms by (simp add: sensors_ready_def list_all_length)
    from sensor_update_ready [OF this] obtain s' where
      s': "lunix_sensor_update now (uint16_from_packet p VREF_OFFSET) (uint16_from_packet p TEMPERATURE_OFFSET)
        (uint16_from_packet p LIGHT_OFFSET) (ss ! (?n - 1)) = Some s'" "sensor_ready s'" by blast
    have "sensors_ready (ss[?n - 1 := s'])"
      using assms s'(2) unfolding sensors_ready_def list_all_length
      by (metis length_list_update nth_list_update_eq nth_list_update_neq)
    with True s'(1) show ?thesis by (auto simp: lunix_protocol_update_sensors_def Let_def)
  next
    case False
    then have "lunix_protocol_update_sensors now p ss = Some ss"
      unfolding lunix_protocol_update_sensors_def Let_def by auto
    with assms show ?thesis by simp
  qed
qed

lemma deliver_ready:
  assumes "sensors_ready (snd a)"
  shows "\<exists>a'. deliver i a = Some a' \<and> sensors_ready (snd a') \<and> length (snd a') = length (snd a)"
proof -
  obtain now bs m d e ss where ia: "i = (now, bs)" "a = ((m, d, e), ss)" by (metis surj_pair)
  obtain d' e' where f: "feed (d, e) bs = (d', e')" by (cases "feed (d, e) bs")
  show ?thesis
  proof (cases "full_packet d'")
    case True
    obtain ss' where "lunix_protocol_update_sensors now (d' @ drop (length d') m) ss = Some ss'"
      "sensors_ready ss'" "length ss' = length ss"
      using update_sensors_ready assms ia by fastforce
    with True f ia show ?thesis by (simp add: deliver_def)
  next
    case False
    with f ia assms show ?thesis by (simp add: deliver_def)
  qed
qed

lemma deliver_runs_ready:
  "sensors_ready (snd a) \<Longrightarrow> \<exists>a'. runs deliver is a = Some a' \<and> sensors_ready (snd a') \<and> length (snd a') = length (snd a)"
proof (induction "is" arbitrary: a)
  case (Cons i "is")
  obtain a1 where "deliver i a = Some a1" "sensors_ready (snd a1)" "length (snd a1) = length (snd a)"
    using deliver_ready [OF Cons.prems] by blast
  with Cons.IH [of a1] show ?case by simp
qed simp

lemma init_holds: "length (packet st) = MAX_PACKET_LEN \<Longrightarrow> holds (packet st) (lunix_protocol_init st) [] None"
  by (simp add: holds_def lunix_protocol_init_def set_state_def)

lemma holds_start:
  assumes "holds m st [] None"
  shows "lunix_protocol_init st = st"
proof -
  note hd = holdsD [OF assms]
  have "pr_state st = SEEKING_START_BYTE" using hd(4) by (cases "pr_state st") simp_all
  moreover from this have "bytes_read st = 0" "bytes_to_read st = 1" using hd(6,7) by simp_all
  moreover have "next_is_special st = 0" using assms by (simp add: holds_def)
  ultimately show ?thesis
    using hd(2) by (cases st) (simp add: lunix_protocol_init_def set_state_def)
qed

end
