(* ===== verification/Lunix_Stream.thy ===== *)
theory Lunix_Stream
  imports Lunix_Ldisc
begin

text \<open>
  Streams of buffers: the wire format of a packet, what the receiver makes of a packet that is
  cut into buffers, and the invariant of the protocol's state under arbitrary bytes.
\<close>

section \<open>The wire format\<close>

definition escape :: "byte \<Rightarrow> byte list" where
  "escape c = (if c = 0x7E \<or> c = 0x7D then [0x7D, c XOR 0x20] else [c])"

text \<open>All but the first two bytes and the last one are escaped.\<close>

definition wire :: "byte list \<Rightarrow> byte list" where
  "wire d = take 2 d @ concat (map escape (drop 2 (butlast d))) @ [last d]"

lemma feed_append:
  "\<not> full_packet (fst (feed x a)) \<Longrightarrow> feed x (a @ b) = feed (feed x a) b"
  by (induction x a rule: feed.induct) (auto simp del: receive.simps)

lemma feed_stops: "full_packet (fst (feed x a)) \<Longrightarrow> \<not> full_packet (fst x) \<Longrightarrow> feed x (a @ b) = feed x a"
  by (induction x a rule: feed.induct) (auto simp del: receive.simps split: if_splits)

lemma feed_prefix:
  assumes "\<not> full_packet (fst (feed x (a @ b)))" "\<not> full_packet (fst x)"
  shows "\<not> full_packet (fst (feed x a))" "feed x (a @ b) = feed (feed x a) b"
proof -
  show n: "\<not> full_packet (fst (feed x a))" using feed_stops assms by metis
  show "feed x (a @ b) = feed (feed x a) b" by (rule feed_append [OF n])
qed

lemma xor_escape: "(c XOR 0x20) XOR 0x20 = (c :: byte)"
  by (simp add: xor.assoc)

lemma feed_escape:
  assumes "escaped d" "\<not> full_packet (d @ [c])"
  shows "feed (d, None) (escape c) = (d @ [c], None)"
proof -
  have "\<not> full_packet d" using assms(1) by (auto simp: escaped_def full_packet_def)
  with assms xor_escape [of c] show ?thesis by (simp add: escape_def)
qed

lemma feed_plain: "\<not> escaped d \<Longrightarrow> feed (d, None) [c] = (d @ [c], None)"
  by simp

text \<open>A packet up to its end byte.\<close>

lemma whole_packet:
  assumes "full_packet d" "n < length d"
  shows "\<not> full_packet (take n d)" "escaped (take n d) \<longleftrightarrow> 2 \<le> n \<and> n < length d - 1"
proof -
  have l: "length d = 10 + payload_len d" using assms(1) by (simp add: full_packet_def)
  have p: "7 \<le> n \<Longrightarrow> payload_len (take n d) = payload_len d" using assms(2) by (simp add: payload_len_def)
  show "\<not> full_packet (take n d)" using l p assms(2) by (auto simp: full_packet_def)
  show "escaped (take n d) \<longleftrightarrow> 2 \<le> n \<and> n < length d - 1"
    using l p assms(2) by (auto simp: escaped_def)
qed

lemma feed_middle:
  assumes "full_packet d" "n \<le> length d - 1 - 2"
  shows "feed (take 2 d, None) (concat (map escape (take n (drop 2 d)))) = (take (2 + n) d, None)"
  using assms(2)
proof (induction n)
  case (Suc n)
  have n: "2 + n < length d - 1" "2 + n < length d" "n \<le> length d - 1 - 2" using Suc.prems by linarith+
  have t: "take (Suc n) (drop 2 d) = take n (drop 2 d) @ [d ! (2 + n)]"
    using n(2) by (simp add: take_Suc_conv_app_nth)
  have tk: "take (2 + Suc n) d = take (2 + n) d @ [d ! (2 + n)]"
    using n(2) by (simp add: take_Suc_conv_app_nth)
  have nc: "\<not> full_packet (take (2 + n) d)" by (rule whole_packet [OF assms(1) n(2)])
  have "\<not> full_packet (take (2 + Suc n) d)"
    by (rule whole_packet [OF assms(1)]) (use n in linarith)
  then have nc': "\<not> full_packet (take (2 + n) d @ [d ! (2 + n)])" unfolding tk .
  have e: "escaped (take (2 + n) d)" using whole_packet(2) [OF assms(1) n(2)] n(1) by simp
  have "feed (take 2 d, None) (concat (map escape (take n (drop 2 d))) @ escape (d ! (2 + n))) =
      feed (take (2 + n) d, None) (escape (d ! (2 + n)))"
    using Suc.IH [OF n(3)] nc by (subst feed_append) simp_all
  with feed_escape [OF e nc'] show ?case unfolding t tk by simp
qed simp

lemma feed_wire_body:
  assumes "full_packet d"
  shows "feed ([], None) (butlast (wire d)) = (butlast d, None)"
proof -
  have l: "length d = 10 + payload_len d" using assms by (simp add: full_packet_def)
  have t0: "feed ([], None) (take 2 d) = (take 2 d, None)"
  proof -
    obtain a b r where d: "d = a # b # r" using l by (cases d; cases "tl d") auto
    show ?thesis by (simp add: d escaped_def full_packet_def)
  qed
  have nc: "\<not> full_packet (take 2 d)" by (rule whole_packet [OF assms]) (simp add: l)
  have b: "drop 2 (butlast d) = take (length d - 1 - 2) (drop 2 d)"
    using l by (simp add: butlast_conv_take drop_take)
  have "feed ([], None) (butlast (wire d)) = feed (take 2 d, None) (concat (map escape (drop 2 (butlast d))))"
    using t0 nc by (simp add: wire_def butlast_append feed_append)
  also have "... = (take (2 + (length d - 1 - 2)) d, None)" unfolding b by (rule feed_middle [OF assms]) simp
  finally show ?thesis using l by (simp add: butlast_conv_take)
qed

lemma feed_wire:
  assumes "full_packet d"
  shows "feed ([], None) (wire d) = (d, None)"
proof -
  have l: "length d = 10 + payload_len d" using assms by (simp add: full_packet_def)
  have w: "wire d = butlast (wire d) @ [last d]" by (simp add: wire_def butlast_append)
  have d: "d = butlast d @ [last d]" "butlast d = take (length d - 1) d"
    using l by (metis append_butlast_last_id list.size(3) add_is_0 zero_neq_numeral) (simp add: butlast_conv_take)
  have n: "length d - 1 < length d" using l by simp
  have nc: "\<not> full_packet (butlast d)" unfolding d(2) by (rule whole_packet [OF assms n])
  have ne: "\<not> escaped (butlast d)" unfolding d(2) using whole_packet(2) [OF assms n] by simp
  have "feed ([], None) (wire d) = feed (butlast d, None) [last d]"
    using feed_append [of "([], None)" "butlast (wire d)" "[last d]"] feed_wire_body [OF assms] nc w
    by (metis fst_conv)
  also have "... = (d, None)" using feed_plain [OF ne] d(1) by simp
  finally show ?thesis .
qed

section \<open>A packet in several buffers\<close>

lemma deliver_part:
  assumes "\<not> full_packet (fst (feed (d, e) (concat (map snd bufs))))" "\<not> full_packet d"
  shows "runs deliver bufs ((m, d, e), ss) = Some ((m, feed (d, e) (concat (map snd bufs))), ss)"
  using assms
proof (induction bufs arbitrary: d e)
  case (Cons b bufs)
  obtain now bs where b: "b = (now, bs)" by (cases b)
  have c: "\<not> full_packet (fst (feed (d, e) (bs @ concat (map snd bufs))))" using Cons.prems(1) b by simp
  obtain d1 e1 where f: "feed (d, e) bs = (d1, e1)" by (cases "feed (d, e) bs")
  have nc: "\<not> full_packet d1" using feed_prefix(1) [OF c] Cons.prems(2) f by simp
  have r: "feed (d, e) (bs @ concat (map snd bufs)) = feed (d1, e1) (concat (map snd bufs))"
    using feed_prefix(2) [OF c] Cons.prems(2) f by simp
  have "deliver b ((m, d, e), ss) = Some ((m, d1, e1), ss)" using f nc by (simp add: deliver_def b)
  with Cons.IH [of d1 e1] c r nc b show ?case by simp
qed simp

lemma deliver_packet:
  assumes "full_packet d" "concat (map snd bufs) @ b = wire d" "b \<noteq> []"
  shows "runs deliver (bufs @ [(now, b)]) ((m, [], None), ss) =
    map_option (\<lambda>ss. ((d @ drop (length d) m, [], None), ss))
      (lunix_protocol_update_sensors now (d @ drop (length d) m) ss)"
proof -
  let ?x = "feed ([], None) (concat (map snd bufs))"
  have w: "concat (map snd bufs) @ butlast b = butlast (wire d)"
    using assms(2,3) by (metis butlast_append)
  have l: "length d = 10 + payload_len d" using assms(1) by (simp add: full_packet_def)
  have n: "length d - 1 < length d" using l by simp
  have bd: "\<not> full_packet (fst (feed ([], None) (concat (map snd bufs) @ butlast b)))"
    unfolding w feed_wire_body [OF assms(1)] using whole_packet(1) [OF assms(1) n]
    by (simp add: butlast_conv_take)
  have nc: "\<not> full_packet (fst ?x)" by (rule feed_prefix(1) [OF bd]) simp
  have f: "feed ?x b = (d, None)"
    using feed_append [OF nc, of b] assms(2) feed_wire [OF assms(1)] by simp
  obtain d1 e1 where x: "?x = (d1, e1)" by (cases ?x)
  have "runs deliver bufs ((m, [], None), ss) = Some ((m, d1, e1), ss)"
    using deliver_part [OF nc, of m ss] by (simp add: x)
  with f x assms(1) show ?thesis
    by (cases "lunix_protocol_update_sensors now (d @ drop (length d) m) ss")
      (simp_all add: runs_append deliver_def)
qed

section \<open>Arbitrary bytes\<close>

definition proto_wf :: "proto \<Rightarrow> bool" where
  "proto_wf st \<longleftrightarrow> length (packet st) = MAX_PACKET_LEN \<and> pr_pos st \<le> 265 \<and>
     pr_pos st = offset (pr_state st) (packet st) + bytes_read st \<and>
     bytes_read st \<le> bytes_to_read st \<and> bytes_to_read st = width (pr_state st) (packet st) \<and>
     next_is_special st \<in> {0, 0x7D, 0x7E}"

definition linked_some :: "proto \<Rightarrow> bool" where
  "linked_some st \<longleftrightarrow> (\<exists>m d e. holds m st d e \<and> \<not> full_packet d)"

lemma linked_some_wf:
  assumes "linked_some st"
  shows "proto_wf st"
proof -
  obtain m d e where h: "holds m st d e" using assms unfolding linked_some_def by blast
  note hd = holdsD [OF h]
  have pl: "payload_len (packet st) = payload_len d" if "7 \<le> length d" using hd(3) that by simp
  have o: "offset (pr_state st) (packet st) = offset (pr_state st) d"
    "width (pr_state st) (packet st) = width (pr_state st) d"
    using hd(4,5) pl by (cases "pr_state st"; simp)+
  have e: "next_is_special st = (case e of None \<Rightarrow> 0 | Some x \<Rightarrow> x)"
    "\<forall>x. e = Some x \<longrightarrow> x = 0x7E \<or> x = 0x7D"
    using h by (simp_all add: holds_def)
  have "next_is_special st \<in> {0, 0x7D, 0x7E}" using e by (cases e) auto
  moreover have "pr_pos st = offset (pr_state st) (packet st) + bytes_read st"
    "bytes_read st \<le> bytes_to_read st"
    unfolding hd(2,6,7) o using hd(4,5) by linarith+
  ultimately show ?thesis unfolding proto_wf_def using hd(1,2,7,8) o by simp
qed

lemma received_buf_any:
  assumes "linked_some st" "sensors_ready ss"
  shows "\<exists>st' ss'. lunix_protocol_received_buf dbg now st ss bs = Some (st', ss') \<and>
    linked_some st' \<and> sensors_ready ss' \<and> length ss' = length ss"
proof -
  obtain m d e where h: "holds m st d e" "\<not> full_packet d" using assms(1) unfolding linked_some_def by blast
  show ?thesis
  proof (rule received_buf_cases [OF h, of dbg now ss bs])
    fix st1 d1 e1 assume "lunix_protocol_received_buf dbg now st ss bs = Some (st1, ss)" "holds m st1 d1 e1"
      "\<not> full_packet d1"
    with assms(2) show ?thesis by (auto simp: linked_some_def)
  next
    fix d1 st' assume c: "holds (d1 @ drop (length d1) m) st' [] None"
      "lunix_protocol_received_buf dbg now st ss bs =
        map_option (\<lambda>ss. (st', ss)) (lunix_protocol_update_sensors now (d1 @ drop (length d1) m) ss)"
    have "linked_some st'" using c(1) complete_Nil unfolding linked_some_def by blast
    with c(2) update_sensors_ready [OF assms(2), of now "d1 @ drop (length d1) m"] show ?thesis by auto
  qed
qed

lemma stream_any:
  assumes "linked_some st" "sensors_ready ss"
  shows "\<exists>st' ss'. runs (lunix_ldisc_receive_buf dbg) bufs (st, ss) = Some (st', ss') \<and>
    linked_some st' \<and> sensors_ready ss' \<and> length ss' = length ss"
  using assms
proof (induction bufs arbitrary: st ss)
  case (Cons b bufs)
  obtain now bs where b: "b = (now, bs)" by (cases b)
  obtain st1 ss1 where r: "lunix_protocol_received_buf dbg now st ss bs = Some (st1, ss1)"
    "linked_some st1" "sensors_ready ss1" "length ss1 = length ss"
    using received_buf_any [OF Cons.prems] by blast
  with Cons.IH [OF r(2,3)] show ?case by (simp add: b lunix_ldisc_receive_buf_def)
qed simp

lemma init_linked: "length (packet st) = MAX_PACKET_LEN \<Longrightarrow> linked_some (lunix_protocol_init st)"
  using init_holds complete_Nil unfolding linked_some_def by blast

end
