(* ===== verification/Lunix_Thms.thy ===== *)
theory Lunix_Thms
  imports Lunix_Stream
begin

text \<open>
  The properties of the sensor protocol and of the line discipline that feeds it, with a packet
  that has every kind of escaped byte as their example.
\<close>

section \<open>The protocol implements the abstract receiver\<close>

text \<open>
  C28. A stream of buffers goes through the protocol's state machine as it goes through the
  abstract receiver, however the packets are cut into buffers: the sensors take the same packets,
  and the state holds the bytes that the receiver has collected. No call fails when the sensors
  are set up. In the debugging build this needs buffers below the limit of its loop.
\<close>

theorem lunix_stream_refines:
  assumes "length (packet st) = MAX_PACKET_LEN" "sensors_ready ss" "list_all (fits dbg) bufs"
  shows "\<exists>st' m d e ss'.
    runs (lunix_ldisc_receive_buf dbg) bufs (lunix_protocol_init st, ss) = Some (st', ss') \<and>
    runs deliver bufs ((packet st, [], None), ss) = Some ((m, d, e), ss') \<and>
    holds m st' d e \<and> \<not> full_packet d \<and> sensors_ready ss' \<and> length ss' = length ss"
proof -
  let ?a = "((packet st, [], None), ss) :: astate"
  have l: "linked (lunix_protocol_init st, ss) ?a" using init_holds [OF assms(1)] by (simp add: linked_def)
  obtain a' where a: "runs deliver bufs ?a = Some a'" "sensors_ready (snd a')" "length (snd a') = length ss"
    using deliver_runs_ready [of ?a bufs] assms(2) by auto
  obtain c' where c: "runs (lunix_ldisc_receive_buf dbg) bufs (lunix_protocol_init st, ss) = Some c'" "linked c' a'"
    using ldisc.runs_some [OF l assms(3) a(1)] by blast
  obtain m d e ss' where x: "a' = ((m, d, e), ss')" by (metis surj_pair)
  show ?thesis
    using a c by (intro exI [of _ "fst c'"] exI [of _ m] exI [of _ d] exI [of _ e] exI [of _ ss'])
      (auto simp: x linked_def)
qed

definition ex_proto :: proto where
  "ex_proto = \<lparr>pr_state = SEEKING_START_BYTE, bytes_read = 0, bytes_to_read = 0, pr_pos = 0,
     next_is_special = 0, packet = replicate 300 0\<rparr>"

definition ex_sensors :: "lunix_sensor list" where
  "ex_sensors = replicate 2 (snd (lunix_sensor_init (\<lambda>_. True)))"

definition ex_packet :: "byte list" where
  "ex_packet = [0x7E, 0x45, 0xFF, 0xFF, 0x0B, 0x7D, 17, 0, 0, 2, 0, 0, 0, 0, 0, 0, 0, 0,
     0x7E, 0x01, 0x7D, 0x02, 0x34, 0x12, 0xAA, 0xBB, 0x7E]"

lemma ex_sensors_ready: "sensors_ready ex_sensors"
  using sensor_init_ready [of "\<lambda>_. True" "snd (lunix_sensor_init (\<lambda>_. True))"]
  by (simp add: ex_sensors_def sensors_ready_def lunix_sensor_init_def numeral_2_eq_2)

lemma ex_proto_length: "length (packet ex_proto) = MAX_PACKET_LEN"
  by (simp add: ex_proto_def)

theorem lunix_stream_refines_witness:
  "\<exists>st' m d e ss'.
    runs (lunix_ldisc_receive_buf True) [(7, [0x7E, 0x45]), (8, [0x7D])] (lunix_protocol_init ex_proto, ex_sensors) =
      Some (st', ss') \<and>
    runs deliver [(7, [0x7E, 0x45]), (8, [0x7D])] ((packet ex_proto, [], None), ex_sensors) = Some ((m, d, e), ss') \<and>
    holds m st' d e \<and> \<not> full_packet d \<and> sensors_ready ss' \<and> length ss' = length ex_sensors"
  by (rule lunix_stream_refines [OF ex_proto_length ex_sensors_ready]) (simp add: fits_def)

section \<open>A packet arrives\<close>

text \<open>
  C29. A complete measurement packet that is sent with its escapes, cut into buffers in any way
  that \<open>fits\<close> (with \<^verbatim>\<open>LUNIX_DEBUG\<close>, the default of the Makefile, every buffer below 50 bytes: the
  parser's debugging limit gives up in the 50th round of a field), to pages that are allocated,
  sets the measurements of the sensor it names to the values it carries, wakes the sensor's
  sleepers and leaves the protocol ready for the next packet; the other sensors stay as they are.
\<close>

theorem lunix_packet_roundtrip:
  assumes "length (packet st) = MAX_PACKET_LEN" "sensors_ready ss"
    and "full_packet d" "24 \<le> length d" "d ! PACKET_SIGNATURE_OFFSET = 0x0B"
    and "0 < n" "n \<le> length ss" "n = unat (le16_at d NODE_OFFSET)"
    and "concat (map snd bufs) @ b = wire d" "b \<noteq> []" "list_all (fits dbg) (bufs @ [(now, b)])"
  shows "\<exists>st' s'.
    runs (lunix_ldisc_receive_buf dbg) (bufs @ [(now, b)]) (lunix_protocol_init st, ss) =
      Some (st', ss[n - 1 := s']) \<and>
    (\<forall>m. map_option msr_value (msr_data s' m) = Some (ucast (case m of
        BATT \<Rightarrow> le16_at d VREF_OFFSET | TEMP \<Rightarrow> le16_at d TEMPERATURE_OFFSET | LIGHT \<Rightarrow> le16_at d LIGHT_OFFSET)) \<and>
      map_option last_update (msr_data s' m) = Some now) \<and>
    sleepers s' = {} \<and> lunix_protocol_init st' = st'"
proof -
  let ?a = "((packet st, [], None), ss) :: astate"
  let ?p = "d @ drop (length d) (packet st)"
  have l: "linked (lunix_protocol_init st, ss) ?a" using init_holds [OF assms(1)] by (simp add: linked_def)
  have f: "le16_at ?p k = le16_at d k" if "k \<le> LIGHT_OFFSET" for k
    using that assms(4) by (simp add: le16_at_def nth_append)
  have "n - 1 < length ss" using assms(6,7) by linarith
  then have "sensor_ready (ss ! (n - 1))" using assms(2) by (simp add: sensors_ready_def list_all_length)
  from sensor_update_ready [OF this, of now "le16_at d VREF_OFFSET" "le16_at d TEMPERATURE_OFFSET"
      "le16_at d LIGHT_OFFSET"]
  obtain s' where s': "lunix_sensor_update now (le16_at d VREF_OFFSET) (le16_at d TEMPERATURE_OFFSET)
      (le16_at d LIGHT_OFFSET) (ss ! (n - 1)) = Some s'" "sleepers s' = {}"
    "\<forall>m. map_option msr_value (msr_data s' m) = Some (ucast (case m of
        BATT \<Rightarrow> le16_at d VREF_OFFSET | TEMP \<Rightarrow> le16_at d TEMPERATURE_OFFSET | LIGHT \<Rightarrow> le16_at d LIGHT_OFFSET)) \<and>
      map_option last_update (msr_data s' m) = Some now" by blast
  have "?p ! PACKET_SIGNATURE_OFFSET = 0x0B" using assms(4,5) by (simp add: nth_append)
  then have u: "lunix_protocol_update_sensors now ?p ss = Some (ss[n - 1 := s'])"
    using f s'(1) assms(6-8) by (simp add: lunix_protocol_update_sensors_def uint16_from_packet_def Let_def)
  have "runs deliver (bufs @ [(now, b)]) ?a = Some ((?p, [], None), ss[n - 1 := s'])"
    unfolding deliver_packet [OF assms(3,9,10)] u by simp
  from ldisc.runs_some [OF l assms(11) this] obtain st' where
    c: "runs (lunix_ldisc_receive_buf dbg) (bufs @ [(now, b)]) (lunix_protocol_init st, ss) =
      Some (st', ss[n - 1 := s'])" "holds ?p st' [] None"
    by (auto simp: linked_def)
  have "lunix_protocol_init st' = st'" by (rule holds_start [OF c(2)])
  with c(1) s' show ?thesis by blast
qed


lemma ex_packet_complete: "full_packet ex_packet"
  by (simp add: full_packet_def payload_len_def ex_packet_def)

theorem lunix_packet_roundtrip_witness:
  "\<exists>st' s'.
    runs (lunix_ldisc_receive_buf True) ([(8, take 9 (wire ex_packet))] @ [(9, drop 9 (wire ex_packet))])
      (lunix_protocol_init ex_proto, ex_sensors) = Some (st', ex_sensors[2 - 1 := s']) \<and>
    (\<forall>m. map_option msr_value (msr_data s' m) = Some (ucast (case m of
        BATT \<Rightarrow> le16_at ex_packet VREF_OFFSET | TEMP \<Rightarrow> le16_at ex_packet TEMPERATURE_OFFSET
        | LIGHT \<Rightarrow> le16_at ex_packet LIGHT_OFFSET)) \<and>
      map_option last_update (msr_data s' m) = Some 9) \<and>
    sleepers s' = {} \<and> lunix_protocol_init st' = st'"
proof (rule lunix_packet_roundtrip [OF ex_proto_length ex_sensors_ready ex_packet_complete])
  have w: "wire ex_packet = [0x7E, 0x45, 0xFF, 0xFF, 0x0B, 0x7D, 0x5D, 17, 0, 0, 2, 0, 0, 0, 0, 0, 0, 0, 0,
     0x7D, 0x5E, 0x01, 0x7D, 0x5D, 0x02, 0x34, 0x12, 0xAA, 0xBB, 0x7E]"
    by (simp add: wire_def ex_packet_def escape_def)
  show "concat (map snd [(8, take 9 (wire ex_packet))]) @ drop 9 (wire ex_packet) = wire ex_packet"
    by simp
  show "drop 9 (wire ex_packet) \<noteq> []" unfolding w by simp
  show "list_all (fits True) ([(8, take 9 (wire ex_packet))] @ [(9, drop 9 (wire ex_packet))])"
    unfolding w by (simp add: fits_def)
  show "24 \<le> length ex_packet" "ex_packet ! PACKET_SIGNATURE_OFFSET = 0x0B" "2 = unat (le16_at ex_packet NODE_OFFSET)"
    by (simp_all add: ex_packet_def le16_at_def)
  show "(0::nat) < 2" "2 \<le> length ex_sensors" by (simp_all add: ex_sensors_def)
qed

section \<open>Arbitrary bytes\<close>

text \<open>
  C30. Whatever bytes arrive, in the debugging build or not, the state of the protocol keeps its
  invariant: the position in the packet is the start of the field plus the bytes read of it and
  stays below the end of the packet's buffer, so that the check against an overflow never acts.
  The sensors stay set up, and no call fails.
\<close>

theorem lunix_protocol_invariant:
  assumes "length (packet st) = MAX_PACKET_LEN" "sensors_ready ss"
  shows "\<exists>st' ss'. runs (lunix_ldisc_receive_buf dbg) bufs (lunix_protocol_init st, ss) = Some (st', ss') \<and>
    proto_wf st' \<and> pr_pos st' < MAX_PACKET_LEN \<and> sensors_ready ss' \<and> length ss' = length ss"
proof -
  obtain st' ss' where r: "runs (lunix_ldisc_receive_buf dbg) bufs (lunix_protocol_init st, ss) = Some (st', ss')"
    "linked_some st'" "sensors_ready ss'" "length ss' = length ss"
    using stream_any [OF init_linked [OF assms(1)] assms(2)] by blast
  have "proto_wf st'" by (rule linked_some_wf [OF r(2)])
  moreover from this have "pr_pos st' < MAX_PACKET_LEN" by (simp add: proto_wf_def)
  ultimately show ?thesis using r by blast
qed

theorem lunix_protocol_invariant_witness:
  "\<exists>st' ss'. runs (lunix_ldisc_receive_buf True) [(7, replicate 60 0x7E)] (lunix_protocol_init ex_proto, ex_sensors) =
      Some (st', ss') \<and>
    proto_wf st' \<and> pr_pos st' < MAX_PACKET_LEN \<and> sensors_ready ss' \<and> length ss' = length ex_sensors"
  by (rule lunix_protocol_invariant [OF ex_proto_length ex_sensors_ready])

end
