(* ===== verification/Double.thy ===== *)
theory Double
  imports Complex_Main "HOL-Library.Log_Nat"
begin

text \<open>
  Arithmetic of the C type \<^verbatim>\<open>double\<close> in its normal range: the rational result of an operation, rounded
  to 53 significant bits, to the nearest and to the even one of two. Infinities, subnormal numbers
  and overflow do not occur in what uses it.
\<close>

section \<open>Rounding\<close>

text \<open>The position of the leading bit.\<close>

definition exponent_of :: "rat \<Rightarrow> int" where
  "exponent_of x =
     (case quotient_of x of (a, b) \<Rightarrow>
        let k = bitlen a - bitlen b
        in if 2 powi k \<le> x then k else k - 1)"

definition round_even :: "rat \<Rightarrow> int" where
  "round_even x =
     (let f = \<lfloor>x\<rfloor>; d = x - of_int f
      in if d < 1 / 2 then f else if 1 / 2 < d then f + 1 else if even f then f else f + 1)"

definition rnd :: "rat \<Rightarrow> rat" where
  "rnd x = (if x = 0 then 0 else (let u = 2 powi (exponent_of \<bar>x\<bar> - 52) in of_int (round_even (x / u)) * u))"

section \<open>The relative error\<close>

lemma bitlen_powi:
  assumes "0 < (a :: int)"
  shows "2 powi (bitlen a - 1) \<le> (of_int a :: rat)" "of_int a < (2 powi bitlen a :: rat)"
proof -
  obtain n where n: "bitlen a = int n + 1"
    using bitlen_nonneg [of a] bitlen_eq_zero_iff [of a] assms
    by (metis add.commute add_diff_cancel_left' diff_add_cancel not_le nonneg_int_cases zle_diff1_eq le_less)
  have b: "2 ^ nat (bitlen a - 1) \<le> a" "a < 2 ^ nat (bitlen a)" using bitlen_bounds [OF assms] by simp_all
  have "(of_int (2 ^ n) :: rat) \<le> of_int a" unfolding of_int_le_iff using b(1) by (simp add: n)
  moreover have "(of_int a :: rat) < of_int (2 ^ Suc n)"
    unfolding of_int_less_iff using b(2) by (simp add: n nat_add_distrib)
  ultimately show "2 powi (bitlen a - 1) \<le> (of_int a :: rat)" "of_int a < (2 powi bitlen a :: rat)"
    by (simp_all add: n power_int_add)
qed

lemma exponent_of_bounds:
  assumes "0 < x"
  shows "2 powi exponent_of x \<le> x" "x < 2 powi (exponent_of x + 1)"
proof -
  obtain a b where q: "quotient_of x = (a, b)" by fastforce
  have b: "0 < b" and x: "x = of_int a / of_int b"
    using quotient_of_denom_pos [OF q] quotient_of_div [OF q] by simp_all
  have a: "0 < a" using assms b x by (simp add: zero_less_divide_iff)
  let ?k = "bitlen a - bitlen b"
  note la = bitlen_powi [OF a] and lb = bitlen_powi [OF b]
  have "x < (2 powi bitlen a) / (2 powi (bitlen b - 1))"
    unfolding x using la lb a b by (intro frac_less) auto
  also have "... = 2 powi (?k + 1)" by (simp add: power_int_diff [symmetric] algebra_simps)
  finally have up: "x < 2 powi (?k + 1)" .
  have "2 powi (?k - 1) = (2 powi (bitlen a - 1)) / (2 powi bitlen b :: rat)"
    by (simp add: power_int_diff [symmetric] algebra_simps)
  also have "... \<le> x" unfolding x using la lb a b by (intro frac_le) auto
  finally have low: "2 powi (?k - 1) \<le> x" .
  show "2 powi exponent_of x \<le> x" "x < 2 powi (exponent_of x + 1)"
    using up low by (simp_all add: exponent_of_def q Let_def)
qed

lemma round_even_error: "\<bar>of_int (round_even x) - x\<bar> \<le> 1 / 2"
  using floor_correct [of x] by (auto simp: round_even_def Let_def abs_le_iff)

lemma rnd_error: "\<bar>rnd x - x\<bar> \<le> \<bar>x\<bar> / 2 ^ 53"
proof (cases "x = 0")
  case False
  define u :: rat where "u = 2 powi (exponent_of \<bar>x\<bar> - 52)"
  have u: "0 < u" by (simp add: u_def)
  have r: "rnd x = of_int (round_even (x / u)) * u" using False by (simp add: rnd_def u_def Let_def)
  have "\<bar>rnd x - x\<bar> = \<bar>of_int (round_even (x / u)) - x / u\<bar> * u"
    using u by (simp add: r abs_mult_pos left_diff_distrib)
  also have "... \<le> 1 / 2 * u" using round_even_error u by (intro mult_right_mono) auto
  also have "... = 2 powi exponent_of \<bar>x\<bar> / 2 ^ 53"
    by (simp add: u_def power_int_diff)
  also have "... \<le> \<bar>x\<bar> / 2 ^ 53"
    using exponent_of_bounds(1) [of "\<bar>x\<bar>"] False by (intro divide_right_mono) auto
  finally show ?thesis .
qed (simp add: rnd_def)

section \<open>Chains of operations\<close>

abbreviation (input) unit_roundoff :: rat where "unit_roundoff \<equiv> 1 / 2 ^ 53"

text \<open>\<open>y\<close> is \<open>a\<close> after \<open>k\<close> roundings.\<close>

definition near :: "nat \<Rightarrow> rat \<Rightarrow> rat \<Rightarrow> bool" where
  "near k a y \<longleftrightarrow> 0 \<le> a \<and> a * (1 - unit_roundoff) ^ k \<le> y \<and> y \<le> a * (1 + unit_roundoff) ^ k"

lemma near_refl: "0 \<le> a \<Longrightarrow> near 0 a a"
  by (simp add: near_def)

lemma near_nonneg: "near k a y \<Longrightarrow> 0 \<le> y"
  unfolding near_def by (rule order_trans [rotated], erule conjunct1 [OF conjunct2]) simp

lemma near_rnd:
  assumes "near k a y"
  shows "near (Suc k) a (rnd y)"
proof -
  have y: "0 \<le> a" "a * (1 - unit_roundoff) ^ k \<le> y" "y \<le> a * (1 + unit_roundoff) ^ k" "0 \<le> y"
    using assms near_nonneg by (simp_all add: near_def)
  have "\<bar>rnd y - y\<bar> \<le> y * unit_roundoff" using rnd_error [of y] y(4) by simp
  then have r: "y - y * unit_roundoff \<le> rnd y" "rnd y \<le> y + y * unit_roundoff" unfolding abs_le_iff by linarith+
  have "a * (1 - unit_roundoff) ^ Suc k = (a * (1 - unit_roundoff) ^ k) * (1 - unit_roundoff)" by simp
  also have "... \<le> y * (1 - unit_roundoff)" by (rule mult_right_mono [OF y(2)]) simp
  also have "... \<le> rnd y" using r(1) by (simp only: right_diff_distrib mult_1_right)
  finally have low: "a * (1 - unit_roundoff) ^ Suc k \<le> rnd y" .
  have "rnd y \<le> y * (1 + unit_roundoff)" using r(2) by (simp only: distrib_left mult_1_right)
  also have "... \<le> (a * (1 + unit_roundoff) ^ k) * (1 + unit_roundoff)" by (rule mult_right_mono [OF y(3)]) simp
  also have "... = a * (1 + unit_roundoff) ^ Suc k" by simp
  finally show ?thesis using low y(1) unfolding near_def by blast
qed

lemma near_mult:
  assumes "near j a x" "near k b y"
  shows "near (j + k) (a * b) (x * y)"
proof -
  have n: "0 \<le> a" "0 \<le> b" "0 \<le> x" "0 \<le> y" using assms near_nonneg by (auto simp: near_def)
  have "(a * (1 - unit_roundoff) ^ j) * (b * (1 - unit_roundoff) ^ k) \<le> x * y"
    using assms n by (intro mult_mono) (simp_all add: near_def)
  moreover have "x * y \<le> (a * (1 + unit_roundoff) ^ j) * (b * (1 + unit_roundoff) ^ k)"
    using assms n by (intro mult_mono) (simp_all add: near_def)
  ultimately show ?thesis using n by (simp add: near_def power_add mult_ac)
qed

lemma near_divide:
  assumes "near k a y" "0 < c"
  shows "near k (a / c) (y / c)"
  using near_mult [OF assms(1) near_refl [of "1 / c"]] assms(2) by simp

text \<open>A quotient that is not an integer keeps its integer part.\<close>

lemma near_floor:
  assumes n: "near k (of_int a / of_int b) y" and k: "k \<le> 4" and a: "0 \<le> a" "a < 2 ^ 40" and b: "0 < b" "\<not> b dvd a"
  shows "\<lfloor>y\<rfloor> = a div b"
proof -
  let ?u = unit_roundoff and ?x = "of_int a / of_int b :: rat"
  have x: "0 \<le> ?x" using a b by simp
  have "(1 + ?u) ^ k \<le> (1 + ?u) ^ 4" using k by (intro power_increasing) simp_all
  also have "... \<le> 1 + 5 * ?u" by (simp add: power4_eq_xxxx)
  finally have up: "(1 + ?u) ^ k \<le> 1 + 5 * ?u" .
  have "1 - 5 * ?u \<le> (1 - ?u) ^ 4" by (simp add: power4_eq_xxxx)
  also have "... \<le> (1 - ?u) ^ k" using k by (intro power_decreasing) simp_all
  finally have low: "1 - 5 * ?u \<le> (1 - ?u) ^ k" .
  have "y \<le> ?x * (1 + 5 * ?u)" using n mult_left_mono [OF up x] by (simp add: near_def)
  moreover have "?x * (1 - 5 * ?u) \<le> y" using n mult_left_mono [OF low x] by (simp add: near_def)
  moreover have "?x * (5 * ?u) < 1 / of_int b"
  proof -
    have "(of_int a :: rat) < of_int (2 ^ 40)" using a(2) by (simp only: of_int_less_iff)
    then have "of_int a * (5 * ?u) < 1" by simp
    then show ?thesis using b(1) by (simp add: divide_simps)
  qed
  ultimately have y: "?x - 1 / of_int b < y" "y < ?x + 1 / of_int b" by (simp_all only: distrib_left right_diff_distrib mult_1_right)
  have "a mod b \<noteq> 0" using b(2) by (simp add: dvd_eq_mod_eq_0)
  then have r: "1 \<le> a mod b" "a mod b \<le> b - 1" using pos_mod_sign [OF b(1), of a] pos_mod_bound [OF b(1), of a] by linarith+
  have "?x = of_int (a div b) + of_int (a mod b) / of_int b"
  proof -
    have "(of_int a :: rat) = of_int (a div b * b + a mod b)" by simp
    also have "... = of_int (a div b) * of_int b + of_int (a mod b)" by (simp only: of_int_add of_int_mult)
    finally show ?thesis using b(1) by (simp add: add_divide_distrib)
  qed
  moreover have "1 / of_int b \<le> (of_int (a mod b) / of_int b :: rat)" using r b(1) by (intro divide_right_mono) simp_all
  moreover have "(of_int (a mod b) / of_int b :: rat) \<le> 1 - 1 / of_int b"
  proof -
    have "(of_int (a mod b) :: rat) \<le> of_int (b - 1)" using r(2) by (simp only: of_int_le_iff)
    then show ?thesis using b(1) by (simp add: divide_simps)
  qed
  ultimately show ?thesis using y by (intro floor_unique) linarith+
qed

section \<open>Computing a rounded quotient\<close>

text \<open>\<open>a / b\<close> with the leading bit at \<open>52 - k\<close>, in integers.\<close>

definition quot :: "nat \<Rightarrow> int \<Rightarrow> int \<Rightarrow> int" where
  "quot k a b =
     (let m = (2 * a * 2 ^ k + b) div (2 * b)
      in if (2 * a * 2 ^ k + b) mod (2 * b) = 0 \<and> odd m then m - 1 else m)"

definition quot_ok :: "nat \<Rightarrow> int \<Rightarrow> int \<Rightarrow> bool" where
  "quot_ok k a b \<longleftrightarrow> 0 < b \<and> 2 ^ 52 * b \<le> a * 2 ^ k \<and> a * 2 ^ k < 2 ^ 53 * b"

lemma rnd_pos:
  assumes "0 < x"
  shows "rnd x = of_int (round_even (x / 2 powi (exponent_of x - 52))) * 2 powi (exponent_of x - 52)"
  using assms by (simp add: rnd_def Let_def)

lemma exponent_of_unique:
  assumes "2 powi e \<le> x" "x < 2 powi (e + 1)"
  shows "exponent_of x = e"
proof -
  have "0 < (2 :: rat) powi e" by simp
  then have x: "0 < x" using assms(1) by linarith
  note b = exponent_of_bounds [OF x]
  have mono: "m < n" if "2 powi m < (2 :: rat) powi n" for m n
    using that power_int_increasing [of n m "2 :: rat"] by (cases "n \<le> m") auto
  have "2 powi e < (2 :: rat) powi (exponent_of x + 1)" using assms(1) b(2) by linarith
  then have "e < exponent_of x + 1" by (rule mono)
  moreover have "2 powi exponent_of x < (2 :: rat) powi (e + 1)" using assms(2) b(1) by linarith
  then have "exponent_of x < e + 1" by (rule mono)
  ultimately show ?thesis by simp
qed

lemma round_even_floor:
  fixes x :: rat
  assumes "m = \<lfloor>x + 1 / 2\<rfloor>"
  shows "round_even x = (if of_int m = x + 1 / 2 \<and> odd m then m - 1 else m)"
proof -
  define f where "f = \<lfloor>x\<rfloor>"
  have f: "of_int f \<le> x" "x < of_int f + 1" by (simp_all add: f_def) linarith
  consider "x - of_int f < 1 / 2" | "x - of_int f = 1 / 2" | "1 / 2 < x - of_int f" by linarith
  then show ?thesis
  proof cases
    case 1
    then have "m = f" unfolding assms using f by (intro floor_unique) linarith+
    moreover have "of_int f \<noteq> x + 1 / 2" using f by linarith
    ultimately show ?thesis using 1 by (simp add: round_even_def f_def Let_def)
  next
    case 2
    then have x: "x + 1 / 2 = of_int (f + 1)" by simp
    then have "m = f + 1" unfolding assms by (simp only: floor_of_int)
    then show ?thesis using 2 x by (simp add: round_even_def f_def Let_def)
  next
    case 3
    then have "m = f + 1" unfolding assms using f by (intro floor_unique) simp_all
    then show ?thesis using 3 by (simp add: round_even_def f_def Let_def)
  qed
qed

lemma rnd_quot:
  assumes "quot_ok k a b"
  shows "rnd (of_int a / of_int b) = of_int (quot k a b) / of_int (2 ^ k)"
proof -
  note ok = assms [unfolded quot_ok_def]
  let ?x = "of_int a / of_int b :: rat" and ?u = "2 powi (- int k) :: rat"
  have b: "0 < b" using ok by simp
  have k: "?u = 1 / 2 ^ k" by (simp add: power_int_minus divide_inverse)
  have "of_int (2 ^ 52 * b) \<le> (of_int (a * 2 ^ k) :: rat)" "of_int (a * 2 ^ k) < (of_int (2 ^ 53 * b) :: rat)"
    using ok by (simp_all only: of_int_le_iff of_int_less_iff)
  then have "2 ^ 52 * ?u \<le> ?x" "?x < 2 ^ 53 * ?u" using b unfolding k by (simp_all add: field_simps)
  moreover have "(2 :: rat) powi (52 - int k) = 2 ^ 52 * ?u" "(2 :: rat) powi (52 - int k + 1) = 2 ^ 53 * ?u"
    using power_int_add [of "2 :: rat" 52 "- int k"] power_int_add [of "2 :: rat" 53 "- int k"] by simp_all
  ultimately have e: "exponent_of ?x = 52 - int k" and x: "0 < ?x"
    using exponent_of_unique [of "52 - int k" ?x] by (simp_all add: k)
  have z: "?x / ?u + 1 / 2 = of_int (2 * a * 2 ^ k + b) / of_int (2 * b)"
    using b unfolding k by (simp add: field_simps)
  define t m where "t = 2 * a * 2 ^ k + b" and "m = t div (2 * b)"
  note z = z [folded t_def]
  have fl: "m = \<lfloor>?x / ?u + 1 / 2\<rfloor>" unfolding z m_def by (rule floor_divide_of_int_eq [symmetric])
  have "of_int m = ?x / ?u + 1 / 2 \<longleftrightarrow> (of_int (m * (2 * b)) :: rat) = of_int t"
    unfolding z using b by (simp add: eq_divide_eq)
  also have "... \<longleftrightarrow> t mod (2 * b) = 0"
    unfolding of_int_eq_iff m_def by (metis div_mult_mod_eq add.right_neutral add_left_cancel)
  finally have "round_even (?x / ?u) = quot k a b"
    using round_even_floor [OF fl] by (simp only: quot_def Let_def t_def m_def)
  moreover have "52 - int k - 52 = - int k" by simp
  ultimately have "rnd ?x = of_int (quot k a b) * ?u" unfolding rnd_pos [OF x] e by (simp only:)
  then show ?thesis by (simp add: k)
qed

end
