(* ===== verification/Lunix_Lookup.thy ===== *)
theory Lunix_Lookup
  imports Lunix_Sensors Double
begin

text \<open>
  The conversion tables of Lunix:TNG (\<^verbatim>\<open>lunix-lookup.h\<close>) and the program that generates the tables for
  battery and light (\<^verbatim>\<open>mk-lunix-lookup.c\<close>), in the arithmetic of \<^verbatim>\<open>double\<close>. The tables for battery and
  light are given by the integer formulas that have their 65536 values; the table for temperature,
  which the generator computes with \<^verbatim>\<open>log\<close> and \<^verbatim>\<open>pow\<close>, is written out up to 1022, where the sensor's
  scale ends and only \<^verbatim>\<open>-272150\<close> follows.
\<close>

section \<open>The generator\<close>

definition to_long :: "rat \<Rightarrow> int" where
  "to_long x = (if 0 \<le> x then \<lfloor>x\<rfloor> else \<lceil>x\<rceil>)"

definition uint16_to_batt :: "u16 \<Rightarrow> int" where
  "uint16_to_batt v =
     (let d = (if v \<noteq> 0 then rnd (rnd (1223 / 1000) * rnd (1023 / of_nat (unat v))) else 0)
      in to_long (rnd (d * 1000)))"

definition uint16_to_light :: "u16 \<Rightarrow> int" where
  "uint16_to_light v = to_long (rnd (rnd (of_nat (unat v) * 5000000) / 65535))"

section \<open>The tables\<close>

definition lookup_voltage :: "nat \<Rightarrow> int" where
  "lookup_voltage n = 1251129 div int n"

definition lookup_light :: "nat \<Rightarrow> int" where
  "lookup_light n = int n * 5000000 div 65535"

definition temperatures :: "int list" where
  "temperatures =
    [- 272150, - 91375, - 83037, - 77902, - 74135, - 71137, - 68637, - 66486, - 64595, - 62903, - 61372, - 59971,
     - 58679, - 57478, - 56357, - 55305, - 54312, - 53373, - 52481, - 51632, - 50820, - 50044, - 49299, - 48583,
     - 47893, - 47228, - 46586, - 45965, - 45363, - 44780, - 44213, - 43663, - 43127, - 42606, - 42098, - 41603,
     - 41120, - 40648, - 40186, - 39735, - 39294, - 38861, - 38438, - 38023, - 37616, - 37217, - 36825, - 36440,
     - 36062, - 35691, - 35325, - 34966, - 34613, - 34265, - 33923, - 33585, - 33253, - 32926, - 32603, - 32285,
     - 31972, - 31662, - 31357, - 31055, - 30758, - 30464, - 30174, - 29888, - 29605, - 29325, - 29048, - 28775,
     - 28505, - 28237, - 27973, - 27712, - 27453, - 27197, - 26943, - 26692, - 26444, - 26198, - 25955, - 25714,
     - 25475, - 25238, - 25003, - 24771, - 24541, - 24312, - 24086, - 23862, - 23639, - 23419, - 23200, - 22983,
     - 22768, - 22554, - 22342, - 22132, - 21924, - 21717, - 21511, - 21307, - 21105, - 20904, - 20705, - 20507,
     - 20310, - 20115, - 19921, - 19728, - 19537, - 19346, - 19158, - 18970, - 18784, - 18598, - 18414, - 18231,
     - 18049, - 17869, - 17689, - 17511, - 17333, - 17157, - 16981, - 16807, - 16633, - 16461, - 16289, - 16119,
     - 15949, - 15781, - 15613, - 15446, - 15280, - 15115, - 14950, - 14787, - 14624, - 14462, - 14301, - 14141,
     - 13982, - 13823, - 13665, - 13508, - 13351, - 13196, - 13041, - 12886, - 12733, - 12580, - 12428, - 12276,
     - 12125, - 11975, - 11825, - 11676, - 11528, - 11380, - 11233, - 11087, - 10941, - 10796, - 10651, - 10507,
     - 10363, - 10220, - 10078, - 9936, - 9794, - 9654, - 9513, - 9374, - 9234, - 9096, - 8957, - 8820, - 8682,
     - 8545, - 8409, - 8273, - 8138, - 8003, - 7869, - 7735, - 7601, - 7468, - 7335, - 7203, - 7071, - 6940,
     - 6809, - 6679, - 6549, - 6419, - 6289, - 6161, - 6032, - 5904, - 5776, - 5649, - 5522, - 5395, - 5269,
     - 5143, - 5017, - 4892, - 4767, - 4643, - 4519, - 4395, - 4271, - 4148, - 4026, - 3903, - 3781, - 3659,
     - 3538, - 3416, - 3295, - 3175, - 3055, - 2935, - 2815, - 2696, - 2576, - 2458, - 2339, - 2221, - 2103,
     - 1985, - 1868, - 1751, - 1634, - 1517, - 1401, - 1285, - 1169, - 1053, - 938, - 823, - 708, - 594, - 479,
     - 365, - 251, - 138, - 24, 88, 201, 314, 426, 538, 650, 762, 874, 985, 1096, 1207, 1318, 1429, 1539, 1649,
     1759, 1869, 1978, 2088, 2197, 2306, 2415, 2523, 2632, 2740, 2848, 2956, 3064, 3171, 3278, 3386, 3493, 3600,
     3706, 3813, 3919, 4025, 4131, 4237, 4343, 4449, 4554, 4659, 4764, 4869, 4974, 5079, 5183, 5288, 5392, 5496,
     5600, 5704, 5807, 5911, 6014, 6118, 6221, 6324, 6427, 6530, 6632, 6735, 6837, 6939, 7042, 7144, 7246, 7347,
     7449, 7551, 7652, 7753, 7855, 7956, 8057, 8158, 8259, 8359, 8460, 8560, 8661, 8761, 8861, 8962, 9062, 9162,
     9261, 9361, 9461, 9560, 9660, 9759, 9859, 9958, 10057, 10156, 10255, 10354, 10453, 10551, 10650, 10749, 10847,
     10945, 11044, 11142, 11240, 11338, 11436, 11534, 11632, 11730, 11828, 11926, 12023, 12121, 12218, 12316,
     12413, 12511, 12608, 12705, 12802, 12899, 12997, 13094, 13190, 13287, 13384, 13481, 13578, 13674, 13771,
     13868, 13964, 14061, 14157, 14254, 14350, 14446, 14543, 14639, 14735, 14831, 14928, 15024, 15120, 15216,
     15312, 15408, 15504, 15600, 15695, 15791, 15887, 15983, 16079, 16174, 16270, 16366, 16461, 16557, 16653,
     16748, 16844, 16939, 17035, 17130, 17226, 17321, 17417, 17512, 17607, 17703, 17798, 17894, 17989, 18084,
     18180, 18275, 18370, 18466, 18561, 18656, 18752, 18847, 18942, 19037, 19133, 19228, 19323, 19419, 19514,
     19609, 19704, 19800, 19895, 19990, 20086, 20181, 20276, 20371, 20467, 20562, 20657, 20753, 20848, 20944,
     21039, 21134, 21230, 21325, 21421, 21516, 21612, 21707, 21803, 21898, 21994, 22089, 22185, 22280, 22376,
     22472, 22567, 22663, 22759, 22855, 22950, 23046, 23142, 23238, 23334, 23430, 23526, 23622, 23718, 23814,
     23910, 24006, 24102, 24198, 24295, 24391, 24487, 24584, 24680, 24777, 24873, 24970, 25066, 25163, 25259,
     25356, 25453, 25550, 25647, 25743, 25840, 25937, 26035, 26132, 26229, 26326, 26423, 26521, 26618, 26716,
     26813, 26911, 27008, 27106, 27204, 27301, 27399, 27497, 27595, 27693, 27791, 27890, 27988, 28086, 28185,
     28283, 28382, 28480, 28579, 28678, 28777, 28876, 28975, 29074, 29173, 29272, 29371, 29471, 29570, 29670,
     29769, 29869, 29969, 30069, 30169, 30269, 30369, 30469, 30570, 30670, 30770, 30871, 30972, 31073, 31173,
     31274, 31376, 31477, 31578, 31679, 31781, 31883, 31984, 32086, 32188, 32290, 32392, 32494, 32597, 32699,
     32802, 32904, 33007, 33110, 33213, 33316, 33419, 33523, 33626, 33730, 33834, 33937, 34041, 34145, 34250,
     34354, 34459, 34563, 34668, 34773, 34878, 34983, 35088, 35194, 35299, 35405, 35511, 35617, 35723, 35829,
     35935, 36042, 36148, 36255, 36362, 36469, 36577, 36684, 36792, 36899, 37007, 37115, 37223, 37332, 37440,
     37549, 37658, 37767, 37876, 37985, 38095, 38205, 38314, 38424, 38535, 38645, 38756, 38866, 38977, 39088,
     39200, 39311, 39423, 39534, 39646, 39759, 39871, 39984, 40096, 40209, 40323, 40436, 40550, 40663, 40777,
     40891, 41006, 41120, 41235, 41350, 41465, 41581, 41697, 41812, 41928, 42045, 42161, 42278, 42395, 42512,
     42630, 42747, 42865, 42983, 43102, 43220, 43339, 43458, 43578, 43697, 43817, 43937, 44058, 44178, 44299,
     44420, 44542, 44663, 44785, 44907, 45030, 45152, 45275, 45399, 45522, 45646, 45770, 45894, 46019, 46144,
     46269, 46395, 46521, 46647, 46773, 46900, 47027, 47154, 47282, 47410, 47538, 47667, 47796, 47925, 48054,
     48184, 48314, 48445, 48576, 48707, 48839, 48970, 49103, 49235, 49368, 49501, 49635, 49769, 49904, 50038,
     50173, 50309, 50445, 50581, 50718, 50855, 50992, 51130, 51268, 51407, 51545, 51685, 51825, 51965, 52106,
     52247, 52388, 52530, 52672, 52815, 52958, 53102, 53246, 53390, 53535, 53681, 53827, 53973, 54120, 54267,
     54415, 54563, 54712, 54861, 55011, 55161, 55312, 55463, 55615, 55767, 55920, 56074, 56228, 56382, 56537,
     56692, 56848, 57005, 57162, 57320, 57478, 57637, 57797, 57957, 58118, 58279, 58441, 58603, 58766, 58930,
     59094, 59259, 59425, 59591, 59758, 59926, 60094, 60263, 60433, 60603, 60774, 60946, 61119, 61292, 61466,
     61640, 61816, 61992, 62169, 62347, 62525, 62704, 62884, 63065, 63247, 63429, 63613, 63797, 63982, 64167,
     64354, 64542, 64730, 64919, 65110, 65301, 65493, 65686, 65880, 66075, 66270, 66467, 66665, 66864, 67064,
     67265, 67466, 67669, 67873, 68079, 68285, 68492, 68700, 68910, 69120, 69332, 69545, 69759, 69975, 70191,
     70409, 70628, 70848, 71070, 71293, 71517, 71743, 71969, 72198, 72427, 72658, 72891, 73125, 73360, 73597,
     73835, 74075, 74316, 74559, 74804, 75050, 75298, 75547, 75798, 76051, 76306, 76562, 76820, 77080, 77342,
     77606, 77871, 78139, 78408, 78680, 78953, 79229, 79506, 79786, 80068, 80352, 80638, 80927, 81217, 81511,
     81806, 82104, 82404, 82707, 83013, 83321, 83632, 83945, 84261, 84580, 84902, 85227, 85554, 85885, 86219,
     86555, 86895, 87239, 87585, 87935, 88289, 88645, 89006, 89370, 89738, 90110, 90485, 90865, 91248, 91636,
     92028, 92425, 92825, 93231, 93641, 94056, 94475, 94900, 95330, 95765, 96205, 96651, 97103, 97560, 98023,
     98492, 98968, 99450, 99939, 100434, 100936, 101446, 101963, 102487, 103020, 103560, 104109, 104666, 105232,
     105807, 106391, 106985, 107589, 108204, 108829, 109465, 110113, 110772, 111444, 112128, 112826, 113538,
     114263, 115004, 115760, 116532, 117320, 118126, 118951, 119794, 120657, 121541, 122447, 123375, 124328,
     125306, 126310, 127342, 128403, 129496, 130621, 131781, 132978, 134215, 135492, 136815, 138184, 139605,
     141080, 142614, 144210, 145875, 147614, 149434, 151341, 153344, 155452, 157677, 160031, 162529, 165188,
     168029, 171077, 174361, 177918, 181794, 186047, 190749, 195998, 201926, 208714, 216626, 226058, 237655,
     252547, 272988, 304490, 367234]"

definition lookup_temperature :: "nat \<Rightarrow> int" where
  "lookup_temperature n = (if n < 1023 then temperatures ! n else - 272150)"

text \<open>The table that \<^verbatim>\<open>lunix_chrdev_state_update\<close> takes for a measurement.\<close>

fun lookup_value :: "lunix_msr \<Rightarrow> nat \<Rightarrow> int" where
  "lookup_value BATT n = lookup_voltage n"
| "lookup_value TEMP n = lookup_temperature n"
| "lookup_value LIGHT n = lookup_light n"

section \<open>Their values\<close>

lemma temperatures_length: "length temperatures = 1023"
  by (simp add: temperatures_def)

lemma temperatures_increase: "successively (<) temperatures"
  by (simp only: temperatures_def successively.simps) simp

lemma temperatures_bound: "list_all (\<lambda>v. - 272150 \<le> v \<and> v \<le> 367234) temperatures"
  by (simp add: temperatures_def)

lemma lookup_voltage_antimono: "0 < n \<Longrightarrow> n \<le> n' \<Longrightarrow> lookup_voltage n' \<le> lookup_voltage n"
  by (simp add: lookup_voltage_def zdiv_mono2)

lemma lookup_light_mono: "n \<le> n' \<Longrightarrow> lookup_light n \<le> lookup_light n'"
  by (simp add: lookup_light_def zdiv_mono1)

lemma lookup_temperature_mono:
  assumes "n < n'" "n' < 1023"
  shows "lookup_temperature n < lookup_temperature n'"
proof -
  have "sorted_wrt (<) temperatures"
    using temperatures_increase by (subst (asm) successively_iff_sorted_wrt_strong) auto
  from sorted_wrt_nth_less [OF this assms(1)] show ?thesis
    using assms by (simp add: lookup_temperature_def temperatures_length)
qed

lemma lookup_bound:
  assumes "n < 65536"
  shows "\<bar>lookup_value m n\<bar> \<le> 5000000"
proof (cases m)
  case BATT
  have "lookup_voltage n \<le> 1251129"
    using lookup_voltage_antimono [of 1 n] by (cases "n = 0") (simp_all add: lookup_voltage_def)
  moreover have "0 \<le> lookup_voltage n"
    by (cases "n = 0") (simp_all add: lookup_voltage_def pos_imp_zdiv_nonneg_iff)
  ultimately show ?thesis using BATT by simp
next
  case TEMP
  have "- 272150 \<le> temperatures ! n \<and> temperatures ! n \<le> 367234" if "n < 1023"
    using temperatures_bound that temperatures_length by (auto simp: list_all_length)
  then show ?thesis using TEMP by (auto simp: lookup_temperature_def)
next
  case LIGHT
  have "lookup_light n \<le> lookup_light 65535" using assms by (intro lookup_light_mono) simp
  then show ?thesis using LIGHT by (simp add: lookup_light_def)
qed

section \<open>The generator computes them\<close>

text \<open>The table for battery is \<^verbatim>\<open>1251129 / v\<close>. Where that is an integer, the roundings are computed: the
  divisors of \<^verbatim>\<open>1251129 = 3 * 11 * 31 * 1223\<close>.\<close>

definition batt_double :: "nat \<Rightarrow> rat" where
  "batt_double n = rnd (rnd (rnd (1223 / 1000) * rnd (1023 / of_nat n)) * 1000)"

lemma prime_factors:
  "list_all (\<lambda>p. list_all (\<lambda>k. p mod k = 0 \<longrightarrow> k = 1 \<or> k = p) [1..34]) [3, 11, 31, 1223 :: int]"
  by (simp add: upto_rec1)

lemma prime_factor:
  assumes "(d :: nat) dvd p" "p \<in> {3, 11, 31, 1223}"
  shows "d = 1 \<or> d = p"
proof -
  have small: "k = 1 \<or> k = p" if "k dvd p" "k \<le> 34" for k
  proof -
    have "int p \<in> set [3, 11, 31, 1223]" using assms(2) by auto
    moreover have "0 < k" using that(1) assms(2) by (auto intro: Nat.gr0I)
    then have "int k \<in> set [1..34]" using that(2) by simp
    ultimately have "int p mod int k = 0 \<longrightarrow> int k = 1 \<or> int k = int p"
      by (rule bspec [OF bspec [OF prime_factors [unfolded list_all_iff]]])
    then show ?thesis using that(1) by (simp add: zmod_int [symmetric] dvd_eq_mod_eq_0)
  qed
  obtain e where e: "p = d * e" using assms(1) by (rule dvdE)
  have "d \<le> 34 \<or> e \<le> 34"
  proof (rule ccontr)
    assume "\<not> (d \<le> 34 \<or> e \<le> 34)"
    then have "35 * 35 \<le> d * e" by (intro mult_le_mono) simp_all
    with e assms(2) show False by auto
  qed
  moreover have "e dvd p" using e by simp
  moreover have "0 < p" using assms(2) by auto
  ultimately show ?thesis using small [of d] small [of e] assms(1) e by auto
qed

definition voltage_divisors :: "nat list" where
  "voltage_divisors = [1, 3, 11, 31, 33, 93, 341, 1023, 1223, 3669, 13453, 37913, 40359]"

lemma divisor_cases:
  assumes "n dvd 1251129" "n < 65536"
  shows "n \<in> set voltage_divisors"
proof -
  have "n dvd 3 * (11 * (31 * 1223))" using assms(1) by simp
  then obtain a n1 where a: "n = a * n1" "a dvd 3" "n1 dvd 11 * (31 * 1223)" using division_decomp by blast
  obtain b n2 where b: "n1 = b * n2" "b dvd 11" "n2 dvd 31 * 1223" using division_decomp [OF a(3)] by blast
  obtain c d where c: "n2 = c * d" "c dvd 31" "d dvd 1223" using division_decomp [OF b(3)] by blast
  show ?thesis
    using prime_factor [OF a(2)] prime_factor [OF b(2)] prime_factor [OF c(2)] prime_factor [OF c(3)] assms(2)
    unfolding a(1) b(1) c(1) voltage_divisors_def by auto
qed

text \<open>The roundings with the positions of their leading bits: the significand of the constant, of the
  quotient and of the product.\<close>

definition batt_check :: "nat \<times> nat \<times> int \<times> nat \<times> int \<times> nat \<Rightarrow> bool" where
  "batt_check = (\<lambda>(n, i, q, j, d, l).
     quot_ok i 1023 (int n) \<and> quot i 1023 (int n) = q \<and>
     quot_ok j (5507902344274117 * q) (2 ^ (52 + i)) \<and> quot j (5507902344274117 * q) (2 ^ (52 + i)) = d \<and>
     quot_ok l (d * 1000) (2 ^ j) \<and> quot l (d * 1000) (2 ^ j) div 2 ^ l = 1251129 div int n)"

lemma batt_constant: "rnd (1223 / 1000) = 5507902344274117 / 2 ^ 52"
proof -
  have "quot_ok 52 1223 1000" "quot 52 1223 1000 = 5507902344274117" by (simp_all add: quot_ok_def quot_def)
  then show ?thesis using rnd_quot [of 52 1223 1000] by simp
qed

lemma batt_check_sound:
  assumes "batt_check (n, i, q, j, d, l)"
  shows "\<lfloor>batt_double n\<rfloor> = 1251129 div int n"
proof -
  note k = assms [unfolded batt_check_def prod.case]
  have r2: "rnd (1023 / of_nat n) = of_int q / 2 ^ i" using rnd_quot [of i 1023 "int n"] k by simp
  have r3: "rnd (5507902344274117 / 2 ^ 52 * (of_int q / 2 ^ i)) = of_int d / 2 ^ j"
    using rnd_quot [of j "5507902344274117 * q" "2 ^ (52 + i)"] k by (simp add: power_add)
  have r4: "rnd (of_int d / 2 ^ j * 1000) = of_int (quot l (d * 1000) (2 ^ j)) / of_int (2 ^ l)"
    using rnd_quot [of l "d * 1000" "2 ^ j"] k by simp
  have "batt_double n = of_int (quot l (d * 1000) (2 ^ j)) / of_int (2 ^ l)"
    unfolding batt_double_def batt_constant r2 r3 r4 ..
  then have "\<lfloor>batt_double n\<rfloor> = quot l (d * 1000) (2 ^ j) div 2 ^ l" by (simp only: floor_divide_of_int_eq)
  with k show ?thesis by simp
qed

lemma voltage_checks:
  "list_all batt_check [
    (1, 43, 8998403161718784, 42, 5502523533391037, 32),
    (3, 44, 5998935441145856, 44, 7336698044521382, 34),
    (11, 46, 6544293208522752, 46, 8003670594023326, 36),
    (31, 47, 4644337115725824, 47, 5680024292532683, 37),
    (33, 48, 8725724278030336, 47, 5335780396015551, 37),
    (93, 49, 6192449487634432, 49, 7573365723376911, 39),
    (341, 51, 6755399441055744, 51, 8261853516411176, 41),
    (1023, 52, 4503599627370496, 52, 5507902344274117, 42),
    (1223, 53, 7534231265412948, 52, 4607182418800018, 43),
    (3669, 54, 5022820843608632, 54, 6142909891733357, 44),
    (13453, 56, 5479440920300325, 56, 6701356245527298, 46),
    (37913, 58, 7777270983652075, 57, 4755801206503244, 47),
    (40359, 58, 7305921227067101, 58, 8935141660703065, 48)]"
  by (simp add: batt_check_def quot_ok_def quot_def)

lemma voltage_at_divisors: "n \<in> set voltage_divisors \<Longrightarrow> \<lfloor>batt_double n\<rfloor> = 1251129 div int n"
  using voltage_checks by (auto simp: voltage_divisors_def dest: batt_check_sound)

lemma batt_double_near:
  assumes "0 < n"
  shows "near 4 (1251129 / of_nat n) (batt_double n)"
proof -
  note c = near_rnd [OF near_refl]
  have "near 3 ((1223 / 1000) * (1023 / of_nat n)) (rnd (rnd (1223 / 1000) * rnd (1023 / of_nat n)))"
    using near_rnd [OF near_mult [OF c [of "1223 / 1000"] c [of "1023 / of_nat n"]]] by (simp add: numeral_3_eq_3)
  from near_rnd [OF near_mult [OF this near_refl [of 1000]]]
  have "near (Suc (3 + 0)) ((1223 / 1000) * (1023 / of_nat n) * 1000) (batt_double n)"
    by (simp add: batt_double_def)
  then show ?thesis by (simp add: numeral_eq_Suc)
qed

lemma batt_double_floor:
  assumes "0 < n" "n < 65536"
  shows "\<lfloor>batt_double n\<rfloor> = 1251129 div int n"
proof (cases "n dvd 1251129")
  case True
  show ?thesis by (rule voltage_at_divisors [OF divisor_cases [OF True assms(2)]])
next
  case False
  then have "\<not> int n dvd 1251129" using int_dvd_int_iff [of n 1251129] by simp
  moreover have "near 4 (of_int 1251129 / of_int (int n)) (batt_double n)" using batt_double_near [OF assms(1)] by simp
  ultimately show ?thesis using near_floor [of 4 1251129 "int n" "batt_double n"] assms(1) by simp
qed

lemma voltage_generated: "uint16_to_batt v = lookup_voltage (unat v)"
proof (cases "v = 0")
  case True
  then show ?thesis by (simp add: uint16_to_batt_def lookup_voltage_def to_long_def rnd_def)
next
  case False
  then have n: "0 < unat v" "unat v < 65536" using unat_less_16 [of v] by (simp_all add: unat_gt_0)
  have "0 \<le> batt_double (unat v)" by (rule near_nonneg [OF batt_double_near [OF n(1)]])
  then have "to_long (batt_double (unat v)) = lookup_voltage (unat v)"
    using batt_double_floor [OF n] unfolding to_long_def lookup_voltage_def by simp
  then show ?thesis using False by (simp add: uint16_to_batt_def batt_double_def)
qed

text \<open>The table for light is \<^verbatim>\<open>v * 5000000 / 65535\<close>, an integer at the multiples of 13107.\<close>

definition light_double :: "nat \<Rightarrow> rat" where
  "light_double n = rnd (rnd (of_nat n * 5000000) / 65535)"

definition light_check :: "nat \<times> nat \<times> nat \<Rightarrow> bool" where
  "light_check = (\<lambda>(n, i, j).
     let p = quot i (int n * 5000000) 1
     in quot_ok i (int n * 5000000) 1 \<and> quot_ok j p (2 ^ i * 65535) \<and>
       quot j p (2 ^ i * 65535) div 2 ^ j = int n * 5000000 div 65535)"

lemma light_check_sound:
  assumes "light_check (n, i, j)"
  shows "\<lfloor>light_double n\<rfloor> = int n * 5000000 div 65535"
proof -
  define p where "p = quot i (int n * 5000000) 1"
  note k = assms [unfolded light_check_def prod.case Let_def, folded p_def]
  have "rnd (of_nat n * 5000000) = of_int p / 2 ^ i" using rnd_quot [of i "int n * 5000000" 1] k by (simp add: p_def)
  then have "light_double n = of_int (quot j p (2 ^ i * 65535)) / of_int (2 ^ j)"
    using rnd_quot [of j p "2 ^ i * 65535"] k by (simp add: light_double_def)
  then have "\<lfloor>light_double n\<rfloor> = quot j p (2 ^ i * 65535) div 2 ^ j" by (simp only: floor_divide_of_int_eq)
  with k show ?thesis by simp
qed

lemma light_checks:
  "list_all light_check [(13107, 17, 33), (26214, 16, 32), (39321, 15, 31), (52428, 15, 31), (65535, 14, 30)]"
  by (simp add: light_check_def quot_ok_def quot_def)

lemma light_at_multiples:
  "n \<in> {0, 13107, 26214, 39321, 52428, 65535} \<Longrightarrow> \<lfloor>light_double n\<rfloor> = int n * 5000000 div 65535"
  using light_checks by (auto dest: light_check_sound simp: light_double_def rnd_def)

lemma light_double_near: "near 2 (of_nat n * 5000000 / 65535) (light_double n)"
proof -
  have "near 1 (of_nat n * 5000000) (rnd (of_nat n * 5000000))" using near_rnd [OF near_refl] by simp
  from near_rnd [OF near_divide [OF this, of 65535]] show ?thesis by (simp add: light_double_def numeral_2_eq_2)
qed

lemma light_double_floor:
  assumes "n < 65536"
  shows "\<lfloor>light_double n\<rfloor> = int n * 5000000 div 65535"
proof (cases "65535 dvd int n * 5000000")
  case True
  then have "(13107 * 5 :: int) dvd (int n * 1000000) * 5" by (simp add: mult.commute)
  then have "(13107 :: int) dvd int n * 1000000" unfolding dvd_mult_cancel_right by simp
  moreover have "coprime (13107 :: int) 1000000" unfolding coprime_iff_gcd_eq_1 by code_simp
  ultimately have "(13107 :: int) dvd int n" by (simp only: coprime_dvd_mult_left_iff)
  then obtain k where k: "int n = 13107 * k" ..
  with assms have "0 \<le> k" "k < 6" by linarith+
  then have "k \<in> set [0, 1, 2, 3, 4, 5]" by auto
  then have "n \<in> {0, 13107, 26214, 39321, 52428, 65535}" using k by auto
  then show ?thesis by (rule light_at_multiples)
next
  case False
  moreover have "near 2 (of_int (int n * 5000000) / of_int 65535) (light_double n)" using light_double_near [of n] by simp
  ultimately show ?thesis using near_floor [of 2 "int n * 5000000" 65535 "light_double n"] assms by simp
qed

lemma light_generated: "uint16_to_light v = lookup_light (unat v)"
proof -
  have "0 \<le> light_double (unat v)" by (rule near_nonneg [OF light_double_near])
  then have "to_long (light_double (unat v)) = lookup_light (unat v)"
    using light_double_floor [OF unat_less_16 [of v]] unfolding to_long_def lookup_light_def by simp
  then show ?thesis by (simp add: uint16_to_light_def light_double_def)
qed

text \<open>
  C31. The generator's functions for battery and light, with every operation rounded as the
  processor rounds a \<^verbatim>\<open>double\<close>, give exactly the tables the driver uses. Over the raw values a
  sensor delivers, temperature and light grow and battery voltage falls with the raw value, and no
  entry exceeds five million in size.
\<close>

theorem lunix_lookup_generated:
  "uint16_to_batt v = lookup_voltage (unat v) \<and> uint16_to_light v = lookup_light (unat v) \<and>
    strict_mono_on {..<1023} lookup_temperature \<and> mono lookup_light \<and>
    monotone_on {0<..} (\<le>) (\<ge>) lookup_voltage \<and> \<bar>lookup_value m (unat v)\<bar> \<le> 5000000"
proof (intro conjI voltage_generated light_generated lookup_bound unat_less_16)
  show "strict_mono_on {..<1023} lookup_temperature"
    by (intro strict_mono_onI lookup_temperature_mono) simp_all
  show "mono lookup_light" by (intro monoI lookup_light_mono)
  show "monotone_on {0<..} (\<le>) (\<ge>) lookup_voltage"
    by (intro monotone_onI lookup_voltage_antimono) simp_all
qed

end
