(* ===== verification/Decimal.thy ===== *)
theory Decimal
  imports Prelude
begin

text \<open>
  Numbers in decimal as the C library prints and reads them: the digits of \<^verbatim>\<open>printf\<close>, and \<^verbatim>\<open>scanf\<close>,
  \<^verbatim>\<open>strtol\<close> and \<^verbatim>\<open>atoi\<close>, with the laws for reading back what was printed. \<^verbatim>\<open>long\<close> has 64 bits.
\<close>

section \<open>Printing and reading\<close>

fun dec :: "nat \<Rightarrow> byte list" where
  "dec n = (if n < 10 then [48 + of_nat n] else dec (n div 10) @ [48 + of_nat (n mod 10)])"

declare dec.simps [simp del]

definition digit :: "char \<Rightarrow> bool" where
  "digit c \<longleftrightarrow> c \<in> set ''0123456789''"

definition digit_val :: "char \<Rightarrow> int" where
  "digit_val c = int (of_char c) - 48"

definition blank :: "char \<Rightarrow> bool" where
  "blank c \<longleftrightarrow> c = CHR '' '' \<or> of_char c \<in> {9 :: nat ..< 14}"

definition digits_val :: "string \<Rightarrow> int" where
  "digits_val = foldl (\<lambda>n c. 10 * n + digit_val c) 0"

definition scan_nat :: "string \<Rightarrow> int option" where
  "scan_nat s = (if takeWhile digit s = [] then None else Some (digits_val (takeWhile digit s)))"

definition scan_int :: "string \<Rightarrow> int option" where
  "scan_int s =
     (case dropWhile blank s of
        [] \<Rightarrow> None
      | c # cs \<Rightarrow> if c = CHR ''-'' then map_option uminus (scan_nat cs)
                 else if c = CHR ''+'' then scan_nat cs else scan_nat (c # cs))"

definition dec_text :: "nat \<Rightarrow> string" where
  "dec_text n = map (\<lambda>b. char_of (unat b)) (dec n)"

definition int_text :: "int \<Rightarrow> string" where
  "int_text v = (if v < 0 then ''-'' else []) @ dec_text (nat \<bar>v\<bar>)"

text \<open>\<^verbatim>\<open>strtol\<close> saturates, and \<^verbatim>\<open>atoi\<close> keeps the low 32 bits of it.\<close>

definition strtol :: "string \<Rightarrow> int" where
  "strtol s = (case scan_int s of None \<Rightarrow> 0 | Some v \<Rightarrow> max (- (2 ^ 63)) (min (2 ^ 63 - 1) v))"

definition atoi :: "string \<Rightarrow> int" where
  "atoi s = sint (of_int (strtol s) :: s32)"

section \<open>Reading back\<close>

lemma dec_length: "n < 10 ^ k \<Longrightarrow> 0 < k \<Longrightarrow> length (dec n) \<le> k"
proof (induction k arbitrary: n)
  case (Suc k)
  show ?case
  proof (cases "n < 10")
    case False
    then have "n div 10 < 10 ^ k" "0 < k" using Suc.prems by (cases k; simp add: less_mult_imp_div_less mult.commute)+
    with Suc.IH False show ?thesis by (subst dec.simps) simp
  qed (simp add: dec.simps [of n])
qed simp

lemma dec_nonempty: "dec n \<noteq> []"
  by (subst dec.simps) simp

lemma digit_codes:
  "list_all (\<lambda>k. digit (char_of (48 + k)) \<and> digit_val (char_of (48 + k)) = int k) [0, 1, 2, 3, 4, 5, 6, 7, 8, 9 :: nat]"
  by code_simp

lemma digit_byte:
  assumes "k < 10"
  shows "digit (char_of (unat (48 + of_nat k :: byte)))" "digit_val (char_of (unat (48 + of_nat k :: byte))) = int k"
proof -
  have "unat (48 + of_nat k :: byte) = 48 + k" using assms by (simp add: unat_word_ariths unat_of_nat)
  moreover have "k \<in> set [0, 1, 2, 3, 4, 5, 6, 7, 8, 9]" using assms by auto
  ultimately show "digit (char_of (unat (48 + of_nat k :: byte)))"
    "digit_val (char_of (unat (48 + of_nat k :: byte))) = int k"
    using digit_codes unfolding list_all_iff by auto
qed

lemma dec_text_step:
  "dec_text n = (if n < 10 then [] else dec_text (n div 10)) @ [char_of (unat (48 + of_nat (n mod 10) :: byte))]"
  unfolding dec_text_def by (subst dec.simps) simp

lemma dec_text_digits: "list_all digit (dec_text n)"
proof (induction n rule: dec.induct)
  case (1 n)
  then show ?case using digit_byte(1) [of "n mod 10"] by (subst dec_text_step) simp
qed

lemma dec_text_val: "digits_val (dec_text n) = int n"
proof (induction n rule: dec.induct)
  case (1 n)
  have "digits_val (dec_text n) = 10 * (if n < 10 then 0 else int (n div 10)) + int (n mod 10)"
    using 1 digit_byte(2) [of "n mod 10"]
    by (subst dec_text_step) (simp add: digits_val_def)
  then show ?case by (simp add: zdiv_int zmod_int split: if_splits)
qed

lemma dec_text_nonempty: "dec_text n \<noteq> []"
  by (subst dec_text_step) simp

lemma digit_plain: "digit c \<Longrightarrow> \<not> blank c \<and> c \<noteq> CHR ''-'' \<and> c \<noteq> CHR ''+''"
  by (auto simp: digit_def blank_def)

text \<open>A number is read back, whatever stands behind it, if that is not a digit.\<close>

lemma scan_nat_dec:
  assumes "rest = [] \<or> \<not> digit (hd rest)"
  shows "scan_nat (dec_text n @ rest) = Some (int n)"
proof -
  have d: "\<forall>x \<in> set (dec_text n). digit x" using dec_text_digits by (simp add: list_all_iff)
  have "takeWhile digit rest = []" using assms by (cases rest) simp_all
  then have "takeWhile digit (dec_text n @ rest) = dec_text n" using d by (simp add: takeWhile_append2)
  then show ?thesis using dec_text_nonempty by (simp add: scan_nat_def dec_text_val)
qed

lemma scan_int_dec:
  assumes "rest = [] \<or> \<not> digit (hd rest)"
  shows "scan_int (dec_text n @ rest) = Some (int n)"
proof -
  obtain c cs where c: "dec_text n = c # cs" using dec_text_nonempty by (cases "dec_text n") auto
  then have "digit c" using dec_text_digits [of n] by simp
  then show ?thesis
    using digit_plain [of c] scan_nat_dec [OF assms, of n] c by (simp add: scan_int_def)
qed

lemma scan_int_text:
  assumes "rest = [] \<or> \<not> digit (hd rest)"
  shows "scan_int (int_text v @ rest) = Some v"
proof (cases "v < 0")
  case True
  then show ?thesis
    using scan_nat_dec [OF assms, of "nat (- v)"] by (simp add: scan_int_def int_text_def blank_def)
next
  case False
  then show ?thesis using scan_int_dec [OF assms, of "nat v"] by (simp add: int_text_def)
qed

lemma atoi_int_text:
  assumes "- (2 ^ 31) \<le> v" "v < 2 ^ 31" "rest = [] \<or> \<not> digit (hd rest)"
  shows "atoi (int_text v @ rest) = v"
proof -
  have "strtol (int_text v @ rest) = v" using assms(1,2) by (simp add: strtol_def scan_int_text [OF assms(3)])
  moreover have "sint (of_int v :: s32) = v"
    using assms(1,2) by (simp add: signed_of_int signed_take_bit_int_eq_self)
  ultimately show ?thesis by (simp add: atoi_def)
qed

end
