(* ===== verification/Lunix_Chrdev.thy ===== *)
theory Lunix_Chrdev
  imports Lunix_Lookup Decimal
begin

text \<open>
  The character devices of Lunix:TNG (\<^verbatim>\<open>lunix-chrdev.c\<close>): the private state of an open file, the
  text of a measurement and the file operations. \<open>None\<close> is an access outside an array or
  through a null pointer.
\<close>

abbreviation (input) LUNIX_CHRDEV_BUFSZ :: nat where "LUNIX_CHRDEV_BUFSZ \<equiv> 20"
abbreviation (input) LUNIX_IOC_MAGIC :: u32 where "LUNIX_IOC_MAGIC \<equiv> 60"
abbreviation (input) LUNIX_IOC_MAXNR :: u32 where "LUNIX_IOC_MAXNR \<equiv> 0"

text \<open>The sensor is its index in the array; a minor number gives types up to 7.\<close>

record chr_state =
  cs_type :: nat
  cs_sensor :: nat
  buf_lim :: int
  buf_data :: "byte list"
  buf_timestamp :: u32

fun msr_of :: "nat \<Rightarrow> lunix_msr option" where
  "msr_of k = (if k = 0 then Some BATT else if k = 1 then Some TEMP else if k = 2 then Some LIGHT else None)"

text \<open>The page \<^verbatim>\<open>sensor->msr_data[state->type]\<close>.\<close>

definition state_msr :: "lunix_sensor list \<Rightarrow> chr_state \<Rightarrow> lunix_msr_data option" where
  "state_msr ss st = do {
     m \<leftarrow> msr_of (cs_type st);
     if cs_sensor st < length ss then msr_data (ss ! cs_sensor st) m else None }"

section \<open>The text of a measurement\<close>

definition msr_text :: "int \<Rightarrow> byte list" where
  "msr_text v = (if 0 \<le> v then 43 else 45) # dec (nat (\<bar>v\<bar> div 1000)) @ [44] @ dec (nat (\<bar>v\<bar> mod 1000))"

definition snprintf :: "byte list \<Rightarrow> byte list \<Rightarrow> byte list" where
  "snprintf txt buf = (let w = take (LUNIX_CHRDEV_BUFSZ - 1) txt @ [0] in w @ drop (length w) buf)"

section \<open>The cached state\<close>

definition lunix_chrdev_state_needs_refresh :: "lunix_sensor list \<Rightarrow> chr_state \<Rightarrow> bool option" where
  "lunix_chrdev_state_needs_refresh ss st = do {
     d \<leftarrow> state_msr ss st;
     Some (buf_timestamp st \<noteq> last_update d) }"

text \<open>The data is read under the sensor's lock and then formatted.\<close>

definition state_refresh :: "lunix_sensor list \<Rightarrow> chr_state \<Rightarrow> chr_state option" where
  "state_refresh ss st = do {
     m \<leftarrow> msr_of (cs_type st);
     d \<leftarrow> state_msr ss st;
     if unat (msr_value d) < 65536 then
       (let txt = msr_text (lookup_value m (unat (msr_value d)))
        in Some (st\<lparr>buf_lim := int (length txt), buf_data := snprintf txt (buf_data st),
             buf_timestamp := last_update d\<rparr>))
     else None }"

text \<open>The sensor may be updated between the check and the second lock, so that there are two arrays.\<close>

definition lunix_chrdev_state_update ::
  "lunix_sensor list \<Rightarrow> lunix_sensor list \<Rightarrow> chr_state \<Rightarrow> (int \<times> chr_state) option" where
  "lunix_chrdev_state_update ss ss' st = do {
     fresh \<leftarrow> lunix_chrdev_state_needs_refresh ss st;
     if \<not> fresh then Some (- EAGAIN, st)
     else do { st \<leftarrow> state_refresh ss' st; Some (0, st) } }"

section \<open>File operations\<close>

definition lunix_chrdev_open :: "int \<Rightarrow> bool \<Rightarrow> nat \<Rightarrow> (int \<times> chr_state option) option" where
  "lunix_chrdev_open nso kzalloc minor =
     (if nso < 0 then Some (nso, None)
      else if \<not> kzalloc then None
      else Some (nso, Some \<lparr>cs_type = minor mod 8, cs_sensor = minor div 8, buf_lim = 0,
        buf_data = replicate LUNIX_CHRDEV_BUFSZ 0, buf_timestamp = 0\<rparr>))"

definition lunix_chrdev_release :: "chr_state option \<Rightarrow> int \<times> chr_state option" where
  "lunix_chrdev_release private = (0, None)"

definition LUNIX_IOC_EXAMPLE :: u32 where
  "LUNIX_IOC_EXAMPLE = push_bit 30 2 OR push_bit 16 8 OR push_bit 8 LUNIX_IOC_MAGIC OR 0"

definition lunix_chrdev_ioctl :: "bool \<Rightarrow> u32 \<Rightarrow> int" where
  "lunix_chrdev_ioctl locked cmd =
     (if drop_bit 8 cmd AND 0xFF \<noteq> LUNIX_IOC_MAGIC then - ENOTTY
      else if LUNIX_IOC_MAXNR < cmd AND 0xFF then - ENOTTY
      else if cmd = LUNIX_IOC_EXAMPLE then (if locked then 0 else - ERESTARTSYS)
      else - ENOTTY)"

definition lunix_chrdev_mmap :: "nat \<Rightarrow> int" where
  "lunix_chrdev_mmap vma = - EINVAL"

text \<open>What happens to a reader that waits: a signal, or a wake-up at some state of the sensors,
  after which it takes the lock of the file or is interrupted there.\<close>

datatype wake = Interrupted | Woken "lunix_sensor list" bool

datatype waited = Asleep | Failed int | Ready chr_state

fun waiting :: "chr_state \<Rightarrow> wake list \<Rightarrow> waited option" where
  "waiting st [] = Some Asleep"
| "waiting st (Interrupted # ws) = Some (Failed (- ERESTARTSYS))"
| "waiting st (Woken ss locked # ws) = do {
     fresh \<leftarrow> lunix_chrdev_state_needs_refresh ss st;
     if \<not> fresh then waiting st ws
     else if \<not> locked then Some (Failed (- ERESTARTSYS))
     else do {
       (r, st) \<leftarrow> lunix_chrdev_state_update ss ss st;
       if r = - EAGAIN then waiting st ws else Some (Ready st) } }"

text \<open>The return value, the bytes in the user's buffer, the file position and the state.\<close>

datatype read_result = Blocked | Returned int "byte list" int chr_state

definition read_copy :: "(u64 \<Rightarrow> bool) \<Rightarrow> u64 \<Rightarrow> int \<Rightarrow> chr_state \<Rightarrow> read_result option" where
  "read_copy user_ok cnt pos st =
     (let cnt = (if of_int (buf_lim st) \<le> of_int pos + cnt then of_int (buf_lim st - pos) else cnt)
      in if \<not> user_ok cnt then Some (Returned (- EFAULT) [] pos st)
         else if length (buf_data st) < unat cnt then None
         else (let pos = pos + uint cnt
               in Some (Returned (uint cnt) (take (unat cnt) (buf_data st))
                    (if pos = buf_lim st then 0 else pos) st)))"

definition lunix_chrdev_read ::
  "lunix_sensor list \<Rightarrow> bool \<Rightarrow> wake list \<Rightarrow> (u64 \<Rightarrow> bool) \<Rightarrow> u64 \<Rightarrow> int \<Rightarrow> chr_state \<Rightarrow>
   read_result option" where
  "lunix_chrdev_read ss locked ws user_ok cnt pos st =
     (if \<not> locked then Some (Returned (- ERESTARTSYS) [] pos st)
      else if pos = 0 then do {
        (r, st) \<leftarrow> lunix_chrdev_state_update ss ss st;
        w \<leftarrow> (if r = - EAGAIN then waiting st ws else Some (Ready st));
        (case w of Asleep \<Rightarrow> Some Blocked
          | Failed e \<Rightarrow> Some (Returned e [] pos st)
          | Ready st \<Rightarrow> read_copy user_ok cnt pos st) }
      else read_copy user_ok cnt pos st)"

section \<open>Registration\<close>

text \<open>\<open>region\<close> and \<open>add\<close> are what the kernel's registrations return. The result says whether the
  region and the device are registered afterwards.\<close>

definition lunix_chrdev_init :: "int \<Rightarrow> int \<Rightarrow> int \<times> bool \<times> bool" where
  "lunix_chrdev_init region add =
     (if region < 0 then (region, False, False)
      else if add < 0 then (add, False, False)
      else (0, True, True))"

definition lunix_chrdev_destroy :: "bool \<times> bool \<Rightarrow> bool \<times> bool" where
  "lunix_chrdev_destroy registered = (False, False)"

section \<open>Lengths and cached texts\<close>

lemma msr_text_length:
  assumes "\<bar>v\<bar> \<le> 5000000"
  shows "4 \<le> length (msr_text v)" "length (msr_text v) \<le> 9"
proof -
  have "length (dec (nat (\<bar>v\<bar> div 1000))) \<le> 4" by (rule dec_length) (use assms in auto)
  moreover have "length (dec (nat (\<bar>v\<bar> mod 1000))) \<le> 3" by (rule dec_length) (auto simp: nat_less_iff)
  ultimately show "length (msr_text v) \<le> 9" by (simp add: msr_text_def)
  have "0 < length (dec (nat (\<bar>v\<bar> div 1000)))" "0 < length (dec (nat (\<bar>v\<bar> mod 1000)))"
    using dec_nonempty by simp_all
  then show "4 \<le> length (msr_text v)" unfolding msr_text_def by (simp del: length_greater_0_conv)
qed

lemma snprintf_short:
  assumes "length txt \<le> 19" "length buf = LUNIX_CHRDEV_BUFSZ"
  shows "take (length txt) (snprintf txt buf) = txt" "length (snprintf txt buf) = LUNIX_CHRDEV_BUFSZ"
  using assms by (simp_all add: snprintf_def Let_def)

text \<open>The cache holds the text of a raw value, or nothing yet.\<close>

definition caches :: "chr_state \<Rightarrow> lunix_msr \<Rightarrow> u32 \<Rightarrow> bool" where
  "caches st m v \<longleftrightarrow> unat v < 65536 \<and> buf_lim st = int (length (msr_text (lookup_value m (unat v)))) \<and>
     length (buf_data st) = LUNIX_CHRDEV_BUFSZ \<and>
     take (nat (buf_lim st)) (buf_data st) = msr_text (lookup_value m (unat v))"

lemma state_refresh_caches:
  assumes "length (buf_data st) = LUNIX_CHRDEV_BUFSZ" "msr_of (cs_type st) = Some m"
    "state_msr ss st = Some d" "unat (msr_value d) < 65536"
  shows "\<exists>st'. state_refresh ss st = Some st' \<and> caches st' m (msr_value d) \<and>
     buf_timestamp st' = last_update d \<and> cs_type st' = cs_type st \<and> cs_sensor st' = cs_sensor st"
proof -
  let ?t = "msr_text (lookup_value m (unat (msr_value d)))"
  from msr_text_length(2) [OF lookup_bound [OF assms(4), of m]] have l: "length ?t \<le> 19" by simp
  note sn = snprintf_short [OF l assms(1)]
  have r: "state_refresh ss st = Some (st\<lparr>buf_lim := int (length ?t), buf_data := snprintf ?t (buf_data st),
      buf_timestamp := last_update d\<rparr>)"
    unfolding state_refresh_def using assms(2-4) by (simp add: Let_def del: msr_of.simps)
  show ?thesis unfolding r
    by (rule exI, rule conjI, rule refl) (simp add: caches_def sn assms(4))
qed

text \<open>A read copies from the start of the text, whatever the position.\<close>

lemma read_copy_cached:
  assumes "caches st m v" "0 \<le> pos" "pos \<le> buf_lim st"
    and ok: "\<And>k. k \<le> 9 \<Longrightarrow> user_ok k" and cnt: "unat cnt < 9223372036854775808"
  defines "n \<equiv> min (unat cnt) (nat (buf_lim st - pos))"
  shows "read_copy user_ok cnt pos st = Some (Returned (int n) (take n (msr_text (lookup_value m (unat v))))
    (if pos + int n = buf_lim st then 0 else pos + int n) st)"
proof -
  let ?t = "msr_text (lookup_value m (unat v))"
  have c: "unat v < 65536" "buf_lim st = int (length ?t)" "length (buf_data st) = 20"
    "take (length ?t) (buf_data st) = ?t" using assms(1) by (auto simp: caches_def)
  note l = msr_text_length(2) [OF lookup_bound [OF c(1), of m]]
  obtain p where p: "pos = int p" "p \<le> length ?t" using assms(2,3) c(2) by (metis nonneg_int_cases of_nat_le_iff)
  have u: "unat (of_int (buf_lim st) :: u64) = length ?t"
    using l by (simp add: c(2) unat_of_nat take_bit_nat_eq_self)
  have up: "unat (of_int pos :: u64) = p" using p l by (simp add: unat_of_nat take_bit_nat_eq_self)
  have upc: "unat (of_int pos + cnt :: u64) = p + unat cnt"
    using up cnt p l by (subst unat_word_ariths) simp
  have "(of_int (buf_lim st) \<le> (of_int pos + cnt :: u64)) \<longleftrightarrow> length ?t \<le> p + unat cnt"
    unfolding word_le_nat_alt u upc ..
  moreover have "unat (of_int (buf_lim st - pos) :: u64) = length ?t - p"
    using p l by (simp add: c(2) of_nat_diff [symmetric] unat_of_nat take_bit_nat_eq_self del: of_nat_diff)
  ultimately have k: "unat (if of_int (buf_lim st) \<le> of_int pos + cnt then of_int (buf_lim st - pos) else cnt :: u64) = n"
    using p(2) by (simp add: n_def c(2) p(1) min_def nat_diff_distrib') (metis diff_add_inverse diff_diff_left le_antisym le_diff_conv add.commute nat_le_linear)
  define w where "w = (if of_int (buf_lim st) \<le> of_int pos + cnt then of_int (buf_lim st - pos) else cnt :: u64)"
  have wn: "unat w = n" "uint w = int n" using k by (simp_all add: w_def uint_nat)
  have n9: "n \<le> length ?t" by (simp add: n_def c(2) p(1))
  have "user_ok w" using ok wn(1) n9 l by (simp add: word_le_nat_alt)
  moreover have "take n (buf_data st) = take n ?t" using c(4) n9 by (metis min.absorb1 take_take)
  ultimately show ?thesis
    using n9 l unfolding read_copy_def w_def [symmetric] by (simp add: Let_def wn c(3))
qed

end
