(* ===== verification/Lunix_Read.thy ===== *)
theory Lunix_Read
  imports Lunix_Chrdev Lunix_Ldisc
begin

text \<open>
  Reading a character device of Lunix:TNG: a reader that finds nothing new waits for an update of
  the sensor and returns the text of the new measurement.
\<close>

definition stale :: "chr_state \<Rightarrow> wake \<Rightarrow> bool" where
  "stale st w \<longleftrightarrow> (case w of Woken ss locked \<Rightarrow> lunix_chrdev_state_needs_refresh ss st = Some False
     | Interrupted \<Rightarrow> False)"

lemma waiting_stale: "list_all (stale st) ws \<Longrightarrow> waiting st (ws @ ws') = waiting st ws'"
proof (induction ws)
  case (Cons w ws)
  then show ?case by (cases w) (simp_all add: stale_def)
qed simp

lemma update_fresh:
  assumes "length (buf_data st) = LUNIX_CHRDEV_BUFSZ" "msr_of (cs_type st) = Some m"
    "state_msr ss st = Some d" "last_update d \<noteq> buf_timestamp st" "unat (msr_value d) < 65536"
  shows "\<exists>st'. lunix_chrdev_state_update ss ss st = Some (0, st') \<and> caches st' m (msr_value d) \<and>
    buf_timestamp st' = last_update d \<and> cs_type st' = cs_type st \<and> cs_sensor st' = cs_sensor st"
proof -
  obtain st' where r: "state_refresh ss st = Some st'" "caches st' m (msr_value d)"
    "buf_timestamp st' = last_update d" "cs_type st' = cs_type st" "cs_sensor st' = cs_sensor st"
    using state_refresh_caches [OF assms(1-3,5)] by blast
  have "lunix_chrdev_state_update ss ss st = Some (0, st')"
    using assms(3,4) r(1) by (auto simp: lunix_chrdev_state_update_def lunix_chrdev_state_needs_refresh_def)
  with r show ?thesis by blast
qed

lemma read_waits:
  assumes "lunix_chrdev_state_needs_refresh ss st = Some False" "list_all (stale st) ws0"
  shows "lunix_chrdev_read ss True (ws0 @ ws) user_ok cnt 0 st =
    (case waiting st ws of None \<Rightarrow> None | Some Asleep \<Rightarrow> Some Blocked
      | Some (Failed e) \<Rightarrow> Some (Returned e [] 0 st) | Some (Ready st) \<Rightarrow> read_copy user_ok cnt 0 st)"
  using assms by (simp add: lunix_chrdev_read_def lunix_chrdev_state_update_def waiting_stale split: option.split waited.split)

lemma waiting_fresh:
  assumes "state_msr ss st = Some d" "last_update d \<noteq> buf_timestamp st"
    "lunix_chrdev_state_update ss ss st = Some (0, st')"
  shows "waiting st (Woken ss True # ws) = Some (Ready st')"
  using assms by (simp add: lunix_chrdev_state_needs_refresh_def)

text \<open>
  C32. A read at position 0 of a file whose measurement has been read before blocks, through any
  number of wake-ups that bring no new time stamp. The first wake-up with one makes it return the
  text of the sensor's measurement, cut to the bytes asked for; the position goes to the end of
  what was read and back to 0 at the end of the text. A second read in the middle of the text
  does not go on there: it gives the start of the text again.
\<close>

theorem lunix_read_fresh:
  assumes "length (buf_data st) = LUNIX_CHRDEV_BUFSZ" "msr_of (cs_type st) = Some m"
    and "lunix_chrdev_state_needs_refresh ss st = Some False" "list_all (stale st) ws0"
    and "state_msr ss' st = Some d" "last_update d \<noteq> buf_timestamp st" "unat (msr_value d) < 65536"
    and "\<And>k. k \<le> 9 \<Longrightarrow> user_ok k" "unat cnt < 9223372036854775808"
  defines "txt \<equiv> msr_text (lookup_value m (unat (msr_value d)))"
  defines "n \<equiv> min (unat cnt) (length txt)"
  shows "lunix_chrdev_read ss True ws0 user_ok cnt 0 st = Some Blocked \<and>
    (\<exists>st'. lunix_chrdev_read ss True (ws0 @ Woken ss' True # ws) user_ok cnt 0 st =
        Some (Returned (int n) (take n txt) (if n = length txt then 0 else int n) st') \<and>
      caches st' m (msr_value d) \<and> buf_timestamp st' = last_update d \<and>
      (0 < n \<longrightarrow> n < length txt \<longrightarrow>
        lunix_chrdev_read ss' True [] user_ok cnt (int n) st' =
          Some (Returned (int (min (unat cnt) (length txt - n))) (take (min (unat cnt) (length txt - n)) txt)
            (if n + min (unat cnt) (length txt - n) = length txt then 0
             else int (n + min (unat cnt) (length txt - n))) st')))"
proof (intro conjI)
  show "lunix_chrdev_read ss True ws0 user_ok cnt 0 st = Some Blocked"
    using read_waits [OF assms(3,4), of "[]" user_ok cnt] by simp
  obtain st' where u: "lunix_chrdev_state_update ss' ss' st = Some (0, st')" "caches st' m (msr_value d)"
    "buf_timestamp st' = last_update d"
    using update_fresh [OF assms(1-2,5-7)] by blast
  have lim: "buf_lim st' = int (length txt)" using u(2) by (simp add: caches_def txt_def)
  note rc = read_copy_cached [where user_ok = user_ok and cnt = cnt, OF u(2) _ _ assms(8,9), folded txt_def]
  have n0: "min (unat cnt) (nat (buf_lim st' - 0)) = n" by (simp add: lim n_def)
  have "lunix_chrdev_read ss True (ws0 @ Woken ss' True # ws) user_ok cnt 0 st = read_copy user_ok cnt 0 st'"
    using read_waits [OF assms(3,4), of "Woken ss' True # ws" user_ok cnt]
      waiting_fresh [OF assms(5,6) u(1), of ws] by simp
  also have "... = Some (Returned (int n) (take n txt) (if n = length txt then 0 else int n) st')"
    using rc [of 0, unfolded n0] by (simp only: lim add_0 of_nat_eq_iff of_nat_0_le_iff order_refl simp_thms)
  finally have r: "lunix_chrdev_read ss True (ws0 @ Woken ss' True # ws) user_ok cnt 0 st =
      Some (Returned (int n) (take n txt) (if n = length txt then 0 else int n) st')" .
  have "lunix_chrdev_read ss' True [] user_ok cnt (int n) st' =
        Some (Returned (int (min (unat cnt) (length txt - n))) (take (min (unat cnt) (length txt - n)) txt)
            (if n + min (unat cnt) (length txt - n) = length txt then 0
             else int (n + min (unat cnt) (length txt - n))) st')"
    if a: "0 < n" "n < length txt"
  proof -
    have p: "int n \<le> buf_lim st'" "int n \<noteq> 0" using a by (simp_all add: lim)
    have n1: "nat (buf_lim st' - int n) = length txt - n" by (simp add: lim nat_diff_distrib')
    have "lunix_chrdev_read ss' True [] user_ok cnt (int n) st' = read_copy user_ok cnt (int n) st'"
      using p(2) by (simp add: lunix_chrdev_read_def)
    also have "... = Some (Returned (int (min (unat cnt) (length txt - n)))
        (take (min (unat cnt) (length txt - n)) txt)
        (if int n + int (min (unat cnt) (length txt - n)) = buf_lim st' then 0
         else int n + int (min (unat cnt) (length txt - n))) st')"
      using rc [OF _ p(1)] unfolding n1 by simp
    finally show ?thesis by (simp only: lim of_nat_add [symmetric] of_nat_eq_iff)
  qed
  with r u(2,3) show "\<exists>st'. lunix_chrdev_read ss True (ws0 @ Woken ss' True # ws) user_ok cnt 0 st =
        Some (Returned (int n) (take n txt) (if n = length txt then 0 else int n) st') \<and>
      caches st' m (msr_value d) \<and> buf_timestamp st' = last_update d \<and>
      (0 < n \<longrightarrow> n < length txt \<longrightarrow>
        lunix_chrdev_read ss' True [] user_ok cnt (int n) st' =
          Some (Returned (int (min (unat cnt) (length txt - n))) (take (min (unat cnt) (length txt - n)) txt)
            (if n + min (unat cnt) (length txt - n) = length txt then 0
             else int (n + min (unat cnt) (length txt - n))) st'))"
    by (intro exI [of _ st'] conjI impI)
qed

text \<open>A temperature that arrives while the reader waits.\<close>

definition ex_sensor :: "u32 \<Rightarrow> u32 \<Rightarrow> lunix_sensor" where
  "ex_sensor now v = \<lparr>msr_data = (\<lambda>_. Some \<lparr>magic = LUNIX_MSR_MAGIC, last_update = now, msr_value = v\<rparr>),
     sleepers = {}\<rparr>"

definition ex_state :: chr_state where
  "ex_state = \<lparr>cs_type = 1, cs_sensor = 0, buf_lim = 0, buf_data = replicate 20 0, buf_timestamp = 0\<rparr>"

theorem lunix_read_fresh_witness:
  "let txt = msr_text 25066; n = min 3 (length txt)
   in lunix_chrdev_read [ex_sensor 0 0] True [Woken [ex_sensor 0 7] True] (\<lambda>_. True) 3 0 ex_state =
      Some Blocked \<and>
    (\<exists>st'. lunix_chrdev_read [ex_sensor 0 0] True
          ([Woken [ex_sensor 0 7] True] @ Woken [ex_sensor 9 502] True # []) (\<lambda>_. True) 3 0 ex_state =
        Some (Returned (int n) (take n txt) (if n = length txt then 0 else int n) st') \<and>
      caches st' TEMP 502 \<and> buf_timestamp st' = 9 \<and>
      (0 < n \<longrightarrow> n < length txt \<longrightarrow>
        lunix_chrdev_read [ex_sensor 9 502] True [] (\<lambda>_. True) 3 (int n) st' =
          Some (Returned (int (min 3 (length txt - n))) (take (min 3 (length txt - n)) txt)
            (if n + min 3 (length txt - n) = length txt then 0
             else int (n + min 3 (length txt - n))) st')))"
proof -
  let ?d = "\<lparr>magic = LUNIX_MSR_MAGIC, last_update = 9, msr_value = 502\<rparr>"
  have t: "lookup_value TEMP (unat (502 :: u32)) = 25066" "unat (3 :: u64) = 3"
    by (simp_all add: lookup_temperature_def temperatures_def)
  have a: "length (buf_data ex_state) = 20" "msr_of (cs_type ex_state) = Some TEMP"
    "lunix_chrdev_state_needs_refresh [ex_sensor 0 0] ex_state = Some False"
    "list_all (stale ex_state) [Woken [ex_sensor 0 7] True]"
    "state_msr [ex_sensor 9 502] ex_state = Some ?d" "last_update ?d \<noteq> buf_timestamp ex_state"
    "unat (msr_value ?d) < 65536"
    by (simp_all add: ex_state_def ex_sensor_def stale_def lunix_chrdev_state_needs_refresh_def state_msr_def)
  have b: "unat (3 :: u64) < 9223372036854775808" by simp
  show ?thesis
    using lunix_read_fresh [OF a TrueI b, of "[]"]
    unfolding Let_def lunix_msr_data.simps t .
qed

end
