(* ===== verification/Lunix_System.thy ===== *)
theory Lunix_System
  imports Lunix_Stream Lunix_Read
begin

text \<open>
  The running module: TTYs that attach to the line discipline and hand over buffers, and processes
  that read open files, as a step relation. The TTY layer hands over one buffer at a time. A
  buffer is parsed in one step, since the protocol's state belongs to the receiving side alone;
  what a complete packet does to its sensor is then pending, and \<open>receive_step\<close> performs one
  action of it: taking the sensor's lock, one store, giving the lock back or waking the sleepers.
  Processes run in between; only the copy of a measurement needs the lock, the check for new data
  does not. A read takes its position when it is called and stores
  it when it returns; a process that waits checks for new data, joins the queue of the sensor,
  checks again and sleeps until it is no longer in the queue. \<open>seen\<close> records every measurement
  that a sensor has held outside of its lock. Files are opened for the minor numbers of the
  sensors.
\<close>

datatype pc = Outside
  | Wants nat u64 int | Holding nat u64 int | Grab nat u64 | Copying nat u64 int
  | Unlocked nat u64 | Queued nat u64 | Sleeping nat u64

record lsys =
  avail :: int
  attached :: "nat set"
  prot :: proto
  sensors :: "lunix_sensor list"
  files :: "nat \<Rightarrow> chr_state option"
  positions :: "nat \<Rightarrow> int"
  holder :: "nat \<Rightarrow> nat option"
  procs :: "nat \<Rightarrow> pc"
  pending :: "nat \<times> action list"
  spinning :: "nat set"
  seen :: "(nat \<times> lunix_msr \<times> u32 \<times> u32) set"

definition measurements :: "lunix_sensor list \<Rightarrow> (nat \<times> lunix_msr \<times> u32 \<times> u32) set" where
  "measurements ss = {(k, m, t, v). k < length ss \<and>
     (\<exists>d. msr_data (ss ! k) m = Some d \<and> last_update d = t \<and> msr_value d = v)}"

definition set_pc :: "nat \<Rightarrow> pc \<Rightarrow> lsys \<Rightarrow> lsys" where
  "set_pc p q s = s\<lparr>procs := (procs s)(p := q)\<rparr>"

definition release :: "nat \<Rightarrow> lsys \<Rightarrow> lsys" where
  "release fd s = s\<lparr>holder := (holder s)(fd := None)\<rparr>"

text \<open>The queue of the sensor that a state belongs to.\<close>

definition set_queue :: "(nat set \<Rightarrow> nat set) \<Rightarrow> chr_state \<Rightarrow> lsys \<Rightarrow> lsys" where
  "set_queue f st s = s\<lparr>sensors := (sensors s)[cs_sensor st :=
     (sensors s ! cs_sensor st)\<lparr>sleepers := f (sleepers (sensors s ! cs_sensor st))\<rparr>]\<rparr>"

definition fresh :: "lsys \<Rightarrow> chr_state \<Rightarrow> bool \<Rightarrow> bool" where
  "fresh s st b \<longleftrightarrow> lunix_chrdev_state_needs_refresh (sensors s) st = Some b"

text \<open>
  One action of the pending update. \<open>spinning\<close> are the sensors whose spinlock is held.
\<close>

definition receive_step :: "lsys \<Rightarrow> lsys option" where
  "receive_step s = (case pending s of (k, []) \<Rightarrow> None | (k, a # as) \<Rightarrow>
     if a = Spin_lock \<and> k \<in> spinning s then None
     else do {
       x \<leftarrow> perform a (sensors s ! k);
       let s = s\<lparr>sensors := (sensors s)[k := x], pending := (k, as)\<rparr>;
       Some (case a of Spin_lock \<Rightarrow> s\<lparr>spinning := insert k (spinning s)\<rparr>
         | Spin_unlock \<Rightarrow> s\<lparr>spinning := spinning s - {k}, seen := seen s \<union> measurements (sensors s)\<rparr>
         | _ \<Rightarrow> s) })"

fun uses :: "pc \<Rightarrow> nat option" where
  "uses Outside = None"
| "uses (Wants fd cnt pos) = Some fd" | "uses (Holding fd cnt pos) = Some fd"
| "uses (Grab fd cnt) = Some fd" | "uses (Copying fd cnt pos) = Some fd"
| "uses (Unlocked fd cnt) = Some fd" | "uses (Queued fd cnt) = Some fd" | "uses (Sleeping fd cnt) = Some fd"

fun critical :: "pc \<Rightarrow> nat option" where
  "critical (Holding fd cnt pos) = Some fd" | "critical (Grab fd cnt) = Some fd"
| "critical (Copying fd cnt pos) = Some fd" | "critical _ = None"

section \<open>Steps\<close>

inductive lstep :: "bool \<Rightarrow> lsys \<Rightarrow> lsys \<Rightarrow> bool" for dbg :: bool where
  tty_open: "t \<notin> attached s \<Longrightarrow> lunix_ldisc_open c (avail s) room = (0, a, room') \<Longrightarrow>
    lstep dbg s (s\<lparr>avail := a, attached := insert t (attached s)\<rparr>)"
| tty_close: "t \<in> attached s \<Longrightarrow>
    lstep dbg s (s\<lparr>avail := lunix_ldisc_close (avail s), attached := attached s - {t}\<rparr>)"
| receive_buf: "t \<in> attached s \<Longrightarrow> snd (pending s) = [] \<Longrightarrow> received_packet dbg (prot s) bs = (st, pk) \<Longrightarrow>
    lstep dbg s (s\<lparr>prot := st, pending := (case pk of None \<Rightarrow> (0, [])
      | Some p \<Rightarrow> packet_actions now p (length (sensors s)))\<rparr>)"
| receive_step: "receive_step s = Some s' \<Longrightarrow> lstep dbg s s'"
| file_open: "files s fd = None \<Longrightarrow> minor div 8 < length (sensors s) \<Longrightarrow> minor mod 8 < 3 \<Longrightarrow>
    lunix_chrdev_open nso True minor = Some (r, Some st) \<Longrightarrow>
    lstep dbg s (s\<lparr>files := (files s)(fd := Some st), positions := (positions s)(fd := 0)\<rparr>)"
| file_release: "\<forall>p. uses (procs s p) \<noteq> Some fd \<Longrightarrow>
    lstep dbg s (s\<lparr>files := (files s)(fd := snd (lunix_chrdev_release (files s fd)))\<rparr>)"
| call: "procs s p = Outside \<Longrightarrow> files s fd = Some st \<Longrightarrow>
    lstep dbg s (set_pc p (Wants fd cnt (positions s fd)) s)"
| lock: "procs s p = Wants fd cnt pos \<Longrightarrow> holder s fd = None \<Longrightarrow>
    lstep dbg s (set_pc p (Holding fd cnt pos) (s\<lparr>holder := (holder s)(fd := Some p)\<rparr>))"
| lock_signal: "procs s p = Wants fd cnt pos \<Longrightarrow> lstep dbg s (set_pc p Outside s)"
| middle: "procs s p = Holding fd cnt pos \<Longrightarrow> pos \<noteq> 0 \<Longrightarrow> lstep dbg s (set_pc p (Copying fd cnt pos) s)"
| new_data: "procs s p = Holding fd cnt 0 \<Longrightarrow> files s fd = Some st \<Longrightarrow> fresh s st True \<Longrightarrow>
    lstep dbg s (set_pc p (Grab fd cnt) s)"
| again: "procs s p = Holding fd cnt 0 \<Longrightarrow> files s fd = Some st \<Longrightarrow> fresh s st False \<Longrightarrow>
    lstep dbg s (set_pc p (Unlocked fd cnt) (release fd s))"
| refresh: "procs s p = Grab fd cnt \<Longrightarrow> files s fd = Some st \<Longrightarrow> cs_sensor st \<notin> spinning s \<Longrightarrow>
    state_refresh (sensors s) st = Some st' \<Longrightarrow>
    lstep dbg s (set_pc p (Copying fd cnt 0) (s\<lparr>files := (files s)(fd := Some st')\<rparr>))"
| no_wait: "procs s p = Unlocked fd cnt \<Longrightarrow> files s fd = Some st \<Longrightarrow> fresh s st True \<Longrightarrow>
    lstep dbg s (set_pc p (Wants fd cnt 0) s)"
| queue: "procs s p = Unlocked fd cnt \<Longrightarrow> files s fd = Some st \<Longrightarrow> fresh s st False \<Longrightarrow>
    lstep dbg s (set_pc p (Queued fd cnt) (set_queue (insert p) st s))"
| queue_done: "procs s p = Queued fd cnt \<Longrightarrow> files s fd = Some st \<Longrightarrow> fresh s st True \<Longrightarrow>
    lstep dbg s (set_pc p (Wants fd cnt 0) (set_queue (\<lambda>q. q - {p}) st s))"
| sleep: "procs s p = Queued fd cnt \<Longrightarrow> files s fd = Some st \<Longrightarrow> fresh s st False \<Longrightarrow>
    lstep dbg s (set_pc p (Sleeping fd cnt) s)"
| woken: "procs s p = Sleeping fd cnt \<Longrightarrow> files s fd = Some st \<Longrightarrow> p \<notin> sleepers (sensors s ! cs_sensor st) \<Longrightarrow>
    lstep dbg s (set_pc p (Queued fd cnt) (set_queue (insert p) st s))"
| signal: "procs s p = Sleeping fd cnt \<Longrightarrow> files s fd = Some st \<Longrightarrow>
    lstep dbg s (set_pc p Outside (set_queue (\<lambda>q. q - {p}) st s))"
| copy: "procs s p = Copying fd cnt pos \<Longrightarrow> files s fd = Some st \<Longrightarrow>
    read_copy user_ok cnt pos st = Some (Returned r bytes pos' st') \<Longrightarrow>
    lstep dbg s (set_pc p Outside (release fd
      (s\<lparr>positions := (positions s)(fd := if 0 \<le> r then pos' else positions s fd)\<rparr>)))"

definition start_sys :: "proto \<Rightarrow> lunix_sensor list \<Rightarrow> lsys" where
  "start_sys st ss = \<lparr>avail = 1, attached = {}, prot = lunix_protocol_init st, sensors = ss, files = (\<lambda>_. None),
     positions = (\<lambda>_. 0), holder = (\<lambda>_. None), procs = (\<lambda>_. Outside), pending = (0, []), spinning = {}, seen = measurements ss\<rparr>"

inductive lreach :: "bool \<Rightarrow> lsys \<Rightarrow> lsys \<Rightarrow> bool" for dbg :: bool and s0 :: lsys where
  start: "lreach dbg s0 s0"
| more: "lreach dbg s0 s \<Longrightarrow> lstep dbg s s' \<Longrightarrow> lreach dbg s0 s'"

section \<open>Frame facts\<close>

lemma set_pc_simps [simp]:
  "procs (set_pc p q s) = (procs s)(p := q)" "avail (set_pc p q s) = avail s" "attached (set_pc p q s) = attached s"
  "prot (set_pc p q s) = prot s" "sensors (set_pc p q s) = sensors s" "files (set_pc p q s) = files s"
  "holder (set_pc p q s) = holder s" "seen (set_pc p q s) = seen s"
  "pending (set_pc p q s) = pending s" "spinning (set_pc p q s) = spinning s"
  by (simp_all add: set_pc_def)

lemma release_simps [simp]:
  "procs (release fd s) = procs s" "avail (release fd s) = avail s" "attached (release fd s) = attached s"
  "prot (release fd s) = prot s" "sensors (release fd s) = sensors s" "files (release fd s) = files s"
  "holder (release fd s) = (holder s)(fd := None)" "seen (release fd s) = seen s"
  "pending (release fd s) = pending s" "spinning (release fd s) = spinning s"
  by (simp_all add: release_def)

lemma set_queue_simps [simp]:
  "procs (set_queue f st s) = procs s" "avail (set_queue f st s) = avail s"
  "attached (set_queue f st s) = attached s" "prot (set_queue f st s) = prot s"
  "files (set_queue f st s) = files s" "holder (set_queue f st s) = holder s" "seen (set_queue f st s) = seen s"
  "pending (set_queue f st s) = pending s" "spinning (set_queue f st s) = spinning s"
  "length (sensors (set_queue f st s)) = length (sensors s)"
  by (simp_all add: set_queue_def)

text \<open>The queues do not matter for the data.\<close>

lemma set_queue_data [simp]: "msr_data (sensors (set_queue f st s) ! k) = msr_data (sensors s ! k)"
  by (cases "k = cs_sensor st \<and> k < length (sensors s)")
    (auto simp: set_queue_def nth_list_update_neq list_update_beyond not_less)

lemma set_queue_fresh [simp]:
  "lunix_chrdev_state_needs_refresh (sensors (set_queue f st s)) st' =
    lunix_chrdev_state_needs_refresh (sensors s) st'"
  by (simp add: lunix_chrdev_state_needs_refresh_def state_msr_def)

lemma measurements_queue [simp]: "measurements (sensors (set_queue f st s)) = measurements (sensors s)"
  by (simp add: measurements_def)

section \<open>The pending update\<close>

text \<open>
  What the list of pending actions must be like: the stores come under the lock, and after the
  store of a time stamp the sleepers are still to be woken.
\<close>

fun guarded :: "bool \<Rightarrow> action list \<Rightarrow> bool" where
  "guarded held [] \<longleftrightarrow> \<not> held"
| "guarded held (Spin_lock # as) \<longleftrightarrow> \<not> held \<and> guarded True as"
| "guarded held (Spin_unlock # as) \<longleftrightarrow> held \<and> guarded False as"
| "guarded held (Wake_up # as) \<longleftrightarrow> guarded held as"
| "guarded held (_ # as) \<longleftrightarrow> held \<and> guarded held as"

fun wakes_after :: "action list \<Rightarrow> bool" where
  "wakes_after [] \<longleftrightarrow> True"
| "wakes_after (Put_time m t # as) \<longleftrightarrow> Wake_up \<in> set as \<and> wakes_after as"
| "wakes_after (_ # as) \<longleftrightarrow> wakes_after as"

lemma update_actions_order:
  "guarded False (update_actions now batt temp light)" "wakes_after (update_actions now batt temp light)"
  by (simp_all add: update_actions_def)

lemma packet_actions_order:
  assumes "packet_actions now p n = (k, as)"
  shows "guarded False as" "wakes_after as" "as \<noteq> [] \<longrightarrow> k < n"
  using assms update_actions_order
  by (auto simp: packet_actions_def Let_def split: if_splits)

lemma received_packet_linked:
  assumes "linked_some st" "received_packet dbg st bs = (st', pk)"
  shows "linked_some st'"
proof -
  have "lunix_protocol_update_sensors now p [] = Some []" for now p
    by (auto simp: lunix_protocol_update_sensors_def Let_def)
  then have "lunix_protocol_received_buf dbg 0 st [] bs = Some (st', [])"
    using assms(2) by (simp add: received_packet_buf split: option.split)
  with received_buf_any [OF assms(1), of "[]" dbg 0 bs] show ?thesis by (auto simp: sensors_ready_def)
qed

text \<open>What one action does to a sensor that has its pages.\<close>

lemma perform_ready:
  assumes "sensor_ready x"
  shows "\<exists>y. perform a x = Some y \<and> sensor_ready y"
proof -
  have "\<exists>y. store_msr m f x = Some y \<and> sensor_ready y" for m f
  proof -
    obtain d where "msr_data x m = Some d" using assms unfolding sensor_ready_def by blast
    with assms show ?thesis by (simp add: store_msr_def sensor_ready_def)
  qed
  with assms show ?thesis by (cases a) (simp_all add: sensor_ready_def)
qed

lemma perform_sleepers:
  "perform a x = Some y \<Longrightarrow> sleepers y = (if a = Wake_up then {} else sleepers x)"
  by (cases a) (auto simp: store_msr_def bind_eq_Some_conv)

lemma perform_data:
  "perform a x = Some y \<Longrightarrow> a \<in> {Spin_lock, Spin_unlock, Wake_up} \<Longrightarrow> msr_data y = msr_data x"
  by (cases a) auto

lemma perform_time:
  assumes "perform a x = Some y" "\<forall>m t. a \<noteq> Put_time m t"
  shows "map_option last_update (msr_data y m) = map_option last_update (msr_data x m)"
proof -
  have "map_option last_update (msr_data y m) = map_option last_update (msr_data x m)"
    if "store_msr m' f x = Some y" "\<And>d. last_update (f d) = last_update d" for m' f
    using that by (cases "msr_data x m'") (auto simp: store_msr_def)
  with assms show ?thesis by (cases a) auto
qed

end
