(* ===== verification/Lunix_System_Thms.thy ===== *)
theory Lunix_System_Thms
  imports Lunix_System Lunix_Thms
begin

text \<open>
  The invariants of the running module, each proved step by step, and their conjunction.
\<close>

definition tty_inv :: "lsys \<Rightarrow> bool" where
  "tty_inv s \<longleftrightarrow> (avail s = 1 \<and> attached s = {}) \<or> (avail s = 0 \<and> (\<exists>t. attached s = {t}))"

definition data_inv :: "lsys \<Rightarrow> bool" where
  "data_inv s \<longleftrightarrow> linked_some (prot s) \<and> sensors_ready (sensors s) \<and>
     (\<forall>x \<in> measurements (sensors s). fst x \<notin> spinning s \<longrightarrow> x \<in> seen s)"

definition recv_inv :: "lsys \<Rightarrow> bool" where
  "recv_inv s \<longleftrightarrow> (case pending s of (k, as) \<Rightarrow> guarded (k \<in> spinning s) as \<and> wakes_after as \<and>
     spinning s \<subseteq> {k} \<and> (as \<noteq> [] \<longrightarrow> k < length (sensors s)))"

definition lock_inv :: "lsys \<Rightarrow> bool" where
  "lock_inv s \<longleftrightarrow> (\<forall>p fd. critical (procs s p) = Some fd \<longleftrightarrow> holder s fd = Some p)"

definition open_inv :: "lsys \<Rightarrow> bool" where
  "open_inv s \<longleftrightarrow> (\<forall>p fd. uses (procs s p) = Some fd \<longrightarrow> files s fd \<noteq> None)"

text \<open>A wake-up of sensor \<open>k\<close>'s sleepers is still to come in the update under way.\<close>

definition wake_due :: "lsys \<Rightarrow> nat \<Rightarrow> bool" where
  "wake_due s k \<longleftrightarrow> fst (pending s) = k \<and> Wake_up \<in> set (snd (pending s))"

definition sleep_inv :: "lsys \<Rightarrow> bool" where
  "sleep_inv s \<longleftrightarrow> (\<forall>p fd cnt st. procs s p = Sleeping fd cnt \<longrightarrow> files s fd = Some st \<longrightarrow>
     p \<in> sleepers (sensors s ! cs_sensor st) \<longrightarrow> fresh s st False \<or> wake_due s (cs_sensor st))"

definition file_ok :: "lsys \<Rightarrow> chr_state \<Rightarrow> bool" where
  "file_ok s st \<longleftrightarrow> length (buf_data st) = LUNIX_CHRDEV_BUFSZ \<and>
     (buf_lim st = 0 \<and> buf_timestamp st = 0 \<or>
      (\<exists>m v. msr_of (cs_type st) = Some m \<and> caches st m v \<and> (cs_sensor st, m, buf_timestamp st, v) \<in> seen s))"

definition file_inv :: "lsys \<Rightarrow> bool" where
  "file_inv s \<longleftrightarrow> (\<forall>fd st. files s fd = Some st \<longrightarrow> file_ok s st)"

lemmas invs = tty_inv_def data_inv_def recv_inv_def lock_inv_def open_inv_def sleep_inv_def file_inv_def

section \<open>Steps keep them\<close>

lemma queue_ready [simp]: "sensors_ready (sensors (set_queue f st s)) = sensors_ready (sensors s)"
  by (simp add: sensors_ready_def list_all_length sensor_ready_def)

text \<open>One action of the pending update.\<close>

lemma receive_stepE:
  assumes "receive_step s = Some s'"
  obtains k a as x where "pending s = (k, a # as)" "a = Spin_lock \<longrightarrow> k \<notin> spinning s"
    "perform a (sensors s ! k) = Some x" "sensors s' = (sensors s)[k := x]" "pending s' = (k, as)"
    "spinning s' = (case a of Spin_lock \<Rightarrow> insert k (spinning s) | Spin_unlock \<Rightarrow> spinning s - {k} | _ \<Rightarrow> spinning s)"
    "seen s' = (if a = Spin_unlock then seen s \<union> measurements (sensors s') else seen s)"
    "procs s' = procs s" "files s' = files s" "holder s' = holder s" "prot s' = prot s"
    "avail s' = avail s" "attached s' = attached s"
proof -
  obtain k a as where p: "pending s = (k, a # as)"
    using assms by (auto simp: receive_step_def split: prod.splits list.splits)
  then obtain x where x: "perform a (sensors s ! k) = Some x"
    using assms by (auto simp: receive_step_def bind_eq_Some_conv split: if_splits)
  show thesis
    by (rule that [OF p _ x]) (use assms in \<open>auto simp: receive_step_def p x Let_def split: if_splits action.splits\<close>)
qed

text \<open>The sensors after one action: only the updated one can differ.\<close>

lemma nth_updated: "k < length xs \<Longrightarrow> xs[k := x] ! j = (if j = k then x else xs ! j)"
  by simp

lemma step_tty: "lstep dbg s s' \<Longrightarrow> tty_inv s \<Longrightarrow> tty_inv s'"
proof (induction rule: lstep.induct)
  case (receive_step s s')
  from receive_step(1) show ?case
    by (rule receive_stepE) (use receive_step(2) in \<open>simp add: tty_inv_def\<close>)
qed (auto simp: tty_inv_def lunix_ldisc_open_def lunix_ldisc_close_def atomic_add_unless_def split: if_splits)

lemma step_recv: "lstep dbg s s' \<Longrightarrow> recv_inv s \<Longrightarrow> recv_inv s'"
proof (induction rule: lstep.induct)
  case (receive_buf t s bs st pk)
  obtain k0 where p: "pending s = (k0, [])" using receive_buf(2) by (cases "pending s") auto
  have sp: "spinning s = {}" using receive_buf(4) p by (auto simp: recv_inv_def)
  show ?case
    using sp by (auto simp: recv_inv_def dest: packet_actions_order split: option.splits prod.splits)
next
  case (receive_step s s')
  from receive_step(1) show ?case
  proof (rule receive_stepE)
    fix k a as x assume h: "pending s = (k, a # as)" "sensors s' = (sensors s)[k := x]" "pending s' = (k, as)"
      "spinning s' = (case a of Spin_lock \<Rightarrow> insert k (spinning s) | Spin_unlock \<Rightarrow> spinning s - {k} | _ \<Rightarrow> spinning s)"
    from receive_step(2) h show ?case by (cases a) (auto simp: recv_inv_def)
  qed
qed (auto simp: recv_inv_def)

lemma measurements_updated:
  assumes "k < length ss" "x \<in> measurements (ss[k := y])" "fst x \<noteq> k \<or> msr_data y = msr_data (ss ! k)"
  shows "x \<in> measurements ss"
  using assms by (auto simp: measurements_def nth_list_update split: if_splits)

lemma sensors_updated_ready:
  "sensors_ready ss \<Longrightarrow> sensor_ready y \<Longrightarrow> sensors_ready (ss[k := y])"
  by (simp add: sensors_ready_def list_all_length)
    (metis nth_list_update_eq nth_list_update_neq)

lemma guarded_store:
  "guarded held (a # as) \<Longrightarrow> a \<notin> {Spin_lock, Spin_unlock, Wake_up} \<Longrightarrow> held"
  by (cases a) auto

lemma step_data: "lstep dbg s s' \<Longrightarrow> recv_inv s \<Longrightarrow> data_inv s \<Longrightarrow> data_inv s'"
proof (induction rule: lstep.induct)
  case (receive_buf t s bs st pk)
  with received_packet_linked show ?case by (auto simp: data_inv_def)
next
  case (receive_step s s')
  from receive_step(1) show ?case
  proof (rule receive_stepE)
    fix k a as x assume h: "pending s = (k, a # as)" "perform a (sensors s ! k) = Some x"
      "sensors s' = (sensors s)[k := x]" "prot s' = prot s"
      "spinning s' = (case a of Spin_lock \<Rightarrow> insert k (spinning s) | Spin_unlock \<Rightarrow> spinning s - {k} | _ \<Rightarrow> spinning s)"
      "seen s' = (if a = Spin_unlock then seen s \<union> measurements (sensors s') else seen s)"
    have k: "k < length (sensors s)" and g: "guarded (k \<in> spinning s) (a # as)"
      using receive_step(2) h(1) by (simp_all add: recv_inv_def)
    have rd: "sensors_ready (sensors s)" using receive_step(3) by (simp add: data_inv_def)
    then have "sensor_ready (sensors s ! k)" using k by (simp add: sensors_ready_def list_all_length)
    then have "sensor_ready x" using perform_ready [of "sensors s ! k" a] h(2) by simp
    then have rd': "sensors_ready (sensors s')" using sensors_updated_ready [OF rd] h(3) by simp
    have "y \<in> seen s'" if y: "y \<in> measurements (sensors s')" "fst y \<notin> spinning s'" for y
    proof (cases "a = Spin_unlock")
      case True
      with y h(6) show ?thesis by simp
    next
      case False
      then have sub: "spinning s \<subseteq> spinning s'" using h(5) by (cases a) auto
      have "fst y \<noteq> k \<or> msr_data x = msr_data (sensors s ! k)"
        using guarded_store [OF g] perform_data [OF h(2)] sub y(2) by blast
      with y(1) h(3) k have "y \<in> measurements (sensors s)" by (auto intro: measurements_updated)
      with receive_step(3) sub y(2) False h(6) show ?thesis by (auto simp: data_inv_def)
    qed
    with rd' receive_step(3) h(4) show ?case by (auto simp: data_inv_def)
  qed
qed (simp_all add: data_inv_def)

lemma step_open: "lstep dbg s s' \<Longrightarrow> open_inv s \<Longrightarrow> open_inv s'"
proof (induction rule: lstep.induct)
  case (receive_step s s')
  from receive_step(1) show ?case
    by (rule receive_stepE) (use receive_step(2) in \<open>simp add: open_inv_def\<close>)
qed (unfold open_inv_def, (simp; (metis uses.simps option.inject option.distinct(1))?)+)

lemma step_lock: "lstep dbg s s' \<Longrightarrow> lock_inv s \<Longrightarrow> lock_inv s'"
proof (induction rule: lstep.induct)
  case (receive_step s s')
  from receive_step(1) show ?case
    by (rule receive_stepE) (use receive_step(2) in \<open>simp add: lock_inv_def\<close>)
next
  case (copy s p fd cnt pos st user_ok r bytes pos' st')
  then show ?case unfolding lock_inv_def by (simp add: release_def) (metis critical.simps(3) option.inject)
qed (unfold lock_inv_def, (simp; (metis critical.simps option.inject option.distinct(1)))+)

lemma file_ok_mono: "seen s \<subseteq> seen s' \<Longrightarrow> file_ok s st \<Longrightarrow> file_ok s' st"
  by (auto simp: file_ok_def)

lemma step_file:
  assumes "lstep dbg s s'" "data_inv s" "file_inv s"
  shows "file_inv s'"
  using assms
proof (induction rule: lstep.induct)
  case (receive_step s s')
  from receive_step(1) show ?case
  proof (rule receive_stepE)
    fix a assume h: "seen s' = (if a = Spin_unlock then seen s \<union> measurements (sensors s') else seen s)"
      "files s' = files s"
    have "seen s \<subseteq> seen s'" using h(1) by simp
    with receive_step(3) h(2) show ?case by (simp add: file_inv_def file_ok_mono)
  qed
next
  case (file_open s fd minor nso r st)
  then show ?case by (auto simp: file_inv_def file_ok_def lunix_chrdev_open_def split: if_splits)
next
  case (file_release s fd)
  then show ?case by (auto simp: file_inv_def file_ok_def lunix_chrdev_release_def)
next
  case (refresh s p fd cnt st st')
  obtain m d where md: "msr_of (cs_type st) = Some m" "state_msr (sensors s) st = Some d"
    "unat (msr_value d) < 65536"
    using refresh(4) by (auto simp: state_refresh_def bind_eq_Some_conv split: if_splits)
  have ok: "file_ok s st" using refresh(2,6) by (auto simp: file_inv_def)
  from state_refresh_caches [OF _ md] ok refresh(4)
  have st': "caches st' m (msr_value d)" "buf_timestamp st' = last_update d" "cs_type st' = cs_type st"
    "cs_sensor st' = cs_sensor st" by (auto simp: file_ok_def)
  have "(cs_sensor st, m, last_update d, msr_value d) \<in> measurements (sensors s)"
    using md by (auto simp: measurements_def state_msr_def bind_eq_Some_conv split: if_splits)
  then have "(cs_sensor st, m, last_update d, msr_value d) \<in> seen s"
    using refresh(3,5) by (auto simp: data_inv_def)
  then have "file_ok s st'"
    using st' md(1) by (auto simp: file_ok_def caches_def)
  with refresh(6) show ?case by (auto simp: file_inv_def file_ok_def)
qed (auto simp: file_inv_def file_ok_def)

lemma queue_sleepers:
  "sleepers (sensors (set_queue f st s) ! k) =
    (if k = cs_sensor st \<and> k < length (sensors s) then f (sleepers (sensors s ! k)) else sleepers (sensors s ! k))"
  by (cases "k = cs_sensor st \<and> k < length (sensors s)")
    (auto simp: set_queue_def nth_list_update_neq list_update_beyond not_less)

lemma queue_fresh [simp]: "fresh (set_queue f st s) st' b = fresh s st' b"
  by (simp add: fresh_def)

lemma pc_fresh [simp]: "fresh (set_pc p q s) = fresh s" "fresh (release fd s) = fresh s"
  by (auto simp: fresh_def fun_eq_iff)

lemma fresh_cong: "sensors s' = sensors s \<Longrightarrow> fresh s' = fresh s"
  by (auto simp: fresh_def fun_eq_iff)

lemma due_cong [simp]:
  "wake_due (set_pc p q s) = wake_due s" "wake_due (release fd s) = wake_due s"
  "wake_due (set_queue f st s) = wake_due s"
  by (simp_all add: wake_due_def fun_eq_iff)

text \<open>An action that stores no time stamp leaves the question for new data as it is.\<close>

lemma fresh_updated:
  assumes "sensors s' = (sensors s)[k := x]" "k < length (sensors s)"
    and "k = cs_sensor st \<longrightarrow> (\<forall>m. map_option last_update (msr_data x m) = map_option last_update (msr_data (sensors s ! k) m))"
  shows "fresh s' st b = fresh s st b"
proof -
  have "map_option last_update (state_msr (sensors s') st) = map_option last_update (state_msr (sensors s) st)"
    using assms by (auto simp: state_msr_def map_option_bind nth_list_update split: Option.bind_split)
  then show ?thesis
    by (cases "state_msr (sensors s') st"; cases "state_msr (sensors s) st")
      (auto simp: fresh_def lunix_chrdev_state_needs_refresh_def)
qed

lemma receive_sleep:
  assumes run: "receive_step s = Some s'" and r: "recv_inv s" and sl: "sleep_inv s"
  shows "sleep_inv s'"
  using run
proof (rule receive_stepE)
  fix k a as x assume h: "pending s = (k, a # as)" "perform a (sensors s ! k) = Some x"
    "sensors s' = (sensors s)[k := x]" "pending s' = (k, as)" "procs s' = procs s" "files s' = files s"
  have k: "k < length (sensors s)" and w: "wakes_after (a # as)" using r h(1) by (simp_all add: recv_inv_def)
  have "fresh s' st False \<or> wake_due s' (cs_sensor st)"
    if p: "procs s p = Sleeping fd cnt" "files s fd = Some st" "p \<in> sleepers (sensors s' ! cs_sensor st)" for p fd cnt st
  proof (cases "cs_sensor st = k")
    case False
    have "fresh s st False \<or> wake_due s (cs_sensor st)"
      using sl p h(3) False unfolding sleep_inv_def by (metis nth_list_update_neq)
    moreover have "\<not> wake_due s (cs_sensor st)" using False h(1) by (simp add: wake_due_def)
    ultimately show ?thesis using fresh_updated [OF h(3) k] False by simp
  next
    case True
    have "p \<in> sleepers x" using p(3) True h(3) k by simp
    then have a: "a \<noteq> Wake_up" "p \<in> sleepers (sensors s ! k)"
      using perform_sleepers [OF h(2)] by (auto split: if_splits)
    show ?thesis
    proof (cases "\<exists>m t. a = Put_time m t")
      case True
      with w h(4) \<open>cs_sensor st = k\<close> show ?thesis by (auto simp: wake_due_def)
    next
      case False
      have "fresh s st False \<or> wake_due s k"
        using sl p(1,2) a(2) True unfolding sleep_inv_def by blast
      moreover have "fresh s' st False = fresh s st False"
        using perform_time [OF h(2)] False by (intro fresh_updated [OF h(3) k]) simp
      ultimately show ?thesis using h(1,4) a(1) True by (auto simp: wake_due_def)
    qed
  qed
  then show ?thesis using h(5,6) by (simp add: sleep_inv_def)
qed

text \<open>A process that does not sleep joins or leaves a queue.\<close>

lemma sleep_queue:
  assumes sl: "sleep_inv s" and q: "\<forall>fd cnt. q \<noteq> Sleeping fd cnt" and f: "\<And>A x. x \<in> f A \<Longrightarrow> x \<noteq> p \<Longrightarrow> x \<in> A"
  shows "sleep_inv (set_pc p q (set_queue f st s))"
proof -
  have "fresh s st' False \<or> wake_due s (cs_sensor st')"
    if x: "((procs s)(p := q)) x = Sleeping fd cnt" "files s fd = Some st'"
      "x \<in> sleepers (sensors (set_queue f st s) ! cs_sensor st')" for x fd cnt st'
  proof -
    have "x \<noteq> p" using x(1) q by auto
    moreover from this have "x \<in> sleepers (sensors s ! cs_sensor st')"
      using x(3) f by (auto simp: queue_sleepers split: if_splits)
    ultimately show ?thesis using sl x(1,2) unfolding sleep_inv_def by (metis fun_upd_other)
  qed
  then show ?thesis by (simp add: sleep_inv_def)
qed

lemma step_sleep: "lstep dbg s s' \<Longrightarrow> recv_inv s \<Longrightarrow> open_inv s \<Longrightarrow> sleep_inv s \<Longrightarrow> sleep_inv s'"
proof (induction rule: lstep.induct)
  case (receive_buf t s bs st pk)
  then show ?case by (auto simp: sleep_inv_def fresh_def wake_due_def)
next
  case (receive_step s s')
  from receive_sleep [OF receive_step(1,2,4)] show ?case .
next
  case (file_open s fd minor nso r st)
  have "procs s p \<noteq> Sleeping fd cnt" for p cnt
    using file_open(1,6) unfolding open_inv_def by (metis uses.simps(8))
  with file_open(7) show ?case by (auto simp: sleep_inv_def fresh_def wake_due_def)
next
  case (refresh s p fd cnt st st')
  have c: "state_msr (sensors s) st' = state_msr (sensors s) st" "fresh s st' False"
    using refresh(4) by (auto simp: state_refresh_def bind_eq_Some_conv Let_def state_msr_def fresh_def
        lunix_chrdev_state_needs_refresh_def split: if_splits)
  have "fresh (s\<lparr>files := (files s)(fd := Some st')\<rparr>) = fresh s" by (rule fresh_cong) simp
  with c refresh(7) show ?case by (auto simp: sleep_inv_def wake_due_def)
next
  case (file_release s fd)
  then show ?case by (auto simp: sleep_inv_def fresh_def wake_due_def lunix_chrdev_release_def)
next
  case (copy s p fd cnt pos st user_ok r bytes pos' st')
  then show ?case by (auto simp: sleep_inv_def fresh_def wake_due_def)
next
  case (queue s p fd cnt st)
  from queue(6) show ?case by (rule sleep_queue) auto
next
  case (queue_done s p fd cnt st)
  from queue_done(6) show ?case by (rule sleep_queue) auto
next
  case (woken s p fd cnt st)
  from woken(6) show ?case by (rule sleep_queue) auto
next
  case (signal s p fd cnt st)
  from signal(5) show ?case by (rule sleep_queue) auto
qed (auto simp: sleep_inv_def fresh_def wake_due_def split: if_splits)

section \<open>The module\<close>

definition system_ok :: "lsys \<Rightarrow> bool" where
  "system_ok s \<longleftrightarrow> tty_inv s \<and> data_inv s \<and> recv_inv s \<and> lock_inv s \<and> open_inv s \<and> sleep_inv s \<and> file_inv s"

lemma start_ok:
  assumes "length (packet st) = MAX_PACKET_LEN" "sensors_ready ss"
  shows "system_ok (start_sys st ss)"
  using init_linked [OF assms(1)] assms(2) by (simp add: system_ok_def invs start_sys_def)

lemma step_ok: "lstep dbg s s' \<Longrightarrow> system_ok s \<Longrightarrow> system_ok s'"
  using step_tty step_data step_recv step_lock step_open step_sleep step_file unfolding system_ok_def by metis

lemma reach_ok:
  assumes "lreach dbg s0 s" "system_ok s0"
  shows "system_ok s"
  using assms by (induction rule: lreach.induct) (auto intro: step_ok)

text \<open>An update under way can always go on.\<close>

lemma receive_step_enabled:
  assumes "data_inv s" "recv_inv s" "snd (pending s) \<noteq> []"
  shows "receive_step s \<noteq> None"
proof -
  obtain k a as where p: "pending s = (k, a # as)" using assms(3) by (cases "pending s"; cases "snd (pending s)") auto
  then have g: "guarded (k \<in> spinning s) (a # as)" "k < length (sensors s)"
    using assms(2) by (simp_all add: recv_inv_def)
  have "sensor_ready (sensors s ! k)" using assms(1) g(2) by (simp add: data_inv_def sensors_ready_def list_all_length)
  then obtain x where "perform a (sensors s ! k) = Some x" using perform_ready by blast
  moreover have "\<not> (a = Spin_lock \<and> k \<in> spinning s)" using g(1) by auto
  ultimately show ?thesis by (auto simp: receive_step_def p Let_def)
qed

text \<open>
  C33. In every state the module reaches, however TTYs attach, buffers arrive, the stores of an
  update take place and processes read in between: at most one TTY is attached; the protocol
  keeps its invariant; at most one process is between taking and giving back the lock of a file,
  and it is the lock's holder; a process that sleeps and has not been woken sleeps on a file with
  nothing new, or the wake-up of its sensor's sleepers is still to come in the update under way,
  which can always go on, so no wake-up is lost; and a file's cache is empty or holds the text of
  a value that its sensor really had at the cached time outside of its lock, never the half of an
  update.
\<close>

theorem lunix_system_invariant:
  assumes "length (packet st) = MAX_PACKET_LEN" "sensors_ready ss"
    and "lreach dbg (start_sys st ss) s"
  shows "(\<forall>t t'. t \<in> attached s \<longrightarrow> t' \<in> attached s \<longrightarrow> t = t') \<and> proto_wf (prot s) \<and>
    (\<forall>p q fd. critical (procs s p) = Some fd \<longrightarrow> holder s fd = Some p \<and>
       (critical (procs s q) = Some fd \<longrightarrow> q = p)) \<and>
    (\<forall>p fd cnt f. procs s p = Sleeping fd cnt \<longrightarrow> files s fd = Some f \<longrightarrow>
       p \<in> sleepers (sensors s ! cs_sensor f) \<longrightarrow>
       lunix_chrdev_state_needs_refresh (sensors s) f = Some False \<or>
       fst (pending s) = cs_sensor f \<and> Wake_up \<in> set (snd (pending s))) \<and>
    (snd (pending s) \<noteq> [] \<longrightarrow> receive_step s \<noteq> None) \<and>
    (\<forall>fd f. files s fd = Some f \<longrightarrow> buf_lim f = 0 \<and> buf_timestamp f = 0 \<or>
       (\<exists>m v. msr_of (cs_type f) = Some m \<and> (cs_sensor f, m, buf_timestamp f, v) \<in> seen s \<and>
         buf_lim f = int (length (msr_text (lookup_value m (unat v)))) \<and>
         take (nat (buf_lim f)) (buf_data f) = msr_text (lookup_value m (unat v))))"
proof -
  have ok: "system_ok s" by (rule reach_ok [OF assms(3) start_ok [OF assms(1,2)]])
  have "\<forall>t t'. t \<in> attached s \<longrightarrow> t' \<in> attached s \<longrightarrow> t = t'"
    using ok by (auto simp: system_ok_def tty_inv_def)
  moreover have "proto_wf (prot s)" using ok linked_some_wf by (simp add: system_ok_def data_inv_def)
  moreover have "\<forall>p q fd. critical (procs s p) = Some fd \<longrightarrow> holder s fd = Some p \<and>
       (critical (procs s q) = Some fd \<longrightarrow> q = p)"
    using ok by (simp add: system_ok_def lock_inv_def)
  moreover have "\<forall>p fd cnt f. procs s p = Sleeping fd cnt \<longrightarrow> files s fd = Some f \<longrightarrow>
       p \<in> sleepers (sensors s ! cs_sensor f) \<longrightarrow>
       lunix_chrdev_state_needs_refresh (sensors s) f = Some False \<or>
       fst (pending s) = cs_sensor f \<and> Wake_up \<in> set (snd (pending s))"
    using ok by (simp add: system_ok_def sleep_inv_def fresh_def wake_due_def)
  moreover have "snd (pending s) \<noteq> [] \<longrightarrow> receive_step s \<noteq> None"
    using ok receive_step_enabled by (simp add: system_ok_def)
  moreover have "\<forall>fd f. files s fd = Some f \<longrightarrow> buf_lim f = 0 \<and> buf_timestamp f = 0 \<or>
       (\<exists>m v. msr_of (cs_type f) = Some m \<and> (cs_sensor f, m, buf_timestamp f, v) \<in> seen s \<and>
         buf_lim f = int (length (msr_text (lookup_value m (unat v)))) \<and>
         take (nat (buf_lim f)) (buf_data f) = msr_text (lookup_value m (unat v)))"
    using ok unfolding system_ok_def file_inv_def file_ok_def caches_def by blast
  ultimately show ?thesis by blast
qed

text \<open>A reader of the first sensor's temperature that sleeps, since nothing has arrived yet.\<close>

lemma sleeping_reader:
  "\<exists>s f. lreach True (start_sys ex_proto ex_sensors) s \<and> procs s 7 = Sleeping 3 100 \<and>
    files s 3 = Some f \<and> 7 \<in> sleepers (sensors s ! cs_sensor f) \<and> pending s = (0, [])"
proof -
  define f where "f = \<lparr>cs_type = 1, cs_sensor = 0, buf_lim = 0, buf_data = replicate 20 0, buf_timestamp = 0\<rparr>"
  define s0 where "s0 = start_sys ex_proto ex_sensors"
  define s1 where "s1 = s0\<lparr>files := (files s0)(3 := Some f), positions := (positions s0)(3 := 0)\<rparr>"
  define s2 where "s2 = set_pc 7 (Wants 3 100 (positions s1 3)) s1"
  define s3 where "s3 = set_pc 7 (Holding 3 100 0) (s2\<lparr>holder := (holder s2)(3 := Some 7)\<rparr>)"
  define s4 where "s4 = set_pc 7 (Unlocked 3 100) (release 3 s3)"
  define s5 where "s5 = set_pc 7 (Queued 3 100) (set_queue (insert 7) f s4)"
  define s6 where "s6 = set_pc 7 (Sleeping 3 100) s5"
  have f0: "fresh s0 f False"
    by (simp add: fresh_def s0_def start_sys_def f_def ex_sensors_def lunix_chrdev_state_needs_refresh_def
        state_msr_def lunix_sensor_init_def zero_msr_def numeral_2_eq_2)
  have fr: "fresh s3 f False" "fresh s4 f False" "fresh s5 f False"
    using f0 by (simp_all add: s5_def s4_def s3_def s2_def s1_def fresh_def)
  have fl: "files s1 3 = Some f" "files s3 3 = Some f" "files s4 3 = Some f" "files s5 3 = Some f"
    by (simp_all add: s5_def s4_def s3_def s2_def s1_def)
  have "lstep True s0 s1"
    unfolding s1_def by (rule file_open [where minor = 1 and nso = 0 and r = 0])
      (simp_all add: s0_def start_sys_def ex_sensors_def lunix_chrdev_open_def f_def)
  moreover have "lstep True s1 s2"
    unfolding s2_def by (rule call [OF _ fl(1)]) (simp add: s1_def s0_def start_sys_def)
  moreover have "lstep True s2 s3"
    unfolding s3_def by (rule lock) (simp_all add: s2_def s1_def s0_def start_sys_def)
  moreover have "lstep True s3 s4"
    unfolding s4_def by (rule again [OF _ fl(2) fr(1)]) (simp add: s3_def)
  moreover have "lstep True s4 s5"
    unfolding s5_def by (rule queue [OF _ fl(3) fr(2)]) (simp add: s4_def)
  moreover have "lstep True s5 s6"
    unfolding s6_def by (rule sleep [OF _ fl(4) fr(3)]) (simp add: s5_def)
  ultimately have "lreach True s0 s6" by (meson start more)
  moreover have "7 \<in> sleepers (sensors s6 ! cs_sensor f)"
    by (simp add: s6_def s5_def queue_sleepers)
      (simp add: s4_def s3_def s2_def s1_def s0_def start_sys_def ex_sensors_def f_def)
  moreover have "files s6 3 = Some f" "procs s6 7 = Sleeping 3 100" using fl(4) by (simp_all add: s6_def)
  moreover have "pending s6 = (0, [])"
    by (simp add: s6_def s5_def s4_def s3_def s2_def s1_def s0_def start_sys_def)
  ultimately show ?thesis unfolding s0_def by blast
qed

theorem lunix_system_invariant_witness:
  "\<exists>s f. lreach True (start_sys ex_proto ex_sensors) s \<and> procs s 7 = Sleeping 3 100 \<and>
    files s 3 = Some f \<and> 7 \<in> sleepers (sensors s ! cs_sensor f) \<and>
    lunix_chrdev_state_needs_refresh (sensors s) f = Some False \<and> proto_wf (prot s)"
proof -
  obtain s f where s: "lreach True (start_sys ex_proto ex_sensors) s" "procs s 7 = Sleeping 3 100"
    "files s 3 = Some f" "7 \<in> sleepers (sensors s ! cs_sensor f)" "pending s = (0, [])"
    using sleeping_reader by blast
  note i = lunix_system_invariant [OF ex_proto_length ex_sensors_ready s(1)]
  have "proto_wf (prot s)" using i by blast
  moreover have "lunix_chrdev_state_needs_refresh (sensors s) f = Some False" using i s(2-5) by fastforce
  ultimately show ?thesis using s by blast
qed

end
