(* ===== verification/Lunix_Module.thy ===== *)
theory Lunix_Module
  imports Lunix_Ldisc Lunix_Chrdev
begin

text \<open>
  Loading and unloading of the module (\<^verbatim>\<open>lunix-module.c\<close>). The state records what the module owns:
  the array of sensors, the pages that are allocated (by the sensor and the measurement they were
  allocated for) and the registrations. \<open>kz\<close> and \<open>alloc\<close> say which allocations succeed, and \<open>reg\<close>,
  \<open>region\<close> and \<open>add\<close> are what the kernel's registrations return.
\<close>

record lmod =
  m_array :: bool
  m_sensors :: "lunix_sensor list"
  m_pages :: "(nat \<times> lunix_msr) set"
  m_prot :: proto
  m_ldisc :: bool
  m_avail :: int
  m_cdev :: "bool \<times> bool"

definition zero_sensor :: lunix_sensor where
  "zero_sensor = \<lparr>msr_data = (\<lambda>_. None), sleepers = {}\<rparr>"

text \<open>The loop over the sensors; \<open>k\<close> is \<^verbatim>\<open>si_done + 1\<close>, \<open>n\<close> the number of rounds left.\<close>

fun init_sensors :: "(nat \<Rightarrow> lunix_msr \<Rightarrow> bool) \<Rightarrow> nat \<Rightarrow> nat \<Rightarrow> lmod \<Rightarrow> int \<times> nat \<times> lmod" where
  "init_sensors alloc 0 k m = (0, k, m)"
| "init_sensors alloc (Suc n) k m =
     (case lunix_sensor_init (alloc k) of (ret, s) \<Rightarrow>
        let m = m\<lparr>m_sensors := (m_sensors m)[k := s],
                  m_pages := m_pages m \<union> {k} \<times> lunix_sensor_destroy s\<rparr>
        in if ret < 0 then (ret, k, m) else init_sensors alloc n (k + 1) m)"

fun destroy_sensors :: "nat \<Rightarrow> lmod \<Rightarrow> lmod" where
  "destroy_sensors 0 m = m"
| "destroy_sensors (Suc k) m =
     destroy_sensors k (m\<lparr>m_pages := m_pages m - {k} \<times> lunix_sensor_destroy (m_sensors m ! k)\<rparr>)"

definition undo_sensors :: "nat \<Rightarrow> lmod \<Rightarrow> lmod" where
  "undo_sensors k m = (destroy_sensors k m)\<lparr>m_array := False\<rparr>"

definition lunix_module_init ::
  "(int \<Rightarrow> bool) \<Rightarrow> (nat \<Rightarrow> lunix_msr \<Rightarrow> bool) \<Rightarrow> int \<Rightarrow> int \<Rightarrow> int \<Rightarrow> int \<Rightarrow> lmod \<Rightarrow> int \<times> lmod" where
  "lunix_module_init kz alloc reg region add cnt m =
     (if \<not> kz cnt then (- ENOMEM, m)
      else
        let m = m\<lparr>m_array := True, m_sensors := replicate (nat cnt) zero_sensor,
                  m_prot := lunix_protocol_init (m_prot m)\<rparr>
        in case init_sensors alloc (nat cnt) 0 m of (ret, k, m) \<Rightarrow>
          if ret < 0 then (ret, undo_sensors k m)
          else case lunix_ldisc_init reg of (ret, registered, available) \<Rightarrow>
            let m = m\<lparr>m_ldisc := registered, m_avail := available\<rparr>
            in if ret < 0 then (ret, undo_sensors k m)
               else case lunix_chrdev_init region add of (ret, cdev) \<Rightarrow>
                 let m = m\<lparr>m_cdev := cdev\<rparr>
                 in if ret < 0 then (ret, undo_sensors k (m\<lparr>m_ldisc := lunix_ldisc_destroy (m_ldisc m)\<rparr>))
                    else (0, m))"

definition lunix_module_cleanup :: "int \<Rightarrow> lmod \<Rightarrow> lmod" where
  "lunix_module_cleanup cnt m =
     (let m = m\<lparr>m_cdev := lunix_chrdev_destroy (m_cdev m)\<rparr>;
          m = m\<lparr>m_ldisc := lunix_ldisc_destroy (m_ldisc m)\<rparr>
      in undo_sensors (nat cnt) m)"

section \<open>The loops\<close>

text \<open>The pages of a sensor whose initialisation fails.\<close>

definition part_pages :: "(lunix_msr \<Rightarrow> bool) \<Rightarrow> lunix_msr set" where
  "part_pages alloc = (if \<not> alloc BATT then {} else if \<not> alloc TEMP then {BATT} else {BATT, TEMP})"

lemma msr_UNIV: "UNIV = {BATT, TEMP, LIGHT}"
  using lunix_msr.exhaust by blast

lemma sensor_init_all:
  assumes "\<forall>q. alloc q"
  shows "\<exists>s. lunix_sensor_init alloc = (0, s) \<and> sensor_ready s \<and> lunix_sensor_destroy s = UNIV"
proof -
  obtain s where s: "lunix_sensor_init alloc = (0, s)" using assms by (simp add: lunix_sensor_init_def)
  then have "sensor_ready s" by (rule sensor_init_ready)
  moreover from this have "lunix_sensor_destroy s = UNIV"
    unfolding lunix_sensor_destroy_def sensor_ready_def msr_UNIV by auto
  ultimately show ?thesis using s by blast
qed

lemma sensor_init_part:
  assumes "\<not> (\<forall>q. alloc q)"
  shows "\<exists>s. lunix_sensor_init alloc = (- ENOMEM, s) \<and> lunix_sensor_destroy s = part_pages alloc"
proof -
  have "\<not> alloc BATT \<or> \<not> alloc TEMP \<or> \<not> alloc LIGHT" using assms by (metis lunix_msr.exhaust)
  then show ?thesis
    by (auto simp: lunix_sensor_init_def lunix_sensor_destroy_def part_pages_def)
qed

text \<open>What the loops leave alone.\<close>

definition same_rest :: "lmod \<Rightarrow> lmod \<Rightarrow> bool" where
  "same_rest m m' \<longleftrightarrow> m_array m' = m_array m \<and> m_prot m' = m_prot m \<and> m_ldisc m' = m_ldisc m \<and>
     m_avail m' = m_avail m \<and> m_cdev m' = m_cdev m \<and> length (m_sensors m') = length (m_sensors m)"

lemma init_sensors_result:
  assumes "length (m_sensors m) = k + n" "m_pages m = {..<k} \<times> UNIV" "list_all sensor_ready (take k (m_sensors m))"
    "\<forall>j<k. lunix_sensor_destroy (m_sensors m ! j) = UNIV" "init_sensors alloc n k m = (ret, k', m')"
  shows "same_rest m m' \<and> (\<forall>j<k'. lunix_sensor_destroy (m_sensors m' ! j) = UNIV) \<and>
    (ret = 0 \<and> k' = k + n \<and> m_pages m' = {..<k + n} \<times> UNIV \<and> sensors_ready (m_sensors m') \<or>
     ret = - ENOMEM \<and> k \<le> k' \<and> k' < k + n \<and> (\<forall>j. k \<le> j \<longrightarrow> j < k' \<longrightarrow> (\<forall>q. alloc j q)) \<and> \<not> (\<forall>q. alloc k' q) \<and>
       m_pages m' = {..<k'} \<times> UNIV \<union> {k'} \<times> part_pages (alloc k'))"
  using assms
proof (induction n arbitrary: k m)
  case 0
  then show ?case by (auto simp: same_rest_def sensors_ready_def)
next
  case (Suc n)
  show ?case
  proof (cases "\<forall>q. alloc k q")
    case True
    then obtain s where s: "lunix_sensor_init (alloc k) = (0, s)" "sensor_ready s" "lunix_sensor_destroy s = UNIV"
      using sensor_init_all by blast
    let ?m = "m\<lparr>m_sensors := (m_sensors m)[k := s], m_pages := m_pages m \<union> {k} \<times> lunix_sensor_destroy s\<rparr>"
    have r: "init_sensors alloc n (k + 1) ?m = (ret, k', m')" using Suc.prems(5) s(1) by (simp add: Let_def)
    have l: "length (m_sensors ?m) = (k + 1) + n" using Suc.prems(1) by simp
    have p: "m_pages ?m = {..<k + 1} \<times> UNIV" using Suc.prems(2) s(3) by auto
    have kl: "k < length (m_sensors m)" using Suc.prems(1) by simp
    have t: "list_all sensor_ready (take (k + 1) (m_sensors ?m))"
      using Suc.prems(3) s(2) kl by (simp add: take_Suc_conv_app_nth)
    have d: "\<forall>j<k + 1. lunix_sensor_destroy (m_sensors ?m ! j) = UNIV"
      using Suc.prems(4) s(3) kl by (auto simp: nth_list_update less_Suc_eq)
    have sr: "same_rest ?m m' \<Longrightarrow> same_rest m m'" by (simp add: same_rest_def)
    from Suc.IH [OF l p t d r] sr True show ?thesis
      by (auto simp del: init_sensors.simps) (metis Suc_leI le_neq_implies_less)+
  next
    case False
    then obtain s where s: "lunix_sensor_init (alloc k) = (- ENOMEM, s)"
      "lunix_sensor_destroy s = part_pages (alloc k)" using sensor_init_part by blast
    then have e: "ret = - ENOMEM" "k' = k" "m' = m\<lparr>m_sensors := (m_sensors m)[k := s],
        m_pages := m_pages m \<union> {k} \<times> part_pages (alloc k)\<rparr>"
      using Suc.prems(5) by (auto simp: Let_def)
    show ?thesis using False Suc.prems(2,4) by (simp add: e same_rest_def)
  qed
qed

lemma destroy_sensors_result:
  assumes "\<forall>j<k. lunix_sensor_destroy (m_sensors m ! j) = UNIV"
  shows "same_rest m (destroy_sensors k m) \<and> m_pages (destroy_sensors k m) = m_pages m - {..<k} \<times> UNIV"
  using assms
proof (induction k arbitrary: m)
  case (Suc k)
  let ?m = "m\<lparr>m_pages := m_pages m - {k} \<times> lunix_sensor_destroy (m_sensors m ! k)\<rparr>"
  have "same_rest ?m (destroy_sensors k ?m)"
    "m_pages (destroy_sensors k ?m) = m_pages ?m - {..<k} \<times> UNIV"
    using Suc.IH [of ?m] Suc.prems by simp_all
  moreover have "same_rest ?m m2 \<Longrightarrow> same_rest m m2" for m2 by (simp add: same_rest_def)
  moreover have "m_pages ?m - {..<k} \<times> UNIV = m_pages m - {..<Suc k} \<times> UNIV"
    using Suc.prems by auto
  ultimately show ?case by simp
qed (simp add: same_rest_def)

section \<open>Loading and unloading\<close>

definition unloaded :: "lmod \<Rightarrow> bool" where
  "unloaded m \<longleftrightarrow> \<not> m_array m \<and> m_pages m = {} \<and> \<not> m_ldisc m \<and> m_cdev m = (False, False)"

lemma undo_unloaded:
  assumes "\<forall>j<k. lunix_sensor_destroy (m_sensors m ! j) = UNIV"
  shows "unloaded (undo_sensors k m) \<longleftrightarrow>
    m_pages m \<subseteq> {..<k} \<times> UNIV \<and> \<not> m_ldisc m \<and> m_cdev m = (False, False)"
  using destroy_sensors_result [OF assms] by (auto simp: undo_sensors_def unloaded_def same_rest_def)

text \<open>The steps after the sensors.\<close>

lemma module_init_late:
  assumes "kz cnt" "reg \<le> 0" "lunix_module_init kz alloc reg region add cnt m = (ret, m')"
    and "init_sensors alloc (nat cnt) 0 (m\<lparr>m_array := True, m_sensors := replicate (nat cnt) zero_sensor,
      m_prot := lunix_protocol_init (m_prot m)\<rparr>) = (0, k, m1)"
  shows "ret = 0 \<and> m' = m1\<lparr>m_ldisc := True, m_avail := 1, m_cdev := (True, True)\<rparr> \<or>
    ret < 0 \<and> (\<exists>m2. m' = undo_sensors k m2 \<and> m_sensors m2 = m_sensors m1 \<and> m_pages m2 = m_pages m1 \<and>
      \<not> m_ldisc m2 \<and> (m_cdev m2 = m_cdev m1 \<or> m_cdev m2 = (False, False)))"
proof -
  let ?m2 = "m1\<lparr>m_ldisc := reg = 0, m_avail := 1\<rparr>"
  obtain r c where c: "lunix_chrdev_init region add = (r, c)" by (cases "lunix_chrdev_init region add")
  have cd: "r < 0 \<and> c = (False, False) \<or> r = 0 \<and> c = (True, True)"
    using c by (auto simp: lunix_chrdev_init_def split: if_splits)
  consider "reg < 0" | "reg = 0" "r < 0" | "reg = 0" "r = 0" using assms(2) cd by linarith
  then show ?thesis
  proof cases
    case 1
    then have "ret = reg" "m' = undo_sensors k ?m2"
      using assms(1,3,4) by (simp_all add: lunix_module_init_def lunix_ldisc_init_def Let_def)
    with 1 show ?thesis by (simp, intro exI [of _ ?m2]) simp
  next
    case 2
    let ?m3 = "?m2\<lparr>m_cdev := c, m_ldisc := False\<rparr>"
    have "ret = r" "m' = undo_sensors k ?m3"
      using assms(1,3,4) 2 c
      by (simp_all add: lunix_module_init_def lunix_ldisc_init_def lunix_ldisc_destroy_def Let_def)
    with 2 cd show ?thesis by (simp, intro exI [of _ ?m3]) simp
  next
    case 3
    with assms(1,3,4) c cd show ?thesis
      by (simp add: lunix_module_init_def lunix_ldisc_init_def Let_def)
  qed
qed

text \<open>
  C34. Loading the module either succeeds with every sensor set up, the line discipline free for
  one TTY and the devices registered, and unloading then gives everything back; or it fails and
  leaves nothing behind, with one exception: when the pages of a sensor run out, those that this
  sensor has already got stay allocated.
\<close>

theorem lunix_module_loads:
  assumes "unloaded m" "reg \<le> 0" "lunix_module_init kz alloc reg region add cnt m = (ret, m')"
  shows "ret = 0 \<and> m_array m' \<and> length (m_sensors m') = nat cnt \<and> sensors_ready (m_sensors m') \<and>
      m_pages m' = {..<nat cnt} \<times> UNIV \<and> m_prot m' = lunix_protocol_init (m_prot m) \<and>
      m_ldisc m' \<and> m_avail m' = 1 \<and> m_cdev m' = (True, True) \<and> unloaded (lunix_module_cleanup cnt m') \<or>
    ret < 0 \<and> unloaded m' \<or>
    ret = - ENOMEM \<and> (\<exists>k < nat cnt. (\<forall>j < k. \<forall>q. alloc j q) \<and> \<not> (\<forall>q. alloc k q) \<and>
      m_pages m' = {k} \<times> part_pages (alloc k) \<and> unloaded (m'\<lparr>m_pages := {}\<rparr>))"
proof (cases "kz cnt")
  case False
  then show ?thesis using assms by (simp add: lunix_module_init_def)
next
  case True
  let ?m = "m\<lparr>m_array := True, m_sensors := replicate (nat cnt) zero_sensor,
    m_prot := lunix_protocol_init (m_prot m)\<rparr>"
  obtain r k m1 where i: "init_sensors alloc (nat cnt) 0 ?m = (r, k, m1)" by (metis surj_pair)
  have n: "m_pages ?m = {..<0} \<times> UNIV" "\<not> m_ldisc m" "m_cdev m = (False, False)"
    using assms(1) by (simp_all add: unloaded_def)
  note ir = init_sensors_result [OF _ n(1) _ _ i, simplified]
  have d: "\<forall>j<k. lunix_sensor_destroy (m_sensors m1 ! j) = UNIV" and sr: "same_rest ?m m1" using ir by blast+
  from ir consider (ok) "r = 0" "k = nat cnt" "m_pages m1 = {..<k} \<times> UNIV" "sensors_ready (m_sensors m1)"
    | (part) "r = - ENOMEM" "k < nat cnt" "\<forall>j<k. \<forall>q. alloc j q" "\<not> (\<forall>q. alloc k q)"
      "m_pages m1 = {..<k} \<times> UNIV \<union> {k} \<times> part_pages (alloc k)" by blast
  then show ?thesis
  proof cases
    case part
    then have e: "ret = r" "m' = undo_sensors k m1"
      using assms(3) True i by (simp_all add: lunix_module_init_def Let_def)
    have "m_pages m' = {k} \<times> part_pages (alloc k)" "unloaded (m'\<lparr>m_pages := {}\<rparr>)"
      using destroy_sensors_result [OF d] part(5) sr n by (auto simp: e undo_sensors_def unloaded_def same_rest_def)
    with part e show ?thesis by blast
  next
    case ok
    note late = module_init_late [OF True assms(2,3) i [unfolded ok(1)]]
    show ?thesis
    proof (cases "ret = 0")
      case True
      then have e: "m' = m1\<lparr>m_ldisc := True, m_avail := 1, m_cdev := (True, True)\<rparr>" using late by auto
      have "unloaded (lunix_module_cleanup cnt m')"
        using undo_unloaded [of k "m'\<lparr>m_cdev := (False, False), m_ldisc := False\<rparr>"] ok(2,3) d
        by (simp add: lunix_module_cleanup_def lunix_chrdev_destroy_def lunix_ldisc_destroy_def e)
      with ok sr True show ?thesis by (simp add: e same_rest_def)
    next
      case False
      then obtain m2 where "ret < 0" "m' = undo_sensors k m2" "m_sensors m2 = m_sensors m1"
        "m_pages m2 = m_pages m1" "\<not> m_ldisc m2" "m_cdev m2 = m_cdev m1 \<or> m_cdev m2 = (False, False)"
        using late by auto
      with undo_unloaded [of k m2] d ok(3) sr n show ?thesis by (auto simp: same_rest_def)
    qed
  qed
qed

text \<open>The second page of the second sensor cannot be allocated.\<close>

definition ex_unloaded :: lmod where
  "ex_unloaded = \<lparr>m_array = False, m_sensors = [], m_pages = {}, m_prot = \<lparr>pr_state = SEEKING_START_BYTE,
     bytes_read = 0, bytes_to_read = 0, pr_pos = 0, next_is_special = 0, packet = replicate 300 0\<rparr>,
     m_ldisc = False, m_avail = 0, m_cdev = (False, False)\<rparr>"

theorem lunix_module_loads_witness:
  "\<exists>m'. lunix_module_init (\<lambda>_. True) (\<lambda>k q. k = 0 \<or> q = BATT) 0 0 0 2 ex_unloaded = (- ENOMEM, m') \<and>
    m_pages m' = {1} \<times> {BATT} \<and> unloaded (m'\<lparr>m_pages := {}\<rparr>)"
proof -
  let ?a = "\<lambda>(k :: nat) q. k = 0 \<or> q = BATT"
  have u: "unloaded ex_unloaded" by (simp add: unloaded_def ex_unloaded_def)
  obtain ret m' where r: "lunix_module_init (\<lambda>_. True) ?a 0 0 0 2 ex_unloaded = (ret, m')" by (metis surj_pair)
  have k: "k = 1" if "k < nat 2" "\<not> (\<forall>q. ?a k q)" for k :: nat using that by (cases k) auto
  have e: "ret = - ENOMEM" "(1, BATT) \<in> m_pages m'"
    using r by (auto simp: lunix_module_init_def lunix_sensor_init_def zero_sensor_def Let_def numeral_2_eq_2
        undo_sensors_def lunix_sensor_destroy_def ex_unloaded_def)
  then have "\<not> unloaded m'" by (auto simp: unloaded_def)
  moreover have "ret \<noteq> 0" using e(1) by simp
  moreover have "(0 :: int) \<le> 0" by simp
  ultimately obtain j where
    j: "j < nat 2" "\<not> (\<forall>q. ?a j q)" "m_pages m' = {j} \<times> part_pages (?a j)" "unloaded (m'\<lparr>m_pages := {}\<rparr>)"
    using lunix_module_loads [OF u _ r] by blast
  have "part_pages (?a 1) = {BATT}" by (simp add: part_pages_def)
  with j k [OF j(1,2)] r e(1) show ?thesis by auto
qed

end
