(* ===== verification/Lunix_Attach.thy ===== *)
theory Lunix_Attach
  imports Decimal
begin

text \<open>
  The program that attaches the line discipline to a TTY (\<^verbatim>\<open>lunix-attach.c\<close>). The state holds the
  program's global variables, the lock files by path, and the settings and the line discipline of
  the TTY that is opened. What the system calls return is the record \<open>os\<close>: 0 or an \<^verbatim>\<open>errno\<close>, and for
  \<^verbatim>\<open>write\<close> the number of bytes. Messages are not modelled and leave \<^verbatim>\<open>errno\<close> alone. \<open>None\<close> is a
  write behind a buffer.
\<close>

section \<open>Terminal settings\<close>

record termios =
  c_iflag :: u32
  c_oflag :: u32
  c_cflag :: u32
  c_lflag :: u32
  c_cc :: "byte list"

abbreviation (input) NCCS :: nat where "NCCS \<equiv> 32"
abbreviation (input) VTIME :: nat where "VTIME \<equiv> 5"
abbreviation (input) VMIN :: nat where "VMIN \<equiv> 6"
abbreviation (input) IGNBRK :: u32 where "IGNBRK \<equiv> 0x1"
abbreviation (input) IGNPAR :: u32 where "IGNPAR \<equiv> 0x4"
abbreviation (input) CBAUD :: u32 where "CBAUD \<equiv> 0x100F"
abbreviation (input) CSIZE :: u32 where "CSIZE \<equiv> 0x30"
abbreviation (input) CS5 :: u32 where "CS5 \<equiv> 0"
abbreviation (input) CS6 :: u32 where "CS6 \<equiv> 0x10"
abbreviation (input) CS7 :: u32 where "CS7 \<equiv> 0x20"
abbreviation (input) CS8 :: u32 where "CS8 \<equiv> 0x30"
abbreviation (input) CSTOPB :: u32 where "CSTOPB \<equiv> 0x40"
abbreviation (input) CREAD :: u32 where "CREAD \<equiv> 0x80"
abbreviation (input) PARENB :: u32 where "PARENB \<equiv> 0x100"
abbreviation (input) PARODD :: u32 where "PARODD \<equiv> 0x200"
abbreviation (input) HUPCL :: u32 where "HUPCL \<equiv> 0x400"
abbreviation (input) CLOCAL :: u32 where "CLOCAL \<equiv> 0x800"
abbreviation (input) CRTSCTS :: u32 where "CRTSCTS \<equiv> 0x80000000"
abbreviation (input) PATH_MAX :: nat where "PATH_MAX \<equiv> 4096"
abbreviation (input) N_LUNIX_LDISC :: int where "N_LUNIX_LDISC \<equiv> 8"

text \<open>The table with the rates that Linux has; \<^verbatim>\<open>B14400\<close> is not one of them.\<close>

definition tty_speeds :: "(string \<times> int) list" where
  "tty_speeds = [(''50'', 1), (''75'', 2), (''110'', 3), (''300'', 7), (''600'', 8), (''1200'', 9),
     (''2400'', 11), (''4800'', 12), (''9600'', 13), (''19200'', 14), (''38400'', 15),
     (''57600'', 0x1001), (''115200'', 0x1002)]"

definition tty_find_speed :: "string \<Rightarrow> int" where
  "tty_find_speed speed = (case map_of tty_speeds speed of Some code \<Rightarrow> code | None \<Rightarrow> - EINVAL)"

definition tty_set_stopbits :: "char \<Rightarrow> termios \<Rightarrow> int \<times> termios" where
  "tty_set_stopbits c tty =
     (if c = CHR ''1'' then (0, tty\<lparr>c_cflag := c_cflag tty AND NOT CSTOPB\<rparr>)
      else if c = CHR ''2'' then (0, tty\<lparr>c_cflag := c_cflag tty OR CSTOPB\<rparr>)
      else (- EINVAL, tty))"

definition tty_set_databits :: "char \<Rightarrow> termios \<Rightarrow> int \<times> termios" where
  "tty_set_databits c tty =
     (let tty = tty\<lparr>c_cflag := c_cflag tty AND NOT CSIZE\<rparr>
      in if c = CHR ''5'' then (0, tty\<lparr>c_cflag := c_cflag tty OR CS5\<rparr>)
         else if c = CHR ''6'' then (0, tty\<lparr>c_cflag := c_cflag tty OR CS6\<rparr>)
         else if c = CHR ''7'' then (0, tty\<lparr>c_cflag := c_cflag tty OR CS7\<rparr>)
         else if c = CHR ''8'' then (0, tty\<lparr>c_cflag := c_cflag tty OR CS8\<rparr>)
         else (- EINVAL, tty))"

text \<open>The comparison is with both cases of the letter.\<close>

definition tty_set_parity :: "char \<Rightarrow> termios \<Rightarrow> int \<times> termios" where
  "tty_set_parity c tty =
     (let clear = tty\<lparr>c_cflag := c_cflag tty AND NOT (PARENB OR PARODD)\<rparr>
      in if c = CHR ''n'' \<or> c = CHR ''N'' then (0, clear)
         else if c = CHR ''o'' \<or> c = CHR ''O''
         then (0, clear\<lparr>c_cflag := c_cflag clear OR (PARENB OR PARODD)\<rparr>)
         else if c = CHR ''e'' \<or> c = CHR ''E'' then (0, clear\<lparr>c_cflag := c_cflag clear OR PARENB\<rparr>)
         else (- EINVAL, tty))"

definition tty_set_speed :: "string \<Rightarrow> termios \<Rightarrow> int \<times> termios" where
  "tty_set_speed speed tty =
     (let code = tty_find_speed speed
      in if code < 0 then (code, tty)
         else (0, tty\<lparr>c_cflag := (c_cflag tty AND NOT CBAUD) OR of_int code\<rparr>))"

definition tty_set_raw :: "termios \<Rightarrow> int \<times> termios" where
  "tty_set_raw tty =
     (let speed = c_cflag tty AND CBAUD
      in (0, tty\<lparr>c_cc := (replicate NCCS 0)[VMIN := 1, VTIME := 0],
          c_iflag := IGNBRK OR IGNPAR, c_oflag := 0, c_lflag := 0,
          c_cflag := ((CRTSCTS OR HUPCL OR CREAD) OR CLOCAL) OR speed\<rparr>))"

section \<open>The program and the system\<close>

record att =
  tty_fd :: int
  tty_before :: termios
  tty_current :: termios
  ldisc_before :: int
  saved_lock :: bool
  saved_path :: string
  errno :: int
  lock_files :: "string \<Rightarrow> string option"
  line_tty :: termios
  line_ldisc :: int

record os =
  os_alive :: "int \<Rightarrow> bool"
  os_pid :: int
  os_creat :: "string \<Rightarrow> int"
  os_write :: "string \<Rightarrow> int"
  os_uucp :: bool
  os_unlink :: "string \<Rightarrow> int"
  os_open :: "string \<Rightarrow> int \<times> int"
  os_tcgets :: int
  os_tcsets :: "termios \<Rightarrow> int"
  os_getd :: int
  os_setd :: "int \<Rightarrow> int"
  os_past :: "string \<Rightarrow> nat"

text \<open>What \<^verbatim>\<open>sprintf\<close> writes for a process number.\<close>

definition pid_text :: "int \<Rightarrow> string" where
  "pid_text p = (let s = (if p < 0 then ''-'' else []) @ dec_text (nat \<bar>p\<bar>)
     in replicate (10 - length s) (CHR '' '') @ s @ [char_of (10 :: nat)])"

definition tty_already_locked :: "os \<Rightarrow> string \<Rightarrow> att \<Rightarrow> bool" where
  "tty_already_locked W nam a =
     (case lock_files a nam of
        None \<Rightarrow> False
      | Some contents \<Rightarrow> (case scan_int contents of None \<Rightarrow> False | Some pid \<Rightarrow> os_alive W pid))"

definition lock_path :: "string \<Rightarrow> string" where
  "lock_path path = ''/var/lock/LCK..'' @ path"

text \<open>\<^verbatim>\<open>unlink\<close> and \<^verbatim>\<open>creat\<close> on the lock files.\<close>

definition remove_file :: "os \<Rightarrow> string \<Rightarrow> att \<Rightarrow> int \<times> att" where
  "remove_file W p a =
     (if os_unlink W p = 0 then (0, a\<lparr>lock_files := (lock_files a)(p := None)\<rparr>)
      else (- 1, a\<lparr>errno := os_unlink W p\<rparr>))"

definition tty_lock :: "os \<Rightarrow> string \<Rightarrow> att \<Rightarrow> (int \<times> att) option" where
  "tty_lock W path a =
     (if PATH_MAX < length (lock_path path) + 1 then None
      else
        let a = a\<lparr>saved_path := lock_path path\<rparr>; p = saved_path a
        in if tty_already_locked W p a then Some (- 1, a)
           else if os_creat W p \<noteq> 0 then Some (- 1, a\<lparr>errno := os_creat W p\<rparr>)
           else
             let apid = pid_text (os_pid W);
                 n = os_write W apid;
                 a = a\<lparr>lock_files := (lock_files a)(p \<mapsto> take (nat n) apid)\<rparr>
             in if n \<noteq> int (length apid) then Some (- 1, snd (remove_file W p a))
                else if \<not> os_uucp W then Some (0, a)
                else Some (0, a\<lparr>saved_lock := True\<rparr>))"

definition tty_unlock :: "os \<Rightarrow> att \<Rightarrow> int \<times> att" where
  "tty_unlock W a =
     (if \<not> saved_lock a then (0, a)
      else case remove_file W (saved_path a) a of (r, a) \<Rightarrow>
        if r < 0 then (- 1, a) else (0, a\<lparr>saved_lock := False\<rparr>))"

definition tty_get_state :: "os \<Rightarrow> att \<Rightarrow> int \<times> termios option \<times> att" where
  "tty_get_state W a =
     (if os_tcgets W \<noteq> 0 then (- os_tcgets W, None, a\<lparr>errno := os_tcgets W\<rparr>) else (0, Some (line_tty a), a))"

definition tty_set_state :: "os \<Rightarrow> termios \<Rightarrow> att \<Rightarrow> int \<times> att" where
  "tty_set_state W tty a =
     (if os_tcsets W tty \<noteq> 0 then (- os_tcsets W tty, a\<lparr>errno := os_tcsets W tty\<rparr>)
      else (0, a\<lparr>line_tty := tty\<rparr>))"

definition tty_get_ldisc :: "os \<Rightarrow> att \<Rightarrow> int \<times> int option \<times> att" where
  "tty_get_ldisc W a =
     (if os_getd W \<noteq> 0 then (- os_getd W, None, a\<lparr>errno := os_getd W\<rparr>) else (0, Some (line_ldisc a), a))"

definition tty_set_ldisc :: "os \<Rightarrow> int \<Rightarrow> att \<Rightarrow> int \<times> att" where
  "tty_set_ldisc W disc a =
     (if os_setd W disc \<noteq> 0 then (- os_setd W disc, a\<lparr>errno := os_setd W disc\<rparr>)
      else (0, a\<lparr>line_ldisc := disc\<rparr>))"

definition tty_restore :: "os \<Rightarrow> att \<Rightarrow> int \<times> att" where
  "tty_restore W a = (let tty = snd (tty_set_speed ''0'' (tty_before a)) in tty_set_state W tty a)"

definition tty_close :: "os \<Rightarrow> att \<Rightarrow> int \<times> att" where
  "tty_close W a =
     (let a = snd (tty_set_ldisc W (ldisc_before a) a);
          a = snd (tty_restore W a);
          a = snd (tty_unlock W a)
      in (0, a))"

section \<open>Opening\<close>

text \<open>The paths to open and to lock; \<open>Inl\<close> is the early return. For a name of fewer than six
  characters \<^verbatim>\<open>strlen(name + 6)\<close> starts behind the string, and its value is \<open>os_past\<close>.\<close>

definition tty_paths :: "os \<Rightarrow> string \<Rightarrow> (int + string \<times> string) option" where
  "tty_paths W name =
     (if take 1 name \<noteq> ''/'' then
        if PATH_MAX < (if length name < 6 then os_past W name else length name - 6) then Some (Inl (- 1))
        else if PATH_MAX < length name + 6 then None
        else Some (Inr (''/dev/'' @ name, name))
      else if take 5 name = ''/dev/'' then Some (Inr (name, drop 5 name))
      else Some (Inr (name, name)))"

text \<open>The new settings of the line, and the return value that \<^verbatim>\<open>tty_open\<close> has for them.\<close>

definition tty_8n1 :: "att \<Rightarrow> int \<times> att" where
  "tty_8n1 a =
     (let tty = snd (tty_set_raw (tty_current a));
          (r, tty) = tty_set_speed ''57600'' tty
      in if r \<noteq> 0 then (- errno a, a\<lparr>tty_current := tty\<rparr>)
         else let (r1, tty) = tty_set_databits CHR ''8'' tty
         in if r1 \<noteq> 0 then (- errno a, a\<lparr>tty_current := tty\<rparr>)
         else let (r2, tty) = tty_set_stopbits CHR ''1'' tty
         in if r2 \<noteq> 0 then (- errno a, a\<lparr>tty_current := tty\<rparr>)
         else let (r3, tty) = tty_set_parity CHR ''N'' tty
         in if r3 \<noteq> 0 then (- errno a, a\<lparr>tty_current := tty\<rparr>)
         else (0, a\<lparr>tty_current := tty\<rparr>))"

definition tty_setup :: "os \<Rightarrow> att \<Rightarrow> int \<times> att" where
  "tty_setup W a =
     (case tty_get_state W a of
        (_, None, a) \<Rightarrow> (- errno a, a)
      | (_, Some tty, a) \<Rightarrow>
          let a = a\<lparr>tty_before := tty, tty_current := tty\<rparr>
          in case tty_get_ldisc W a of
               (_, None, a) \<Rightarrow> (- errno a, a)
             | (_, Some d, a) \<Rightarrow>
                 (case tty_8n1 (a\<lparr>ldisc_before := d\<rparr>) of (r, a) \<Rightarrow>
                    if r \<noteq> 0 then (r, a)
                    else case tty_set_state W (tty_current a) a of (r, a) \<Rightarrow>
                      if r < 0 then (r, a) else tty_set_ldisc W N_LUNIX_LDISC a))"

definition tty_open :: "os \<Rightarrow> string option \<Rightarrow> att \<Rightarrow> (int \<times> att) option" where
  "tty_open W name a =
     (case name of
        None \<Rightarrow> Some (tty_setup W (a\<lparr>tty_fd := 0\<rparr>))
      | Some name \<Rightarrow> do {
          paths \<leftarrow> tty_paths W name;
          (case paths of
             Inl r \<Rightarrow> Some (r, a)
           | Inr (path_open, path_lock) \<Rightarrow> do {
               (r, a) \<leftarrow> tty_lock W path_lock a;
               if r \<noteq> 0 then Some (- 1, a)
               else case os_open W path_open of (fd, e) \<Rightarrow>
                 if fd < 0 then Some (- e, a\<lparr>errno := e\<rparr>)
                 else Some (tty_setup W (a\<lparr>tty_fd := fd\<rparr>)) }) })"

datatype outcome = Exited int att | Paused att

text \<open>\<open>caught\<close> says whether one of the four signals arrives.\<close>

definition attach_main :: "os \<Rightarrow> string list \<Rightarrow> bool \<Rightarrow> att \<Rightarrow> outcome option" where
  "attach_main W args caught a =
     (if length args \<noteq> 2 then Some (Exited 1 a)
      else do {
        (r, a) \<leftarrow> tty_open W (Some (args ! 1)) a;
        if r < 0 then Some (Exited 1 a)
        else if caught then Some (Exited 0 (snd (tty_close W a)))
        else Some (Paused a) })"

end
