(* ===== verification/Lunix_Attach_Thms.thy ===== *)
theory Lunix_Attach_Thms
  imports Lunix_Attach
begin

text \<open>
  Attaching and releasing a TTY: the number in a lock file is read back as it was written, the
  settings reach the 8-bit transparent mode at 57600 baud from any settings, and closing restores
  the TTY.
\<close>

section \<open>Process numbers in lock files\<close>

lemma scan_pid: "scan_int (pid_text (int n)) = Some (int n)"
proof -
  let ?s = "dec_text n" and ?e = "[char_of (10 :: nat)] :: string"
  obtain c cs where c: "?s = c # cs" using dec_text_nonempty by (cases ?s) auto
  have d: "\<forall>x \<in> set ?s. digit x" using dec_text_digits by (simp add: list_all_iff)
  have dc: "digit c" using d c by simp
  have "\<not> digit (char_of (10 :: nat))" by (simp add: digit_def char_of_def)
  then have t: "takeWhile digit (?s @ ?e) = ?s" using d by (simp add: takeWhile_append2)
  have b: "blank (CHR '' '')" by (simp add: blank_def)
  have "dropWhile blank (replicate k (CHR '' '') @ ?s @ ?e) = ?s @ ?e" for k
    using b digit_plain [OF dc] c by (induction k) simp_all
  then have "scan_int (pid_text (int n)) = scan_nat (?s @ ?e)"
    using digit_plain [OF dc] c by (simp add: scan_int_def pid_text_def Let_def)
  also have "... = Some (int n)" using t dec_text_nonempty by (simp add: scan_nat_def dec_text_val)
  finally show ?thesis .
qed

section \<open>The settings\<close>

definition mode_57600 :: "termios \<Rightarrow> bool" where
  "mode_57600 t \<longleftrightarrow> c_cflag t = CRTSCTS OR HUPCL OR CREAD OR CLOCAL OR CS8 OR 0x1001 \<and>
     c_iflag t = IGNBRK OR IGNPAR \<and> c_oflag t = 0 \<and> c_lflag t = 0 \<and>
     c_cc t = (replicate NCCS 0)[VMIN := 1, VTIME := 0]"

lemma and_not_same: "(x AND c) AND NOT c = (0 :: u32)"
  by (rule bit_word_eqI) (auto simp: bit_simps)

lemma clear_speed: "(y OR (x AND c)) AND NOT c = (y AND NOT c :: u32)"
  by (simp add: bit.conj_disj_distrib2 and_not_same)

lemma tty_8n1_result:
  "\<exists>t. tty_8n1 a = (0, a\<lparr>tty_current := t\<rparr>) \<and> mode_57600 t"
proof -
  have s: "tty_find_speed ''57600'' = 0x1001" by (simp add: tty_find_speed_def tty_speeds_def)
  let ?raw = "snd (tty_set_raw (tty_current a))"
  let ?t = "?raw\<lparr>c_cflag := CRTSCTS OR HUPCL OR CREAD OR CLOCAL OR CS8 OR 0x1001\<rparr>"
  have "c_cflag ?raw = (((CRTSCTS OR HUPCL OR CREAD) OR CLOCAL) OR (c_cflag (tty_current a) AND CBAUD))"
    by (simp add: tty_set_raw_def Let_def)
  then have sp: "tty_set_speed ''57600'' ?raw =
      (0, ?raw\<lparr>c_cflag := (((CRTSCTS OR HUPCL OR CREAD) OR CLOCAL) AND NOT CBAUD) OR 0x1001\<rparr>)"
    unfolding tty_set_speed_def s by (simp only: clear_speed) (simp add: Let_def)
  have "tty_8n1 a = (0, a\<lparr>tty_current := ?t\<rparr>)"
    unfolding tty_8n1_def Let_def sp
    by (simp add: tty_set_databits_def tty_set_stopbits_def tty_set_parity_def Let_def)
  moreover have "mode_57600 ?t" by (simp add: mode_57600_def tty_set_raw_def Let_def)
  ultimately show ?thesis by blast
qed

lemma tty_restore_before:
  "tty_restore W a = tty_set_state W (tty_before a) a"
  by (simp add: tty_restore_def tty_set_speed_def tty_find_speed_def tty_speeds_def Let_def)

section \<open>Attach and release\<close>

text \<open>System calls that succeed.\<close>

definition os_good :: "os \<Rightarrow> bool" where
  "os_good W \<longleftrightarrow> (\<forall>p. os_creat W p = 0) \<and> (\<forall>t. os_write W t = int (length t)) \<and> os_uucp W \<and>
     (\<forall>p. os_unlink W p = 0) \<and> os_tcgets W = 0 \<and> (\<forall>t. os_tcsets W t = 0) \<and> os_getd W = 0 \<and>
     (\<forall>d. os_setd W d = 0)"

lemma lock_good:
  assumes "os_good W" "length (lock_path p) + 1 \<le> PATH_MAX" "\<not> tty_already_locked W (lock_path p) a"
  shows "tty_lock W p a = Some (0, a\<lparr>saved_path := lock_path p,
    lock_files := (lock_files a)(lock_path p \<mapsto> pid_text (os_pid W)), saved_lock := True\<rparr>)"
  using assms by (simp add: tty_lock_def os_good_def tty_already_locked_def Let_def)

lemma lock_taken:
  assumes "lock_files b (lock_path p) = Some (pid_text (int n))" "os_alive W (int n)"
    "length (lock_path p) + 1 \<le> PATH_MAX"
  shows "tty_lock W p b = Some (- 1, b\<lparr>saved_path := lock_path p\<rparr>)"
  using assms by (simp add: tty_lock_def tty_already_locked_def scan_pid Let_def)

lemma setup_good:
  assumes "os_good W"
  shows "\<exists>t. tty_setup W a = (0, a\<lparr>tty_before := line_tty a, tty_current := t, ldisc_before := line_ldisc a,
    line_tty := t, line_ldisc := N_LUNIX_LDISC\<rparr>) \<and> mode_57600 t"
proof -
  let ?a = "a\<lparr>tty_before := line_tty a, tty_current := line_tty a, ldisc_before := line_ldisc a\<rparr>"
  obtain t where t: "tty_8n1 ?a = (0, ?a\<lparr>tty_current := t\<rparr>)" "mode_57600 t" using tty_8n1_result by blast
  have "tty_setup W a = (0, a\<lparr>tty_before := line_tty a, tty_current := t, ldisc_before := line_ldisc a,
    line_tty := t, line_ldisc := N_LUNIX_LDISC\<rparr>)"
    using assms t(1) by (simp add: tty_setup_def tty_get_state_def tty_get_ldisc_def tty_set_state_def
        tty_set_ldisc_def os_good_def Let_def)
  with t(2) show ?thesis by blast
qed

text \<open>
  C35. When the system calls succeed and no living process holds the lock, opening a TTY sets it
  to 57600 baud, 8N1, transparent, activates the line discipline and takes the lock. While the
  process lives, every other attempt on the line fails and changes nothing outside the attempting
  program. Closing gives the line its old settings and discipline and removes the lock.
\<close>

theorem lunix_attach_roundtrip:
  assumes "os_good W" "os_pid W = int n" "tty_paths W name = Some (Inr (po, pl))"
    "length (lock_path pl) + 1 \<le> PATH_MAX" "0 \<le> fst (os_open W po)"
    "\<not> tty_already_locked W (lock_path pl) a"
  shows "\<exists>a'. tty_open W (Some name) a = Some (0, a') \<and> mode_57600 (line_tty a') \<and>
    line_ldisc a' = N_LUNIX_LDISC \<and>
    (\<forall>W' b. tty_paths W' name = Some (Inr (po, pl)) \<longrightarrow> os_alive W' (int n) \<longrightarrow> lock_files b = lock_files a' \<longrightarrow>
      tty_open W' (Some name) b = Some (- 1, b\<lparr>saved_path := lock_path pl\<rparr>)) \<and>
    (\<exists>a''. tty_close W a' = (0, a'') \<and> line_tty a'' = line_tty a \<and> line_ldisc a'' = line_ldisc a \<and>
      lock_files a'' = (lock_files a)(lock_path pl := None))"
proof -
  obtain fd e where fd: "os_open W po = (fd, e)" "0 \<le> fd" using assms(5) by (cases "os_open W po") auto
  let ?a1 = "a\<lparr>saved_path := lock_path pl,
    lock_files := (lock_files a)(lock_path pl \<mapsto> pid_text (os_pid W)), saved_lock := True\<rparr>"
  obtain t where t: "tty_setup W (?a1\<lparr>tty_fd := fd\<rparr>) = (0, (?a1\<lparr>tty_fd := fd\<rparr>)\<lparr>tty_before := line_tty a,
      tty_current := t, ldisc_before := line_ldisc a, line_tty := t, line_ldisc := N_LUNIX_LDISC\<rparr>)" "mode_57600 t"
    using setup_good [OF assms(1), of "?a1\<lparr>tty_fd := fd\<rparr>"] by auto
  define a' where "a' = (?a1\<lparr>tty_fd := fd\<rparr>)\<lparr>tty_before := line_tty a,
      tty_current := t, ldisc_before := line_ldisc a, line_tty := t, line_ldisc := N_LUNIX_LDISC\<rparr>"
  have o: "tty_open W (Some name) a = Some (0, a')"
    using t(1) fd by (simp add: tty_open_def assms(3) lock_good [OF assms(1,4,6)] a'_def)
  have other: "tty_open W' (Some name) b = Some (- 1, b\<lparr>saved_path := lock_path pl\<rparr>)"
    if "tty_paths W' name = Some (Inr (po, pl))" "os_alive W' (int n)" "lock_files b = lock_files a'" for W' b
  proof -
    have "lock_files b (lock_path pl) = Some (pid_text (int n))" using that(3) assms(2) by (simp add: a'_def)
    from lock_taken [OF this that(2) assms(4)] show ?thesis by (simp add: tty_open_def that(1))
  qed
  have c: "tty_close W a' = (0, a'\<lparr>line_ldisc := line_ldisc a, line_tty := line_tty a,
      lock_files := (lock_files a)(lock_path pl := None), saved_lock := False\<rparr>)"
    using assms(1) by (simp add: tty_close_def tty_restore_before tty_set_state_def tty_set_ldisc_def
        tty_unlock_def remove_file_def os_good_def a'_def Let_def)
  show ?thesis
  proof (rule exI [of _ a'], intro conjI allI impI)
    show "\<exists>a''. tty_close W a' = (0, a'') \<and> line_tty a'' = line_tty a \<and> line_ldisc a'' = line_ldisc a \<and>
        lock_files a'' = (lock_files a)(lock_path pl := None)"
      by (rule exI, rule conjI, rule c) simp
  qed (use o other t(2) in \<open>simp_all add: a'_def\<close>)
qed

definition ex_os :: os where
  "ex_os = \<lparr>os_alive = (\<lambda>p. p = 4711), os_pid = 4711, os_creat = (\<lambda>_. 0), os_write = (\<lambda>t. int (length t)),
     os_uucp = True, os_unlink = (\<lambda>_. 0), os_open = (\<lambda>_. (3, 0)), os_tcgets = 0, os_tcsets = (\<lambda>_. 0),
     os_getd = 0, os_setd = (\<lambda>_. 0), os_past = (\<lambda>_. 0)\<rparr>"

text \<open>A lock file of a process that has ended is in the way, and is taken over.\<close>

definition ex_att :: att where
  "ex_att = \<lparr>tty_fd = - 1, tty_before = \<lparr>c_iflag = 0, c_oflag = 0, c_cflag = 0, c_lflag = 0, c_cc = []\<rparr>,
     tty_current = \<lparr>c_iflag = 0, c_oflag = 0, c_cflag = 0, c_lflag = 0, c_cc = []\<rparr>,
     ldisc_before = 0, saved_lock = False, saved_path = [], errno = 0,
     lock_files = [lock_path ''ttyS0'' \<mapsto> pid_text (int 12)],
     line_tty = \<lparr>c_iflag = 0x500, c_oflag = 5, c_cflag = 0xBF, c_lflag = 0x8A3B, c_cc = replicate 32 3\<rparr>,
     line_ldisc = 0\<rparr>"

theorem lunix_attach_roundtrip_witness:
  "\<exists>a'. tty_open ex_os (Some ''/dev/ttyS0'') ex_att = Some (0, a') \<and> mode_57600 (line_tty a') \<and>
    line_ldisc a' = N_LUNIX_LDISC \<and>
    (\<forall>W' b. tty_paths W' ''/dev/ttyS0'' = Some (Inr (''/dev/ttyS0'', ''ttyS0'')) \<longrightarrow> os_alive W' (int 4711) \<longrightarrow>
      lock_files b = lock_files a' \<longrightarrow>
      tty_open W' (Some ''/dev/ttyS0'') b = Some (- 1, b\<lparr>saved_path := lock_path ''ttyS0''\<rparr>)) \<and>
    (\<exists>a''. tty_close ex_os a' = (0, a'') \<and> line_tty a'' = line_tty ex_att \<and> line_ldisc a'' = line_ldisc ex_att \<and>
      lock_files a'' = (lock_files ex_att)(lock_path ''ttyS0'' := None))"
proof (rule lunix_attach_roundtrip)
  show "os_good ex_os" "os_pid ex_os = int 4711" "0 \<le> fst (os_open ex_os ''/dev/ttyS0'')"
    by (simp_all add: os_good_def ex_os_def)
  show "tty_paths ex_os ''/dev/ttyS0'' = Some (Inr (''/dev/ttyS0'', ''ttyS0''))" by (simp add: tty_paths_def)
  show "length (lock_path ''ttyS0'') + 1 \<le> PATH_MAX" by (simp add: lock_path_def)
  show "\<not> tty_already_locked ex_os (lock_path ''ttyS0'') ex_att"
    by (simp only: tty_already_locked_def ex_att_def att.simps fun_upd_same option.case scan_pid) (simp add: ex_os_def)
qed

end
