(* ===== verification/Medical.thy ===== *)
theory Medical
  imports Prelude
begin

text \<open>
  The driver of exam K24 (\<^verbatim>\<open>exams/K24/driverK24.c\<close>): an interrupt writes measurements into a circular
  buffer, and every open file reads the ones that come after its opening. \<open>sz\<close> is the size of
  \<^verbatim>\<open>struct patient_data\<close>, which the file leaves open. \<open>None\<close> is an access outside the buffer.
\<close>

type_synonym u128 = "128 word"

record medical_dev =
  dev_cnt :: u128
  circ_buffer :: "byte list"

record med_state =
  local_cnt :: u128
  local_buf :: "byte list"
  med_held :: bool
  med_pos :: int

definition CIRC_BUF_SIZE :: "nat \<Rightarrow> nat" where
  "CIRC_BUF_SIZE sz = 1024 * sz"

definition memcpy_to :: "nat \<Rightarrow> byte list \<Rightarrow> byte list \<Rightarrow> byte list option" where
  "memcpy_to off src buf =
     (if off + length src \<le> length buf then Some (take off buf @ src @ drop (off + length src) buf) else None)"

definition memcpy_from :: "nat \<Rightarrow> nat \<Rightarrow> byte list \<Rightarrow> byte list option" where
  "memcpy_from off n buf = (if off + n \<le> length buf then Some (take n (drop off buf)) else None)"

definition intr :: "nat \<Rightarrow> byte list \<Rightarrow> medical_dev \<Rightarrow> medical_dev option" where
  "intr sz pd dev = do {
     buf \<leftarrow> memcpy_to (unat (dev_cnt dev) mod CIRC_BUF_SIZE sz) pd (circ_buffer dev);
     Some (dev\<lparr>circ_buffer := buf, dev_cnt := dev_cnt dev + of_nat sz\<rparr>) }"

text \<open>The error path frees a pointer that has no value yet.\<close>

definition medical_chrdev_open :: "nat \<Rightarrow> int \<Rightarrow> bool \<Rightarrow> medical_dev \<Rightarrow> (int \<times> med_state option) option" where
  "medical_chrdev_open sz nso kmalloc dev =
     (if nso < 0 then None
      else if \<not> kmalloc then Some (- ENOMEM, None)
      else Some (nso, Some \<lparr>local_cnt = dev_cnt dev, local_buf = replicate sz 0, med_held = False, med_pos = 0\<rparr>))"

text \<open>Waiting for data: a signal, or a wake-up with the device as it is then. The wait returns a
  negative number for a signal, which the code compares with \<open>> 0\<close> and so takes for success.\<close>

fun med_wait :: "u128 \<Rightarrow> medical_dev option list \<Rightarrow> medical_dev \<Rightarrow> medical_dev option" where
  "med_wait lc [] dev = None"
| "med_wait lc (None # ws) dev = Some dev"
| "med_wait lc (Some d # ws) dev = (if lc < dev_cnt d then Some d else med_wait lc ws d)"

datatype med_result = Med_blocked | Med_returned int "byte list" med_state

text \<open>A second reader of the file gets the semaphore only when it is free; \<open>sig\<close> says that a signal
  arrives while it waits for it.\<close>

definition medical_chrdev_read ::
  "nat \<Rightarrow> medical_dev \<Rightarrow> bool \<Rightarrow> medical_dev option list \<Rightarrow> bool \<Rightarrow> med_state \<Rightarrow> med_result option" where
  "medical_chrdev_read sz dev sig ws user_ok st =
     (if med_held st then Some (if sig then Med_returned (- ERESTARTSYS) [] st else Med_blocked)
      else
        let st = st\<lparr>med_held := True\<rparr>
        in case (if dev_cnt dev = local_cnt st then med_wait (local_cnt st) ws dev else Some dev) of
             None \<Rightarrow> Some Med_blocked
           | Some dev \<Rightarrow>
               if med_pos st = 0 \<and> of_nat (CIRC_BUF_SIZE sz) \<le> dev_cnt dev - local_cnt st
               then Some (Med_returned 0 [] st)
               else do {
                 data \<leftarrow> memcpy_from (unat (local_cnt st) mod CIRC_BUF_SIZE sz) sz (circ_buffer dev);
                 let st = st\<lparr>local_buf := data\<rparr>;
                 Some (if \<not> user_ok then Med_returned (- EFAULT) [] (st\<lparr>med_held := False\<rparr>)
                   else Med_returned (int sz) data (st\<lparr>local_cnt := local_cnt st + of_nat sz,
                     med_pos := med_pos st + int sz, med_held := False\<rparr>)) })"

section \<open>The circular buffer\<close>

fun intrs :: "nat \<Rightarrow> byte list list \<Rightarrow> medical_dev \<Rightarrow> medical_dev option" where
  "intrs sz [] dev = Some dev"
| "intrs sz (pd # pds) dev = (case intr sz pd dev of None \<Rightarrow> None | Some dev \<Rightarrow> intrs sz pds dev)"

definition dev_ok :: "nat \<Rightarrow> medical_dev \<Rightarrow> bool" where
  "dev_ok sz dev \<longleftrightarrow> 0 < sz \<and> length (circ_buffer dev) = CIRC_BUF_SIZE sz \<and> unat (dev_cnt dev) mod sz = 0"

lemma slot_offset: "(q * sz) mod CIRC_BUF_SIZE sz = (q mod 1024) * sz"
  by (simp add: CIRC_BUF_SIZE_def mult_mod_left)

lemma circ_slot_fits:
  assumes "0 < sz"
  shows "(q mod 1024) * sz + sz \<le> CIRC_BUF_SIZE sz"
proof -
  have "q mod 1024 + 1 \<le> 1024" by simp
  then have "(q mod 1024 + 1) * sz \<le> 1024 * sz" by (rule mult_le_mono1)
  then show ?thesis by (simp add: CIRC_BUF_SIZE_def)
qed

lemma put_slot_same:
  "off + length src \<le> length buf \<Longrightarrow>
    take (length src) (drop off (take off buf @ src @ drop (off + length src) buf)) = src"
  by simp

lemma put_slot_other:
  assumes "off + length src \<le> length buf" "off' + n \<le> off \<or> off + length src \<le> off'"
  shows "take n (drop off' (take off buf @ src @ drop (off + length src) buf)) = take n (drop off' buf)"
  using assms(2)
proof
  assume "off' + n \<le> off"
  with assms(1) show ?thesis by (intro nth_equalityI) (auto simp: nth_append)
next
  assume "off + length src \<le> off'"
  with assms(1) show ?thesis by simp
qed

lemma slots_apart:
  assumes "a mod 1024 \<noteq> b mod (1024 :: nat)"
  shows "(a mod 1024) * sz + sz \<le> (b mod 1024) * sz \<or> (b mod 1024) * sz + sz \<le> (a mod 1024) * sz"
proof -
  consider "a mod 1024 + 1 \<le> b mod 1024" | "b mod 1024 + 1 \<le> a mod 1024" using assms by linarith
  then show ?thesis
  proof cases
    case 1
    then have "(a mod 1024 + 1) * sz \<le> (b mod 1024) * sz" by (rule mult_le_mono1)
    then show ?thesis by simp
  next
    case 2
    then have "(b mod 1024 + 1) * sz \<le> (a mod 1024) * sz" by (rule mult_le_mono1)
    then show ?thesis by simp
  qed
qed

lemma intr_result:
  assumes "dev_ok sz dev" "length pd = sz" "unat (dev_cnt dev) = q * sz" "q * sz + sz < 2 ^ 128"
  shows "\<exists>dev'. intr sz pd dev = Some dev' \<and> dev_ok sz dev' \<and> unat (dev_cnt dev') = Suc q * sz \<and>
    circ_buffer dev' = take ((q mod 1024) * sz) (circ_buffer dev) @ pd @
      drop ((q mod 1024) * sz + sz) (circ_buffer dev)"
proof -
  have sz: "0 < sz" "length (circ_buffer dev) = CIRC_BUF_SIZE sz" using assms(1) by (simp_all add: dev_ok_def)
  have f: "(q mod 1024) * sz + sz \<le> CIRC_BUF_SIZE sz" by (rule circ_slot_fits [OF sz(1)])
  have s: "sz < 2 ^ 128" using assms(4) by linarith
  have u: "unat (dev_cnt dev + of_nat sz) = q * sz + sz"
    using assms(3,4) s by (simp add: unat_word_ariths unat_of_nat)
  let ?b = "take ((q mod 1024) * sz) (circ_buffer dev) @ pd @ drop ((q mod 1024) * sz + sz) (circ_buffer dev)"
  have "intr sz pd dev = Some (dev\<lparr>circ_buffer := ?b, dev_cnt := dev_cnt dev + of_nat sz\<rparr>)"
    using f sz(2) by (simp add: intr_def memcpy_to_def assms(2,3) slot_offset)
  moreover have "length ?b = CIRC_BUF_SIZE sz" using f sz(2) assms(2) by simp
  ultimately show ?thesis using u sz(1) by (auto simp: dev_ok_def)
qed

lemma intrs_result:
  assumes "dev_ok sz dev" "\<forall>pd \<in> set pds. length pd = sz" "unat (dev_cnt dev) = q * sz"
    "(q + length pds) * sz < 2 ^ 128"
  shows "\<exists>dev'. intrs sz pds dev = Some dev' \<and> dev_ok sz dev' \<and> unat (dev_cnt dev') = (q + length pds) * sz \<and>
    (\<forall>j < length pds. length pds - j \<le> 1024 \<longrightarrow>
      take sz (drop (((q + j) mod 1024) * sz) (circ_buffer dev')) = pds ! j) \<and>
    (\<forall>r. (\<forall>j < length pds. (q + j) mod 1024 \<noteq> r mod 1024) \<longrightarrow>
      take sz (drop ((r mod 1024) * sz) (circ_buffer dev')) = take sz (drop ((r mod 1024) * sz) (circ_buffer dev)))"
  using assms
proof (induction pds arbitrary: dev q)
  case (Cons pd pds)
  have sz: "0 < sz" using Cons.prems(1) by (simp add: dev_ok_def)
  have b: "q * sz + sz < 2 ^ 128" using Cons.prems(4) by (simp add: algebra_simps)
  have lp: "length pd = sz" using Cons.prems(2) by simp
  obtain d1 where d1: "intr sz pd dev = Some d1" "dev_ok sz d1" "unat (dev_cnt d1) = Suc q * sz"
    "circ_buffer d1 = take ((q mod 1024) * sz) (circ_buffer dev) @ pd @ drop ((q mod 1024) * sz + sz) (circ_buffer dev)"
    using intr_result [OF Cons.prems(1) lp Cons.prems(3) b] by blast
  have fit: "(q mod 1024) * sz + length pd \<le> length (circ_buffer dev)"
    using circ_slot_fits [OF sz, of q] Cons.prems(1) lp by (simp add: dev_ok_def)
  have b1: "(Suc q + length pds) * sz < 2 ^ 128" using Cons.prems(4) by simp
  obtain d2 where d2: "intrs sz pds d1 = Some d2" "dev_ok sz d2" "unat (dev_cnt d2) = (Suc q + length pds) * sz"
    "\<forall>j < length pds. length pds - j \<le> 1024 \<longrightarrow> take sz (drop (((Suc q + j) mod 1024) * sz) (circ_buffer d2)) = pds ! j"
    "\<forall>r. (\<forall>j < length pds. (Suc q + j) mod 1024 \<noteq> r mod 1024) \<longrightarrow>
      take sz (drop ((r mod 1024) * sz) (circ_buffer d2)) = take sz (drop ((r mod 1024) * sz) (circ_buffer d1))"
    using Cons.IH [OF d1(2) _ d1(3) b1] Cons.prems(2) by auto
  have first: "take sz (drop ((q mod 1024) * sz) (circ_buffer d2)) = pd" if "Suc (length pds) \<le> 1024"
  proof -
    have "(Suc q + j) mod 1024 \<noteq> q mod 1024" if j: "j < length pds" for j
    proof
      assume "(Suc q + j) mod 1024 = q mod 1024"
      then have "1024 dvd (Suc q + j) - q" by (simp add: mod_eq_dvd_iff_nat)
      then have "1024 dvd Suc j" by simp
      then show False using j \<open>Suc (length pds) \<le> 1024\<close> by (auto dest: dvd_imp_le)
    qed
    with d2(5) have "take sz (drop ((q mod 1024) * sz) (circ_buffer d2)) =
        take sz (drop ((q mod 1024) * sz) (circ_buffer d1))" by blast
    also have "... = pd" using put_slot_same [OF fit] by (simp add: d1(4) lp)
    finally show ?thesis .
  qed
  have later: "take sz (drop (((q + j) mod 1024) * sz) (circ_buffer d2)) = (pd # pds) ! j"
    if "j < length (pd # pds)" "length (pd # pds) - j \<le> 1024" for j
    using that first d2(4) by (cases j) auto
  have other: "take sz (drop ((r mod 1024) * sz) (circ_buffer d2)) = take sz (drop ((r mod 1024) * sz) (circ_buffer dev))"
    if r: "\<forall>j < length (pd # pds). (q + j) mod 1024 \<noteq> r mod 1024" for r
  proof -
    have "(Suc q + j) mod 1024 \<noteq> r mod 1024" if "j < length pds" for j using r [rule_format, of "Suc j"] that by simp
    then have "take sz (drop ((r mod 1024) * sz) (circ_buffer d2)) = take sz (drop ((r mod 1024) * sz) (circ_buffer d1))"
      using d2(5) by blast
    moreover have "q mod 1024 \<noteq> r mod 1024" using r [rule_format, of 0] by simp
    ultimately show ?thesis
      using put_slot_other [OF fit, of "(r mod 1024) * sz" sz] slots_apart [of q r sz] by (auto simp: d1(4) lp)
  qed
  show ?case
    using d1(1) d2(1-3) later other by (intro exI [of _ d2] conjI) simp_all
qed simp

end
