(* ===== verification/Medical_Thms.thy ===== *)
theory Medical_Thms
  imports Medical
begin

text \<open>
  What a reader of the medical device gets: the measurements since its opening, one by one; and
  what happens when it is too slow or is interrupted.
\<close>

text \<open>The state of an open file after \<open>i\<close> measurements.\<close>

definition reader :: "nat \<Rightarrow> medical_dev \<Rightarrow> nat \<Rightarrow> byte list \<Rightarrow> med_state" where
  "reader sz dev0 i b = \<lparr>local_cnt = dev_cnt dev0 + of_nat (i * sz), local_buf = b, med_held = False,
     med_pos = int (i * sz)\<rparr>"

lemma unat_of_nat_128: "n < 2 ^ 128 \<Longrightarrow> unat (of_nat n :: u128) = n"
  by (simp add: unat_of_nat)

lemma count_values:
  assumes "dev_ok sz dev0" "\<forall>pd \<in> set ms. length pd = sz" "unat (dev_cnt dev0) + length ms * sz < 2 ^ 128"
    "i \<le> length ms" "intrs sz ms dev0 = Some dev"
  shows "unat (local_cnt (reader sz dev0 i b)) = unat (dev_cnt dev0) + i * sz"
    "unat (dev_cnt dev) = unat (dev_cnt dev0) + length ms * sz"
    "unat (dev_cnt dev - local_cnt (reader sz dev0 i b)) = (length ms - i) * sz" "dev_ok sz dev"
    "length ms - i \<le> 1024 \<longrightarrow> i < length ms \<longrightarrow>
      memcpy_from (unat (local_cnt (reader sz dev0 i b)) mod CIRC_BUF_SIZE sz) sz (circ_buffer dev) = Some (ms ! i)"
    "memcpy_from (unat (local_cnt (reader sz dev0 i b)) mod CIRC_BUF_SIZE sz) sz (circ_buffer dev) \<noteq> None"
proof -
  obtain q where q: "unat (dev_cnt dev0) = q * sz" using assms(1) by (auto simp: dev_ok_def elim: dvdE dest: mod_0_imp_dvd)
  have b: "(q + length ms) * sz < 2 ^ 128" using assms(3) q by (simp add: algebra_simps)
  obtain d where d: "intrs sz ms dev0 = Some d" "dev_ok sz d" "unat (dev_cnt d) = (q + length ms) * sz"
    "\<forall>j < length ms. length ms - j \<le> 1024 \<longrightarrow> take sz (drop (((q + j) mod 1024) * sz) (circ_buffer d)) = ms ! j"
    using intrs_result [OF assms(1,2) q b] by blast
  have e: "d = dev" using d(1) assms(5) by simp
  have i: "i * sz \<le> length ms * sz" using assms(4) by (rule mult_le_mono1)
  then have bi: "unat (dev_cnt dev0) + i * sz < 2 ^ 128" using assms(3) by linarith
  show l: "unat (local_cnt (reader sz dev0 i b)) = unat (dev_cnt dev0) + i * sz"
    using bi unat_of_nat_128 [of "i * sz"] by (simp add: reader_def unat_word_ariths del: of_nat_mult)
  show c: "unat (dev_cnt dev) = unat (dev_cnt dev0) + length ms * sz" using d(3) q e by (simp add: algebra_simps)
  show "dev_ok sz dev" using d(2) e by simp
  have "local_cnt (reader sz dev0 i b) \<le> dev_cnt dev" unfolding word_le_nat_alt l c using i by linarith
  then show "unat (dev_cnt dev - local_cnt (reader sz dev0 i b)) = (length ms - i) * sz"
    using l c by (simp add: unat_sub diff_mult_distrib)
  have s: "unat (local_cnt (reader sz dev0 i b)) mod CIRC_BUF_SIZE sz = ((q + i) mod 1024) * sz"
    unfolding l q slot_offset [symmetric] by (simp add: add_mult_distrib)
  have f: "((q + i) mod 1024) * sz + sz \<le> length (circ_buffer dev)"
    using circ_slot_fits [of sz "q + i"] d(2) e by (simp add: dev_ok_def)
  show "length ms - i \<le> 1024 \<longrightarrow> i < length ms \<longrightarrow>
      memcpy_from (unat (local_cnt (reader sz dev0 i b)) mod CIRC_BUF_SIZE sz) sz (circ_buffer dev) = Some (ms ! i)"
    using d(4) f e unfolding s by (simp add: memcpy_from_def)
  show "memcpy_from (unat (local_cnt (reader sz dev0 i b)) mod CIRC_BUF_SIZE sz) sz (circ_buffer dev) \<noteq> None"
    using f unfolding s by (simp add: memcpy_from_def)
qed

lemma reader_next: "(reader sz dev0 i b)\<lparr>local_buf := d, local_cnt := local_cnt (reader sz dev0 i b) + of_nat sz,
    med_pos := med_pos (reader sz dev0 i b) + int sz, med_held := False\<rparr> = reader sz dev0 (Suc i) d"
  by (simp add: reader_def algebra_simps)

lemma reader_tests:
  assumes "dev_ok sz dev0" "\<forall>pd \<in> set ms. length pd = sz" "unat (dev_cnt dev0) + length ms * sz < 2 ^ 128"
    "CIRC_BUF_SIZE sz < 2 ^ 128" "intrs sz ms dev0 = Some dev" "i \<le> length ms"
  shows "of_nat (CIRC_BUF_SIZE sz) \<le> dev_cnt dev - local_cnt (reader sz dev0 i b) \<longleftrightarrow> 1024 \<le> length ms - i"
    "dev_cnt dev = local_cnt (reader sz dev0 i b) \<longleftrightarrow> i = length ms"
    "med_held (reader sz dev0 i b) = False" "med_pos (reader sz dev0 i b) = 0 \<longleftrightarrow> i = 0"
proof -
  have sz: "0 < sz" using assms(1) by (simp add: dev_ok_def)
  note cv = count_values [OF assms(1-3,6,5)]
  have uc: "unat (of_nat (CIRC_BUF_SIZE sz) :: u128) = 1024 * sz"
    using unat_of_nat_128 [OF assms(4)] by (simp add: CIRC_BUF_SIZE_def)
  show "of_nat (CIRC_BUF_SIZE sz) \<le> dev_cnt dev - local_cnt (reader sz dev0 i b) \<longleftrightarrow> 1024 \<le> length ms - i"
    unfolding word_le_nat_alt uc cv(3) using sz by simp
  show "dev_cnt dev = local_cnt (reader sz dev0 i b) \<longleftrightarrow> i = length ms"
    unfolding word_unat_eq_iff cv(1,2) using sz by auto
  show "med_held (reader sz dev0 i b) = False" "med_pos (reader sz dev0 i b) = 0 \<longleftrightarrow> i = 0"
    using sz by (simp_all add: reader_def)
qed

text \<open>
  C36. A file that was opened before the measurements \<open>ms\<close> came in and has read \<open>i\<close> of them reads
  measurement \<open>i\<close> next, as long as the device is not too far ahead. When the first read comes too
  late it reports the end of the stream, but keeps the lock of the file: every later read blocks.
  A signal that arrives while a reader waits for data makes it return old bytes and puts its
  counter ahead of the device's.
\<close>

theorem medical_reads_in_order:
  assumes "dev_ok sz dev0" "\<forall>pd \<in> set ms. length pd = sz"
    "unat (dev_cnt dev0) + length ms * sz < 2 ^ 128" "CIRC_BUF_SIZE sz < 2 ^ 128"
    "intrs sz ms dev0 = Some dev"
  shows "medical_chrdev_open sz 0 True dev0 = Some (0, Some (reader sz dev0 0 (replicate sz 0))) \<and>
    (\<forall>i < length ms. length ms - i \<le> 1024 \<longrightarrow> (i = 0 \<longrightarrow> length ms < 1024) \<longrightarrow>
      medical_chrdev_read sz dev sig ws True (reader sz dev0 i b) =
        Some (Med_returned (int sz) (ms ! i) (reader sz dev0 (Suc i) (ms ! i)))) \<and>
    (1024 \<le> length ms \<longrightarrow>
      (\<exists>st. medical_chrdev_read sz dev sig ws True (reader sz dev0 0 b) = Some (Med_returned 0 [] st) \<and>
        (\<forall>dev' ws' ok. medical_chrdev_read sz dev' False ws' ok st = Some Med_blocked))) \<and>
    (ms \<noteq> [] \<longrightarrow> (\<exists>data st. medical_chrdev_read sz dev sig (None # ws) True (reader sz dev0 (length ms) b) =
        Some (Med_returned (int sz) data st) \<and> local_cnt st = dev_cnt dev + of_nat sz))"
proof (intro conjI allI impI)
  note cv = count_values [OF assms(1-3) _ assms(5)] and rt = reader_tests [OF assms]
  show "medical_chrdev_open sz 0 True dev0 = Some (0, Some (reader sz dev0 0 (replicate sz 0)))"
    by (simp add: medical_chrdev_open_def reader_def)
  show "medical_chrdev_read sz dev sig ws True (reader sz dev0 i b) =
      Some (Med_returned (int sz) (ms ! i) (reader sz dev0 (Suc i) (ms ! i)))"
    if i: "i < length ms" "length ms - i \<le> 1024" "i = 0 \<longrightarrow> length ms < 1024" for i
    using cv(5) [of i] rt [of i] i
    by (auto simp: medical_chrdev_read_def reader_next Let_def split: if_splits)
  show "\<exists>st. medical_chrdev_read sz dev sig ws True (reader sz dev0 0 b) = Some (Med_returned 0 [] st) \<and>
      (\<forall>dev' ws' ok. medical_chrdev_read sz dev' False ws' ok st = Some Med_blocked)"
    if l: "1024 \<le> length ms"
    using rt [of 0] l
    by (intro exI [of _ "(reader sz dev0 0 b)\<lparr>med_held := True\<rparr>"]) (auto simp: medical_chrdev_read_def Let_def)
  show "\<exists>data st. medical_chrdev_read sz dev sig (None # ws) True (reader sz dev0 (length ms) b) =
        Some (Med_returned (int sz) data st) \<and> local_cnt st = dev_cnt dev + of_nat sz"
    if "ms \<noteq> []"
    using cv(6) [of "length ms"] rt [of "length ms"] that by (auto simp: medical_chrdev_read_def Let_def)
qed

theorem medical_reads_in_order_witness:
  "\<exists>dev. intrs 2 [[1, 2], [3, 4]] \<lparr>dev_cnt = 0, circ_buffer = replicate 2048 0\<rparr> = Some dev \<and>
    medical_chrdev_read 2 dev False [] True (reader 2 \<lparr>dev_cnt = 0, circ_buffer = replicate 2048 0\<rparr> 1 [1, 2]) =
      Some (Med_returned 2 [3, 4] (reader 2 \<lparr>dev_cnt = 0, circ_buffer = replicate 2048 0\<rparr> 2 [3, 4]))"
proof -
  let ?d = "\<lparr>dev_cnt = 0, circ_buffer = replicate 2048 0\<rparr> :: medical_dev"
  have ok: "dev_ok 2 ?d" by (simp add: dev_ok_def CIRC_BUF_SIZE_def)
  have ms: "\<forall>pd \<in> set [[1, 2], [3, 4 :: byte]]. length pd = 2" by simp
  have b: "unat (dev_cnt ?d) + length [[1, 2], [3, 4 :: byte]] * 2 < 2 ^ 128" "CIRC_BUF_SIZE 2 < 2 ^ 128"
    by (simp_all add: CIRC_BUF_SIZE_def)
  obtain dev where d: "intrs 2 [[1, 2], [3, 4]] ?d = Some dev"
    using intrs_result [OF ok ms, of 0] by auto
  have "medical_chrdev_read 2 dev False [] True (reader 2 ?d 1 [1, 2]) =
      Some (Med_returned (int 2) ([[1, 2], [3, 4]] ! 1) (reader 2 ?d (Suc 1) ([[1, 2], [3, 4]] ! 1)))"
    using medical_reads_in_order [OF ok ms b d, of False "[]" "[1, 2]"] by force
  with d show ?thesis by (auto simp: numeral_2_eq_2)
qed

end
