(* ===== verification/Gates.thy ===== *)
theory Gates
  imports Prelude
begin

text \<open>
  The gates of project 2 (\<^verbatim>\<open>projects/project2/parent.c\<close> and \<^verbatim>\<open>child.c\<close>): a parent has a child process for
  each gate, passes signals on to the children, and creates a child again when it ends. Each step of
  the relation is a handler, a piece of a child's \<^verbatim>\<open>main\<close> between two system calls, or a round of the
  parent's loop. A signal that is sent is pending until it is delivered, once. \<^verbatim>\<open>fork\<close> and \<^verbatim>\<open>execv\<close>
  succeed and are one step. The components \<open>gate_set\<close>, \<open>toggles\<close> and \<open>said\<close> record what
  a child has done.
\<close>

datatype signal = SIGTERM | SIGUSR1 | SIGUSR2 | SIGALRM

text \<open>Where a child is: before its handlers are installed, before and after \<^verbatim>\<open>GATE\<close> is set, before
  and in the \<^verbatim>\<open>pause\<close> of \<^verbatim>\<open>main\<close>, in the loop of \<^verbatim>\<open>handle_sigalarm\<close>, or at its end.\<close>

datatype place = Started | Handling | Ready | Armed | Paused | In_alarm | Ended

record gate_child =
  place :: place
  GATE :: int
  pending :: "signal set"
  stopped :: bool
  gate_set :: bool
  toggles :: nat
  said :: "int list"

record gates =
  gprompt :: string
  kids :: "gate_child list"
  running :: bool
  handlers :: bool

section \<open>A child\<close>

definition initial_gate :: "char \<Rightarrow> int" where
  "initial_gate c = (if c = CHR ''t'' then 1 else 0)"

definition say :: "gate_child \<Rightarrow> gate_child" where
  "say c = c\<lparr>said := said c @ [GATE c]\<rparr>"

text \<open>A handler that returns ends the \<^verbatim>\<open>pause\<close> it interrupts: in \<^verbatim>\<open>main\<close> the child returns, in
  \<^verbatim>\<open>handle_sigalarm\<close> the loop goes on.\<close>

definition end_pause :: "gate_child \<Rightarrow> gate_child" where
  "end_pause c = (if place c = Paused then c\<lparr>place := Ended\<rparr> else c)"

definition handle_sigusr1 :: "gate_child \<Rightarrow> gate_child" where
  "handle_sigusr1 c = say (c\<lparr>GATE := (if GATE c = 1 then 0 else 1), toggles := toggles c + 1\<rparr>)"

definition handle_sigusr2 :: "gate_child \<Rightarrow> gate_child" where
  "handle_sigusr2 c = say c"

definition handle_sigalarm :: "gate_child \<Rightarrow> gate_child" where
  "handle_sigalarm c = (say c)\<lparr>place := In_alarm\<rparr>"

fun handle :: "signal \<Rightarrow> gate_child \<Rightarrow> gate_child" where
  "handle SIGTERM c = c\<lparr>place := Ended\<rparr>"
| "handle SIGUSR1 c = end_pause (handle_sigusr1 c)"
| "handle SIGUSR2 c = end_pause (handle_sigusr2 c)"
| "handle SIGALRM c = handle_sigalarm c"

definition take_signal :: "signal \<Rightarrow> gate_child \<Rightarrow> gate_child" where
  "take_signal sig c =
     (let c = c\<lparr>pending := pending c - {sig}\<rparr>
      in case place c of Ended \<Rightarrow> c | Started \<Rightarrow> c\<lparr>place := Ended\<rparr> | _ \<Rightarrow> handle sig c)"

text \<open>The steps of \<^verbatim>\<open>main\<close>; \<open>g\<close> is the first character of its argument.\<close>

definition child_main :: "char \<Rightarrow> gate_child \<Rightarrow> gate_child" where
  "child_main g c =
     (case place c of
        Started \<Rightarrow> c\<lparr>place := Handling\<rparr>
      | Handling \<Rightarrow> c\<lparr>place := Ready, GATE := initial_gate g, gate_set := True, toggles := 0\<rparr>
      | Ready \<Rightarrow> (say c)\<lparr>place := Armed\<rparr>
      | Armed \<Rightarrow> c\<lparr>place := Paused\<rparr>
      | _ \<Rightarrow> c)"

section \<open>The parent\<close>

definition create_child :: gate_child where
  "create_child = \<lparr>place = Started, GATE = 0, pending = {}, stopped = False, gate_set = False, toggles = 0, said = []\<rparr>"

definition kill :: "signal \<Rightarrow> gate_child \<Rightarrow> gate_child" where
  "kill sig c = (if place c = Ended then c else c\<lparr>pending := insert sig (pending c)\<rparr>)"

definition kill_all :: "signal \<Rightarrow> gates \<Rightarrow> gates" where
  "kill_all sig s = s\<lparr>kids := map (kill sig) (kids s)\<rparr>"

fun parent_signal :: "signal \<Rightarrow> gates \<Rightarrow> gates" where
  "parent_signal sig s =
     (if \<not> handlers s then s\<lparr>running := False\<rparr>
      else case sig of
        SIGTERM \<Rightarrow> (kill_all SIGTERM s)\<lparr>running := False\<rparr>
      | SIGUSR1 \<Rightarrow> kill_all SIGUSR1 s
      | SIGUSR2 \<Rightarrow> kill_all SIGUSR2 s
      | SIGALRM \<Rightarrow> s\<lparr>running := False\<rparr>)"

text \<open>A round of the loop that finds child \<open>i\<close>.\<close>

definition wait_round :: "nat \<Rightarrow> gates \<Rightarrow> gates" where
  "wait_round i s =
     (let c = kids s ! i
      in if place c = Ended then s\<lparr>kids := (kids s)[i := create_child]\<rparr>
         else if stopped c then s\<lparr>kids := (kids s)[i := c\<lparr>stopped := False\<rparr>]\<rparr>
         else s)"

text \<open>The start of \<^verbatim>\<open>main\<close>: the exit status, or the parent with its children. \<^verbatim>\<open>pid_array\<close> has 50
  elements.\<close>

definition start_gates :: "string list \<Rightarrow> (int + gates) option" where
  "start_gates argv =
     (if length argv \<noteq> 2 then Some (Inl 1)
      else if \<not> list_all (\<lambda>c. c = CHR ''t'' \<or> c = CHR ''f'') (argv ! 1) then Some (Inl 1)
      else if 50 < length (argv ! 1) then None
      else Some (Inr \<lparr>gprompt = argv ! 1, kids = replicate (length (argv ! 1)) create_child, running = True,
        handlers = False\<rparr>))"

section \<open>The processes together\<close>

inductive gstep :: "gates \<Rightarrow> gates \<Rightarrow> bool" where
  install: "running s \<Longrightarrow> gstep s (s\<lparr>handlers := True\<rparr>)"
| to_parent: "running s \<Longrightarrow> gstep s (parent_signal sig s)"
| to_child: "i < length (kids s) \<Longrightarrow> gstep s (s\<lparr>kids := (kids s)[i := kill sig (kids s ! i)]\<rparr>)"
| stop: "i < length (kids s) \<Longrightarrow> place (kids s ! i) \<noteq> Ended \<Longrightarrow>
    gstep s (s\<lparr>kids := (kids s)[i := (kids s ! i)\<lparr>stopped := True\<rparr>]\<rparr>)"
| signalled: "i < length (kids s) \<Longrightarrow> \<not> stopped (kids s ! i) \<Longrightarrow> sig \<in> pending (kids s ! i) \<Longrightarrow>
    gstep s (s\<lparr>kids := (kids s)[i := take_signal sig (kids s ! i)]\<rparr>)"
| runs_on: "i < length (kids s) \<Longrightarrow> \<not> stopped (kids s ! i) \<Longrightarrow>
    gstep s (s\<lparr>kids := (kids s)[i := child_main (gprompt s ! i) (kids s ! i)]\<rparr>)"
| waited: "running s \<Longrightarrow> handlers s \<Longrightarrow> i < length (kids s) \<Longrightarrow> gstep s (wait_round i s)"

inductive_cases gstepE: "gstep s s'"

inductive greach :: "gates \<Rightarrow> gates \<Rightarrow> bool" for s0 :: gates where
  start: "greach s0 s0"
| more: "greach s0 s \<Longrightarrow> gstep s s' \<Longrightarrow> greach s0 s'"

section \<open>The state of a gate\<close>

text \<open>A child that has set its gate shows the initial state, changed by every toggle since; it has
  set it when it is in \<^verbatim>\<open>main\<close> behind that point.\<close>

definition gate_ok :: "char \<Rightarrow> gate_child \<Rightarrow> bool" where
  "gate_ok g c \<longleftrightarrow>
     (gate_set c \<longrightarrow> place c \<notin> {Started, Handling} \<and> GATE c = (if (g = CHR ''t'') = even (toggles c) then 1 else 0)) \<and>
     (place c \<in> {Ready, Armed, Paused} \<longrightarrow> gate_set c)"

definition gates_ok :: "gates \<Rightarrow> bool" where
  "gates_ok s \<longleftrightarrow> length (kids s) = length (gprompt s) \<and> (\<forall>i < length (kids s). gate_ok (gprompt s ! i) (kids s ! i))"

lemma create_child_ok [simp]: "gate_ok g create_child"
  by (simp add: create_child_def gate_ok_def)

lemma kill_ok [simp]: "gate_ok g c \<Longrightarrow> gate_ok g (kill sig c)"
  by (simp add: kill_def gate_ok_def)

lemma stop_ok [simp]: "gate_ok g (c\<lparr>stopped := b\<rparr>) = gate_ok g c"
  by (simp add: gate_ok_def)

lemma take_signal_ok [simp]: "gate_ok g c \<Longrightarrow> gate_ok g (take_signal sig c)"
  by (cases sig; cases "place c")
    (auto simp: take_signal_def gate_ok_def end_pause_def handle_sigusr1_def handle_sigusr2_def handle_sigalarm_def say_def)

lemma child_main_ok [simp]: "gate_ok g c \<Longrightarrow> gate_ok g (child_main g c)"
  by (cases "place c") (auto simp: child_main_def gate_ok_def say_def initial_gate_def)

lemma gates_ok_update:
  assumes "gates_ok s" "i < length (kids s) \<Longrightarrow> gate_ok (gprompt s ! i) (kids s ! i) \<Longrightarrow> gate_ok (gprompt s ! i) c"
  shows "gates_ok (s\<lparr>kids := (kids s)[i := c]\<rparr>)"
  using assms by (cases "i < length (kids s)") (auto simp: gates_ok_def nth_list_update)

lemma parent_signal_ok: "gates_ok s \<Longrightarrow> gates_ok (parent_signal sig s)"
  by (cases sig) (simp_all add: gates_ok_def kill_all_def)

lemma wait_round_ok: "gates_ok s \<Longrightarrow> gates_ok (wait_round i s)"
  by (auto simp: wait_round_def Let_def intro!: gates_ok_update)

lemma gstep_ok: "gstep s s' \<Longrightarrow> gates_ok s \<Longrightarrow> gates_ok s' \<and> gprompt s' = gprompt s"
proof (induction rule: gstep.induct)
  case (to_parent s sig)
  moreover have "gprompt (parent_signal sig s) = gprompt s" by (cases sig) (simp_all add: kill_all_def)
  ultimately show ?case by (simp add: parent_signal_ok del: parent_signal.simps)
next
  case (waited s i)
  moreover have "gprompt (wait_round i s) = gprompt s" by (simp add: wait_round_def Let_def)
  ultimately show ?case by (simp add: wait_round_ok)
next
  case (install s)
  then show ?case by (simp add: gates_ok_def)
qed (simp_all add: gates_ok_update)

lemma greach_ok: "greach s0 s \<Longrightarrow> gates_ok s0 \<Longrightarrow> gates_ok s \<and> gprompt s = gprompt s0"
  by (induction rule: greach.induct) (auto dest: gstep_ok)

lemma greach_trans: "greach s1 s2 \<Longrightarrow> greach s0 s1 \<Longrightarrow> greach s0 s2"
  by (induction rule: greach.induct) (auto intro: greach.more)

lemma start_gates_ok:
  assumes "start_gates argv = Some (Inr s0)"
  shows "gates_ok s0" "gprompt s0 = argv ! 1"
  using assms by (auto simp: start_gates_def gates_ok_def split: if_splits)

section \<open>A signal before the first alarm\<close>

text \<open>The state after a step of child \<open>i\<close>.\<close>

abbreviation (input) with_kid :: "nat \<Rightarrow> gate_child \<Rightarrow> gates \<Rightarrow> gates" where
  "with_kid i c s \<equiv> s\<lparr>kids := (kids s)[i := c]\<rparr>"

lemma greach_runs_on:
  assumes "i < length (kids s)" "\<not> stopped c"
  shows "greach (with_kid i c s) (with_kid i (child_main (gprompt s ! i) c) s)"
proof -
  have "gstep (with_kid i c s)
    ((with_kid i c s)\<lparr>kids := (kids (with_kid i c s))[i := child_main (gprompt (with_kid i c s) ! i) (kids (with_kid i c s) ! i)]\<rparr>)"
    by (rule runs_on) (use assms in simp_all)
  then have "gstep (with_kid i c s) (with_kid i (child_main (gprompt s ! i) c) s)" using assms by simp
  then show ?thesis by (rule greach.more [OF greach.start])
qed

definition restarted :: "char \<Rightarrow> gate_child" where
  "restarted g = create_child\<lparr>place := Paused, GATE := initial_gate g, gate_set := True, said := [initial_gate g]\<rparr>"

lemma comes_to_pause:
  assumes "i < length (kids s)"
  shows "greach (with_kid i create_child s) (with_kid i (restarted (gprompt s ! i)) s)"
proof -
  let ?g = "gprompt s ! i"
  have n: "\<not> stopped (child_main g c)" if "\<not> stopped c" for g c
    using that by (cases "place c") (simp_all add: child_main_def say_def)
  have c: "\<not> stopped create_child" by (simp add: create_child_def)
  have four: "child_main ?g (child_main ?g (child_main ?g (child_main ?g create_child))) = restarted ?g"
    by (simp add: child_main_def create_child_def restarted_def say_def)
  note r = greach_runs_on [OF assms]
  show ?thesis
    unfolding four [symmetric]
    by (rule greach_trans [OF r [OF n [OF n [OF n [OF c]]]]], rule greach_trans [OF r [OF n [OF n [OF c]]]],
      rule greach_trans [OF r [OF n [OF c]] r [OF c]])
qed

text \<open>An ended child is created again and comes to its \<^verbatim>\<open>pause\<close> with the initial state.\<close>

lemma ended_restarts:
  assumes "running s" "handlers s" "i < length (kids s)" "place (kids s ! i) = Ended"
  shows "greach s (with_kid i (restarted (gprompt s ! i)) s)"
proof -
  have "greach s (with_kid i create_child s)"
    using greach.more [OF greach.start waited [OF assms(1-3)]] assms(4) by (simp add: wait_round_def)
  then show ?thesis by (rule greach_trans [OF comes_to_pause [OF assms(3)]])
qed

text \<open>
  C37. In every state that parent and children reach from their start, a child that has set its
  gate shows the initial state of the gate, changed by each SIGUSR1 it has handled since. In the loop
  of its alarm handler it goes on after a SIGUSR1 with the other state. Before its first
  alarm it does not: a SIGUSR1 or SIGUSR2 that it takes in the pause of main ends it, and the parent
  creates a child that comes to its pause with the initial state, so that the toggle is lost.
\<close>

theorem gates_show_toggles:
  assumes "start_gates argv = Some (Inr s0)" "greach s0 s" "i < length (argv ! 1)"
  defines "c \<equiv> kids s ! i" and "g \<equiv> argv ! 1 ! i"
  shows "(gate_set c \<longrightarrow> GATE c = (if (g = CHR ''t'') = even (toggles c) then 1 else 0)) \<and>
    (place c = In_alarm \<and> gate_set c \<longrightarrow>
      place (take_signal SIGUSR1 c) = In_alarm \<and> GATE (take_signal SIGUSR1 c) = 1 - GATE c) \<and>
    (\<forall>sig \<in> pending c. place c = Paused \<and> sig \<in> {SIGUSR1, SIGUSR2} \<and> \<not> stopped c \<and> running s \<and> handlers s \<longrightarrow>
      place (take_signal sig c) = Ended \<and> gstep s (s\<lparr>kids := (kids s)[i := take_signal sig c]\<rparr>) \<and>
      greach (s\<lparr>kids := (kids s)[i := take_signal sig c]\<rparr>) (s\<lparr>kids := (kids s)[i := restarted g]\<rparr>))"
proof -
  have s: "gates_ok s" "gprompt s = argv ! 1"
    using greach_ok [OF assms(2) start_gates_ok(1) [OF assms(1)]] start_gates_ok(2) [OF assms(1)] by simp_all
  then have i: "i < length (kids s)" using assms(3) by (simp add: gates_ok_def)
  show ?thesis
  proof (intro conjI impI ballI)
    have c: "gate_ok g c" using i s by (simp add: gates_ok_def c_def g_def)
    show *: "GATE c = (if (g = CHR ''t'') = even (toggles c) then 1 else 0)" if "gate_set c"
      using c that by (simp add: gate_ok_def)
    fix sig
    assume a: "place c = In_alarm \<and> gate_set c"
    show "place (take_signal SIGUSR1 c) = In_alarm" "GATE (take_signal SIGUSR1 c) = 1 - GATE c"
      using * a by (simp_all add: take_signal_def end_pause_def handle_sigusr1_def say_def)
  next
    fix sig
    assume a: "sig \<in> pending c"
      "place c = Paused \<and> sig \<in> {SIGUSR1, SIGUSR2} \<and> \<not> stopped c \<and> running s \<and> handlers s"
    show e: "place (take_signal sig c) = Ended"
      using a by (auto simp: take_signal_def end_pause_def handle_sigusr1_def handle_sigusr2_def say_def)
    show "gstep s (s\<lparr>kids := (kids s)[i := take_signal sig c]\<rparr>)"
      using a i unfolding c_def by (intro signalled) simp_all
    let ?s = "s\<lparr>kids := (kids s)[i := take_signal sig c]\<rparr>"
    show "greach ?s (s\<lparr>kids := (kids s)[i := restarted g]\<rparr>)"
      using ended_restarts [of ?s i] a i e s(2) by (simp add: g_def)
  qed
qed

theorem gates_show_toggles_witness:
  "\<exists>s0 s. start_gates [''gates'', ''tf''] = Some (Inr s0) \<and> greach s0 s \<and> place (kids s ! 0) = Paused \<and>
    GATE (kids s ! 0) = 1 \<and> greach (s\<lparr>kids := (kids s)[0 := take_signal SIGUSR1 (kids s ! 0)]\<rparr>)
      (s\<lparr>kids := (kids s)[0 := restarted (CHR ''t'')]\<rparr>)"
proof -
  let ?p = "\<lparr>gprompt = ''tf'', kids = [create_child, create_child], running = True, handlers = False\<rparr>"
  let ?t = "restarted (CHR ''t'')"
  let ?s = "?p\<lparr>kids := [kill SIGUSR1 ?t, create_child], handlers := True\<rparr>"
  have s0: "start_gates [''gates'', ''tf''] = Some (Inr ?p)"
    by (simp add: start_gates_def numeral_2_eq_2)
  have "greach ?p (?p\<lparr>handlers := True\<rparr>)"
    using greach.more [OF greach.start install [of ?p]] by simp
  moreover have "greach (?p\<lparr>handlers := True\<rparr>) (?p\<lparr>kids := [?t, create_child], handlers := True\<rparr>)"
    using comes_to_pause [of 0 "?p\<lparr>handlers := True\<rparr>"] by simp
  ultimately have "greach ?p (?p\<lparr>kids := [?t, create_child], handlers := True\<rparr>)"
    by (rule greach_trans [rotated])
  from greach.more [OF this to_child [of 0 _ SIGUSR1]] have r: "greach ?p ?s" by simp
  have k: "kids ?s ! 0 = ?t\<lparr>pending := {SIGUSR1}\<rparr>" "kids ?s ! 0 = kill SIGUSR1 ?t"
    by (simp_all add: kill_def restarted_def create_child_def)
  have p: "place (kids ?s ! 0) = Paused" "GATE (kids ?s ! 0) = 1" "SIGUSR1 \<in> pending (kids ?s ! 0)"
    "\<not> stopped (kids ?s ! 0)"
    unfolding k(1) by (simp_all add: restarted_def create_child_def initial_gate_def)
  have "greach (?s\<lparr>kids := (kids ?s)[0 := take_signal SIGUSR1 (kids ?s ! 0)]\<rparr>)
      (?s\<lparr>kids := (kids ?s)[0 := restarted (CHR ''t'')]\<rparr>)"
    using gates_show_toggles [OF s0 r, of 0] p by simp
  with s0 r p show ?thesis by blast
qed

end
