(* ===== verification/Dispatcher.thy ===== *)
theory Dispatcher
  imports Decimal
begin

text \<open>
  The job dispatcher of project 3 (\<^verbatim>\<open>projects/project3/project3.c\<close>): a parent hands the numbers that are
  typed to child processes through pipes and prints what comes back. A pipe is a queue; the pid of
  a child and the number that \<^verbatim>\<open>rand\<close> gives are parameters. \<open>None\<close> is an access outside an array or a
  division by zero. The last component of the state records the jobs that were written.
  Fewer than 2147483648 jobs are sent, so that \<^verbatim>\<open>iterator\<close> does not overflow.
\<close>

type_synonym job = "32 word"

datatype child = Reading | Working job

record pool =
  prompt :: string
  pid_array :: "int list"
  send_to :: int
  iterator :: int
  in_pipe :: "nat \<Rightarrow> job list"
  out_pipe :: "nat \<Rightarrow> job list"
  children :: "nat \<Rightarrow> child"
  printed :: "(nat \<times> job) list"
  sent :: "(int \<times> nat \<times> job) list"

section \<open>Arguments and lines\<close>

text \<open>The return value and \<^verbatim>\<open>prompt\<close>; \<open>argv\<close> holds the name of the program too.\<close>

definition check_argument_errors :: "string list \<Rightarrow> string \<Rightarrow> int \<times> string" where
  "check_argument_errors argv p =
     (if 3 < length argv \<or> length argv < 2 then (1, p)
      else if \<not> list_all digit (argv ! 1) then (1, p)
      else if length argv = 3 then
        (if argv ! 2 \<noteq> ''--round-robin'' \<and> argv ! 2 \<noteq> ''--random'' then (1, p) else (0, argv ! 2))
      else (0, p))"

datatype checked = Help | Exit_all | Bad_line | Job_line

definition strncmp4 :: "string \<Rightarrow> string \<Rightarrow> bool" where
  "strncmp4 s t \<longleftrightarrow> take 4 s = t"

text \<open>\<^verbatim>\<open>input\<close> without its newline, and what the function does with it. Only the first character is
  checked.\<close>

definition check_input :: "string \<Rightarrow> checked \<times> string" where
  "check_input input =
     (let n = length input;
          input = (if 0 < n \<and> last input = CHR 0x0A then butlast input else input)
      in if n \<le> 5 \<and> strncmp4 input ''help'' then (Help, input)
         else if n \<le> 5 \<and> strncmp4 input ''exit'' then (Exit_all, input)
         else case input of [] \<Rightarrow> (Bad_line, input)
           | c # cs \<Rightarrow> if \<not> digit c then (Bad_line, input) else (Job_line, input))"

section \<open>The parent\<close>

text \<open>One \<^verbatim>\<open>write\<close> for every entry of the table that has the pid; \<open>wok\<close> says whether it succeeds.\<close>

fun write_job :: "bool \<Rightarrow> job \<Rightarrow> nat list \<Rightarrow> pool \<Rightarrow> pool" where
  "write_job wok v [] s = s"
| "write_job wok v (i # is) s =
     write_job wok v is
       (if send_to s = pid_array s ! i \<and> wok
        then s\<lparr>in_pipe := (in_pipe s)(i := in_pipe s i @ [v])\<rparr> else s)"

fun log_job :: "int \<Rightarrow> bool \<Rightarrow> job \<Rightarrow> nat list \<Rightarrow> pool \<Rightarrow> pool" where
  "log_job k wok v [] s = s"
| "log_job k wok v (i # is) s =
     log_job k wok v is (if send_to s = pid_array s ! i \<and> wok then s\<lparr>sent := sent s @ [(k, i, v)]\<rparr> else s)"

definition choose_child :: "int \<Rightarrow> pool \<Rightarrow> pool option" where
  "choose_child rand s =
     (let digits = length (pid_array s)
      in if digits = 0 then None
         else
           let s = (if prompt s = ''--random'' then s\<lparr>send_to := pid_array s ! nat (rand mod int digits)\<rparr> else s)
           in Some (if prompt s = ''--round-robin''
             then s\<lparr>send_to := pid_array s ! nat (iterator s mod int digits), iterator := iterator s + 1\<rparr>
             else s))"

definition send_job :: "int \<Rightarrow> bool \<Rightarrow> string \<Rightarrow> pool \<Rightarrow> pool option" where
  "send_job rand wok input s = do {
     s' \<leftarrow> choose_child rand s;
     let v = of_int (atoi input);
     let all = [0..<length (pid_array s)];
     Some (log_job (iterator s) wok v all (write_job wok v all s')) }"

text \<open>A ready pipe gives one number.\<close>

fun collect_results :: "nat list \<Rightarrow> pool \<Rightarrow> pool" where
  "collect_results [] s = s"
| "collect_results (i # is) s =
     (case out_pipe s i of
        [] \<Rightarrow> collect_results is s
      | v # vs \<Rightarrow> collect_results is (s\<lparr>out_pipe := (out_pipe s)(i := vs), printed := printed s @ [(i, v)]\<rparr>))"

datatype turn = Running pool | Ended pool

text \<open>A round of the loop: \<open>line\<close> is what standard input gives, if it is ready, and \<open>ready\<close> the
  children whose pipes are. A line without a job starts the next round at once.\<close>

definition parent_round :: "int \<Rightarrow> bool \<Rightarrow> string option \<Rightarrow> (nat \<Rightarrow> bool) \<Rightarrow> pool \<Rightarrow> turn option" where
  "parent_round rand wok line ready s =
     (let outs = filter ready [0..<length (pid_array s)]
      in case line of
           None \<Rightarrow> Some (Running (collect_results outs s))
         | Some input \<Rightarrow>
             if 1024 \<le> length input then None
             else case check_input input of
               (Help, _) \<Rightarrow> Some (Running s)
             | (Bad_line, _) \<Rightarrow> Some (Running s)
             | (Exit_all, _) \<Rightarrow> Some (Ended s)
             | (Job_line, input) \<Rightarrow> do {
                 s \<leftarrow> send_job rand wok input s;
                 Some (Running (collect_results outs s)) })"

text \<open>Starting: the forks give \<open>pids\<close>.\<close>

definition start_pool :: "string list \<Rightarrow> int list \<Rightarrow> pool option" where
  "start_pool argv pids =
     (case check_argument_errors argv ''--round-robin'' of (r, p) \<Rightarrow>
        if r = 1 \<or> int (length pids) \<noteq> atoi (argv ! 1) \<or> 50 < length pids then None
        else Some \<lparr>prompt = p, pid_array = pids, send_to = 0, iterator = 0, in_pipe = (\<lambda>_. []),
          out_pipe = (\<lambda>_. []), children = (\<lambda>_. Reading), printed = [], sent = []\<rparr>)"

section \<open>Parent and children\<close>

inductive pstep :: "pool \<Rightarrow> pool \<Rightarrow> bool" where
  parent: "parent_round rand wok line ready s = Some (Running s') \<Longrightarrow> pstep s s'"
| child_read: "i < length (pid_array s) \<Longrightarrow> children s i = Reading \<Longrightarrow> in_pipe s i = v # vs \<Longrightarrow>
    pstep s (s\<lparr>in_pipe := (in_pipe s)(i := vs), children := (children s)(i := Working (v + 1))\<rparr>)"
| child_write: "i < length (pid_array s) \<Longrightarrow> children s i = Working v \<Longrightarrow>
    pstep s (s\<lparr>out_pipe := (out_pipe s)(i := out_pipe s i @ [v]), children := (children s)(i := Reading)\<rparr>)"

inductive preach :: "pool \<Rightarrow> pool \<Rightarrow> bool" for s0 :: pool where
  start: "preach s0 s0"
| more: "preach s0 s \<Longrightarrow> pstep s s' \<Longrightarrow> preach s0 s'"

section \<open>No job is lost\<close>

definition results :: "pool \<Rightarrow> nat \<Rightarrow> job list" where
  "results s i = map snd (filter (\<lambda>r. fst r = i) (printed s))"

definition jobs :: "pool \<Rightarrow> nat \<Rightarrow> job list" where
  "jobs s i = map (\<lambda>r. snd (snd r)) (filter (\<lambda>r. fst (snd r) = i) (sent s))"

fun in_work :: "child \<Rightarrow> job list" where
  "in_work Reading = []" | "in_work (Working v) = [v]"

text \<open>What child \<open>i\<close> has given back, is working on and has still to do, in order.\<close>

definition flow :: "pool \<Rightarrow> nat \<Rightarrow> job list" where
  "flow s i = results s i @ out_pipe s i @ in_work (children s i) @ map (\<lambda>v. v + 1) (in_pipe s i)"

definition conserved :: "pool \<Rightarrow> bool" where
  "conserved s \<longleftrightarrow> (\<forall>i. flow s i = map (\<lambda>v. v + 1) (jobs s i))"

definition in_turn :: "pool \<Rightarrow> bool" where
  "in_turn s \<longleftrightarrow> (prompt s = ''--round-robin'' \<longrightarrow>
     0 \<le> iterator s \<and> sorted_wrt (<) (map fst (sent s)) \<and> (\<forall>(k, i, v) \<in> set (sent s). 0 \<le> k \<and> k < iterator s \<and> i = nat (k mod int (length (pid_array s)))))"

lemma write_job_result:
  "\<exists>f. write_job wok v is s = s\<lparr>in_pipe := f\<rparr> \<and>
    (distinct is \<longrightarrow> (\<forall>i. f i = in_pipe s i @ (if wok \<and> i \<in> set is \<and> send_to s = pid_array s ! i then [v] else [])))"
proof (induction "is" arbitrary: s)
  case (Cons i "is")
  let ?s = "if send_to s = pid_array s ! i \<and> wok then s\<lparr>in_pipe := (in_pipe s)(i := in_pipe s i @ [v])\<rparr> else s"
  obtain f where f: "write_job wok v is ?s = ?s\<lparr>in_pipe := f\<rparr>"
    "distinct is \<longrightarrow> (\<forall>i. f i = in_pipe ?s i @ (if wok \<and> i \<in> set is \<and> send_to ?s = pid_array ?s ! i then [v] else []))"
    using Cons.IH [of ?s] by blast
  have "write_job wok v (i # is) s = write_job wok v is ?s" by simp
  also have "... = s\<lparr>in_pipe := f\<rparr>" unfolding f(1) by simp
  finally have "write_job wok v (i # is) s = s\<lparr>in_pipe := f\<rparr>" .
  moreover have "distinct (i # is) \<longrightarrow> (\<forall>j. f j = in_pipe s j @
      (if wok \<and> j \<in> set (i # is) \<and> send_to s = pid_array s ! j then [v] else []))"
    using f(2) by auto
  ultimately show ?case by blast
next
  case Nil
  show ?case by (intro exI [of _ "in_pipe s"]) simp
qed

lemma log_job_result:
  "log_job k wok v is s = s\<lparr>sent := sent s @
    (if wok then map (\<lambda>i. (k, i, v)) (filter (\<lambda>i. send_to s = pid_array s ! i) is) else [])\<rparr>"
  by (induction "is" arbitrary: s) auto

lemma collect_results_result:
  "\<exists>o' p'. collect_results is s = s\<lparr>out_pipe := o', printed := p'\<rparr> \<and>
    (\<forall>i. map snd (filter (\<lambda>r. fst r = i) p') @ o' i = results s i @ out_pipe s i)"
proof (induction "is" arbitrary: s)
  case Nil
  show ?case by (intro exI [of _ "out_pipe s"] exI [of _ "printed s"]) (simp add: results_def)
next
  case (Cons i "is")
  show ?case
  proof (cases "out_pipe s i")
    case Nil
    with Cons.IH [of s] show ?thesis by simp
  next
    case (Cons v vs)
    let ?s = "s\<lparr>out_pipe := (out_pipe s)(i := vs), printed := printed s @ [(i, v)]\<rparr>"
    obtain o' p' where c: "collect_results is ?s = ?s\<lparr>out_pipe := o', printed := p'\<rparr>"
      "\<forall>j. map snd (filter (\<lambda>r. fst r = j) p') @ o' j = results ?s j @ out_pipe ?s j"
      using Cons.IH [of ?s] by blast
    have "results ?s j @ out_pipe ?s j = results s j @ out_pipe s j" for j
      using Cons by (simp add: results_def)
    with c Cons show ?thesis by auto
  qed
qed

lemma distinct_owner:
  assumes d: "distinct ps" and k: "k < length ps"
  shows "filter (\<lambda>i. ps ! k = ps ! i) [0..<length ps] = [k]"
proof -
  have f: "filter (\<lambda>i. ps ! k = ps ! i) [0..<length ps] = filter (\<lambda>i. i = k) [0..<length ps]"
    using d k by (intro filter_cong) (auto simp: nth_eq_iff_index_eq)
  have "[0..<length ps] = [0..<k] @ [k..<length ps]" using k upt_add_eq_append [of 0 k "length ps - k"] by simp
  also have "... = [0..<k] @ k # [Suc k..<length ps]" using k by (simp add: upt_conv_Cons)
  finally have u: "[0..<length ps] = [0..<k] @ k # [Suc k..<length ps]" .
  show ?thesis unfolding f unfolding u by simp
qed

text \<open>A job goes to one child, by its turn or by the random number.\<close>

lemma send_job_result:
  assumes "distinct (pid_array s)" "pid_array s \<noteq> []" "prompt s = ''--round-robin'' \<or> prompt s = ''--random''"
  shows "\<exists>k s1. send_job rand wok input s = Some s1 \<and> k < length (pid_array s) \<and>
    (prompt s = ''--round-robin'' \<longrightarrow> k = nat (iterator s mod int (length (pid_array s))) \<and> iterator s1 = iterator s + 1) \<and>
    pid_array s1 = pid_array s \<and> prompt s1 = prompt s \<and> out_pipe s1 = out_pipe s \<and> printed s1 = printed s \<and>
    children s1 = children s \<and>
    sent s1 = sent s @ (if wok then [(iterator s, k, of_int (atoi input))] else []) \<and>
    in_pipe s1 = (in_pipe s)(k := in_pipe s k @ (if wok then [of_int (atoi input)] else []))"
proof -
  let ?n = "length (pid_array s)" and ?v = "of_int (atoi input) :: job"
  define x where "x = (if prompt s = ''--round-robin'' then iterator s else rand)"
  define k where "k = nat (x mod int ?n)"
  have k: "k < ?n" using assms(2) by (simp add: k_def nat_less_iff)
  define s2 where "s2 = s\<lparr>send_to := pid_array s ! k, iterator := iterator s + (if prompt s = ''--round-robin'' then 1 else 0)\<rparr>"
  have s2: "pid_array s2 = pid_array s" "send_to s2 = pid_array s ! k" "sent s2 = sent s" "in_pipe s2 = in_pipe s"
    by (simp_all add: s2_def)
  have c: "choose_child rand s = Some s2"
    using assms(2,3) by (auto simp: choose_child_def Let_def s2_def k_def x_def)
  obtain f where f: "write_job wok ?v [0..<?n] s2 = s2\<lparr>in_pipe := f\<rparr>"
    "\<forall>i. f i = in_pipe s2 i @ (if wok \<and> i \<in> set [0..<?n] \<and> send_to s2 = pid_array s2 ! i then [?v] else [])"
    using write_job_result [of wok ?v "[0..<?n]" s2] by auto
  have "\<And>i. i < ?n \<Longrightarrow> pid_array s ! k = pid_array s ! i \<longleftrightarrow> i = k"
    using assms(1) k by (auto simp: nth_eq_iff_index_eq)
  then have fk: "f = (in_pipe s)(k := in_pipe s k @ (if wok then [?v] else []))"
    using f(2) k by (auto simp: s2 fun_eq_iff)
  have "send_job rand wok input s = Some (s2\<lparr>in_pipe := f, sent := sent s @ (if wok then [(iterator s, k, ?v)] else [])\<rparr>)"
    using distinct_owner [OF assms(1) k]
    unfolding send_job_def c bind.bind_lunit Let_def log_job_result f(1) by (simp add: s2)
  then show ?thesis using k fk by (intro exI [of _ k]) (auto simp: s2_def k_def x_def)
qed

definition pool_ok :: "pool \<Rightarrow> bool" where
  "pool_ok s \<longleftrightarrow> distinct (pid_array s) \<and> pid_array s \<noteq> [] \<and>
     (prompt s = ''--round-robin'' \<or> prompt s = ''--random'') \<and> conserved s \<and> in_turn s"

lemma collect_results_ok:
  assumes "pool_ok s"
  shows "pool_ok (collect_results is s)"
proof -
  obtain o' p' where c: "collect_results is s = s\<lparr>out_pipe := o', printed := p'\<rparr>"
    "\<forall>i. map snd (filter (\<lambda>r. fst r = i) p') @ o' i = results s i @ out_pipe s i"
    using collect_results_result by blast
  have "flow (collect_results is s) i = flow s i" for i
    using c(2) unfolding c(1) flow_def by (simp add: results_def)
  moreover have "jobs (collect_results is s) i = jobs s i" for i by (simp add: c(1) jobs_def)
  ultimately show ?thesis using assms by (simp add: pool_ok_def conserved_def) (simp add: c(1) in_turn_def)
qed

lemma send_job_ok:
  assumes "pool_ok s" "send_job rand wok input s = Some s1"
  shows "pool_ok s1"
proof -
  have o: "distinct (pid_array s)" "pid_array s \<noteq> []" "prompt s = ''--round-robin'' \<or> prompt s = ''--random''"
    "conserved s" "in_turn s" using assms(1) by (simp_all add: pool_ok_def)
  let ?v = "of_int (atoi input) :: job"
  obtain k where k: "k < length (pid_array s)"
    "prompt s = ''--round-robin'' \<longrightarrow> k = nat (iterator s mod int (length (pid_array s))) \<and> iterator s1 = iterator s + 1"
    "pid_array s1 = pid_array s" "prompt s1 = prompt s" "out_pipe s1 = out_pipe s" "printed s1 = printed s"
    "children s1 = children s" "sent s1 = sent s @ (if wok then [(iterator s, k, ?v)] else [])"
    "in_pipe s1 = (in_pipe s)(k := in_pipe s k @ (if wok then [?v] else []))"
    using send_job_result [OF o(1-3), of rand wok input] assms(2) by auto
  have "flow s1 i = map (\<lambda>v. v + 1) (jobs s1 i)" for i
    using o(4) k(5-9) by (simp add: conserved_def flow_def results_def jobs_def)
  moreover have "in_turn s1"
    using o(5) k(2-4,8) by (auto simp: in_turn_def sorted_wrt_append split: if_splits)
  ultimately show ?thesis using o k(3,4) by (simp add: pool_ok_def conserved_def)
qed

lemma round_ok:
  assumes "pool_ok s" "parent_round rand wok line ready s = Some (Running s')"
  shows "pool_ok s'"
  using assms send_job_ok collect_results_ok
  by (auto simp: parent_round_def Let_def bind_Some_iff split: option.splits if_splits prod.splits checked.splits)

lemma pstep_ok: "pstep s s' \<Longrightarrow> pool_ok s \<Longrightarrow> pool_ok s'"
proof (induction rule: pstep.induct)
  case (parent rand wok line ready s s')
  then show ?case by (rule round_ok [rotated])
next
  case (child_read i s v vs)
  let ?s = "s\<lparr>in_pipe := (in_pipe s)(i := vs), children := (children s)(i := Working (v + 1))\<rparr>"
  have "flow ?s j = flow s j" "jobs ?s j = jobs s j" for j
    using child_read(2,3) by (auto simp: flow_def results_def jobs_def)
  with child_read(4) show ?case by (simp add: pool_ok_def conserved_def in_turn_def)
next
  case (child_write i s v)
  let ?s = "s\<lparr>out_pipe := (out_pipe s)(i := out_pipe s i @ [v]), children := (children s)(i := Reading)\<rparr>"
  have "flow ?s j = flow s j" "jobs ?s j = jobs s j" for j
    using child_write(2) by (auto simp: flow_def results_def jobs_def)
  with child_write(3) show ?case by (simp add: pool_ok_def conserved_def in_turn_def)
qed

lemma preach_ok: "preach s0 s \<Longrightarrow> pool_ok s0 \<Longrightarrow> pool_ok s"
  by (induction rule: preach.induct) (auto intro: pstep_ok)

end
