(* ===== verification/Dispatcher_Thms.thy ===== *)
theory Dispatcher_Thms
  imports Dispatcher
begin

text \<open>
  The dispatcher as a whole: from the start no job is lost, repeated or reordered on its way
  through a child, and the children take turns.
\<close>

lemma start_pool_ok:
  assumes "start_pool argv pids = Some s" "pids \<noteq> []" "distinct pids"
  shows "pool_ok s" "pid_array s = pids"
proof -
  have p: "fst (check_argument_errors argv ''--round-robin'') \<noteq> 1"
    "s = \<lparr>prompt = snd (check_argument_errors argv ''--round-robin''), pid_array = pids, send_to = 0, iterator = 0,
      in_pipe = (\<lambda>_. []), out_pipe = (\<lambda>_. []), children = (\<lambda>_. Reading), printed = [], sent = []\<rparr>"
    using assms(1) by (auto simp: start_pool_def split: prod.splits if_splits)
  have "prompt s = ''--round-robin'' \<or> prompt s = ''--random''"
    using p(1) by (simp add: p(2)) (simp add: check_argument_errors_def split: if_splits)
  moreover have "conserved s" "in_turn s"
    by (simp_all add: p(2) conserved_def in_turn_def flow_def results_def jobs_def)
  ultimately show "pool_ok s" using assms(2,3) p(2) by (simp add: pool_ok_def)
  show "pid_array s = pids" by (simp add: p(2))
qed

lemma pstep_table:
  assumes "pstep s s'" "pool_ok s"
  shows "pid_array s' = pid_array s"
  using assms
proof (induction rule: pstep.induct)
  case (parent rand wok line ready s s')
  have "pid_array (collect_results is t) = pid_array t" for "is" t using collect_results_result [of "is" t] by auto
  moreover have "pid_array t = pid_array s" if "send_job rand wok input s = Some t" for input t
    using send_job_result [of s rand wok input] parent(2) that by (auto simp: pool_ok_def)
  ultimately show ?case
    using parent(1)
    by (auto simp: parent_round_def Let_def bind_Some_iff split: option.splits if_splits prod.splits checked.splits)
qed simp_all

lemma preach_table: "preach s0 s \<Longrightarrow> pool_ok s0 \<Longrightarrow> pid_array s = pid_array s0"
  by (induction rule: preach.induct) (auto simp: pstep_table preach_ok)

text \<open>
  C38. In every state the dispatcher reaches, what child i has given back, what is in its pipes and
  what it works on are together the jobs that were written to it, each plus one, in the order in
  which they were written. In the round-robin mode the jobs go to the children in turn.
\<close>

theorem dispatcher_conserves:
  assumes "start_pool argv pids = Some s0" "pids \<noteq> []" "distinct pids" "preach s0 s"
  shows "(\<forall>i. results s i @ out_pipe s i @ in_work (children s i) @ map (\<lambda>v. v + 1) (in_pipe s i) =
      map (\<lambda>v. v + 1) (jobs s i)) \<and>
    (prompt s = ''--round-robin'' \<longrightarrow> sorted_wrt (<) (map fst (sent s)) \<and>
      (\<forall>(k, i, v) \<in> set (sent s). i = nat (k mod int (length pids))))"
proof -
  have ok: "pool_ok s" by (rule preach_ok [OF assms(4) start_pool_ok(1) [OF assms(1-3)]])
  have t: "pid_array s = pids"
    using preach_table [OF assms(4) start_pool_ok(1) [OF assms(1-3)]] start_pool_ok(2) [OF assms(1-3)] by simp
  show ?thesis
    using ok by (auto simp: pool_ok_def conserved_def flow_def in_turn_def t)
qed

theorem dispatcher_conserves_witness:
  "\<exists>s0 s. start_pool [''ask3'', ''2''] [100, 101] = Some s0 \<and> preach s0 s \<and> jobs s 0 = [41] \<and>
    results s 0 @ out_pipe s 0 @ in_work (children s 0) @ map (\<lambda>v. v + 1) (in_pipe s 0) = [42]"
proof -
  have a: "check_argument_errors [''ask3'', ''2''] p = (0, p)" "atoi ''2'' = 2" for p
    by (simp add: check_argument_errors_def digit_def) code_simp
  obtain s0 where s0: "start_pool [''ask3'', ''2''] [100, 101] = Some s0" "prompt s0 = ''--round-robin''"
    "pid_array s0 = [100, 101]" "iterator s0 = 0" "sent s0 = []"
    by (simp add: start_pool_def a)
  have ci: "check_input (''41'' @ [CHR 0x0A]) = (Job_line, ''41'')" "atoi ''41'' = 41"
    by (simp add: check_input_def strncmp4_def digit_def) code_simp
  obtain s1 where s1: "send_job 0 True ''41'' s0 = Some s1" "sent s1 = [(0, 0, 41)]"
    using send_job_result [of s0 0 True "''41''"] s0 ci(2) by auto
  let ?s = "collect_results [] s1"
  have "parent_round 0 True (Some (''41'' @ [CHR 0x0A])) (\<lambda>_. False) s0 = Some (Running ?s)"
    using s1(1) ci(1) by (simp add: parent_round_def)
  then have r: "preach s0 ?s" by (intro more [OF start] parent)
  have j: "jobs ?s 0 = [41]" using s1(2) by (simp add: jobs_def)
  have "results ?s 0 @ out_pipe ?s 0 @ in_work (children ?s 0) @ map (\<lambda>v. v + 1) (in_pipe ?s 0) =
      map (\<lambda>v. v + 1) (jobs ?s 0)"
    using dispatcher_conserves [OF s0(1) _ _ r] by simp
  with s0(1) r j show ?thesis by auto
qed

end
