(* ===== verification/Tcp_Client.thy ===== *)
theory Tcp_Client
  imports Decimal "HOL-Library.Signed_Division"
begin

text \<open>
  The client of project 4 (\<^verbatim>\<open>projects/project4/tcp_client.c\<close>): its options, and the rounds of its
  loop, which sends the lines that are typed and prints what the server answers. A C string is a
  list of characters without NUL, a buffer a list of its bytes. What a buffer holds before it is
  filled, what the system calls return and what \<^verbatim>\<open>localtime\<close> and \<^verbatim>\<open>asctime\<close> write are parameters.
  \<open>None\<close> is an access outside a buffer, the use of an element that is not set, or a loop that
  does not end.
\<close>

abbreviation (input) NUL :: char where "NUL \<equiv> CHR 0x00"
abbreviation (input) NL :: char where "NL \<equiv> CHR 0x0A"

section \<open>Options\<close>

record config =
  HOST :: string
  PORT :: int
  DEBUG :: bool

definition default_config :: config where
  "default_config = \<lparr>HOST = ''iot.dslab.pub.ds.open-cloud.xyz'', PORT = 18080, DEBUG = False\<rparr>"

text \<open>What the loops over the arguments change: the configuration, \<^verbatim>\<open>count\<close> and \<^verbatim>\<open>arg_flag\<close>.\<close>

type_synonym opts = "config \<times> nat \<times> bool"

text \<open>\<^verbatim>\<open>strncmp\<close> with 6 characters.\<close>

definition starts6 :: "string \<Rightarrow> string \<Rightarrow> bool" where
  "starts6 s t \<longleftrightarrow> take 6 s = take 6 t"

text \<open>An option with a value, at index \<open>i\<close>; \<open>strict\<close> where a missing value ends the program and \<open>once\<close>
  where \<^verbatim>\<open>arg_flag\<close> allows one such option. \<^verbatim>\<open>Inl\<close> is the exit status.\<close>

definition take_value ::
  "bool \<Rightarrow> bool \<Rightarrow> string \<Rightarrow> (string \<Rightarrow> config \<Rightarrow> config) \<Rightarrow> string list \<Rightarrow> nat \<Rightarrow> opts \<Rightarrow> int + opts" where
  "take_value strict once other set_value argv i st =
     (case st of (cfg, count, arg_flag) \<Rightarrow>
        if i + 1 < length argv then
          (if \<not> starts6 (argv ! (i + 1)) other \<and> \<not> starts6 (argv ! (i + 1)) ''--debug'' then
             (if once \<and> arg_flag then Inl 1
              else Inr (set_value (argv ! (i + 1)) cfg, count + 1, arg_flag \<or> once))
           else if strict then Inl 1 else Inr st)
        else if strict then Inl 1 else Inr st)"

text \<open>The body of a loop; \<open>debug\<close> where it knows \<^verbatim>\<open>--debug\<close>.\<close>

definition scan_arg :: "bool \<Rightarrow> bool \<Rightarrow> bool \<Rightarrow> string list \<Rightarrow> nat \<Rightarrow> opts \<Rightarrow> int + opts" where
  "scan_arg strict once debug argv i st =
     (case (if argv ! i = ''--host'' then take_value strict once ''--port'' (\<lambda>v cfg. cfg\<lparr>HOST := v\<rparr>) argv i st else Inr st) of
        Inl e \<Rightarrow> Inl e
      | Inr st \<Rightarrow>
          (case (if argv ! i = ''--port'' then take_value strict once ''--host'' (\<lambda>v cfg. cfg\<lparr>PORT := atoi v\<rparr>) argv i st else Inr st) of
             Inl e \<Rightarrow> Inl e
           | Inr st \<Rightarrow>
               (if debug \<and> argv ! i = ''--debug''
                then Inr (case st of (cfg, count, f) \<Rightarrow> (cfg\<lparr>DEBUG := True\<rparr>, count + 1, f)) else Inr st)))"

fun scan_args :: "bool \<Rightarrow> bool \<Rightarrow> bool \<Rightarrow> string list \<Rightarrow> nat list \<Rightarrow> opts \<Rightarrow> int + opts" where
  "scan_args strict once debug argv [] st = Inr st"
| "scan_args strict once debug argv (i # is) st =
     (case scan_arg strict once debug argv i st of
        Inl e \<Rightarrow> Inl e | Inr st \<Rightarrow> scan_args strict once debug argv is st)"

definition counted :: "bool \<Rightarrow> bool \<Rightarrow> bool \<Rightarrow> nat \<Rightarrow> string list \<Rightarrow> int + config" where
  "counted strict once debug wanted argv =
     (case scan_args strict once debug argv [0..<length argv] (default_config, 0, False) of
        Inl e \<Rightarrow> Inl e
      | Inr (cfg, count, _) \<Rightarrow> if count \<noteq> wanted then Inl 1 else Inr cfg)"

definition parse_args :: "string list \<Rightarrow> int + config" where
  "parse_args argv =
     (let argc = length argv
      in if 6 < argc then Inl 1
         else if argc = 6 then counted True False True 3 argv
         else if argc = 5 then counted True False False 2 argv
         else if argc = 4 then counted False True True 2 argv
         else if argc = 3 then counted True True False 1 argv
         else if argc = 2 then
           (if argv ! 1 \<noteq> ''--debug'' then Inl 1 else Inr (default_config\<lparr>DEBUG := True\<rparr>))
         else Inr default_config)"

section \<open>Strings\<close>

definition cstr :: "string \<Rightarrow> string" where
  "cstr buf = takeWhile (\<lambda>c. c \<noteq> NUL) buf"

fun strstr :: "string \<Rightarrow> string \<Rightarrow> nat option" where
  "strstr s sub =
     (if take (length sub) s = sub then Some 0
      else case s of [] \<Rightarrow> None | _ # cs \<Rightarrow> map_option Suc (strstr cs sub))"

declare strstr.simps [simp del]

lemma strstr_fits: "strstr s sub = Some i \<Longrightarrow> i + length sub \<le> length s"
proof (induction s arbitrary: i)
  case Nil
  then show ?case by (simp add: strstr.simps [of "[]"] split: if_splits)
next
  case (Cons c s)
  show ?case
  proof (cases "take (length sub) (c # s) = sub")
    case True
    then have "i = 0" using Cons.prems by (simp add: strstr.simps [of "c # s"])
    moreover have "length sub \<le> length (c # s)" using arg_cong [OF True, of length] by simp
    ultimately show ?thesis by simp
  next
    case False
    then obtain j where "strstr s sub = Some j" "i = Suc j"
      using Cons.prems by (auto simp: strstr.simps [of "c # s"])
    then show ?thesis using Cons.IH [of j] by simp
  qed
qed

text \<open>The loop goes on where the occurrence was; an empty \<^verbatim>\<open>sub\<close> is found for ever.\<close>

function removeSubstring :: "string \<Rightarrow> string \<Rightarrow> string option" where
  "removeSubstring s sub =
     (if sub = [] then None
      else case strstr s sub of
        None \<Rightarrow> Some s
      | Some i \<Rightarrow> map_option ((@) (take i s)) (removeSubstring (drop (i + length sub) s) sub))"
  by pat_completeness auto

termination
proof (relation "measure (length \<circ> fst)")
  fix s sub :: string and i
  assume "sub \<noteq> []" "strstr s sub = Some i"
  then have "i + length sub \<le> length s" "0 < length sub" using strstr_fits by blast+
  then have "length s - (i + length sub) < length s" by linarith
  then show "((drop (i + length sub) s, sub), (s, sub)) \<in> measure (length \<circ> fst)" by simp
qed simp

declare removeSubstring.simps [simp del]

text \<open>What \<^verbatim>\<open>strtok\<close> finds between blanks.\<close>

function strtok_all :: "string \<Rightarrow> string list" where
  "strtok_all s =
     (case dropWhile (\<lambda>c. c = CHR '' '') s of
        [] \<Rightarrow> []
      | c # cs \<Rightarrow> (c # takeWhile (\<lambda>c. c \<noteq> CHR '' '') cs) # strtok_all (dropWhile (\<lambda>c. c \<noteq> CHR '' '') cs))"
  by pat_completeness auto

termination
proof (relation "measure length")
  fix s cs :: string and c
  assume "dropWhile (\<lambda>c. c = CHR '' '') s = c # cs"
  then have "length cs < length s" using length_dropWhile_le [of "\<lambda>c. c = CHR '' ''" s] by simp
  then show "(dropWhile (\<lambda>c. c \<noteq> CHR '' '') cs, s) \<in> measure length"
    using length_dropWhile_le [of "\<lambda>c. c \<noteq> CHR '' ''" cs] by simp
qed simp

declare strtok_all.simps [simp del]

section \<open>The loop\<close>

record session =
  cfg :: config
  flag :: int
  sent :: "string list"
  out :: string

datatype round = Go session | Exit int session

definition print :: "string \<Rightarrow> session \<Rightarrow> session" where
  "print t s = s\<lparr>out := out s @ t\<rparr>"

definition debug :: "string \<Rightarrow> string \<Rightarrow> session \<Rightarrow> session" where
  "debug t v s = (if DEBUG (cfg s) then print (''[DEBUG] '' @ t @ '' '' @ v @ [NL]) s else s)"

text \<open>\<^verbatim>\<open>write\<close> of the whole buffer.\<close>

definition send_line :: "bool \<Rightarrow> int \<Rightarrow> string \<Rightarrow> session \<Rightarrow> round" where
  "send_line wok f buffer s =
     (if \<not> wok then Exit 1 s else Go (s\<lparr>sent := sent s @ [buffer], flag := f\<rparr>))"

definition help_text :: string where
  "help_text = ''Available commands:'' @ [NL] @ CHR 0x27 # ''help'' @ CHR 0x27 # '', print this help message'' @ [NL] @
     CHR 0x27 # ''exit'' @ CHR 0x27 # '', exit'' @ [NL] @ CHR 0x27 # ''get'' @ CHR 0x27 # '', retrieve sensor data'' @ [NL] @
     CHR 0x27 # ''N name surname reason'' @ CHR 0x27 # '', ask permission to go out'' @ [NL]"

text \<open>Standard input is ready; \<open>junk\<close> is what the 101 bytes of \<^verbatim>\<open>buffer\<close> hold.\<close>

definition typed :: "bool \<Rightarrow> string \<Rightarrow> string \<Rightarrow> session \<Rightarrow> round" where
  "typed wok junk line s =
     (let n = length line;
          buffer = line @ [NUL] @ drop (n + 1) junk;
          buffer = (if 0 < n \<and> buffer ! (n - 1) = NL then buffer[n - 1 := NUL] else buffer);
          s = debug ''sent'' (cstr buffer) s
      in if 4 \<le> n \<and> take 4 buffer = ''exit'' then Exit 0 s
         else if 4 \<le> n \<and> take 4 buffer = ''help'' then Go (print help_text s)
         else if 3 \<le> n \<and> take 3 buffer = ''get'' then send_line wok 1 buffer s
         else send_line wok 2 buffer s)"

text \<open>The event that the numbers describe. \<open>tm\<close> is the text of a time.\<close>

definition event_text :: "(int \<Rightarrow> string) \<Rightarrow> int list \<Rightarrow> string" where
  "event_text tm vs =
     ''------------'' @ [NL] @ ''Latest event:'' @ [NL] @
     ''interval ('' @ int_text (vs ! 0) @ '')'' @ [NL] @
     ''Temperature is: '' @ int_text (vs ! 2 sdiv 100) @ ''.'' @ int_text (vs ! 2 smod 100) @ [NL] @
     ''Light level is: '' @ int_text (vs ! 1) @ [NL] @
     ''Timestamp is: '' @ tm (atoi (int_text (vs ! 3))) @ [NL]"

text \<open>The socket is ready; \<open>junk\<close> is what the 256 bytes of \<^verbatim>\<open>server_response\<close> hold.\<close>

definition answered :: "(int \<Rightarrow> string) \<Rightarrow> string \<Rightarrow> string \<Rightarrow> session \<Rightarrow> session option" where
  "answered tm junk answer s =
     (let m_read = length answer;
          server_response = answer @ drop m_read junk
      in if take 9 server_response = ''try again''
         then Some (debug ''read'' (cstr (server_response[10 := NUL])) s)
         else if flag s = 1 then
           (let line = cstr (server_response[22 := NUL]);
                s = debug ''read'' line s;
                values = map atoi (take 4 (strtok_all line))
            in if length values < 4 then None else Some (print (event_text tm values) s))
         else if flag s = 2 then
           (if NUL \<notin> set server_response then None
            else do {
              r \<leftarrow> removeSubstring (cstr server_response) ''invalid code'';
              if m_read < 256 then
                (let t = take m_read r in Some (print (t @ [NL]) (debug ''read'' t s)))
              else None })
         else Some s)"

text \<open>What \<^verbatim>\<open>select\<close> finds; \<open>None\<close> is a read that fails. Standard input comes first.\<close>

datatype event = Select_failed | Stdin "string option" | Socket "string option"

definition client_round ::
  "(int \<Rightarrow> string) \<Rightarrow> bool \<Rightarrow> string \<Rightarrow> string \<Rightarrow> event \<Rightarrow> session \<Rightarrow> round option" where
  "client_round tm wok junk_in junk_sock ev s =
     (case ev of
        Select_failed \<Rightarrow> Some (Exit 1 s)
      | Stdin None \<Rightarrow> Some (Exit 1 s)
      | Stdin (Some line) \<Rightarrow> Some (typed wok junk_in line s)
      | Socket None \<Rightarrow> Some (Exit 1 s)
      | Socket (Some answer) \<Rightarrow> map_option Go (answered tm junk_sock answer s))"

end
