(* ===== verification/Tcp_Client_Thms.thy ===== *)
theory Tcp_Client_Thms
  imports Tcp_Client
begin

text \<open>
  The client as a whole: the command lines it takes, the measurement it prints for an answer of the
  server, and what is left of an answer with error codes.
\<close>

section \<open>Command lines\<close>

datatype choice = Host string | Port string | Debug

fun kind :: "choice \<Rightarrow> nat" where
  "kind (Host _) = 0" | "kind (Port _) = 1" | "kind Debug = 2"

fun words :: "choice \<Rightarrow> string list" where
  "words (Host h) = [''--host'', h]" | "words (Port p) = [''--port'', p]" | "words Debug = [''--debug'']"

fun chosen :: "choice \<Rightarrow> config \<Rightarrow> config" where
  "chosen (Host h) c = c\<lparr>HOST := h\<rparr>" | "chosen (Port p) c = c\<lparr>PORT := atoi p\<rparr>" | "chosen Debug c = c\<lparr>DEBUG := True\<rparr>"

text \<open>A value that does not look like an option.\<close>

definition plain :: "string \<Rightarrow> bool" where
  "plain v \<longleftrightarrow> v \<notin> {''--host'', ''--port'', ''--debug''} \<and> take 6 v \<notin> {''--host'', ''--port'', ''--debu''}"

fun choice_plain :: "choice \<Rightarrow> bool" where
  "choice_plain (Host h) = plain h" | "choice_plain (Port p) = plain p" | "choice_plain Debug = True"

lemma plain_simps:
  assumes "plain v"
  shows "v \<noteq> ''--host''" "v \<noteq> ''--port''" "v \<noteq> ''--debug''"
    "\<not> starts6 v ''--host''" "\<not> starts6 v ''--port''" "\<not> starts6 v ''--debug''"
  using assms by (simp_all add: plain_def starts6_def)

lemma starts6_options:
  "starts6 ''--debug'' ''--debug''" "starts6 ''--host'' ''--host''" "starts6 ''--port'' ''--port''"
  "\<not> starts6 ''--debug'' ''--host''" "\<not> starts6 ''--debug'' ''--port''" "\<not> starts6 ''--host'' ''--port''"
  "\<not> starts6 ''--host'' ''--debug''" "\<not> starts6 ''--port'' ''--host''" "\<not> starts6 ''--port'' ''--debug''"
  by (simp_all add: starts6_def)

lemmas scan_simps = counted_def scan_arg_def take_value_def upt_conv_Cons starts6_options

lemma kinds_few:
  assumes "distinct (map kind cs)"
  shows "length cs \<le> 3"
proof -
  have "set (map kind cs) \<subseteq> {0, 1, 2}"
  proof
    fix k
    assume "k \<in> set (map kind cs)"
    then obtain c where "k = kind c" by auto
    then show "k \<in> {0, 1, 2}" by (cases c) simp_all
  qed
  then have "card (set (map kind cs)) \<le> card {0, 1, 2 :: nat}" by (intro card_mono) simp_all
  with assms show ?thesis by (simp add: distinct_card del: set_map)
qed

lemma parse_one:
  assumes "plain prog" "choice_plain a"
  shows "parse_args (prog # words a) = Inr (chosen a default_config)"
  using assms by (cases a) (simp_all add: parse_args_def scan_simps plain_simps)

lemma parse_two:
  assumes "plain prog" "choice_plain a" "choice_plain b" "kind a \<noteq> kind b"
  shows "parse_args (prog # words a @ words b) = Inr (chosen b (chosen a default_config))"
  using assms by (cases a; cases b) (simp_all add: parse_args_def scan_simps plain_simps)

lemma parse_three:
  assumes "plain prog" "choice_plain a" "choice_plain b" "choice_plain c" "distinct [kind a, kind b, kind c]"
  shows "parse_args (prog # words a @ words b @ words c) = Inr (chosen c (chosen b (chosen a default_config)))"
  using assms by (cases a; cases b; cases c) (simp_all add: parse_args_def scan_simps plain_simps)

text \<open>
  C39. Any choice of the options, each at most once and in any order, with values that do not look
  like options, is taken, and sets exactly what the options say. The number of options alone is
  counted: a second host in the place of the port is taken too.
\<close>

theorem tcp_client_options:
  assumes "plain prog" "list_all choice_plain cs" "distinct (map kind cs)" "plain h" "plain h'"
  shows "parse_args (prog # concat (map words cs)) = Inr (fold chosen cs default_config) \<and>
    parse_args (prog # words (Host h) @ words (Host h')) = Inr (default_config\<lparr>HOST := h'\<rparr>)"
proof
  show "parse_args (prog # words (Host h) @ words (Host h')) = Inr (default_config\<lparr>HOST := h'\<rparr>)"
    using assms(1,4,5) by (simp add: parse_args_def scan_simps plain_simps)
  from kinds_few [OF assms(3)] consider "cs = []" | a where "cs = [a]" | a b where "cs = [a, b]"
    | a b c where "cs = [a, b, c]"
    by (cases cs rule: list.exhaust; cases "tl cs"; cases "tl (tl cs)"; cases "tl (tl (tl cs))") auto
  then show "parse_args (prog # concat (map words cs)) = Inr (fold chosen cs default_config)"
  proof cases
    case 1
    then show ?thesis by (simp add: parse_args_def)
  next
    case 2
    then show ?thesis using parse_one assms(1,2) by simp
  next
    case 3
    then show ?thesis using parse_two [of prog a b] assms(1-3) by simp
  next
    case 4
    then show ?thesis using parse_three [of prog a b c] assms(1-3) by simp
  qed
qed

theorem tcp_client_options_witness:
  "parse_args [''client'', ''--debug'', ''--port'', ''9002'', ''--host'', ''localhost''] =
     Inr \<lparr>HOST = ''localhost'', PORT = atoi ''9002'', DEBUG = True\<rparr>"
  using tcp_client_options [of "''client''" "[Debug, Port ''9002'', Host ''localhost'']" "''a''" "''b''"]
  by (simp add: plain_def default_config_def)

section \<open>Measurements\<close>

lemma digits_val_nonneg: "list_all digit t \<Longrightarrow> 0 \<le> digits_val t"
proof (induction t rule: rev_induct)
  case (snoc c t)
  then have "c \<in> set ''0123456789''" "0 \<le> digits_val t" by (simp_all add: digit_def)
  moreover from this(1) have "0 \<le> digit_val c" by (auto simp: digit_val_def)
  ultimately show ?case by (simp add: digits_val_def)
qed (simp add: digits_val_def)

definition number :: "string \<Rightarrow> bool" where
  "number t \<longleftrightarrow> t \<noteq> [] \<and> list_all digit t \<and> digits_val t < 2 ^ 31"

lemma atoi_number:
  assumes "number t" "rest = [] \<or> \<not> digit (hd rest)"
  shows "atoi (t @ rest) = digits_val t"
proof -
  have t: "\<forall>x \<in> set t. digit x" "t \<noteq> []" "0 \<le> digits_val t" "digits_val t < 2 ^ 31"
    using assms(1) digits_val_nonneg by (auto simp: number_def list_all_iff)
  have "takeWhile digit rest = []" using assms(2) by (cases rest) simp_all
  then have n: "scan_nat (t @ rest) = Some (digits_val t)" using t(1,2) by (simp add: scan_nat_def takeWhile_append2)
  obtain c cs where c: "t = c # cs" using t(2) by (cases t) auto
  then have "scan_int (t @ rest) = Some (digits_val t)"
    using n t(1) digit_plain [of c] by (simp add: scan_int_def)
  then show ?thesis
    using t(3,4) by (simp add: atoi_def strtol_def signed_of_int signed_take_bit_int_eq_self)
qed

lemma strtok_blank: "strtok_all (CHR '' '' # s) = strtok_all s"
  by (subst (1 2) strtok_all.simps) simp

lemma strtok_next:
  assumes "t \<noteq> []" "CHR '' '' \<notin> set t"
  shows "strtok_all (t @ CHR '' '' # s) = t # strtok_all s" "strtok_all t = [t]"
proof -
  obtain c cs where c: "t = c # cs" using assms(1) by (cases t) auto
  have n: "\<forall>x \<in> set cs. x \<noteq> CHR '' ''" "c \<noteq> CHR '' ''" using assms(2) c by auto
  then have "takeWhile (\<lambda>c. c \<noteq> CHR '' '') (cs @ CHR '' '' # s) = cs"
    "dropWhile (\<lambda>c. c \<noteq> CHR '' '') (cs @ CHR '' '' # s) = CHR '' '' # s"
    by (simp_all add: takeWhile_append2 dropWhile_append2)
  then show "strtok_all (t @ CHR '' '' # s) = t # strtok_all s"
    using n(2) by (simp add: c strtok_all.simps [of "c # cs @ CHR '' '' # s"] strtok_blank)
  have e: "dropWhile (\<lambda>c. c \<noteq> CHR '' '') cs = []" "takeWhile (\<lambda>c. c \<noteq> CHR '' '') cs = cs" using n(1) by auto
  have "strtok_all (c # cs) = (c # takeWhile (\<lambda>c. c \<noteq> CHR '' '') cs) # strtok_all (dropWhile (\<lambda>c. c \<noteq> CHR '' '') cs)"
    using n(2) by (simp add: strtok_all.simps [of "c # cs"])
  then show "strtok_all t = [t]" unfolding e by (simp add: c strtok_all.simps [of "[]"])
qed

lemma digit_chars: "digit c \<Longrightarrow> c \<noteq> CHR '' '' \<and> c \<noteq> NUL \<and> c \<noteq> CHR ''t'' \<and> c \<noteq> NL"
  by (auto simp: digit_def)

lemma number_chars: "number t \<Longrightarrow> c \<in> set t \<Longrightarrow> c \<noteq> CHR '' '' \<and> c \<noteq> NUL \<and> c \<noteq> CHR ''t''"
  by (auto simp: number_def list_all_iff dest: digit_chars)

text \<open>The line that is left when byte 22 is overwritten.\<close>

lemma cut_line:
  assumes "NUL \<notin> set txt" "22 \<le> length txt \<or> (\<exists>rest. tail = NUL # rest) \<or> (\<exists>rest. tail = NL # NUL # rest)"
    "length (txt @ tail) \<le> 256" "length junk = 256"
  shows "\<exists>e. (e = [] \<or> e = [NL]) \<and>
    cstr (((txt @ tail) @ drop (length (txt @ tail)) junk)[22 := NUL]) = take 22 txt @ e"
proof -
  let ?b = "(txt @ tail) @ drop (length (txt @ tail)) junk"
  have n: "\<forall>x \<in> set (take 22 txt). x \<noteq> NUL" using assms(1) in_set_takeD by fastforce
  have "length ?b = 256" using assms(3,4) by simp
  then have b: "?b[22 := NUL] = take 22 ?b @ NUL # drop 23 ?b" by (simp add: upd_conv_take_nth_drop)
  show ?thesis
  proof (cases "22 \<le> length txt")
    case True
    then have "?b[22 := NUL] = take 22 txt @ NUL # drop 23 ?b" unfolding b by simp
    then have "cstr (?b[22 := NUL]) = take 22 txt @ []" using n by (simp add: cstr_def takeWhile_append2)
    then show ?thesis by blast
  next
    case False
    then have t: "take 22 txt = txt" by simp
    define j where "j = 21 - length txt"
    have j: "22 - length txt = Suc j" using False by (simp add: j_def)
    have p: "?b[22 := NUL] = txt @ (tail @ drop (length (txt @ tail)) junk)[Suc j := NUL]"
      using False by (simp add: list_update_append j)
    have nul: "\<exists>q. (NUL # y)[i := NUL] = NUL # q" for y i by (cases i) auto
    obtain e r where e: "e = [] \<or> e = [NL]" "?b[22 := NUL] = (txt @ e) @ NUL # r"
    proof (cases "\<exists>rest. tail = NUL # rest")
      case True
      then obtain rest where "tail = NUL # rest" by blast
      then show thesis using that [of "[]"] p by simp
    next
      case no: False
      then obtain rest where r: "tail = NL # NUL # rest" using False assms(2) by auto
      obtain q where "(NUL # rest @ drop (length (txt @ tail)) junk)[j := NUL] = NUL # q" using nul by blast
      then show thesis using that [of "[NL]" q] p by (simp add: r)
    qed
    have "\<forall>x \<in> set (txt @ e). x \<noteq> NUL" using assms(1) e(1) by auto
    then have "cstr (?b[22 := NUL]) = txt @ e" unfolding e(2) cstr_def by (subst takeWhile_append2) simp_all
    with e(1) t show ?thesis by auto
  qed
qed

text \<open>The four fields of a line that the client has cut at 22 characters, and the text it prints for
  them.\<close>

lemma line_fields:
  assumes "number t0" "number t1" "number t2" "number u" and e: "e = [] \<or> e = [NL]"
  shows "map atoi (take 4 (strtok_all (t0 @ CHR '' '' # t1 @ CHR '' '' # t2 @ CHR '' '' # u @ e))) =
    [digits_val t0, digits_val t1, digits_val t2, digits_val u]"
proof -
  have ue: "u @ e \<noteq> []" "CHR '' '' \<notin> set (u @ e)"
    using assms(4) e number_chars by (auto simp: number_def)
  have n: "t \<noteq> [] \<and> CHR '' '' \<notin> set t" if "number t" for t
    using that number_chars by (auto simp: number_def)
  have toks: "strtok_all (t0 @ CHR '' '' # t1 @ CHR '' '' # t2 @ CHR '' '' # u @ e) = [t0, t1, t2, u @ e]"
    using n assms(1-3) ue by (simp add: strtok_next)
  have ed: "e = [] \<or> \<not> digit (hd e)" using e by (auto simp: digit_def)
  show ?thesis
    using atoi_number [OF assms(1), of "[]"] atoi_number [OF assms(2), of "[]"]
      atoi_number [OF assms(3), of "[]"] atoi_number [OF assms(4) ed] by (simp add: toks)
qed

lemma event_shown:
  assumes "number t2" "number u"
  shows "event_text tm [x, y, digits_val t2, digits_val u] =
    ''------------'' @ [NL] @ ''Latest event:'' @ [NL] @
    ''interval ('' @ int_text x @ '')'' @ [NL] @
    ''Temperature is: '' @ int_text (digits_val t2 div 100) @ ''.'' @ int_text (digits_val t2 mod 100) @ [NL] @
    ''Light level is: '' @ int_text y @ [NL] @
    ''Timestamp is: '' @ tm (digits_val u) @ [NL]"
proof -
  have ge: "0 \<le> digits_val t2" using assms(1) digits_val_nonneg by (simp add: number_def)
  have ud: "0 \<le> digits_val u" "digits_val u < 2 ^ 31"
    using assms(2) digits_val_nonneg by (auto simp: number_def)
  have "atoi (int_text (digits_val u)) = digits_val u"
    using atoi_int_text [of "digits_val u" "[]"] ud by simp
  moreover have "digits_val t2 sdiv 100 = digits_val t2 div 100" "digits_val t2 smod 100 = digits_val t2 mod 100"
    using ge by (simp_all add: signed_divide_int_def signed_modulo_int_def sgn_if)
  ultimately show ?thesis by (simp add: event_text_def)
qed

text \<open>
  C40. After a get, an answer of four numbers is printed as interval, temperature, light and time.
  Hundredths of a degree are written without a leading zero. Only the first 22 bytes count, so that
  the time of a longer answer is that of its first digits.
\<close>

theorem tcp_client_prints_event:
  assumes "flag s = 1" "number t0" "number t1" "number t2" "list_all digit t3"
    "number (take (22 - (length t0 + length t1 + length t2 + 3)) t3)"
    "txt = t0 @ CHR '' '' # t1 @ CHR '' '' # t2 @ CHR '' '' # t3"
    "22 \<le> length txt \<or> (\<exists>rest. tail = NUL # rest) \<or> (\<exists>rest. tail = NL # NUL # rest)"
    "length (txt @ tail) \<le> 256" "length junk = 256"
  shows "\<exists>line. client_round tm wok junk_in junk (Socket (Some (txt @ tail))) s = Some (Go (s\<lparr>out :=
    out s @ (if DEBUG (cfg s) then ''[DEBUG] read '' @ line @ [NL] else []) @
    ''------------'' @ [NL] @ ''Latest event:'' @ [NL] @
    ''interval ('' @ int_text (digits_val t0) @ '')'' @ [NL] @
    ''Temperature is: '' @ int_text (digits_val t2 div 100) @ ''.'' @ int_text (digits_val t2 mod 100) @ [NL] @
    ''Light level is: '' @ int_text (digits_val t1) @ [NL] @
    ''Timestamp is: '' @ tm (digits_val (take (22 - (length t0 + length t1 + length t2 + 3)) t3)) @ [NL]\<rparr>))"
proof -
  define u where "u = take (22 - (length t0 + length t1 + length t2 + 3)) t3"
  have u: "number u" using assms(6) by (simp add: u_def)
  then have k: "length t0 + length t1 + length t2 + 3 < 22"
    by (cases "length t0 + length t1 + length t2 + 3 < 22") (simp_all add: u_def number_def)
  have "NUL \<notin> set t3" using assms(5) digit_chars by (auto simp: list_all_iff)
  then have nn: "NUL \<notin> set txt" using number_chars assms(2-4) unfolding assms(7) by auto
  obtain e where e: "e = [] \<or> e = [NL]"
    "cstr (((txt @ tail) @ drop (length (txt @ tail)) junk)[22 := NUL]) = take 22 txt @ e"
    using cut_line [OF nn assms(8-10)] by blast
  let ?p = "t0 @ CHR '' '' # t1 @ CHR '' '' # t2 @ [CHR '' '']"
  have p: "txt = ?p @ t3" by (simp add: assms(7))
  have "take 22 ?p = ?p" using k by simp
  then have "take 22 txt = ?p @ take (22 - length ?p) t3" unfolding p take_append by (rule arg_cong)
  also have "take (22 - length ?p) t3 = u" by (simp add: u_def)
  finally have tk: "take 22 txt = t0 @ CHR '' '' # t1 @ CHR '' '' # t2 @ CHR '' '' # u" by simp
  note vals = line_fields [OF assms(2-4) u e(1)] and ev = event_shown [OF assms(4) u, of tm]
  obtain c cs where c: "t0 = c # cs" using assms(2) by (cases t0) (auto simp: number_def)
  then have "c \<noteq> CHR ''t''" using number_chars [OF assms(2), of c] by simp
  then have t: "take 9 ((txt @ tail) @ drop (length (txt @ tail)) junk) \<noteq> ''try again''"
    by (simp add: assms(7) c)
  let ?ev = "''------------'' @ [NL] @ ''Latest event:'' @ [NL] @
    ''interval ('' @ int_text (digits_val t0) @ '')'' @ [NL] @
    ''Temperature is: '' @ int_text (digits_val t2 div 100) @ ''.'' @ int_text (digits_val t2 mod 100) @ [NL] @
    ''Light level is: '' @ int_text (digits_val t1) @ [NL] @
    ''Timestamp is: '' @ tm (digits_val u) @ [NL]"
  let ?line = "take 22 txt @ e"
  have "answered tm junk (txt @ tail) s = Some (print ?ev (debug ''read'' ?line s))"
    unfolding answered_def Let_def e(2) using vals t assms(1) by (simp add: tk ev)
  moreover have "print ?ev (debug ''read'' ?line s) =
      s\<lparr>out := out s @ (if DEBUG (cfg s) then ''[DEBUG] read '' @ ?line @ [NL] else []) @ ?ev\<rparr>"
    by (simp add: print_def debug_def)
  ultimately have "client_round tm wok junk_in junk (Socket (Some (txt @ tail))) s =
      Some (Go (s\<lparr>out := out s @ (if DEBUG (cfg s) then ''[DEBUG] read '' @ ?line @ [NL] else []) @ ?ev\<rparr>))"
    by (simp add: client_round_def)
  then show ?thesis unfolding u_def by blast
qed

theorem tcp_client_prints_event_witness:
  "\<exists>junk. length junk = 256 \<and> client_round (\<lambda>t. if t = 1589989296 then ''Wed May 20 15:41:36 2020'' else []) True [] junk (Socket (Some (''2 058 2905 1589989296'' @ [NL, NUL])))
      \<lparr>cfg = default_config, flag = 1, sent = [], out = []\<rparr> =
    Some (Go \<lparr>cfg = default_config, flag = 1, sent = [], out =
    ''------------'' @ [NL] @ ''Latest event:'' @ [NL] @ ''interval (2)'' @ [NL] @ ''Temperature is: 29.5'' @ [NL] @
    ''Light level is: 58'' @ [NL] @ ''Timestamp is: Wed May 20 15:41:36 2020'' @ [NL]\<rparr>)"
proof -
  have v: "digits_val ''2'' = 2" "digits_val ''058'' = 58" "digits_val ''2905'' = 2905"
    "digits_val ''1589989296'' = 1589989296" by code_simp+
  have tx: "int_text 2 = ''2''" "int_text 58 = ''58''" "int_text 29 = ''29''" "int_text 5 = ''5''" by code_simp+
  have n: "number ''2''" "number ''058''" "number ''2905''" "number ''1589989296''"
    by (simp_all add: number_def digit_def v)
  obtain junk :: string where j: "length junk = 256" using Ex_list_of_length by blast
  let ?s = "\<lparr>cfg = default_config, flag = 1, sent = [], out = []\<rparr>"
  have h: "flag ?s = 1" "list_all digit ''1589989296''"
    "take (22 - (length ''2'' + length ''058'' + length ''2905'' + 3)) ''1589989296'' = ''1589989296''"
    "''2 058 2905 1589989296'' = ''2'' @ CHR '' '' # ''058'' @ CHR '' '' # ''2905'' @ CHR '' '' # ''1589989296''"
    "22 \<le> length ''2 058 2905 1589989296'' \<or> (\<exists>rest. [NL, NUL] = NUL # rest) \<or> (\<exists>rest. [NL, NUL] = NL # NUL # rest)"
    "length (''2 058 2905 1589989296'' @ [NL, NUL]) \<le> 256" "\<not> DEBUG (cfg ?s)"
    by (simp_all add: digit_def default_config_def)
  have t: "number (take (22 - (length ''2'' + length ''058'' + length ''2905'' + 3)) ''1589989296'')"
    unfolding h(3) by (rule n(4))
  have dv: "(2905 :: int) div 100 = 29" "(2905 :: int) mod 100 = 5" by simp_all
  note r = tcp_client_prints_event [OF h(1) n(1-3) h(2) t h(4-6) j, of "\<lambda>t. if t = 1589989296 then ''Wed May 20 15:41:36 2020'' else []" True "[]", unfolded h(3) v dv tx]
  have "client_round (\<lambda>t. if t = 1589989296 then ''Wed May 20 15:41:36 2020'' else []) True [] junk (Socket (Some (''2 058 2905 1589989296'' @ [NL, NUL]))) ?s =
    Some (Go \<lparr>cfg = default_config, flag = 1, sent = [], out =
    ''------------'' @ [NL] @ ''Latest event:'' @ [NL] @ ''interval (2)'' @ [NL] @ ''Temperature is: 29.5'' @ [NL] @
    ''Light level is: 58'' @ [NL] @ ''Timestamp is: Wed May 20 15:41:36 2020'' @ [NL]\<rparr>)"
    using r h(7) by simp
  with j show ?thesis by blast
qed

end
