(* ===== verification/Spec2Isabelle.thy ===== *)
theory Spec2Isabelle
  imports Balloc_Thms Ialloc_Thms Dir_Thms Inode_Thms Namei_Thms Super_Thms Lunix_Thms Lunix_Read Lunix_System_Thms
    Lunix_Module Lunix_Attach_Thms Medical_Thms Gates Dispatcher_Thms Tcp_Client_Thms
begin

text \<open>
  Operating systems code of a course: a file system, a driver for a network of sensors with the
  program that attaches it, a driver from an exam, and three programs with processes and sockets.

  \<^bold>\<open>Conventions.\<close> Integers are words of the width the C code gives them, and \<^verbatim>\<open>int\<close> or \<^verbatim>\<open>nat\<close> only where the
  code cannot overflow. A function that changes state takes it and returns it. An error return is
  a negative number, as in the code; \<^verbatim>\<open>None\<close> is a call that does not complete (panic, self-deadlock,
  access outside an object or through an uninitialised pointer). Functions of the kernel and system
  calls are records of parameters (\<^verbatim>\<open>kern\<close>, \<^verbatim>\<open>vfs\<close>, \<^verbatim>\<open>pgcache\<close>, \<^verbatim>\<open>vm\<close>, \<^verbatim>\<open>nm\<close>, \<^verbatim>\<open>dev\<close>, \<^verbatim>\<open>syncfs\<close>, \<^verbatim>\<open>os\<close>); what the code relies on
  of them are the predicates \<^verbatim>\<open>*_ok\<close>, with reference instances for the witnesses. Locks that only
  protect a section, reference counts and dirty marks are not part of the states. Unbounded loops
  have a measure; fuel is used for \<^verbatim>\<open>ext2_error\<close>, which calls itself through the superblock
  (two levels are enough when the descriptors are loaded, \<^verbatim>\<open>ext2_error_enough_fuel\<close>), and for the retry
  loop of \<^verbatim>\<open>claim_in_group\<close> (one round per bit of the group).

  \<^bold>\<open>The ext2 file system\<close> (\<^verbatim>\<open>OSLab/Filesystems/Code\<close>).
  \<^item> \<^verbatim>\<open>Prelude\<close>, \<^verbatim>\<open>Kern\<close>: words, errors, little-endian fields, bitmaps in bytes; the kernel's bit operations.
  \<^item> \<^verbatim>\<open>Ext2_Types\<close>, \<^verbatim>\<open>Ext2_Error\<close>, \<^verbatim>\<open>Ext2_Geometry\<close>, \<^verbatim>\<open>Ext2_Example\<close>: the structures of \<^verbatim>\<open>ext2.h\<close>; \<^verbatim>\<open>ext2_error\<close> and
    \<^verbatim>\<open>ext2_sync_super\<close> of \<^verbatim>\<open>super.c\<close> with the counting loops they run; group boundaries; a small file system.
  \<^item> \<^verbatim>\<open>Balloc\<close> models \<^verbatim>\<open>balloc.c\<close>. \<^verbatim>\<open>Balloc_Inv\<close> has the invariant (counters and bitmaps agree),
    \<^verbatim>\<open>Balloc_Alloc\<close>, \<^verbatim>\<open>Balloc_Correct\<close>, \<^verbatim>\<open>Balloc_New\<close>, \<^verbatim>\<open>Balloc_Free\<close> the lemmas, \<^verbatim>\<open>Allocator\<close> the interface of a block
    allocator as a locale, \<^verbatim>\<open>Balloc_Thms\<close> its interpretation and C1 to C4. The variable \<^verbatim>\<open>num\<close> that
    \<^verbatim>\<open>ext2_allocate_in_bg\<close> never sets is the argument \<^verbatim>\<open>junk\<close>; C1, C2, C4 and C15 have \<^verbatim>\<open>num_zero\<close>, that it
    starts at 0, as a hypothesis, without which they are false (\<^verbatim>\<open>ext2_allocate_in_bg_junk\<close>).
  \<^item> \<^verbatim>\<open>Ialloc\<close> models \<^verbatim>\<open>ialloc.c\<close>; \<^verbatim>\<open>Ialloc_Inv\<close>, \<^verbatim>\<open>Ialloc_Correct\<close>, \<^verbatim>\<open>Ialloc_Thms\<close> (C5 to C8).
  \<^item> \<^verbatim>\<open>Dir\<close> models \<^verbatim>\<open>dir.c\<close> over the bytes of the page cache. \<^verbatim>\<open>Dir_Chain\<close> relates the bytes of a chunk to a
    chain of entries, \<^verbatim>\<open>Dir_Ops\<close>, \<^verbatim>\<open>Dir_Add\<close>, \<^verbatim>\<open>Dir_Walk\<close> follow the loops on a chain, \<^verbatim>\<open>Dir_View\<close> to \<^verbatim>\<open>Dir_Insert\<close>
    lift them to the pages of a directory, and \<^verbatim>\<open>Directory\<close> is the interface as a locale: a finite map
    from names to inode numbers. \<^verbatim>\<open>Dir_Map\<close> interprets it; C9 to C14 are in \<^verbatim>\<open>Dir_Thms\<close>.
    \<^verbatim>\<open>Dir_Set_Link\<close> is \<^verbatim>\<open>ext2_set_link\<close> over that map. A page that cannot be read gives its own error.
  \<^item> \<^verbatim>\<open>Inode\<close> models \<^verbatim>\<open>inode.c\<close>: block mapping, truncation, inodes on disk; \<^verbatim>\<open>Inode_Blocks\<close>, \<^verbatim>\<open>Inode_Disk\<close>,
    \<^verbatim>\<open>Inode_Thms\<close> (C15 to C18). It calls the block allocator.
  \<^item> \<^verbatim>\<open>Namei\<close> models \<^verbatim>\<open>namei.c\<close>, which puts directories and inodes together; \<^verbatim>\<open>Namei_Correct\<close>,
    \<^verbatim>\<open>Namei_Steps\<close> and \<^verbatim>\<open>Namei_Thms\<close> (C19 to C23). Writes, write-backs and allocations of pages may
    fail in all of them, except for a write inside a file (\<^verbatim>\<open>nm_ok\<close>); that they do not fail
    (\<^verbatim>\<open>writes_succeed\<close>) is a premise only of the claim that the call then returns 0.
  \<^item> \<^verbatim>\<open>Super\<close> models \<^verbatim>\<open>super.c\<close>: options, mounting, remounting, statistics; \<^verbatim>\<open>Super_Correct\<close>, \<^verbatim>\<open>Super_Thms\<close>
    (C24 to C27). An option that is not in the table \<^verbatim>\<open>tokens\<close>, which has no terminator, does not
    complete. C24 states where the parts of a group lie in plain numbers (\<^verbatim>\<open>groups_laid_out\<close>).

  \<^bold>\<open>Lunix:TNG\<close> (\<^verbatim>\<open>OSLab/lunix/lunix\<close>). A TTY hands buffers to the line discipline, the protocol finds
  packets in them and updates the sensors, and processes read the measurements as text.
  \<^item> \<^verbatim>\<open>Lunix_Sensors\<close>, \<^verbatim>\<open>Lunix_Protocol\<close>: \<^verbatim>\<open>lunix-sensors.c\<close>, \<^verbatim>\<open>lunix-protocol.c\<close>. \<^verbatim>\<open>dbg\<close> is \<^verbatim>\<open>LUNIX_DEBUG\<close>.
  \<^item> \<^verbatim>\<open>Lunix_Refine\<close>: an abstract receiver of packets, and one call of the protocol as its
    implementation. \<^verbatim>\<open>Simulation\<close> is the interface of such an implementation as a locale, which
    \<^verbatim>\<open>Lunix_Ldisc\<close> (\<^verbatim>\<open>lunix-ldisc.c\<close>) interprets; \<^verbatim>\<open>Lunix_Stream\<close> has the wire format and arbitrary bytes,
    \<^verbatim>\<open>Lunix_Thms\<close> C28 to C30.
  \<^item> \<^verbatim>\<open>Lunix_Lookup\<close>: the conversion tables of \<^verbatim>\<open>lunix-lookup.h\<close>, and the functions of \<^verbatim>\<open>mk-lunix-lookup.c\<close> that
    generate those for battery and light, in the rounded arithmetic of \<^verbatim>\<open>Double\<close> (C31).
  \<^item> \<^verbatim>\<open>Lunix_Chrdev\<close> models \<^verbatim>\<open>lunix-chrdev.c\<close>;
    \<^verbatim>\<open>Lunix_Read\<close> shows C32.
  \<^item> \<^verbatim>\<open>Lunix_System\<close> is the interleaving of TTYs and readers as a step relation. A buffer is parsed in
    one step, on state that only the receiving side uses; the lock, each store, the unlock and the
    wake-up of an update (\<^verbatim>\<open>update_actions\<close>) are steps of their own, with readers in between. That
    the steps in a row are the calls of \<^verbatim>\<open>Lunix_Protocol\<close> and \<^verbatim>\<open>Lunix_Sensors\<close> is \<^verbatim>\<open>received_packet_buf\<close>,
    \<^verbatim>\<open>packet_actions_update\<close> and \<^verbatim>\<open>update_perform_all\<close>. \<^verbatim>\<open>Lunix_System_Thms\<close> has the invariants and C33.
  \<^item> \<^verbatim>\<open>Lunix_Module\<close> models \<^verbatim>\<open>lunix-module.c\<close> (C34), \<^verbatim>\<open>Lunix_Attach\<close> the program \<^verbatim>\<open>lunix-attach.c\<close> with
    C35 in \<^verbatim>\<open>Lunix_Attach_Thms\<close>.

  \<^bold>\<open>Exam K24\<close> (\<^verbatim>\<open>OSLab/exams/K24\<close>): \<^verbatim>\<open>Medical\<close> models the driver, \<^verbatim>\<open>Medical_Thms\<close> has C36.

  \<^bold>\<open>Programs with processes and sockets\<close> (\<^verbatim>\<open>projects\<close>).
  \<^item> \<^verbatim>\<open>Gates\<close> (C37): a parent and the children of its gates, which change state by signals; a step relation
    with a rule for each handler and each piece of \<^verbatim>\<open>main\<close> between two system calls.
  \<^item> \<^verbatim>\<open>Dispatcher\<close>, \<^verbatim>\<open>Dispatcher_Thms\<close> (C38): jobs that go through pipes to children and back.
  \<^item> \<^verbatim>\<open>Tcp_Client\<close>, \<^verbatim>\<open>Tcp_Client_Thms\<close> (C39, C40): options, lines and answers of the client. \<^verbatim>\<open>Decimal\<close> has
    the numbers as the C library prints and reads them, also for the texts and lock files of Lunix:TNG.

  \<^bold>\<open>Where the model reads the code as it is meant.\<close> \<^verbatim>\<open>ext2_find_entry\<close> uses an undeclared \<^verbatim>\<open>n\<close> for \<^verbatim>\<open>i\<close>,
  \<^verbatim>\<open>ext2_get_inode\<close> an undeclared \<^verbatim>\<open>inode_pg\<close> for \<^verbatim>\<open>inodes_pg\<close> and a missing label, and the exam's driver leaves out
  declarations. Everything else is modelled as it is written, and several properties state what
  goes wrong: C2, C8, C19, C21 to C24, C32, C34, C36, C37, C39 and C40, and the lemmas
  \<^verbatim>\<open>ext2_new_blocks_counter_wraps\<close>, \<^verbatim>\<open>ext2_allocate_in_bg_junk\<close>,
  \<^verbatim>\<open>ext2_free_blocks_past_bitmap\<close> and \<^verbatim>\<open>ext2_iget_fast_symlink\<close>.

  \<^bold>\<open>Not modelled.\<close> The generator's function for temperature rests on \<^verbatim>\<open>log\<close> and \<^verbatim>\<open>pow\<close>, \<^verbatim>\<open>lunix.mod.c\<close> comes
  from the kernel build, \<^verbatim>\<open>lunix-chrdev2.c\<close> is a draft that does not compile, \<^verbatim>\<open>file.c\<close> and the operation
  tables are data, messages are output only. The other exercises under \<^verbatim>\<open>projects\<close>, the Riddle scripts and
  the other exam answers are sequences of system calls, or sketches that rest on code that is not
  there.
\<close>

end
